(* ===== verification/Exa_Prelude.thy ===== *)
theory Exa_Prelude
  imports Main "HOL-Library.Word"
begin

text \<open>
  Shared vocabulary of the development: the machine types of the data transfer
  layer (\<^verbatim>\<open>size_t\<close>, \<^verbatim>\<open>ssize_t\<close>, \<^verbatim>\<open>int32_t\<close>, \<^verbatim>\<open>uint16_t\<close>),
  the exceptions it throws, raw buffers with explicit bounds, C strings, the decimal
  formatting of \<^verbatim>\<open>std::ostream\<close>, and the generic lemmas on them.

  A byte (C++ \<^verbatim>\<open>char\<close>) is a HOL \<^typ>\<open>char\<close>.  \<^verbatim>\<open>size_t\<close> is a \<^typ>\<open>nat\<close>
  with the wrap-around modulo \<open>2 ^ 64\<close> written out where an operation of the
  source can wrap; \<^verbatim>\<open>ssize_t\<close> and \<^verbatim>\<open>int\<close> results are \<^typ>\<open>int\<close>.
  Reading or writing a buffer outside its bounds is undefined behaviour in C++ and
  is the value \<^const>\<open>None\<close> of the model.
\<close>

named_theorems exa_defs \<open>definitions a component proof unfolds\<close>
named_theorems buf_simps \<open>rewriting of buffer reads and writes\<close>

section \<open>Machine integers\<close>

type_synonym size_t = nat
type_synonym ssize_t = int
type_synonym u16 = "16 word"
type_synonym u32 = "32 word"
type_synonym byte = "8 word"

definition size_t_of :: "int \<Rightarrow> size_t" where
  "size_t_of x = nat (x mod 2 ^ 64)"

definition ssize_t_of :: "size_t \<Rightarrow> ssize_t" where
  "ssize_t_of n = (if n < 2 ^ 63 then int n else int n - 2 ^ 64)"

definition size_sub :: "size_t \<Rightarrow> size_t \<Rightarrow> size_t" where
  "size_sub a b = size_t_of (int a - int b)"

definition size_mul :: "size_t \<Rightarrow> size_t \<Rightarrow> size_t" where
  "size_mul a b = (a * b) mod 2 ^ 64"

lemma size_t_of_less: "size_t_of x < 2 ^ 64"
  by (simp add: size_t_of_def nat_less_iff)

lemmas size_t_of_less_numeral [simp] = size_t_of_less [simplified]

lemma size_t_of_nonneg: "0 \<le> x \<Longrightarrow> x < 2 ^ 64 \<Longrightarrow> size_t_of x = nat x"
  by (simp add: size_t_of_def)

lemma size_t_of_minus_one: "size_t_of (- 1) = 2 ^ 64 - 1"
  by (simp add: size_t_of_def)

lemma size_sub_no_wrap: "b \<le> a \<Longrightarrow> a < 2 ^ 64 \<Longrightarrow> size_sub a b = a - b"
  by (simp add: size_sub_def size_t_of_def nat_diff_distrib)

lemma size_sub_wrap: "a < b \<Longrightarrow> b < 2 ^ 64 \<Longrightarrow> size_sub a b = 2 ^ 64 + a - b"
proof -
  assume ab: "a < b" "b < 2 ^ 64"
  have "(int a - int b) mod 2 ^ 64 = (int a - int b + 2 ^ 64) mod 2 ^ 64"
    by simp
  also have "\<dots> = int a - int b + 2 ^ 64"
    using ab by (intro mod_pos_pos_trivial) auto
  finally show ?thesis
    using ab by (simp add: size_sub_def size_t_of_def)
qed

lemma size_mul_no_wrap: "a * b < 2 ^ 64 \<Longrightarrow> size_mul a b = a * b"
  by (simp add: size_mul_def)

lemma ssize_t_of_small [simp]: "n < 2 ^ 63 \<Longrightarrow> ssize_t_of n = int n"
  by (simp add: ssize_t_of_def)

lemma ssize_t_of_pos: "0 < ssize_t_of n \<Longrightarrow> n < 2 ^ 64 \<Longrightarrow> int n = ssize_t_of n"
  by (auto simp: ssize_t_of_def split: if_splits)

lemma size_t_of_ssize_t_of: "n < 2 ^ 64 \<Longrightarrow> size_t_of (ssize_t_of n) = n"
proof (cases "n < 2 ^ 63")
  case False
  moreover assume "n < 2 ^ 64"
  moreover have "(int n - 2 ^ 64) mod 2 ^ 64 = int n mod 2 ^ 64"
    by simp
  ultimately show ?thesis
    by (simp add: ssize_t_of_def size_t_of_def)
qed (simp add: size_t_of_def)

lemma unat_u32_of_nat: "n < 2 ^ 32 \<Longrightarrow> unat (of_nat n :: u32) = n"
  by (simp add: unat_of_nat)

text \<open>Conversion to a 32-bit \<^verbatim>\<open>int\<close>.\<close>

definition c_int :: "int \<Rightarrow> int" where
  "c_int x = (x + 2 ^ 31) mod 2 ^ 32 - 2 ^ 31"

lemma c_int_id: "- (2 ^ 31) \<le> x \<Longrightarrow> x < 2 ^ 31 \<Longrightarrow> c_int x = x"
  by (simp add: c_int_def)

lemma c_int_range: "- (2 ^ 31) \<le> c_int x" "c_int x < 2 ^ 31"
proof -
  have "0 \<le> (x + 2 ^ 31) mod 2 ^ 32" "(x + 2 ^ 31) mod 2 ^ 32 < 2 ^ 32"
    by simp_all
  then show "- (2 ^ 31) \<le> c_int x" "c_int x < 2 ^ 31"
    by (simp_all add: c_int_def)
qed

text \<open>C's truncating conversion of a \<^verbatim>\<open>char\<close> to \<^verbatim>\<open>int\<close>: on the supported
  targets \<^verbatim>\<open>char\<close> is signed, so bytes from \<^verbatim>\<open>0x80\<close> on become negative.\<close>

definition int_of_char :: "char \<Rightarrow> int" where
  "int_of_char c = sint (of_char c :: byte)"

lemma int_of_char_ascii: "of_char c < (128 :: nat) \<Longrightarrow> int_of_char c = of_char c"
proof -
  assume lt: "of_char c < (128 :: nat)"
  have "(of_char c :: byte) = of_nat (of_char c)"
    by (simp add: of_char_def)
  moreover have "sint (of_nat (of_char c) :: byte) = int (of_char c)"
    using lt by (simp add: signed_of_nat signed_take_bit_int_eq_self)
  ultimately show ?thesis
    by (simp add: int_of_char_def of_nat_of_char)
qed

lemma int_of_char_range: "- 128 \<le> int_of_char c \<and> int_of_char c < 128"
  using sint_range_size [of "of_char c :: byte"]
  by (simp add: int_of_char_def word_size)

section \<open>Exceptions\<close>

text \<open>The three exception classes of the library, each a \<^verbatim>\<open>std::runtime_error\<close>
  carrying its message.\<close>

datatype exa_exception =
    ConnectionException string
  | AsyncExecutorException string
  | CertificateException string

fun exa_what :: "exa_exception \<Rightarrow> string" where
  "exa_what (ConnectionException m) = m"
| "exa_what (AsyncExecutorException m) = m"
| "exa_what (CertificateException m) = m"

section \<open>Bounded buffers\<close>

definition buf_read :: "'a list \<Rightarrow> nat \<Rightarrow> nat \<Rightarrow> 'a list option" where
  "buf_read b off n = (if off + n \<le> length b then Some (take n (drop off b)) else None)"

definition buf_write :: "'a list \<Rightarrow> nat \<Rightarrow> 'a list \<Rightarrow> 'a list option" where
  "buf_write b off src =
     (if off + length src \<le> length b
      then Some (take off b @ src @ drop (off + length src) b) else None)"

lemma buf_read_Some [buf_simps]:
  "off + n \<le> length b \<Longrightarrow> buf_read b off n = Some (take n (drop off b))"
  by (simp add: buf_read_def)

lemma buf_write_Some [buf_simps]:
  "off + length src \<le> length b \<Longrightarrow>
     buf_write b off src = Some (take off b @ src @ drop (off + length src) b)"
  by (simp add: buf_write_def)

lemma buf_readE:
  assumes "buf_read b off n = Some bs"
  shows "off + n \<le> length b" and "bs = take n (drop off b)" and "length bs = n"
  using assms by (auto simp: buf_read_def split: if_splits)

lemma buf_write_length: "buf_write b off src = Some b' \<Longrightarrow> length b' = length b"
  by (auto simp: buf_write_def split: if_splits)

lemma buf_write_ok:
  assumes "off + length src \<le> length b"
  obtains b' where "buf_write b off src = Some b'" and "length b' = length b"
  using assms that by (auto simp: buf_write_def)

lemma buf_write_read_back:
  "buf_write b off src = Some b' \<Longrightarrow> buf_read b' off (length src) = Some src"
  by (auto simp: buf_write_def buf_read_def split: if_splits)

lemma buf_write_take:
  "buf_write b off src = Some b' \<Longrightarrow> take (off + length src) b' = take off b @ src"
  by (auto simp: buf_write_def min_absorb2 split: if_splits)

lemma buf_write_nth_other:
  assumes "buf_write b off src = Some b'" and "i < off \<or> off + length src \<le> i"
    and "i < length b"
  shows "b' ! i = b ! i"
  using assms by (auto simp: buf_write_def nth_append min_def split: if_splits)

section \<open>C strings\<close>

definition NUL :: char where "NUL = CHR 0x00"
definition CR :: char where "CR = CHR 0x0D"
definition LF :: char where "LF = CHR 0x0A"

lemma control_chars_distinct [simp]:
  "NUL \<noteq> CR" "NUL \<noteq> LF" "CR \<noteq> LF" "CR \<noteq> NUL" "LF \<noteq> NUL" "LF \<noteq> CR"
  by (simp_all add: NUL_def CR_def LF_def)

text \<open>The string a \<^verbatim>\<open>const char*\<close> into a buffer denotes: the bytes before the first NUL.\<close>

definition c_str :: "char list \<Rightarrow> string" where
  "c_str b = takeWhile (\<lambda>c. c \<noteq> NUL) b"

lemma c_str_append_NUL: "NUL \<notin> set s \<Longrightarrow> c_str (s @ NUL # rest) = s"
  unfolding c_str_def by (induction s) auto

lemma c_str_no_NUL: "NUL \<notin> set (c_str b)"
  by (auto simp: c_str_def dest: set_takeWhileD)

lemma c_str_length: "b ! i = NUL \<Longrightarrow> length (c_str b) \<le> i"
proof (rule ccontr)
  assume n: "b ! i = NUL" "\<not> length (c_str b) \<le> i"
  then have "i < length (c_str b)"
    by simp
  then have "c_str b ! i \<in> set (c_str b)" "c_str b ! i = b ! i"
    by (rule nth_mem) (use \<open>i < length (c_str b)\<close> in \<open>simp add: c_str_def takeWhile_nth\<close>)
  then show False using n(1) c_str_no_NUL [of b] by simp
qed

section \<open>Decimal output of \<^verbatim>\<open>std::ostream\<close>\<close>

definition digit_char :: "nat \<Rightarrow> char" where
  "digit_char d = char_of (48 + d)"

fun show_nat :: "nat \<Rightarrow> string" where
  "show_nat n = (if n < 10 then [digit_char n] else show_nat (n div 10) @ [digit_char (n mod 10)])"

declare show_nat.simps [simp del]

definition show_int :: "int \<Rightarrow> string" where
  "show_int i = (if i < 0 then CHR ''-'' # show_nat (nat (- i)) else show_nat (nat i))"

definition digit_val :: "char \<Rightarrow> nat" where
  "digit_val c = of_char c - 48"

definition nat_of_digits :: "string \<Rightarrow> nat" where
  "nat_of_digits s = foldl (\<lambda>n c. n * 10 + digit_val c) 0 s"

lemma digit_val_digit_char [simp]: "d < 10 \<Longrightarrow> digit_val (digit_char d) = d"
  by (simp add: digit_val_def digit_char_def)

lemma nat_of_digits_snoc [simp]:
  "nat_of_digits (s @ [c]) = nat_of_digits s * 10 + digit_val c"
  by (simp add: nat_of_digits_def)

lemma nat_of_digits_show_nat: "nat_of_digits (show_nat n) = n"
proof (induction n rule: show_nat.induct)
  case (1 n)
  show ?case
  proof (cases "n < 10")
    case True
    then show ?thesis
      by (subst show_nat.simps) (simp add: nat_of_digits_def)
  next
    case False
    with 1 show ?thesis
      by (subst show_nat.simps) simp
  qed
qed

lemma show_nat_nonempty [simp]: "show_nat n \<noteq> []"
  by (subst show_nat.simps) simp

end
