(* ===== verification/Socket_Iface.thy ===== *)
theory Socket_Iface
  imports Exa_Prelude
begin

text \<open>
  The abstract class \<^verbatim>\<open>exa::Socket\<close> (\<^verbatim>\<open>connection/socket/socket.h\<close>).  An object of
  the class is a state of type \<^typ>\<open>'s\<close>; its table of virtual functions is the record
  \<open>Socket\<close>.  A receive yields the returned \<^verbatim>\<open>ssize_t\<close> together with the bytes it
  stored at the start of the caller's buffer; \<^const>\<open>None\<close> is undefined behaviour.

  Three locales state what the clients of a socket rely on: \<open>socket_iface\<close> bounds the
  results, \<open>stream_socket\<close> says that receives take bytes off the front of the peer's
  stream in order and that complete sends append to the outgoing stream, and
  \<open>reliable_socket\<close> adds that every send is complete.
\<close>

record 's Socket =
  sk_recv :: "size_t \<Rightarrow> 's \<Rightarrow> ((ssize_t \<times> char list) \<times> 's) option"
  sk_send :: "char list \<Rightarrow> 's \<Rightarrow> ssize_t \<times> 's"
  sk_shutdownWr :: "'s \<Rightarrow> 's"
  sk_shutdownRdWr :: "'s \<Rightarrow> 's"

locale socket_iface =
  fixes sock :: "'s Socket"
    and valid :: "'s \<Rightarrow> bool"
  assumes recv_defined: "valid s \<Longrightarrow> n < 2 ^ 31 \<Longrightarrow> sk_recv sock n s \<noteq> None"
    and recv_range: "valid s \<Longrightarrow> n < 2 ^ 31 \<Longrightarrow> sk_recv sock n s = Some ((r, bs), s') \<Longrightarrow>
      - 1 \<le> r \<and> r \<le> int n \<and> length bs \<le> n \<and> (0 \<le> r \<longrightarrow> length bs = nat r)"
    and recv_valid: "valid s \<Longrightarrow> n < 2 ^ 31 \<Longrightarrow> sk_recv sock n s = Some (rb, s') \<Longrightarrow> valid s'"
    and send_valid: "valid s \<Longrightarrow> sk_send sock bs s = (r, s') \<Longrightarrow> valid s'"
    and shutdownWr_valid: "valid s \<Longrightarrow> valid (sk_shutdownWr sock s)"
    and shutdownRdWr_valid: "valid s \<Longrightarrow> valid (sk_shutdownRdWr sock s)"
begin

lemma send_snd_valid: "valid s \<Longrightarrow> valid (snd (sk_send sock bs s))"
  by (cases "sk_send sock bs s") (auto dest: send_valid)

lemma recv_cases:
  assumes "valid s" and "n < 2 ^ 31"
  obtains r bs s' where "sk_recv sock n s = Some ((r, bs), s')" and "valid s'"
    and "- 1 \<le> r" and "r \<le> int n" and "length bs \<le> n" and "0 \<le> r \<Longrightarrow> length bs = nat r"
proof -
  obtain r bs s' where eq: "sk_recv sock n s = Some ((r, bs), s')"
    using recv_defined [OF assms] by (cases "sk_recv sock n s") auto
  from recv_range [OF assms eq] recv_valid [OF assms eq] show thesis
    using that [OF eq] by blast
qed

end

locale stream_socket = socket_iface sock valid
  for sock :: "'s Socket" and valid :: "'s \<Rightarrow> bool" +
  fixes inb :: "'s \<Rightarrow> char list"
    and outb :: "'s \<Rightarrow> char list"
  assumes recv_stream: "valid s \<Longrightarrow> 0 < n \<Longrightarrow> n < 2 ^ 31 \<Longrightarrow> n \<le> length (inb s) \<Longrightarrow>
      \<exists>s'. sk_recv sock n s = Some ((int n, take n (inb s)), s') \<and>
        inb s' = drop n (inb s) \<and> outb s' = outb s"
    and recv_empty: "valid s \<Longrightarrow> inb s = [] \<Longrightarrow> 0 < n \<Longrightarrow> n < 2 ^ 31 \<Longrightarrow>
      sk_recv sock n s = Some ((r, bs), s') \<Longrightarrow> r \<le> 0"
    and send_stream: "valid s \<Longrightarrow> sk_send sock bs s = (r, s') \<Longrightarrow> r = int (length bs) \<Longrightarrow>
      inb s' = inb s \<and> outb s' = outb s @ bs"
begin

lemma recv_streamE:
  assumes "valid s" and "0 < n" and "n < 2 ^ 31" and "n \<le> length (inb s)"
  obtains s' where "sk_recv sock n s = Some ((int n, take n (inb s)), s')" and "valid s'"
    and "inb s' = drop n (inb s)" and "outb s' = outb s"
proof -
  obtain s' where eq: "sk_recv sock n s = Some ((int n, take n (inb s)), s')"
      and st: "inb s' = drop n (inb s)" "outb s' = outb s"
    using recv_stream [OF assms] by blast
  have "valid s'"
    using recv_valid [OF assms(1,3) eq] .
  from that [OF eq this st] show thesis .
qed

text \<open>Receiving a single byte, the form in which headers and chunk sizes are read.\<close>

lemma recv_one:
  assumes "valid s" and "inb s = c # rest"
  obtains s' where "sk_recv sock 1 s = Some ((1, [c]), s')" and "valid s'"
    and "inb s' = rest" and "outb s' = outb s"
  using recv_streamE [OF assms(1), of 1] assms(2) by auto

end

text \<open>A connection on which nothing is lost: every send carries the whole buffer.\<close>

locale reliable_socket = stream_socket sock valid inb outb
  for sock :: "'s Socket" and valid :: "'s \<Rightarrow> bool" and inb outb :: "'s \<Rightarrow> char list" +
  assumes send_complete: "valid s \<Longrightarrow> 0 < length bs \<Longrightarrow> length bs < 2 ^ 31 \<Longrightarrow>
      fst (sk_send sock bs s) = int (length bs)"

end
