(* ===== verification/Posix_Socket.thy ===== *)
theory Posix_Socket
  imports Socket_Iface
begin

text \<open>
  \<^verbatim>\<open>exa::SocketImpl\<close> (\<^verbatim>\<open>connection/socket/socket_impl.cpp\<close>), the plain TCP socket, on
  a POSIX platform.  The operating system is a parameter: the record \<open>posix_api\<close> of
  the system calls the class makes, over a state \<^typ>\<open>'w\<close> of the network.  What the
  code relies on of them is the predicate \<open>posix_ok\<close>: the documented ranges of
  \<^verbatim>\<open>recv\<close> and, for \<^verbatim>\<open>MSG_WAITALL\<close> and \<^verbatim>\<open>send\<close>, the order of the byte streams.
\<close>

datatype shut_how = SHUT_WR | SHUT_RDWR

record sockaddr_in =
  sin_port :: u16
  sin_addr :: "char list"

record 'w posix_api =
  posix_recv :: "int \<Rightarrow> size_t \<Rightarrow> 'w \<Rightarrow> (ssize_t \<times> char list) \<times> 'w"
  posix_send :: "int \<Rightarrow> char list \<Rightarrow> 'w \<Rightarrow> ssize_t \<times> 'w"
  posix_shutdown :: "int \<Rightarrow> shut_how \<Rightarrow> 'w \<Rightarrow> 'w"
  posix_socket :: "'w \<Rightarrow> int \<times> 'w"
  posix_gethostbyname :: "string \<Rightarrow> 'w \<Rightarrow> char list option \<times> 'w"
  posix_connect :: "int \<Rightarrow> sockaddr_in \<Rightarrow> 'w \<Rightarrow> int \<times> 'w"
  posix_errno :: "'w \<Rightarrow> int"

record 'w SocketImpl =
  mSocket :: int
  os :: 'w

definition SocketImpl_new :: "'w \<Rightarrow> 'w SocketImpl" where
  "SocketImpl_new w = \<lparr>mSocket = - 1, os = w\<rparr>"

definition SocketImpl_recv ::
  "'w posix_api \<Rightarrow> size_t \<Rightarrow> 'w SocketImpl \<Rightarrow> ((ssize_t \<times> char list) \<times> 'w SocketImpl) option" where
  "SocketImpl_recv api len s =
     (case posix_recv api (mSocket s) len (os s) of (rb, w) \<Rightarrow> Some (rb, s\<lparr>os := w\<rparr>))"

definition SocketImpl_send ::
  "'w posix_api \<Rightarrow> char list \<Rightarrow> 'w SocketImpl \<Rightarrow> ssize_t \<times> 'w SocketImpl" where
  "SocketImpl_send api buf s =
     (case posix_send api (mSocket s) buf (os s) of (r, w) \<Rightarrow> (r, s\<lparr>os := w\<rparr>))"

definition SocketImpl_shutdownWr :: "'w posix_api \<Rightarrow> 'w SocketImpl \<Rightarrow> 'w SocketImpl" where
  "SocketImpl_shutdownWr api s =
     s\<lparr>mSocket := - 1, os := posix_shutdown api (mSocket s) SHUT_WR (os s)\<rparr>"

definition SocketImpl_shutdownRdWr :: "'w posix_api \<Rightarrow> 'w SocketImpl \<Rightarrow> 'w SocketImpl" where
  "SocketImpl_shutdownRdWr api s =
     s\<lparr>mSocket := - 1, os := posix_shutdown api (mSocket s) SHUT_RDWR (os s)\<rparr>"

definition SocketImpl_connect ::
  "'w posix_api \<Rightarrow> string \<Rightarrow> u16 \<Rightarrow> 'w SocketImpl \<Rightarrow> (exa_exception + unit) \<times> 'w SocketImpl" where
  "SocketImpl_connect api host port s =
     (case posix_socket api (os s) of (fd, w1) \<Rightarrow>
        (let s1 = s\<lparr>mSocket := fd, os := w1\<rparr> in
         if fd < 0
         then (Inl (ConnectionException (''Could not create socket: return value - '' @ show_int fd
                 @ '' errno - '' @ show_int (posix_errno api w1))), s1)
         else case posix_gethostbyname api host w1 of
           (None, w2) \<Rightarrow> (Inl (ConnectionException (''No such host: '' @ host)), s1\<lparr>os := w2\<rparr>)
         | (Some addr, w2) \<Rightarrow>
             (case posix_connect api fd \<lparr>sin_port = port, sin_addr = addr\<rparr> w2 of (c, w3) \<Rightarrow>
                if c < 0
                then (Inl (ConnectionException (''Could not connect to '' @ host @ '':''
                        @ show_nat (unat port) @ '' return value:'' @ show_int c
                        @ '' errno:'' @ show_int (posix_errno api w3))), s1\<lparr>os := w3\<rparr>)
                else (Inr (), s1\<lparr>os := w3\<rparr>))))"

definition SocketImpl_destroy :: "'w posix_api \<Rightarrow> 'w SocketImpl \<Rightarrow> 'w" where
  "SocketImpl_destroy api s =
     (if 0 \<le> mSocket s then posix_shutdown api (mSocket s) SHUT_RDWR (os s) else os s)"

definition SocketImpl_detach :: "'w SocketImpl \<Rightarrow> int \<times> 'w SocketImpl" where
  "SocketImpl_detach s = (mSocket s, s\<lparr>mSocket := - 1\<rparr>)"

definition SocketImpl_socket :: "'w posix_api \<Rightarrow> 'w SocketImpl Socket" where
  "SocketImpl_socket api =
     \<lparr>sk_recv = SocketImpl_recv api, sk_send = SocketImpl_send api,
      sk_shutdownWr = SocketImpl_shutdownWr api,
      sk_shutdownRdWr = SocketImpl_shutdownRdWr api\<rparr>"

lemma SocketImpl_socket_sel [simp]:
  "sk_recv (SocketImpl_socket api) = SocketImpl_recv api"
  "sk_send (SocketImpl_socket api) = SocketImpl_send api"
  "sk_shutdownWr (SocketImpl_socket api) = SocketImpl_shutdownWr api"
  "sk_shutdownRdWr (SocketImpl_socket api) = SocketImpl_shutdownRdWr api"
  by (simp_all add: SocketImpl_socket_def)

text \<open>Documented behaviour of the system calls, on a file descriptor whose unread bytes are
  \<open>net_in\<close> and whose bytes sent so far are \<open>net_out\<close>: \<^verbatim>\<open>recv(2)\<close> returns at most
  the requested number, or -1; with \<^verbatim>\<open>MSG_WAITALL\<close> it waits for the full request, and
  returns nothing positive at the end of the stream; a \<^verbatim>\<open>send(2)\<close> that reports
  \<open>length\<close> bytes has queued them in order.\<close>

definition posix_ok ::
  "'w posix_api \<Rightarrow> (int \<Rightarrow> 'w \<Rightarrow> char list) \<Rightarrow> (int \<Rightarrow> 'w \<Rightarrow> char list) \<Rightarrow> bool" where
  "posix_ok api net_in net_out \<longleftrightarrow>
     (\<forall>fd n w r bs w'. posix_recv api fd n w = ((r, bs), w') \<longrightarrow>
        - 1 \<le> r \<and> r \<le> int n \<and> length bs \<le> n \<and> (0 \<le> r \<longrightarrow> length bs = nat r)) \<and>
     (\<forall>fd n w. 0 < n \<longrightarrow> n \<le> length (net_in fd w) \<longrightarrow>
        (\<exists>w'. posix_recv api fd n w = ((int n, take n (net_in fd w)), w') \<and>
           net_in fd w' = drop n (net_in fd w) \<and> net_out fd w' = net_out fd w)) \<and>
     (\<forall>fd n w r bs w'. net_in fd w = [] \<longrightarrow> posix_recv api fd n w = ((r, bs), w') \<longrightarrow> r \<le> 0) \<and>
     (\<forall>fd bs w r w'. posix_send api fd bs w = (r, w') \<longrightarrow> r = int (length bs) \<longrightarrow>
        net_in fd w' = net_in fd w \<and> net_out fd w' = net_out fd w @ bs)"

lemma posix_ok_recv_range:
  "posix_ok api ni no \<Longrightarrow> posix_recv api fd n w = ((r, bs), w') \<Longrightarrow>
     - 1 \<le> r \<and> r \<le> int n \<and> length bs \<le> n \<and> (0 \<le> r \<longrightarrow> length bs = nat r)"
  unfolding posix_ok_def by blast

lemma posix_ok_recv_waitall:
  "posix_ok api ni no \<Longrightarrow> 0 < n \<Longrightarrow> n \<le> length (ni fd w) \<Longrightarrow>
     \<exists>w'. posix_recv api fd n w = ((int n, take n (ni fd w)), w') \<and>
       ni fd w' = drop n (ni fd w) \<and> no fd w' = no fd w"
  unfolding posix_ok_def by blast

lemma posix_ok_recv_empty:
  "posix_ok api ni no \<Longrightarrow> ni fd w = [] \<Longrightarrow> posix_recv api fd n w = ((r, bs), w') \<Longrightarrow> r \<le> 0"
  unfolding posix_ok_def by blast

lemma posix_ok_send:
  "posix_ok api ni no \<Longrightarrow> posix_send api fd bs w = (r, w') \<Longrightarrow> r = int (length bs) \<Longrightarrow>
     ni fd w' = ni fd w \<and> no fd w' = no fd w @ bs"
  unfolding posix_ok_def by blast

definition plain_in :: "(int \<Rightarrow> 'w \<Rightarrow> char list) \<Rightarrow> 'w SocketImpl \<Rightarrow> char list" where
  "plain_in ni s = ni (mSocket s) (os s)"

lemma SocketImpl_recv_range:
  "posix_ok api ni no \<Longrightarrow> SocketImpl_recv api n s = Some ((r, bs), s') \<Longrightarrow>
     - 1 \<le> r \<and> r \<le> int n \<and> length bs \<le> n \<and> (0 \<le> r \<longrightarrow> length bs = nat r)"
  by (auto simp: SocketImpl_recv_def split: prod.splits dest: posix_ok_recv_range)

lemma SocketImpl_recv_waitall:
  "posix_ok api ni no \<Longrightarrow> 0 < n \<Longrightarrow> n \<le> length (plain_in ni s) \<Longrightarrow>
     \<exists>s'. SocketImpl_recv api n s = Some ((int n, take n (plain_in ni s)), s') \<and>
       plain_in ni s' = drop n (plain_in ni s) \<and> plain_in no s' = plain_in no s"
  using posix_ok_recv_waitall [of api ni no n "mSocket s" "os s"]
  by (auto simp: SocketImpl_recv_def plain_in_def)

lemma SocketImpl_recv_empty:
  "posix_ok api ni no \<Longrightarrow> plain_in ni s = [] \<Longrightarrow> SocketImpl_recv api n s = Some ((r, bs), s') \<Longrightarrow>
     r \<le> 0"
  by (auto simp: SocketImpl_recv_def plain_in_def split: prod.splits dest: posix_ok_recv_empty)

lemma SocketImpl_send_queued:
  "posix_ok api ni no \<Longrightarrow> SocketImpl_send api bs s = (r, s') \<Longrightarrow> r = int (length bs) \<Longrightarrow>
     plain_in ni s' = plain_in ni s \<and> plain_in no s' = plain_in no s @ bs"
  by (auto simp: SocketImpl_send_def plain_in_def split: prod.splits dest: posix_ok_send)

interpretation plain: stream_socket "SocketImpl_socket api" "\<lambda>_. posix_ok api ni no"
  "plain_in ni" "plain_in no" for api :: "'w posix_api" and ni no
  by unfold_locales
    (auto simp: SocketImpl_recv_waitall dest: SocketImpl_recv_range SocketImpl_recv_empty
      SocketImpl_send_queued, auto simp: SocketImpl_recv_def split: prod.splits)

end
