(* ===== verification/Repeating_Fill.thy ===== *)
theory Repeating_Fill
  imports Exa_Prelude
begin

text \<open>
  \<^verbatim>\<open>exa::algo::repeatingBufferFill\<close> (\<^verbatim>\<open>algorithm/repeating_buffer_fill.h\<close>): call a filler
  until a buffer is full.  The range \<^verbatim>\<open>[first, last)\<close> is its length \<open>n\<close>; \<open>acc\<close> is what
  was stored before \<^verbatim>\<open>first\<close>.  A filler that reports more elements than it was offered
  moves \<^verbatim>\<open>first\<close> past \<^verbatim>\<open>last\<close>, which is undefined behaviour.
\<close>

type_synonym ('a, 'w) filler = "int \<Rightarrow> 'w \<Rightarrow> (int \<times> 'a list) \<times> 'w"

function repeatingBufferFill ::
  "('a, 'w) filler \<Rightarrow> nat \<Rightarrow> 'a list \<Rightarrow> 'w \<Rightarrow> ((bool \<times> 'a list) \<times> 'w) option" where
  "repeatingBufferFill filler n acc w =
     (case filler (c_int (int n)) w of ((retVal, bs), w') \<Rightarrow>
        if retVal \<le> 0 then Some ((False, acc @ bs), w')
        else if int n < retVal then None
        else if int n = retVal then Some ((True, acc @ bs), w')
        else repeatingBufferFill filler (n - nat retVal) (acc @ bs) w')"
  by pat_completeness auto
termination
  by (relation "measure (\<lambda>(filler, n, acc, w). n)") auto

declare repeatingBufferFill.simps [simp del]

text \<open>What the loop needs of a filler, relative to the sequence of elements it has still
  to deliver: it stores as many elements as it reports, no more than it is offered, taken
  off the front of that sequence.\<close>

definition prefix_filler ::
  "('a, 'w) filler \<Rightarrow> ('w \<Rightarrow> bool) \<Rightarrow> ('w \<Rightarrow> 'a list) \<Rightarrow> bool" where
  "prefix_filler filler ok src \<longleftrightarrow>
     (\<forall>k w r bs w'. ok w \<longrightarrow> 0 \<le> k \<longrightarrow> filler k w = ((r, bs), w') \<longrightarrow>
        ok w' \<and> r \<le> k \<and>
        (if 0 < r then nat r \<le> length (src w) \<and> bs = take (nat r) (src w) \<and> src w' = drop (nat r) (src w)
         else bs = [] \<and> src w' = src w) \<and>
        (0 < k \<and> src w \<noteq> [] \<longrightarrow> 0 < r))"

lemma prefix_fillerD:
  assumes "prefix_filler filler ok src" and "ok w" and "0 \<le> k"
    and "filler k w = ((r, bs), w')"
  shows "ok w'" and "r \<le> k"
    and "0 < r \<Longrightarrow> nat r \<le> length (src w) \<and> bs = take (nat r) (src w) \<and> src w' = drop (nat r) (src w)"
    and "r \<le> 0 \<Longrightarrow> bs = [] \<and> src w' = src w"
    and "0 < k \<Longrightarrow> src w \<noteq> [] \<Longrightarrow> 0 < r"
proof -
  have "ok w' \<and> r \<le> k \<and>
      (if 0 < r then nat r \<le> length (src w) \<and> bs = take (nat r) (src w) \<and> src w' = drop (nat r) (src w)
       else bs = [] \<and> src w' = src w) \<and> (0 < k \<and> src w \<noteq> [] \<longrightarrow> 0 < r)"
    using assms unfolding prefix_filler_def by blast
  then show "ok w'" and "r \<le> k"
    and "0 < r \<Longrightarrow> nat r \<le> length (src w) \<and> bs = take (nat r) (src w) \<and> src w' = drop (nat r) (src w)"
    and "r \<le> 0 \<Longrightarrow> bs = [] \<and> src w' = src w"
    and "0 < k \<Longrightarrow> src w \<noteq> [] \<Longrightarrow> 0 < r"
    by auto
qed

lemma repeatingBufferFill_safe:
  assumes pf: "prefix_filler filler ok src"
  shows "ok w \<Longrightarrow> n < 2 ^ 31 \<Longrightarrow>
    \<exists>b out w'. repeatingBufferFill filler n acc w = Some ((b, acc @ out), w') \<and> ok w' \<and>
      length out \<le> n \<and> src w = out @ src w' \<and> (b \<longrightarrow> length out = n) \<and> (b \<longrightarrow> 0 < n)"
proof (induction n arbitrary: acc w rule: less_induct)
  case (less n)
  obtain r bs w1 where f: "filler (int n) w = ((r, bs), w1)"
    by (metis prod.exhaust)
  have ci: "c_int (int n) = int n"
    using less.prems(2) by (simp add: c_int_id)
  note D = prefix_fillerD [OF pf less.prems(1) _ f, simplified]
  note unf = repeatingBufferFill.simps [of filler n acc w]
  consider "r \<le> 0" | "0 < r" "r = int n" | "0 < r" "r < int n"
    using D(2) by linarith
  then show ?case
  proof cases
    case 1
    then have "repeatingBufferFill filler n acc w = Some ((False, acc @ []), w1)"
      using D(4) by (simp add: unf f ci)
    then show ?thesis
      using 1 D(1,4) by (intro exI [of _ False] exI [of _ "[]"] exI [of _ w1]) auto
  next
    case 2
    then have "repeatingBufferFill filler n acc w = Some ((True, acc @ bs), w1)"
      by (simp add: unf f ci)
    then show ?thesis using 2 D(1,3) by (intro exI [of _ True] exI [of _ bs] exI [of _ w1]) auto
  next
    case 3
    have "n - nat r < n" "n - nat r < 2 ^ 31" using 3 less.prems(2) by auto
    from less.IH [OF this(1) D(1) this(2), of "acc @ bs"]
    obtain b out w' where ih: "repeatingBufferFill filler (n - nat r) (acc @ bs) w1
        = Some ((b, (acc @ bs) @ out), w')" "ok w'" "length out \<le> n - nat r"
        "src w1 = out @ src w'" "b \<longrightarrow> length out = n - nat r"
      by blast
    have bs: "length bs = nat r" "src w = bs @ src w1"
      using D(3) 3 by (auto simp: min_def)
    have "repeatingBufferFill filler n acc w = Some ((b, acc @ (bs @ out)), w')"
      using 3 ih(1) by (simp add: unf f ci)
    then show ?thesis
      using ih bs 3 by (intro exI [of _ b] exI [of _ "bs @ out"] exI [of _ w']) auto
  qed
qed

lemma repeatingBufferFill_fills:
  assumes pf: "prefix_filler filler ok src"
  shows "ok w \<Longrightarrow> 0 < n \<Longrightarrow> n < 2 ^ 31 \<Longrightarrow> n \<le> length (src w) \<Longrightarrow>
    \<exists>w'. repeatingBufferFill filler n acc w = Some ((True, acc @ take n (src w)), w') \<and>
      ok w' \<and> src w' = drop n (src w)"
proof (induction n arbitrary: acc w rule: less_induct)
  case (less n)
  obtain r bs w1 where f: "filler (int n) w = ((r, bs), w1)"
    by (metis prod.exhaust)
  have ci: "c_int (int n) = int n"
    using less.prems(3) by (simp add: c_int_id)
  note D = prefix_fillerD [OF pf less.prems(1) _ f, simplified]
  note unf = repeatingBufferFill.simps [of filler n acc w]
  have r: "0 < r" "r \<le> int n"
    using D(2) D(5) less.prems by (auto intro: D(5))
  note bs = D(3) [OF r(1)]
  show ?case
  proof (cases "r = int n")
    case True
    then show ?thesis using D(1) bs r by (simp add: unf f ci)
  next
    case False
    let ?m = "n - nat r"
    have m: "?m < n" "0 < ?m" "?m < 2 ^ 31" "?m \<le> length (src w1)"
      using False r bs less.prems by auto
    obtain w' where ih: "repeatingBufferFill filler ?m (acc @ bs) w1
        = Some ((True, (acc @ bs) @ take ?m (src w1)), w')" "ok w'" "src w' = drop ?m (src w1)"
      using less.IH [OF m(1) D(1) m(2,3,4), of "acc @ bs"] by blast
    have "take n (src w) = bs @ take ?m (src w1)"
      using bs r False by (simp add: take_add [symmetric])
    moreover have "drop n (src w) = drop ?m (src w1)"
      using bs r False by simp
    ultimately show ?thesis
      using ih r False by (simp add: unf f ci)
  qed
qed

end
