(* ===== verification/Ssl_Socket.thy ===== *)
theory Ssl_Socket
  imports Posix_Socket Repeating_Fill
begin

text \<open>
  \<^verbatim>\<open>exa::SSLSocketImpl\<close> (\<^verbatim>\<open>connection/socket/ssl_socket_impl.cpp\<close>), the TLS socket.
  OpenSSL and the system's \<^verbatim>\<open>shutdown\<close> are the parameter \<open>ssl_api\<close>, over a state
  \<^typ>\<open>'w\<close>; the documented behaviour the class relies on is \<open>ssl_ok\<close>.  The class
  offers the same contract as the plain socket although \<^verbatim>\<open>SSL_read\<close> may deliver less
  than it is asked for.
\<close>

record 'w ssl_api =
  api_SSL_read :: "int \<Rightarrow> 'w \<Rightarrow> (int \<times> char list) \<times> 'w"
  api_SSL_write :: "int \<Rightarrow> char list \<Rightarrow> 'w \<Rightarrow> int \<times> 'w"
  api_SSL_shutdown :: "'w \<Rightarrow> int \<times> 'w"
  api_SSL_get_fd :: "'w \<Rightarrow> int"
  api_SSL_free :: "'w \<Rightarrow> 'w"
  api_SSL_CTX_free :: "'w \<Rightarrow> 'w"
  api_ERR_free_strings :: "'w \<Rightarrow> 'w"
  api_shutdown :: "int \<Rightarrow> shut_how \<Rightarrow> 'w \<Rightarrow> 'w"

record 'w SSLSocketImpl =
  mSocketClosed :: bool
  tls :: 'w

definition SSIZE_MAX :: nat where
  "SSIZE_MAX = 2 ^ 63 - 1"

definition SSLSocketImpl_recv ::
  "'w ssl_api \<Rightarrow> size_t \<Rightarrow> 'w SSLSocketImpl \<Rightarrow>
     ((ssize_t \<times> char list) \<times> 'w SSLSocketImpl) option" where
  "SSLSocketImpl_recv api len s =
     (if len \<le> SSIZE_MAX
      then (case repeatingBufferFill (api_SSL_read api) len [] (tls s) of
              None \<Rightarrow> None
            | Some ((success, bs), w) \<Rightarrow>
                Some ((if success then int len else - 1, bs), s\<lparr>tls := w\<rparr>))
      else Some ((- 1, []), s))"

definition SSLSocketImpl_send ::
  "'w ssl_api \<Rightarrow> char list \<Rightarrow> 'w SSLSocketImpl \<Rightarrow> ssize_t \<times> 'w SSLSocketImpl" where
  "SSLSocketImpl_send api buf s =
     (case api_SSL_write api (c_int (int (length buf))) buf (tls s) of (r, w) \<Rightarrow> (r, s\<lparr>tls := w\<rparr>))"

definition SSLSocketImpl_closeSocket ::
  "'w ssl_api \<Rightarrow> shut_how \<Rightarrow> 'w SSLSocketImpl \<Rightarrow> 'w SSLSocketImpl" where
  "SSLSocketImpl_closeSocket api how s =
     (if mSocketClosed s then s\<lparr>mSocketClosed := True\<rparr>
      else (let fd = api_SSL_get_fd api (tls s) in
            (if 0 \<le> fd then s\<lparr>tls := api_shutdown api fd how (tls s)\<rparr> else s)
              \<lparr>mSocketClosed := True\<rparr>))"

definition SSLSocketImpl_shutdownWr :: "'w ssl_api \<Rightarrow> 'w SSLSocketImpl \<Rightarrow> 'w SSLSocketImpl" where
  "SSLSocketImpl_shutdownWr api s =
     SSLSocketImpl_closeSocket api SHUT_WR (s\<lparr>tls := snd (api_SSL_shutdown api (tls s))\<rparr>)"

definition SSLSocketImpl_shutdownRdWr :: "'w ssl_api \<Rightarrow> 'w SSLSocketImpl \<Rightarrow> 'w SSLSocketImpl" where
  "SSLSocketImpl_shutdownRdWr api s =
     SSLSocketImpl_closeSocket api SHUT_RDWR (s\<lparr>tls := snd (api_SSL_shutdown api (tls s))\<rparr>)"

text \<open>The destructor frees \<^verbatim>\<open>mSsl\<close> before it calls \<^verbatim>\<open>closeSocket\<close>, which asks the freed
  object for its descriptor unless the socket was closed before: that use after free is the
  value \<^const>\<open>None\<close>.\<close>

definition SSLSocketImpl_destroy :: "'w ssl_api \<Rightarrow> 'w SSLSocketImpl \<Rightarrow> 'w option" where
  "SSLSocketImpl_destroy api s =
     (case api_SSL_shutdown api (tls s) of (ret, w1) \<Rightarrow>
        (let w2 = (if ret = 0 then snd (api_SSL_shutdown api w1) else w1);
             w3 = api_ERR_free_strings api (api_SSL_CTX_free api (api_SSL_free api w2))
         in if mSocketClosed s
            then Some (tls (SSLSocketImpl_closeSocket api SHUT_RDWR (s\<lparr>tls := w3\<rparr>)))
            else None))"

definition SSLSocketImpl_socket :: "'w ssl_api \<Rightarrow> 'w SSLSocketImpl Socket" where
  "SSLSocketImpl_socket api =
     \<lparr>sk_recv = SSLSocketImpl_recv api, sk_send = SSLSocketImpl_send api,
      sk_shutdownWr = SSLSocketImpl_shutdownWr api,
      sk_shutdownRdWr = SSLSocketImpl_shutdownRdWr api\<rparr>"

lemma SSLSocketImpl_socket_sel [simp]:
  "sk_recv (SSLSocketImpl_socket api) = SSLSocketImpl_recv api"
  "sk_send (SSLSocketImpl_socket api) = SSLSocketImpl_send api"
  "sk_shutdownWr (SSLSocketImpl_socket api) = SSLSocketImpl_shutdownWr api"
  "sk_shutdownRdWr (SSLSocketImpl_socket api) = SSLSocketImpl_shutdownRdWr api"
  by (simp_all add: SSLSocketImpl_socket_def)

text \<open>Documented behaviour of OpenSSL: \<^verbatim>\<open>SSL_read\<close> in the mode
  \<^verbatim>\<open>SSL_MODE_AUTO_RETRY\<close> returns between one and the requested number of decrypted bytes
  while there are any, and a non-positive value otherwise; \<^verbatim>\<open>SSL_write\<close> without
  partial writes reports the length only when everything was written.\<close>

definition ssl_ok ::
  "'w ssl_api \<Rightarrow> ('w \<Rightarrow> char list) \<Rightarrow> ('w \<Rightarrow> char list) \<Rightarrow> bool" where
  "ssl_ok api sin sout \<longleftrightarrow>
     (\<forall>o0. prefix_filler (api_SSL_read api) (\<lambda>w. sout w = o0) sin) \<and>
     (\<forall>n bs w r w'. api_SSL_write api n bs w = (r, w') \<longrightarrow> r \<le> max 0 n \<and>
        (r = n \<longrightarrow> n = int (length bs) \<longrightarrow> sin w' = sin w \<and> sout w' = sout w @ bs))"

lemma ssl_ok_read: "ssl_ok api si so \<Longrightarrow> prefix_filler (api_SSL_read api) (\<lambda>w. so w = o0) si"
  unfolding ssl_ok_def by blast

lemma SSLSocketImpl_recv_safe:
  assumes "ssl_ok api si so" and "n < 2 ^ 31"
  shows "\<exists>r bs s'. SSLSocketImpl_recv api n s = Some ((r, bs), s') \<and>
    - 1 \<le> r \<and> r \<le> int n \<and> length bs \<le> n \<and> (0 \<le> r \<longrightarrow> length bs = nat r) \<and>
    (0 < r \<longrightarrow> length bs \<le> length (si (tls s)))"
proof -
  obtain b out w' where
    "repeatingBufferFill (api_SSL_read api) n [] (tls s) = Some ((b, [] @ out), w')"
    "length out \<le> n" "si (tls s) = out @ si w'" "b \<longrightarrow> length out = n" "b \<longrightarrow> 0 < n"
    using repeatingBufferFill_safe [OF ssl_ok_read [OF assms(1)] refl assms(2)] by blast
  then show ?thesis
    using assms(2) by (auto simp: SSLSocketImpl_recv_def SSIZE_MAX_def)
qed

lemma SSLSocketImpl_recv_full:
  assumes "ssl_ok api si so" and "0 < n" and "n < 2 ^ 31" and "n \<le> length (si (tls s))"
  shows "\<exists>s'. SSLSocketImpl_recv api n s = Some ((int n, take n (si (tls s))), s') \<and>
    si (tls s') = drop n (si (tls s)) \<and> so (tls s') = so (tls s)"
proof -
  obtain w' where
    "repeatingBufferFill (api_SSL_read api) n [] (tls s) = Some ((True, [] @ take n (si (tls s))), w')"
    "so w' = so (tls s)" "si w' = drop n (si (tls s))"
    using repeatingBufferFill_fills [OF ssl_ok_read [OF assms(1)] refl assms(2-4)] by blast
  then show ?thesis
    using assms(3) by (auto simp: SSLSocketImpl_recv_def SSIZE_MAX_def)
qed

lemma ssl_ok_write:
  "ssl_ok api si so \<Longrightarrow> api_SSL_write api n bs w = (r, w') \<Longrightarrow> r \<le> max 0 n \<and>
     (r = n \<longrightarrow> n = int (length bs) \<longrightarrow> si w' = si w \<and> so w' = so w @ bs)"
  unfolding ssl_ok_def by blast

text \<open>The length of a buffer that does not fit an \<^verbatim>\<open>int\<close> is truncated by the call, and
  then never equals the result.\<close>

lemma c_int_length_exact: "int n \<le> max 0 (c_int (int n)) \<Longrightarrow> c_int (int n) = int n"
  using c_int_range [of "int n"] by (cases "int n < 2 ^ 31") (auto simp: c_int_id max_def split: if_splits)

lemma SSLSocketImpl_send_written:
  assumes "ssl_ok api si so" and "SSLSocketImpl_send api bs s = (r, s')" and "r = int (length bs)"
  shows "si (tls s') = si (tls s) \<and> so (tls s') = so (tls s) @ bs"
proof -
  obtain w where w: "api_SSL_write api (c_int (int (length bs))) bs (tls s) = (r, w)" "s' = s\<lparr>tls := w\<rparr>"
    using assms(2) by (auto simp: SSLSocketImpl_send_def split: prod.splits)
  note k = ssl_ok_write [OF assms(1) w(1)]
  then have "c_int (int (length bs)) = int (length bs)"
    using assms(3) by (intro c_int_length_exact) auto
  then show ?thesis
    using k w(2) assms(3) by simp
qed

lemma SSLSocketImpl_recv_range:
  assumes "ssl_ok api si so" and "n < 2 ^ 31"
    and "SSLSocketImpl_recv api n s = Some ((r, bs), s')"
  shows "- 1 \<le> r" and "r \<le> int n" and "length bs \<le> n" and "0 \<le> r \<Longrightarrow> length bs = nat r"
    and "si (tls s) = [] \<Longrightarrow> 0 < n \<Longrightarrow> r \<le> 0"
  using SSLSocketImpl_recv_safe [OF assms(1,2), of s] assms(3) by auto

interpretation tls_sock: stream_socket "SSLSocketImpl_socket api" "\<lambda>_. ssl_ok api si so"
  "\<lambda>s. si (tls s)" "\<lambda>s. so (tls s)" for api :: "'w ssl_api" and si so
  by unfold_locales
    (auto simp: SSLSocketImpl_recv_full dest: SSLSocketImpl_recv_range SSLSocketImpl_send_written,
     insert SSLSocketImpl_recv_safe, fastforce)

end
