(* ===== verification/Meta_Info.thy ===== *)
theory Meta_Info
  imports Posix_Socket
begin

text \<open>
  \<^verbatim>\<open>exa::metaInfoReader::read\<close> (\<^verbatim>\<open>protocol/meta_info_reader.cpp\<close>): the handshake with the
  database proxy.  The client sends a header of three 32-bit integers and receives the
  proxy's host name and port.  Integers travel in the little-endian layout of the
  supported targets; the two structures have no padding.
\<close>

section \<open>Layout of 32-bit integers\<close>

definition le32 :: "int \<Rightarrow> char list" where
  "le32 x = map (\<lambda>k. char_of ((x div 256 ^ k) mod 256)) [0, 1, 2, 3]"

definition le_nat :: "char list \<Rightarrow> nat" where
  "le_nat bs = foldr (\<lambda>b n. of_char b + 256 * n) bs 0"

definition int32_of :: "char list \<Rightarrow> int" where
  "int32_of bs = c_int (int (le_nat bs))"

lemma length_le32 [simp]: "length (le32 x) = 4"
  by (simp add: le32_def)

lemma le_nat_le32: "int (le_nat (le32 x)) = x mod 2 ^ 32"
proof -
  have b: "int (of_char (char_of y :: char)) = y mod 256" for y :: int
    by (simp add: of_nat_of_char)
  have "int (le_nat (le32 x)) =
      x mod 256 + 256 * (x div 256 mod 256 + 256 * (x div 65536 mod 256 + 256 * (x div 16777216 mod 256)))"
    by (simp add: le_nat_def le32_def b)
  also have "\<dots> = x mod 2 ^ 32"
  proof -
    have "x mod 4294967296 = 16777216 * (x div 16777216 mod 256) + x mod 16777216"
      using zmod_zmult2_eq [of 256 x 16777216] by simp
    moreover have "x mod 16777216 = 65536 * (x div 65536 mod 256) + x mod 65536"
      using zmod_zmult2_eq [of 256 x 65536] by simp
    moreover have "x mod 65536 = 256 * (x div 256 mod 256) + x mod 256"
      using zmod_zmult2_eq [of 256 x 256] by simp
    moreover have "(2 :: int) ^ 32 = 4294967296"
      by simp
    ultimately show ?thesis
      by (simp only:)
        (simp only: distrib_left mult.assoc [symmetric] numeral_times_numeral semiring_norm ac_simps)
  qed
  finally show ?thesis .
qed

lemma int32_of_le32: "- (2 ^ 31) \<le> x \<Longrightarrow> x < 2 ^ 31 \<Longrightarrow> int32_of (le32 x) = x"
proof -
  assume x: "- (2 ^ 31) \<le> x" "x < 2 ^ 31"
  have "(x mod 2 ^ 32 + 2 ^ 31) mod 2 ^ 32 = (x + 2 ^ 31) mod 2 ^ 32"
    by (simp add: mod_add_left_eq)
  then have "c_int (x mod 2 ^ 32) = c_int x"
    by (simp only: c_int_def)
  then show ?thesis
    using x by (simp add: int32_of_def le_nat_le32 c_int_id)
qed

section \<open>The handshake\<close>

definition proxyHeader :: "char list" where
  "proxyHeader = le32 0x02212102 @ le32 1 @ le32 1"

definition proxyHeader_size :: nat where "proxyHeader_size = 12"
definition proxyAnswer_size :: nat where "proxyAnswer_size = 24"

text \<open>The fields of the answer: \<^verbatim>\<open>v\<close>, \<^verbatim>\<open>port\<close> and the 16 bytes \<^verbatim>\<open>s\<close>.\<close>

record proxy_answer =
  pa_v :: int
  pa_port :: int
  pa_s :: "char list"

definition decode_answer :: "char list \<Rightarrow> proxy_answer" where
  "decode_answer bs =
     \<lparr>pa_v = int32_of (take 4 bs), pa_port = int32_of (take 4 (drop 4 bs)),
      pa_s = take 16 (drop 8 bs)\<rparr>"

definition metaInfo_read ::
  "'s Socket \<Rightarrow> ('s \<Rightarrow> int) \<Rightarrow> string \<Rightarrow> u16 \<Rightarrow> 's \<Rightarrow>
     ((exa_exception + string \<times> u16) \<times> 's) option" where
  "metaInfo_read sock errno host port s =
     (case sk_send sock proxyHeader s of (r, s1) \<Rightarrow>
        if r \<noteq> int proxyHeader_size
        then Some (Inl (ConnectionException (''Failed to send proxy header ('' @ show_int r
                @ '' != '' @ show_nat proxyHeader_size @ '')'')), s1)
        else (case sk_recv sock proxyAnswer_size s1 of
            None \<Rightarrow> None
          | Some ((r, bs), s2) \<Rightarrow>
              if r \<noteq> int proxyAnswer_size
              then Some (Inl (ConnectionException (''Failed to receive proxy header from '' @ host
                      @ '':'' @ show_nat (unat port) @ '' ('' @ show_int r @ '' != ''
                      @ show_nat proxyAnswer_size @ ''); errno: '' @ show_int (errno s2))), s2)
              else let a = decode_answer bs in
                Some (Inr (c_str ((pa_s a)[15 := NUL]), of_int (pa_port a)), s2)))"

text \<open>The answer a proxy sends for a host name and a port.\<close>

definition encode_answer :: "int \<Rightarrow> int \<Rightarrow> string \<Rightarrow> char list" where
  "encode_answer v port host = le32 v @ le32 port @ host @ replicate (16 - length host) NUL"

lemma length_proxyHeader [simp]: "length proxyHeader = proxyHeader_size"
  by (simp add: proxyHeader_def proxyHeader_size_def)

lemma decode_encode_answer:
  assumes "- (2 ^ 31) \<le> v" "v < 2 ^ 31" "- (2 ^ 31) \<le> port" "port < 2 ^ 31"
    and "length host \<le> 16"
  shows "decode_answer (encode_answer v port host) =
    \<lparr>pa_v = v, pa_port = port, pa_s = host @ replicate (16 - length host) NUL\<rparr>"
  using assms by (simp add: decode_answer_def encode_answer_def int32_of_le32)

lemma c_str_padded_host:
  assumes "length host \<le> 15" and "NUL \<notin> set host"
  shows "c_str ((host @ replicate (16 - length host) NUL)[15 := NUL]) = host"
proof -
  have "(host @ replicate (16 - length host) NUL)[15 := NUL] = host @ replicate (16 - length host) NUL"
    using assms(1) by (intro list_update_same_conv [THEN iffD2]) (auto simp: nth_append)
  moreover have "replicate (16 - length host) NUL = NUL # replicate (15 - length host) NUL"
    using assms(1) by (cases "16 - length host") (auto simp: Suc_diff_le)
  ultimately show ?thesis
    using c_str_append_NUL [OF assms(2)] by metis
qed

context stream_socket
begin

lemma metaInfo_read_ok:
  assumes v: "valid s" and w: "fst (sk_send sock proxyHeader s) = int (length proxyHeader)"
    and i: "inb s = encode_answer ver port host @ rest"
    and r: "- (2 ^ 31) \<le> ver" "ver < 2 ^ 31" "- (2 ^ 31) \<le> port" "port < 2 ^ 31"
    and h: "length host \<le> 15" "NUL \<notin> set host"
  shows "\<exists>s'. metaInfo_read sock errno h0 p0 s = Some (Inr (host, of_int port), s') \<and> valid s' \<and>
    inb s' = rest \<and> outb s' = outb s @ proxyHeader"
proof -
  obtain s1 where 1: "sk_send sock proxyHeader s = (int proxyHeader_size, s1)"
    using w by (cases "sk_send sock proxyHeader s") auto
  have st: "inb s1 = inb s" "outb s1 = outb s @ proxyHeader" "valid s1"
    using send_stream [OF v 1] send_valid [OF v 1] by simp_all
  have len: "length (encode_answer ver port host) = proxyAnswer_size"
    using h(1) by (simp add: encode_answer_def proxyAnswer_size_def)
  obtain s2 where 2: "sk_recv sock proxyAnswer_size s1 =
        Some ((int proxyAnswer_size, encode_answer ver port host), s2)" "valid s2" "inb s2 = rest" "outb s2 = outb s1"
    using recv_streamE [OF st(3), of proxyAnswer_size] st(1) i len
    by (auto simp: proxyAnswer_size_def)
  show ?thesis
    using r h 1 2 st by (simp add: metaInfo_read_def decode_encode_answer c_str_padded_host Let_def)
qed

end

context socket_iface
begin

lemma metaInfo_read_errors:
  assumes v: "valid s"
  shows "\<exists>res s'. metaInfo_read sock errno host port s = Some (res, s') \<and> valid s' \<and>
    (\<forall>e. res = Inl e \<longrightarrow> (\<exists>m. e = ConnectionException m)) \<and>
    (\<forall>h p. res = Inr (h, p) \<longrightarrow> length h \<le> 15 \<and> NUL \<notin> set h)"
proof -
  obtain r s1 where 1: "sk_send sock proxyHeader s = (r, s1)" by fastforce
  have v1: "valid s1" using v 1 by (rule send_valid)
  show ?thesis
  proof (cases "r = int proxyHeader_size")
    case False
    then show ?thesis using 1 v1 by (simp add: metaInfo_read_def)
  next
    case True
    obtain q bs s2 where 2: "sk_recv sock proxyAnswer_size s1 = Some ((q, bs), s2)" "valid s2"
        "0 \<le> q \<Longrightarrow> length bs = nat q"
      by (rule recv_cases [OF v1, of proxyAnswer_size]) (auto simp: proxyAnswer_size_def)
    have "length (c_str ((take 16 (drop 8 bs))[15 := NUL])) \<le> 15" if "length bs = 24"
      using that by (intro c_str_length) simp
    then show ?thesis
      using True 1 2 c_str_no_NUL
      by (auto simp: metaInfo_read_def Let_def decode_answer_def proxyAnswer_size_def)
  qed
qed

end

end
