(* ===== verification/Certificate.thy ===== *)
theory Certificate
  imports Exa_Prelude
begin

text \<open>
  \<^verbatim>\<open>exa::ssl::Certificate\<close> (\<^verbatim>\<open>ssl/certificate.cpp\<close>), the self-signed certificate of the TLS
  server side.  OpenSSL is a parameter: every call the source makes is a value of
  \<open>ossl_call\<close>, and \<open>ossl c w\<close> is the result of call \<open>c\<close> in the library state \<open>w\<close>
  (a pointer result is an integer, 0 the null pointer).
\<close>

datatype ossl_call =
    EVP_PKEY_new | X509_new | RSA_new | BN_new
  | BN_set_word_F4 | RSA_generate_key_ex int | BN_free | EVP_PKEY_assign_RSA
  | X509_set_version int | ASN1_INTEGER_set_serial int
  | X509_gmtime_adj_notBefore int | X509_gmtime_adj_notAfter int | X509_set_pubkey
  | X509_get_subject_name | X509_NAME_add_entry_by_txt string string
  | X509_set_issuer_name
  | X509V3_set_ctx_nodb | X509V3_set_ctx | X509V3_EXT_conf_nid string string
  | X509_add_ext | X509_EXTENSION_free
  | X509_sign_md5
  | X509_free int | EVP_PKEY_free int
  | SSL_CTX_use_certificate int | SSL_CTX_use_PrivateKey int
  | SSL_load_error_strings | SSLeay_add_ssl_algorithms | SSL_CTX_new_server
  | SSL_new | SSL_set_mode_auto_retry | SSL_set_fd int | SSL_set_accept_state

type_synonym 'w ossl = "ossl_call \<Rightarrow> 'w \<Rightarrow> int \<times> 'w"

text \<open>A sequence of calls whose results the source does not look at.\<close>

fun ossl_run :: "'w ossl \<Rightarrow> ossl_call list \<Rightarrow> 'w \<Rightarrow> 'w" where
  "ossl_run ossl [] w = w"
| "ossl_run ossl (c # cs) w = ossl_run ossl cs (snd (ossl c w))"

record certificate =
  mX509p :: int
  mPkeyp :: int

definition Certificate_new :: certificate where
  "Certificate_new = \<lparr>mX509p = 0, mPkeyp = 0\<rparr>"

definition Certificate_isValid :: "certificate \<Rightarrow> bool" where
  "Certificate_isValid c \<longleftrightarrow> mX509p c \<noteq> 0 \<and> mPkeyp c \<noteq> 0"

definition CertExtensionBuilder_add ::
  "'w ossl \<Rightarrow> string \<times> string \<Rightarrow> 'w \<Rightarrow> (exa_exception + unit) \<times> 'w" where
  "CertExtensionBuilder_add ossl e w =
     (case ossl (X509V3_EXT_conf_nid (fst e) (snd e)) (ossl_run ossl [X509V3_set_ctx_nodb, X509V3_set_ctx] w) of
        (ex, w') \<Rightarrow>
          if ex = 0 then (Inl (CertificateException ''Cannot add extension to certificate.''), w')
          else (Inr (), ossl_run ossl [X509_add_ext, X509_EXTENSION_free] w'))"

definition CertNameBuilder_add ::
  "'w ossl \<Rightarrow> string \<times> string \<Rightarrow> 'w \<Rightarrow> (exa_exception + unit) \<times> 'w" where
  "CertNameBuilder_add ossl n w =
     (case ossl (X509_NAME_add_entry_by_txt (fst n) (snd n)) w of
        (ret, w') \<Rightarrow>
          if ret \<noteq> 1
          then (Inl (CertificateException (''cannot set name of certificate for field:'' @ fst n)), w')
          else (Inr (), w'))"

text \<open>A chain of \<^verbatim>\<open><<\<close> on a builder stops at the first exception.\<close>

fun builder_chain ::
  "('a \<Rightarrow> 'w \<Rightarrow> (exa_exception + unit) \<times> 'w) \<Rightarrow> 'a list \<Rightarrow> 'w \<Rightarrow> (exa_exception + unit) \<times> 'w" where
  "builder_chain add [] w = (Inr (), w)"
| "builder_chain add (x # xs) w =
     (case add x w of (Inl e, w') \<Rightarrow> (Inl e, w') | (Inr _, w') \<Rightarrow> builder_chain add xs w')"

definition cert_names :: "(string \<times> string) list" where
  "cert_names = [(''C'', ''DE''), (''CN'', ''Exasol Ag'')]"

definition cert_extensions :: "(string \<times> string) list" where
  "cert_extensions =
     [(''NID_basic_constraints'', ''critical,CA:TRUE''),
      (''NID_key_usage'', ''critical,keyCertSign,cRLSign''),
      (''NID_subject_key_identifier'', ''hash''),
      (''NID_netscape_cert_type'', ''sslCA''),
      (''NID_netscape_comment'', ''Temporary certificate for r-exasol.'')]"

definition mkcert ::
  "'w ossl \<Rightarrow> int \<Rightarrow> int \<Rightarrow> int \<Rightarrow> certificate \<Rightarrow> 'w \<Rightarrow> (exa_exception + certificate) \<times> 'w" where
  "mkcert ossl bits serial days c w =
     (case ossl EVP_PKEY_new w of (pk, w1) \<Rightarrow>
      case ossl X509_new w1 of (x, w2) \<Rightarrow>
      case ossl (RSA_generate_key_ex bits) (ossl_run ossl [RSA_new, BN_new, BN_set_word_F4] w2) of (ret, w3) \<Rightarrow>
      let w4 = ossl_run ossl [BN_free] w3 in
      if ret = 0 then (Inl (CertificateException ''Error generating RSA key.''), w4)
      else case ossl EVP_PKEY_assign_RSA w4 of (ret2, w5) \<Rightarrow>
      if ret2 = 0 then (Inl (CertificateException ''Error assigning RSA key.''), w5)
      else case builder_chain (CertNameBuilder_add ossl) cert_names
             (ossl_run ossl
                [X509_set_version 2, ASN1_INTEGER_set_serial serial, X509_gmtime_adj_notBefore 0,
                 X509_gmtime_adj_notAfter (60 * 60 * 24 * days), X509_set_pubkey,
                 X509_get_subject_name] w5) of
        (Inl e, w6) \<Rightarrow> (Inl e, w6)
      | (Inr _, w6) \<Rightarrow>
      case builder_chain (CertExtensionBuilder_add ossl) cert_extensions
             (ossl_run ossl [X509_set_issuer_name] w6) of
        (Inl e, w7) \<Rightarrow> (Inl e, w7)
      | (Inr _, w7) \<Rightarrow>
      case ossl X509_sign_md5 w7 of (ret3, w8) \<Rightarrow>
      if ret3 = 0 then (Inl (CertificateException ''Cannot create X509 signature.''), w8)
      else (Inr (c\<lparr>mX509p := x, mPkeyp := pk\<rparr>), w8))"

definition Certificate_destroy :: "'w ossl \<Rightarrow> certificate \<Rightarrow> 'w \<Rightarrow> 'w" where
  "Certificate_destroy ossl c w = ossl_run ossl [X509_free (mX509p c), EVP_PKEY_free (mPkeyp c)] w"

definition Certificate_apply :: "'w ossl \<Rightarrow> certificate \<Rightarrow> 'w \<Rightarrow> (exa_exception + unit) \<times> 'w" where
  "Certificate_apply ossl c w =
     (case ossl (SSL_CTX_use_certificate (mX509p c)) w of (r1, w1) \<Rightarrow>
      if r1 \<noteq> 1 then (Inl (CertificateException ''Error assigning certificate.''), w1)
      else case ossl (SSL_CTX_use_PrivateKey (mPkeyp c)) w1 of (r2, w2) \<Rightarrow>
      if r2 \<noteq> 1 then (Inl (CertificateException ''Error assigning private key.''), w2)
      else (Inr (), w2))"

text \<open>The exceptions are all of the certificate class, whatever OpenSSL answers.\<close>

lemma builder_chain_certificate_exn:
  assumes "\<And>x w e w'. add x w = (Inl e, w') \<Longrightarrow> \<exists>m. e = CertificateException m"
    and "builder_chain add xs w = (Inl e, w')"
  shows "\<exists>m. e = CertificateException m"
  using assms(2) by (induction xs arbitrary: w) (auto split: prod.splits sum.splits dest: assms(1))

lemma CertNameBuilder_add_exn:
  "CertNameBuilder_add ossl n w = (Inl e, w') \<Longrightarrow> \<exists>m. e = CertificateException m"
  by (auto simp: CertNameBuilder_add_def split: prod.splits if_splits)

lemma CertExtensionBuilder_add_exn:
  "CertExtensionBuilder_add ossl x w = (Inl e, w') \<Longrightarrow> \<exists>m. e = CertificateException m"
  by (auto simp: CertExtensionBuilder_add_def split: prod.splits if_splits)

lemmas name_chain_exn = builder_chain_certificate_exn [OF CertNameBuilder_add_exn]
lemmas extension_chain_exn = builder_chain_certificate_exn [OF CertExtensionBuilder_add_exn]

lemma mkcert_exn: "mkcert ossl b sr d c w = (Inl e, w') \<Longrightarrow> \<exists>m. e = CertificateException m"
  by (auto simp: mkcert_def Let_def split: prod.splits sum.splits if_splits
      intro: name_chain_exn extension_chain_exn)

lemma Certificate_apply_exn:
  "Certificate_apply ossl c w = (Inl e, w') \<Longrightarrow> \<exists>m. e = CertificateException m"
  by (auto simp: Certificate_apply_def split: prod.splits if_splits)

text \<open>A certificate that was made is valid when OpenSSL allocated its two objects.\<close>

lemma mkcert_valid:
  assumes "mkcert ossl b sr d c w = (Inr c', w')"
    and "\<forall>w. fst (ossl EVP_PKEY_new w) \<noteq> 0" and "\<forall>w. fst (ossl X509_new w) \<noteq> 0"
  shows "Certificate_isValid c'"
proof -
  obtain pk w1 where p: "ossl EVP_PKEY_new w = (pk, w1)" by fastforce
  obtain x w2 where x: "ossl X509_new w1 = (x, w2)" by fastforce
  have "c' = c\<lparr>mX509p := x, mPkeyp := pk\<rparr>"
    using assms(1) by (auto simp: mkcert_def Let_def p x split: prod.splits sum.splits if_splits)
  moreover have "pk \<noteq> 0" "x \<noteq> 0"
    using assms(2,3) p x by (metis fst_conv)+
  ultimately show ?thesis by (simp add: Certificate_isValid_def)
qed

end
