(* ===== verification/Async_Executor.thy ===== *)
theory Async_Executor
  imports Exa_Prelude
begin

text \<open>
  The asynchronous SQL execution: \<^verbatim>\<open>exa::OdbcQueryExecutor\<close>
  (\<^verbatim>\<open>odbc/odbc_query_executor.cpp\<close>) and \<^verbatim>\<open>exa::AsyncExecutorImpl\<close>
  (\<^verbatim>\<open>connection/async_executor/async_executor_impl.h\<close>).  The ODBC driver manager is the
  parameter \<open>odbc_api\<close>.  \<^verbatim>\<open>mRes\<close> has no initialiser in the source, so it is an option:
  reading \<^const>\<open>None\<close> is a read of an indeterminate value.  The background thread is a
  program counter, whose steps are those of \<^verbatim>\<open>executeAsyncQuery\<close>.
\<close>

section \<open>The ODBC query executor\<close>

record 'w odbc_api =
  api_SQLAllocHandle :: "int \<Rightarrow> 'w \<Rightarrow> (int \<times> nat option) \<times> 'w"
  api_SQLExecDirect :: "nat option \<Rightarrow> string \<Rightarrow> 'w \<Rightarrow> int \<times> 'w"
  api_SQLGetDiagRec :: "nat option \<Rightarrow> 'w \<Rightarrow> (int \<times> string \<times> int \<times> string) \<times> 'w"
  api_SQLFreeHandle :: "nat \<Rightarrow> 'w \<Rightarrow> 'w"

record odbc_session =
  mHandle :: int
  mQuery :: string

record odbc_executor =
  mOdbcSessionInfo :: odbc_session
  mStmt :: "nat option"
  mRes :: "int option"

definition sql_ok :: "int \<Rightarrow> bool" where
  "sql_ok r \<longleftrightarrow> r = 0 \<or> r = 1"

definition OdbcQueryExecutor_new :: "odbc_session \<Rightarrow> odbc_executor" where
  "OdbcQueryExecutor_new si = \<lparr>mOdbcSessionInfo = si, mStmt = None, mRes = None\<rparr>"

definition OdbcQueryExecutor_destroy :: "'w odbc_api \<Rightarrow> odbc_executor \<Rightarrow> 'w \<Rightarrow> 'w" where
  "OdbcQueryExecutor_destroy api q w =
     (case mStmt q of None \<Rightarrow> w | Some h \<Rightarrow> api_SQLFreeHandle api h w)"

definition odbc_executeAsyncQuery ::
  "'w odbc_api \<Rightarrow> odbc_executor \<Rightarrow> 'w \<Rightarrow> bool \<times> odbc_executor \<times> 'w" where
  "odbc_executeAsyncQuery api q w =
     (case api_SQLExecDirect api (mStmt q) (mQuery (mOdbcSessionInfo q)) w of
        (r, w') \<Rightarrow> (sql_ok r, q\<lparr>mRes := Some r\<rparr>, w'))"

definition initializeQueryExecutor ::
  "'w odbc_api \<Rightarrow> odbc_executor \<Rightarrow> 'w \<Rightarrow> (exa_exception + unit) \<times> odbc_executor \<times> 'w" where
  "initializeQueryExecutor api q w =
     (case api_SQLAllocHandle api (mHandle (mOdbcSessionInfo q)) w of
        ((res, h), w') \<Rightarrow>
          if \<not> sql_ok res
          then (Inl (AsyncExecutorException (''Could not allocate SQLAllocHandle ('' @ show_int res @ '')'')),
                q\<lparr>mStmt := h\<rparr>, w')
          else (Inr (), q\<lparr>mStmt := h\<rparr>, w'))"

text \<open>\<^const>\<open>None\<close>: the indeterminate \<^verbatim>\<open>mRes\<close> is read.\<close>

definition getQueryExecutorResult ::
  "'w odbc_api \<Rightarrow> odbc_executor \<Rightarrow> 'w \<Rightarrow> (string \<times> 'w) option" where
  "getQueryExecutorResult api q w =
     (case mRes q of
        None \<Rightarrow> None
      | Some r \<Rightarrow>
          if \<not> sql_ok r
          then (case api_SQLGetDiagRec api (mStmt q) w of
              ((res, sqlstate, native, msg), w') \<Rightarrow>
                if \<not> sql_ok res then Some (''Unknown ODBC error'', w')
                else Some (''Could not execute SQL: '' @ [CHR 0x27] @ sqlstate @ [CHR 0x27] @ '' ''
                        @ show_int native @ [CHR 0x27] @ '' '' @ msg @ [CHR 0x27], w'))
          else Some ([], w))"

lemma getQueryExecutorResult_empty_iff:
  "getQueryExecutorResult api q w = Some (m, w') \<Longrightarrow> m = [] \<longleftrightarrow> (\<exists>r. mRes q = Some r \<and> sql_ok r)"
  by (auto simp: getQueryExecutorResult_def split: option.splits if_splits prod.splits)

lemma getQueryExecutorResult_defined:
  "mRes q \<noteq> None \<Longrightarrow> \<exists>m w'. getQueryExecutorResult api q w = Some (m, w')"
  by (auto simp: getQueryExecutorResult_def split: prod.splits)

section \<open>The executor and its thread\<close>

datatype bg_pc =
    BgQuery            \<comment> \<open>before \<^verbatim>\<open>mQueryExecutor.executeAsyncQuery()\<close>\<close>
  | BgSetDone bool     \<comment> \<open>before \<^verbatim>\<open>mDone = true\<close>, with the local \<^verbatim>\<open>result\<close>\<close>
  | BgHandler          \<comment> \<open>before \<^verbatim>\<open>errorHandler()\<close>\<close>
  | BgEnd

datatype thread = NotJoinable | Joinable bg_pc

record async_executor =
  mDone :: bool
  mThread :: thread
  mQueryExecutor :: odbc_executor

definition AsyncExecutorImpl_new :: "odbc_session \<Rightarrow> async_executor" where
  "AsyncExecutorImpl_new si =
     \<lparr>mDone = False, mThread = NotJoinable, mQueryExecutor = OdbcQueryExecutor_new si\<rparr>"

text \<open>\<^verbatim>\<open>execute\<close>.  Assigning a thread to \<^verbatim>\<open>mThread\<close> while the thread in it is joinable calls
  \<^verbatim>\<open>std::terminate\<close>: \<^const>\<open>None\<close>.\<close>

definition async_execute ::
  "'w odbc_api \<Rightarrow> async_executor \<Rightarrow> 'w \<Rightarrow> ((exa_exception + unit) \<times> async_executor \<times> 'w) option" where
  "async_execute api a w =
     (case initializeQueryExecutor api (mQueryExecutor a) w of
        (Inl e, q, w') \<Rightarrow> Some (Inl e, a\<lparr>mQueryExecutor := q\<rparr>, w')
      | (Inr _, q, w') \<Rightarrow>
          (case mThread a of
             Joinable _ \<Rightarrow> None
           | NotJoinable \<Rightarrow>
               Some (Inr (), a\<lparr>mQueryExecutor := q, mDone := False, mThread := Joinable BgQuery\<rparr>, w')))"

definition async_isDone :: "async_executor \<Rightarrow> bool" where
  "async_isDone a = mDone a"

text \<open>One step of the background thread, \<open>handler\<close> being the error callback.\<close>

fun bg_step :: "'w odbc_api \<Rightarrow> ('w \<Rightarrow> 'w) \<Rightarrow> async_executor \<times> 'w \<Rightarrow> (async_executor \<times> 'w) option" where
  "bg_step api handler (a, w) =
     (case mThread a of
        NotJoinable \<Rightarrow> None
      | Joinable BgQuery \<Rightarrow>
          (case odbc_executeAsyncQuery api (mQueryExecutor a) w of
             (result, q, w') \<Rightarrow> Some (a\<lparr>mQueryExecutor := q, mThread := Joinable (BgSetDone result)\<rparr>, w'))
      | Joinable (BgSetDone result) \<Rightarrow>
          Some (a\<lparr>mDone := True, mThread := Joinable (if result then BgEnd else BgHandler)\<rparr>, w)
      | Joinable BgHandler \<Rightarrow> Some (a\<lparr>mThread := Joinable BgEnd\<rparr>, handler w)
      | Joinable BgEnd \<Rightarrow> None)"

declare bg_step.simps [simp del]

text \<open>The rest of the thread's run, at most three steps.\<close>

fun bg_rank :: "thread \<Rightarrow> nat" where
  "bg_rank (Joinable BgQuery) = 3"
| "bg_rank (Joinable (BgSetDone r)) = 2"
| "bg_rank (Joinable BgHandler) = 1"
| "bg_rank _ = 0"

lemma bg_step_rank: "bg_step api h (a, w) = Some (a', w') \<Longrightarrow> bg_rank (mThread a') < bg_rank (mThread a)"
  by (auto simp: bg_step.simps split: thread.splits bg_pc.splits prod.splits)

function bg_run :: "'w odbc_api \<Rightarrow> ('w \<Rightarrow> 'w) \<Rightarrow> async_executor \<Rightarrow> 'w \<Rightarrow> async_executor \<times> 'w" where
  "bg_run api h a w =
     (case bg_step api h (a, w) of None \<Rightarrow> (a, w) | Some (a', w') \<Rightarrow> bg_run api h a' w')"
  by pat_completeness auto
termination
  by (relation "measure (\<lambda>(api, h, a, w). bg_rank (mThread a))") (auto dest: bg_step_rank)

declare bg_run.simps [simp del]

text \<open>What the thread does while the main thread is elsewhere: \<open>n\<close> steps, or fewer when it has ended.  However
  far it has come, the rest of its run leads to the same end.\<close>

fun bg_advance :: "'w odbc_api \<Rightarrow> ('w \<Rightarrow> 'w) \<Rightarrow> nat \<Rightarrow> async_executor \<Rightarrow> 'w \<Rightarrow> async_executor \<times> 'w" where
  "bg_advance api h 0 a w = (a, w)"
| "bg_advance api h (Suc n) a w =
     (case bg_step api h (a, w) of None \<Rightarrow> (a, w) | Some (a', w') \<Rightarrow> bg_advance api h n a' w')"

lemma bg_run_advance: "bg_advance api h n a w = (a', w') \<Longrightarrow> bg_run api h a' w' = bg_run api h a w"
proof (induction n arbitrary: a w)
  case (Suc n)
  show ?case
  proof (cases "bg_step api h (a, w)")
    case (Some x)
    then obtain a1 w1 where x: "bg_step api h (a, w) = Some (a1, w1)" by (cases x) auto
    then have "bg_run api h a w = bg_run api h a1 w1" by (subst bg_run.simps) simp
    with Suc x show ?thesis by simp
  qed (use Suc in simp)
qed simp

text \<open>\<^verbatim>\<open>joinAndCheckResult\<close>: wait for the thread, then ask for the result.\<close>

definition joinAndCheckResult ::
  "'w odbc_api \<Rightarrow> ('w \<Rightarrow> 'w) \<Rightarrow> async_executor \<Rightarrow> 'w \<Rightarrow> (string \<times> async_executor \<times> 'w) option" where
  "joinAndCheckResult api h a w =
     (case (case mThread a of
              NotJoinable \<Rightarrow> (a, w)
            | Joinable pc \<Rightarrow> (case bg_run api h a w of (a', w') \<Rightarrow> (a'\<lparr>mThread := NotJoinable\<rparr>, w'))) of
        (a1, w1) \<Rightarrow>
          (case getQueryExecutorResult api (mQueryExecutor a1) w1 of
             None \<Rightarrow> None
           | Some (m, w2) \<Rightarrow> Some (m, a1, w2)))"

text \<open>What holds of the executor at every point of the thread's life.\<close>

fun bg_inv :: "async_executor \<Rightarrow> bool" where
  "bg_inv a =
     (case mThread a of
        NotJoinable \<Rightarrow> True
      | Joinable BgQuery \<Rightarrow> \<not> mDone a
      | Joinable (BgSetDone r) \<Rightarrow> \<not> mDone a \<and> map_option sql_ok (mRes (mQueryExecutor a)) = Some r
      | Joinable BgHandler \<Rightarrow> mDone a \<and> map_option sql_ok (mRes (mQueryExecutor a)) = Some False
      | Joinable BgEnd \<Rightarrow> mDone a \<and> mRes (mQueryExecutor a) \<noteq> None)"

lemma bg_step_inv: "bg_inv a \<Longrightarrow> bg_step api h (a, w) = Some (a', w') \<Longrightarrow> bg_inv a'"
  by (auto simp: bg_step.simps odbc_executeAsyncQuery_def
      split: thread.splits bg_pc.splits prod.splits if_splits)

lemma bg_step_joinable:
  "bg_step api h (a, w) = Some (a', w') \<Longrightarrow> \<exists>pc. mThread a' = Joinable pc"
  by (auto simp: bg_step.simps split: thread.splits bg_pc.splits prod.splits)

lemma bg_step_None: "bg_step api h (a, w) = None \<Longrightarrow> mThread a = Joinable pc \<Longrightarrow> pc = BgEnd"
  by (auto simp: bg_step.simps split: bg_pc.splits prod.splits)

lemma bg_advance_joinable:
  "bg_advance api h n a w = (a', w') \<Longrightarrow> mThread a = Joinable pc \<Longrightarrow> \<exists>pc'. mThread a' = Joinable pc'"
  by (induction n arbitrary: a w pc) (auto split: option.splits dest: bg_step_joinable)

lemma joinAndCheckResult_advance:
  assumes "mThread a = Joinable pc" and "bg_advance api h n a w = (a', w')"
  shows "joinAndCheckResult api h a' w' = joinAndCheckResult api h a w"
proof -
  obtain pc' where "mThread a' = Joinable pc'" using bg_advance_joinable [OF assms(2,1)] by blast
  then show ?thesis using assms(1) bg_run_advance [OF assms(2)] by (simp add: joinAndCheckResult_def)
qed

lemma bg_run_end:
  assumes "bg_inv a" and "mThread a = Joinable pc" and "bg_run api h a w = (a', w')"
  shows "mThread a' = Joinable BgEnd" and "mDone a'" and "mRes (mQueryExecutor a') \<noteq> None"
proof -
  have "mThread a' = Joinable BgEnd \<and> bg_inv a'"
    using assms
  proof (induction api h a w arbitrary: pc rule: bg_run.induct)
    case (1 api h a w)
    show ?case
    proof (cases "bg_step api h (a, w)")
      case None
      then show ?thesis
        using 1(2,3,4) bg_step_None [OF None, of pc] by (auto simp: bg_run.simps [of api h a w])
    next
      case (Some x)
      obtain a1 w1 where x: "x = (a1, w1)" by (cases x)
      have "bg_run api h a1 w1 = (a', w')"
        using 1(4) Some x by (simp add: bg_run.simps [of api h a w])
      moreover obtain pc1 where "mThread a1 = Joinable pc1"
        using bg_step_joinable Some x by metis
      ultimately show ?thesis
        using 1(1) [OF Some [unfolded x] refl] bg_step_inv [OF 1(2) Some [unfolded x]] by blast
    qed
  qed
  then show "mThread a' = Joinable BgEnd" "mDone a'" "mRes (mQueryExecutor a') \<noteq> None"
    by auto
qed

lemma async_execute_inv:
  "async_execute api a w = Some (Inr (), a', w') \<Longrightarrow> bg_inv a' \<and> mThread a' = Joinable BgQuery"
  by (auto simp: async_execute_def split: prod.splits sum.splits thread.splits)

lemma async_execute_new: "async_execute api (AsyncExecutorImpl_new si) w \<noteq> None"
  by (auto simp: async_execute_def AsyncExecutorImpl_new_def split: prod.splits sum.splits)

lemma async_execute_fail:
  "async_execute api (AsyncExecutorImpl_new si) w = Some (Inl e, a', w') \<Longrightarrow>
     mThread a' = NotJoinable \<and> \<not> mDone a' \<and> mRes (mQueryExecutor a') = None"
  by (auto simp: async_execute_def AsyncExecutorImpl_new_def OdbcQueryExecutor_new_def
      initializeQueryExecutor_def split: prod.splits sum.splits if_splits)

text \<open>The statement of a thread succeeds: it has, or it will whenever it is executed.  Then the error callback is
  never called, and joining gives the empty message.\<close>

fun stmt_ok :: "'w odbc_api \<Rightarrow> async_executor \<Rightarrow> bool" where
  "stmt_ok api a =
     (case mThread a of
        NotJoinable \<Rightarrow> False
      | Joinable BgQuery \<Rightarrow>
          (\<forall>w. sql_ok (fst (api_SQLExecDirect api (mStmt (mQueryExecutor a)) (mQuery (mOdbcSessionInfo (mQueryExecutor a))) w)))
      | Joinable (BgSetDone r) \<Rightarrow> r
      | Joinable BgHandler \<Rightarrow> False
      | Joinable BgEnd \<Rightarrow> map_option sql_ok (mRes (mQueryExecutor a)) = Some True)"

declare stmt_ok.simps [simp del]

lemma stmt_ok_joinable: "stmt_ok api a \<Longrightarrow> \<exists>pc. mThread a = Joinable pc \<and> pc \<noteq> BgHandler"
  by (auto simp: stmt_ok.simps split: thread.splits bg_pc.splits)

lemma bg_step_stmt_ok:
  assumes "stmt_ok api a" and "bg_inv a" and "bg_step api h (a, w) = Some (a', w')"
  shows "stmt_ok api a'"
proof -
  obtain pc where t: "mThread a = Joinable pc" using stmt_ok_joinable [OF assms(1)] by blast
  show ?thesis
  proof (cases pc)
    case BgQuery
    then have "sql_ok (fst (api_SQLExecDirect api (mStmt (mQueryExecutor a)) (mQuery (mOdbcSessionInfo (mQueryExecutor a))) w))"
      using assms(1) t by (simp add: stmt_ok.simps)
    then show ?thesis
      using assms(3) t BgQuery
      by (auto simp: stmt_ok.simps bg_step.simps odbc_executeAsyncQuery_def split: prod.splits)
  qed (use assms t in \<open>auto simp: stmt_ok.simps bg_step.simps\<close>)
qed

text \<open>What a step of such a thread does to the world: nothing, or the statement.\<close>

lemma bg_step_world:
  assumes "mThread a \<noteq> Joinable BgHandler" and "bg_step api h (a, w) = Some (a', w')"
  shows "w' = w \<or> w' = snd (api_SQLExecDirect api (mStmt (mQueryExecutor a)) (mQuery (mOdbcSessionInfo (mQueryExecutor a))) w)"
  using assms by (auto simp: bg_step.simps odbc_executeAsyncQuery_def split: thread.splits bg_pc.splits prod.splits)

lemma bg_step_session:
  "bg_step api h (a, w) = Some (a', w') \<Longrightarrow> mOdbcSessionInfo (mQueryExecutor a') = mOdbcSessionInfo (mQueryExecutor a)"
  by (auto simp: bg_step.simps odbc_executeAsyncQuery_def split: thread.splits bg_pc.splits prod.splits)

lemma bg_run_stmt_ok:
  assumes "stmt_ok api a" and "bg_inv a" and "bg_run api h a w = (a', w')"
  shows "stmt_ok api a' \<and> mThread a' = Joinable BgEnd"
  using assms
proof (induction api h a w rule: bg_run.induct)
  case (1 api h a w)
  obtain pc where t: "mThread a = Joinable pc" using 1(2) by (cases "mThread a") (auto simp: stmt_ok.simps)
  show ?case
  proof (cases "bg_step api h (a, w)")
    case None
    then have e: "a' = a" using 1(4) by (subst (asm) bg_run.simps) simp
    show ?thesis using bg_step_None [OF None t] t 1(2) unfolding e by simp
  next
    case (Some x)
    obtain a1 w1 where x: "x = (a1, w1)" by (cases x)
    have r: "bg_run api h a1 w1 = (a', w')" using 1(4) by (subst (asm) bg_run.simps) (simp add: Some x)
    show ?thesis
      using 1(1) [OF Some [unfolded x] refl] bg_step_stmt_ok(1) [OF 1(2,3) Some [unfolded x]]
        bg_step_inv [OF 1(3) Some [unfolded x]] r by blast
  qed
qed

lemma join_stmt_ok:
  assumes "stmt_ok api a" and "bg_inv a"
  shows "\<exists>a' w'. joinAndCheckResult api h a w = Some ([], a', w') \<and> async_isDone a' \<and> mThread a' = NotJoinable"
proof -
  obtain pc where t: "mThread a = Joinable pc" using assms(1) by (cases "mThread a") (auto simp: stmt_ok.simps)
  obtain a1 w1 where r: "bg_run api h a w = (a1, w1)" by fastforce
  have "stmt_ok api a1" "mThread a1 = Joinable BgEnd" using bg_run_stmt_ok [OF assms r] by simp_all
  then obtain v where "mRes (mQueryExecutor a1) = Some v" "sql_ok v" by (auto simp: stmt_ok.simps)
  then show ?thesis
    using t r bg_run_end(2) [OF assms(2) t r] by (simp add: joinAndCheckResult_def getQueryExecutorResult_def async_isDone_def)
qed

text \<open>After a successful start, joining always returns, the executor is done and the message
  is empty exactly when the statement succeeded.\<close>

lemma joinAndCheckResult_started:
  assumes "bg_inv a" and "mThread a = Joinable pc"
  shows "\<exists>m a' w'. joinAndCheckResult api h a w = Some (m, a', w') \<and> async_isDone a' \<and>
    mThread a' = NotJoinable \<and>
    (m = [] \<longleftrightarrow> (\<exists>r. mRes (mQueryExecutor a') = Some r \<and> sql_ok r))"
proof -
  obtain a1 w1 where r: "bg_run api h a w = (a1, w1)" by fastforce
  note e = bg_run_end [OF assms r]
  obtain m w2 where g: "getQueryExecutorResult api (mQueryExecutor a1) w1 = Some (m, w2)"
    using getQueryExecutorResult_defined [OF e(3), of api w1] by blast
  then show ?thesis
    using assms(2) r e getQueryExecutorResult_empty_iff [OF g]
    by (auto simp: joinAndCheckResult_def async_isDone_def)
qed

end
