(* ===== verification/Http_Header.thy ===== *)
theory Http_Header
  imports Posix_Socket Ssl_Socket
begin

text \<open>
  \<^verbatim>\<open>exa::readHttpHeader\<close> (\<^verbatim>\<open>connection/protocol/common.cpp\<close>): skip an HTTP header, one
  byte at a time, up to and including the empty line.  The loop ends only when the peer
  ends it, so it is a \<^theory_text>\<open>partial_function\<close> whose \<^const>\<open>None\<close> is "does not return"
  (or undefined behaviour).  \<open>pos\<close> and \<open>line\<close> are the variables of the source, \<open>data\<close> is
  the byte last received.
\<close>

definition HEADER_LINE_SIZE :: nat where
  "HEADER_LINE_SIZE = 4096"

partial_function (option) header_loop ::
  "'s Socket \<Rightarrow> char \<Rightarrow> nat \<Rightarrow> char list \<Rightarrow> 's \<Rightarrow> ((exa_exception + unit) \<times> 's) option" where
  "header_loop sock data pos line s =
     (if 4094 < pos
      then Some (Inl (ConnectionException ''Could not read header, line too long.''), s)
      else case sk_recv sock 1 s of
        None \<Rightarrow> None
      | Some ((len, bs), s') \<Rightarrow>
          if len \<noteq> 1
          then Some (Inl (ConnectionException ''Could not receive header''), s')
          else let data' = (case bs of [] \<Rightarrow> data | c # _ \<Rightarrow> c); pos' = pos + 1
            in case buf_write line pos [data', NUL] of
              None \<Rightarrow> None
            | Some line' \<Rightarrow>
                if data' = LF \<and> 1 < pos' \<and> line' ! (pos' - 2) = CR
                then if pos' = 2 then Some (Inr (), s')
                     else header_loop sock data' 0 (line'[0 := NUL]) s'
                else header_loop sock data' pos' line' s')"

definition readHttpHeader :: "'s Socket \<Rightarrow> 's \<Rightarrow> ((exa_exception + unit) \<times> 's) option" where
  "readHttpHeader sock s = header_loop sock NUL 0 (replicate HEADER_LINE_SIZE NUL) s"

text \<open>The headers the peer sends: non-empty lines that fit the line buffer, each ended by
  CR LF and free of that pair inside, then an empty line.\<close>

definition crlf_free :: "char list \<Rightarrow> bool" where
  "crlf_free l \<longleftrightarrow> (\<forall>i. Suc i < length l \<longrightarrow> \<not> (l ! i = CR \<and> l ! Suc i = LF))"

definition header_line_ok :: "char list \<Rightarrow> bool" where
  "header_line_ok l \<longleftrightarrow> l \<noteq> [] \<and> length l \<le> 4093 \<and> crlf_free l"

fun http_header :: "char list list \<Rightarrow> char list" where
  "http_header [] = [CR, LF]"
| "http_header (l # ls) = l @ [CR, LF] @ http_header ls"

context stream_socket
begin

text \<open>One byte that does not end a line moves it to the line buffer.\<close>

lemma header_loop_char:
  assumes v: "valid s" and i: "inb s = c # rest" and p: "pos \<le> 4094"
    and ln: "length line = 4096" and no: "\<not> (c = LF \<and> 0 < pos \<and> line ! (pos - 1) = CR)"
  obtains line' s' where "header_loop sock d pos line s = header_loop sock c (pos + 1) line' s'"
    and "valid s'" and "inb s' = rest" and "outb s' = outb s"
    and "length line' = 4096" and "take (pos + 1) line' = take pos line @ [c]"
proof -
  obtain s' where r: "sk_recv sock 1 s = Some ((1, [c]), s')" and st: "valid s'" "inb s' = rest" "outb s' = outb s"
    using recv_one [OF v i] by blast
  define line' where "line' = take pos line @ [c, NUL] @ drop (pos + 2) line"
  have w: "buf_write line pos [c, NUL] = Some line'"
    using p ln by (simp add: buf_write_def line'_def)
  have n: "line' ! (pos + 1 - 2) = line ! (pos - 1)" if "0 < pos"
    using that p ln by (cases pos) (simp_all add: line'_def nth_append)
  have "header_loop sock d pos line s = header_loop sock c (pos + 1) line' s'"
    using no p n by (subst header_loop.simps) (auto simp: r [simplified] w Let_def)
  moreover have "take (pos + 1) line' = take pos line @ [c]" "length line' = 4096"
    using p ln by (simp_all add: line'_def)
  ultimately show thesis using that st by blast
qed

text \<open>The rest of a line, up to its CR.\<close>

lemma header_loop_chars:
  assumes "valid s" and "inb s = cs @ rest" and "pos + length cs \<le> 4095"
    and "length line = 4096" and "crlf_free (take pos line @ cs)"
  shows "\<exists>d' line' s'. header_loop sock d pos line s = header_loop sock d' (pos + length cs) line' s' \<and>
    valid s' \<and> inb s' = rest \<and> outb s' = outb s \<and> length line' = 4096 \<and>
    take (pos + length cs) line' = take pos line @ cs"
  using assms
proof (induction cs arbitrary: s pos line d)
  case Nil
  then show ?case by auto
next
  case (Cons c cs)
  have pos: "pos \<le> 4094" and pl: "pos < length line"
    using Cons.prems by simp_all
  have "\<not> (c = LF \<and> 0 < pos \<and> line ! (pos - 1) = CR)"
  proof
    assume a: "c = LF \<and> 0 < pos \<and> line ! (pos - 1) = CR"
    then have "(take pos line @ c # cs) ! (pos - 1) = CR" "(take pos line @ c # cs) ! Suc (pos - 1) = LF"
      using pl by (simp_all add: nth_append)
    moreover have "Suc (pos - 1) < length (take pos line @ c # cs)"
      using a pl by simp
    ultimately show False
      using Cons.prems(5) unfolding crlf_free_def by blast
  qed
  then obtain line1 s1 where 1: "header_loop sock d pos line s = header_loop sock c (pos + 1) line1 s1"
      "valid s1" "inb s1 = cs @ rest" "outb s1 = outb s" "length line1 = 4096"
      "take (pos + 1) line1 = take pos line @ [c]"
    using header_loop_char [OF Cons.prems(1) _ pos Cons.prems(4), of c "cs @ rest" d] Cons.prems(2)
    by auto
  have "crlf_free (take (pos + 1) line1 @ cs)" "(pos + 1) + length cs \<le> 4095"
    using 1(6) Cons.prems(3,5) by simp_all
  from Cons.IH [OF 1(2,3) this(2) 1(5) this(1), of c] 1 show ?case
    by auto
qed

text \<open>The LF that ends a line: the end of the header when the line is empty.\<close>

lemma header_loop_newline:
  assumes v: "valid s" and i: "inb s = LF # rest" and p: "0 < pos" "pos \<le> 4094"
    and ln: "length line = 4096" and cr: "line ! (pos - 1) = CR"
  obtains s' where "valid s'" and "inb s' = rest" and "outb s' = outb s"
    and "pos = 1 \<Longrightarrow> header_loop sock d pos line s = Some (Inr (), s')"
    and "1 < pos \<Longrightarrow> \<exists>line'. length line' = 4096 \<and>
      header_loop sock d pos line s = header_loop sock LF 0 line' s'"
proof -
  obtain s' where r: "sk_recv sock 1 s = Some ((1, [LF]), s')" and st: "valid s'" "inb s' = rest" "outb s' = outb s"
    using recv_one [OF v i] by blast
  define line' where "line' = take pos line @ [LF, NUL] @ drop (pos + 2) line"
  have w: "buf_write line pos [LF, NUL] = Some line'" "length line' = 4096"
    using p ln by (simp_all add: buf_write_def line'_def)
  have n: "line' ! (pos + 1 - 2) = CR"
    using p ln cr by (cases pos) (simp_all add: line'_def nth_append)
  have "header_loop sock d pos line s =
      (if pos + 1 = 2 then Some (Inr (), s') else header_loop sock LF 0 (line'[0 := NUL]) s')"
    using p n by (subst header_loop.simps) (simp add: r [simplified] w(1) Let_def)
  moreover have "length (line'[0 := NUL]) = 4096"
    using w(2) by simp
  ultimately show thesis
    using that [OF st] by fastforce
qed

lemma header_loop_line:
  assumes v: "valid s" and i: "inb s = l @ [CR, LF] @ rest" and l: "header_line_ok l"
    and ln: "length line = 4096"
  shows "\<exists>d' line' s'. header_loop sock d 0 line s = header_loop sock d' 0 line' s' \<and>
    valid s' \<and> inb s' = rest \<and> outb s' = outb s \<and> length line' = 4096"
proof -
  have cf: "crlf_free (take 0 line @ (l @ [CR]))"
    using l by (auto simp: header_line_ok_def crlf_free_def nth_append less_Suc_eq)
  have len: "0 + length (l @ [CR]) \<le> 4095"
    using l by (simp add: header_line_ok_def)
  obtain d1 line1 s1 where 1: "header_loop sock d 0 line s = header_loop sock d1 (length l + 1) line1 s1"
      "valid s1" "inb s1 = LF # rest" "outb s1 = outb s" "length line1 = 4096"
      "take (length l + 1) line1 = l @ [CR]"
    using header_loop_chars [OF v _ len ln cf, of "LF # rest" d] i by auto
  have nz: "0 < length l" "length l + 1 \<le> 4094"
    using l by (auto simp: header_line_ok_def)
  have "line1 ! (length l + 1 - 1) = CR"
    using 1(6) nth_take [of "length l" "length l + 1" line1] by simp
  then show ?thesis
    using header_loop_newline [OF 1(2,3) _ nz(2) 1(5), of d1] 1 nz by fastforce
qed

lemma header_loop_header:
  assumes "valid s" and "inb s = http_header ls @ rest" and "list_all header_line_ok ls"
    and "length line = 4096"
  shows "\<exists>s'. header_loop sock d 0 line s = Some (Inr (), s') \<and> valid s' \<and> inb s' = rest \<and>
    outb s' = outb s"
  using assms
proof (induction ls arbitrary: s line d)
  case Nil
  have "crlf_free (take 0 line @ [CR])"
    by (simp add: crlf_free_def)
  then obtain d1 line1 s1 where 1: "header_loop sock d 0 line s = header_loop sock d1 1 line1 s1"
      "valid s1" "inb s1 = LF # rest" "outb s1 = outb s" "length line1 = 4096" "take 1 line1 = [CR]"
    using header_loop_chars [OF Nil.prems(1) _ _ Nil.prems(4), of "[CR]" "LF # rest" 0 d] Nil.prems(2)
    by auto
  have "line1 ! (1 - 1) = CR"
    using 1(5,6) by (cases line1) auto
  then show ?case
    using header_loop_newline [OF 1(2,3) _ _ 1(5), of 1 d1] 1 by auto
next
  case (Cons l ls)
  obtain d1 line1 s1 where 1: "header_loop sock d 0 line s = header_loop sock d1 0 line1 s1"
      "valid s1" "inb s1 = http_header ls @ rest" "outb s1 = outb s" "length line1 = 4096"
    using header_loop_line [OF Cons.prems(1) _ _ Cons.prems(4), of l "http_header ls @ rest" d] Cons.prems
    by auto
  then show ?case
    using Cons.IH [OF 1(2,3) _ 1(5), of d1] Cons.prems(3) by auto
qed

lemma readHttpHeader_consumes:
  assumes "valid s" and "inb s = http_header ls @ rest" and "list_all header_line_ok ls"
  shows "\<exists>s'. readHttpHeader sock s = Some (Inr (), s') \<and> valid s' \<and> inb s' = rest \<and>
    outb s' = outb s"
  using header_loop_header [OF assms] by (simp add: readHttpHeader_def HEADER_LINE_SIZE_def)

text \<open>Any number of lines that fit leave the loop at the beginning of the next.\<close>

lemma header_loop_lines:
  assumes "valid s" and "inb s = concat (map (\<lambda>l. l @ [CR, LF]) ls) @ rest" and "list_all header_line_ok ls"
    and "length line = 4096"
  shows "\<exists>d' line' s'. header_loop sock d 0 line s = header_loop sock d' 0 line' s' \<and>
    valid s' \<and> inb s' = rest \<and> length line' = 4096"
  using assms
proof (induction ls arbitrary: s line d)
  case (Cons l ls)
  obtain d1 line1 s1 where 1: "header_loop sock d 0 line s = header_loop sock d1 0 line1 s1"
      "valid s1" "inb s1 = concat (map (\<lambda>l. l @ [CR, LF]) ls) @ rest" "length line1 = 4096"
    using header_loop_line [OF Cons.prems(1) _ _ Cons.prems(4), of l "concat (map (\<lambda>l. l @ [CR, LF]) ls) @ rest" d] Cons.prems
    by auto
  then show ?case using Cons.IH [OF 1(2,3) _ 1(4), of d1] Cons.prems(3) by auto
qed auto

text \<open>A line that does not fit the buffer, and a stream that ends inside the header, after any lines that fit.\<close>

lemma readHttpHeader_bad_line:
  assumes "valid s" and "inb s = concat (map (\<lambda>l. l @ [CR, LF]) ls) @ l @ rest" and "list_all header_line_ok ls"
    and "length l \<le> 4095" and "crlf_free l"
  shows "\<exists>d line s'. readHttpHeader sock s = header_loop sock d (length l) line s' \<and> valid s' \<and> inb s' = rest"
proof -
  obtain d1 line1 s1 where 1: "readHttpHeader sock s = header_loop sock d1 0 line1 s1" "valid s1"
      "inb s1 = l @ rest" "length line1 = 4096"
    using header_loop_lines [OF assms(1-3), of "replicate HEADER_LINE_SIZE NUL" NUL]
    by (auto simp: readHttpHeader_def HEADER_LINE_SIZE_def)
  then show ?thesis using header_loop_chars [OF 1(2,3) _ 1(4), of 0 d1] assms(4,5) by auto
qed

lemma readHttpHeader_line_too_long:
  assumes "valid s" and "inb s = concat (map (\<lambda>l. l @ [CR, LF]) ls) @ l @ rest" and "list_all header_line_ok ls"
    and "length l = 4095" and "crlf_free l"
  shows "\<exists>s'. readHttpHeader sock s =
    Some (Inl (ConnectionException ''Could not read header, line too long.''), s') \<and> inb s' = rest"
  using readHttpHeader_bad_line [OF assms(1-3) _ assms(5)] assms(4) by (auto simp: header_loop.simps)

lemma readHttpHeader_eof:
  assumes "valid s" and "inb s = concat (map (\<lambda>l. l @ [CR, LF]) ls) @ l" and "list_all header_line_ok ls"
    and "length l \<le> 4094" and "crlf_free l"
  shows "\<exists>s'. readHttpHeader sock s =
    Some (Inl (ConnectionException ''Could not receive header''), s')"
proof -
  obtain d' line' s' where 1: "readHttpHeader sock s = header_loop sock d' (length l) line' s'"
      "valid s'" "inb s' = []"
    using readHttpHeader_bad_line [OF assms(1) _ assms(3) _ assms(5), of "[]"] assms(2,4) by auto
  obtain r bs s2 where 2: "sk_recv sock 1 s' = Some ((r, bs), s2)"
    using recv_defined [OF 1(2), of 1] by fastforce
  have "r \<noteq> 1"
    using recv_empty [OF 1(2,3) _ _ 2] by auto
  then show ?thesis
    using 1(1) assms(4) 2 by (auto simp: header_loop.simps)
qed

text \<open>Whatever the peer has sent, the loop ends: each round takes a byte off the stream.\<close>

lemma header_loop_ends:
  assumes "valid s" and "length line = 4096"
  shows "\<exists>r. header_loop sock d pos line s = Some r"
  using assms
proof (induction "inb s" arbitrary: s d pos line)
  case Nil
  obtain r bs s' where r: "sk_recv sock 1 s = Some ((r, bs), s')" using recv_defined [OF Nil(2), of 1] by fastforce
  then have "r \<noteq> 1" using recv_empty [OF Nil(2) Nil(1) [symmetric] _ _ r] by auto
  with r show ?case by (subst header_loop.simps) simp
next
  case (Cons c cs)
  obtain s' where r: "sk_recv sock 1 s = Some ((1, [c]), s')" and s': "valid s'" "inb s' = cs"
    using recv_one [OF Cons(3) Cons(2) [symmetric]] by blast
  note IH = Cons(1) [OF s'(2) [symmetric] s'(1)]
  show ?case
  proof (cases "4094 < pos")
    case False
    define line' where "line' = take pos line @ [c, NUL] @ drop (pos + 2) line"
    have w: "buf_write line pos [c, NUL] = Some line'" "length line' = 4096"
      using False Cons(4) by (simp_all add: buf_write_def line'_def)
    then have "\<exists>q. header_loop sock c 0 (line'[0 := NUL]) s' = Some q" "\<exists>q. header_loop sock c (pos + 1) line' s' = Some q"
      using IH by simp_all
    then show ?thesis using False by (subst header_loop.simps) (auto simp: r [simplified] w(1) Let_def)
  qed (subst header_loop.simps, simp)
qed

lemma readHttpHeader_ends: "valid s \<Longrightarrow> \<exists>r. readHttpHeader sock s = Some r"
  unfolding readHttpHeader_def HEADER_LINE_SIZE_def by (rule header_loop_ends) simp_all

end

end
