(* ===== verification/Http_Chunk.thy ===== *)
theory Http_Chunk
  imports Exa_Prelude
begin

text \<open>
  The transfer buffer \<^verbatim>\<open>exa::Chunk\<close> (\<^verbatim>\<open>connection/protocol/chunk.h\<close>) that reader and writer
  share, and the C library's \<^verbatim>\<open>sscanf("%x")\<close> with which the reader decodes the size
  line of an HTTP chunk.
\<close>

section \<open>The transfer buffer\<close>

definition MAX_HTTP_CHUNK_SIZE :: nat where
  "MAX_HTTP_CHUNK_SIZE = 524288"

record Chunk =
  chunk_len :: size_t
  chunk_pos :: size_t
  chunk_buf :: "char list"
  chunk_num :: size_t

definition Chunk_reset :: "Chunk \<Rightarrow> Chunk" where
  "Chunk_reset c =
     c\<lparr>chunk_len := 0, chunk_pos := 0, chunk_num := 0,
       chunk_buf := replicate MAX_HTTP_CHUNK_SIZE NUL\<rparr>"

definition Chunk_new :: Chunk where
  "Chunk_new = Chunk_reset \<lparr>chunk_len = 0, chunk_pos = 0, chunk_buf = [], chunk_num = 0\<rparr>"

definition chunk_wf :: "Chunk \<Rightarrow> bool" where
  "chunk_wf c \<longleftrightarrow> length (chunk_buf c) = MAX_HTTP_CHUNK_SIZE \<and>
     chunk_pos c \<le> chunk_len c \<and> chunk_len c \<le> MAX_HTTP_CHUNK_SIZE"

text \<open>The bytes of the buffer that were received and not yet handed to the client.\<close>

definition pending :: "Chunk \<Rightarrow> char list" where
  "pending c = take (chunk_len c - chunk_pos c) (drop (chunk_pos c) (chunk_buf c))"

lemma chunk_wf_reset [simp]: "chunk_wf (Chunk_reset c)"
  by (simp add: chunk_wf_def Chunk_reset_def)

lemma chunk_wf_new [simp]: "chunk_wf Chunk_new"
  by (simp add: Chunk_new_def)

lemma pending_reset [simp]: "pending (Chunk_reset c) = []"
  by (simp add: pending_def Chunk_reset_def)

lemma length_pending: "chunk_wf c \<Longrightarrow> length (pending c) = chunk_len c - chunk_pos c"
  by (auto simp: pending_def chunk_wf_def)

lemma size_sub_chunk:
  "chunk_wf c \<Longrightarrow> size_sub (chunk_len c) (chunk_pos c) = length (pending c)"
  by (simp add: length_pending, subst size_sub_no_wrap)
    (auto simp: chunk_wf_def MAX_HTTP_CHUNK_SIZE_def)

section \<open>\<^verbatim>\<open>sscanf\<close> with the conversion \<^verbatim>\<open>%x\<close>\<close>

text \<open>White space is skipped, then an optional sign, an optional \<^verbatim>\<open>0x\<close> prefix and the
  longest run of hexadecimal digits are read.  The digits are converted as by
  \<^verbatim>\<open>strtoul\<close> (saturating at \<open>2 ^ 64 - 1\<close>) and stored in an \<^verbatim>\<open>unsigned int\<close>.  No digit
  is a matching failure.  As in glibc, the \<^verbatim>\<open>0\<close> of a prefix counts as a digit.\<close>

definition isspace :: "char \<Rightarrow> bool" where
  "isspace c \<longleftrightarrow> c \<in> {CHR '' '', CHR 0x09, CHR 0x0A, CHR 0x0B, CHR 0x0C, CHR 0x0D}"

definition xdigit_val :: "char \<Rightarrow> nat option" where
  "xdigit_val c =
     (let n = of_char c :: nat in
      if 48 \<le> n \<and> n \<le> 57 then Some (n - 48)
      else if 65 \<le> n \<and> n \<le> 70 then Some (n - 55)
      else if 97 \<le> n \<and> n \<le> 102 then Some (n - 87)
      else None)"

definition isxdigit :: "char \<Rightarrow> bool" where
  "isxdigit c \<longleftrightarrow> xdigit_val c \<noteq> None"

definition hex_val :: "char list \<Rightarrow> nat" where
  "hex_val h = foldl (\<lambda>n c. n * 16 + (case xdigit_val c of None \<Rightarrow> 0 | Some d \<Rightarrow> d)) 0 h"

definition scan_sign :: "char list \<Rightarrow> bool \<times> char list" where
  "scan_sign s =
     (case s of [] \<Rightarrow> (False, [])
      | c # r \<Rightarrow> if c = CHR ''-'' then (True, r) else if c = CHR ''+'' then (False, r) else (False, s))"

definition scan_digits :: "char list \<Rightarrow> char list" where
  "scan_digits s =
     (case s of c # x # r \<Rightarrow>
        if c = CHR ''0'' \<and> (x = CHR ''x'' \<or> x = CHR ''X'') then c # takeWhile isxdigit r
        else takeWhile isxdigit s
      | _ \<Rightarrow> takeWhile isxdigit s)"

definition sscanf_x :: "char list \<Rightarrow> u32 option" where
  "sscanf_x s =
     (case scan_sign (dropWhile isspace s) of (neg, t) \<Rightarrow>
        let ds = scan_digits t; v = hex_val ds in
        if ds = [] then None
        else if 2 ^ 64 \<le> v then Some (- 1)
        else Some (if neg then - of_nat v else of_nat v))"

lemma isxdigit_not_space: "isxdigit c \<Longrightarrow> \<not> isspace c"
  by (auto simp: isxdigit_def isspace_def xdigit_val_def Let_def split: if_splits)

lemma isxdigit_not_sign: "isxdigit c \<Longrightarrow> c \<noteq> CHR ''-'' \<and> c \<noteq> CHR ''+''"
  by (auto simp: isxdigit_def xdigit_val_def Let_def)

lemma isxdigit_not_x: "isxdigit c \<Longrightarrow> c \<noteq> CHR ''x'' \<and> c \<noteq> CHR ''X''"
  by (auto simp: isxdigit_def xdigit_val_def Let_def)

lemma isxdigit_not_control: "isxdigit c \<Longrightarrow> c \<noteq> NUL \<and> c \<noteq> CR \<and> c \<noteq> LF"
  by (auto simp: isxdigit_def xdigit_val_def Let_def NUL_def CR_def LF_def)

lemma sscanf_x_digits:
  assumes h: "list_all isxdigit h" "h \<noteq> []" and v: "hex_val h < 2 ^ 64"
  shows "sscanf_x h = Some (of_nat (hex_val h))"
proof -
  obtain c r where hc: "h = c # r" "isxdigit c" "list_all isxdigit r"
    using h by (cases h) auto
  have tw: "takeWhile isxdigit h = h"
    using h by (auto simp: list_all_iff takeWhile_eq_all_conv)
  have "dropWhile isspace h = h"
    using hc isxdigit_not_space by simp
  moreover have "scan_sign h = (False, h)"
    using hc isxdigit_not_sign by (simp add: scan_sign_def)
  moreover have "scan_digits h = h"
    using hc tw isxdigit_not_x by (auto simp: scan_digits_def split: list.splits)
  ultimately show ?thesis
    using h v by (simp add: sscanf_x_def Let_def)
qed

text \<open>The size of a chunk as the peer writes it.\<close>

definition xdigit_char :: "nat \<Rightarrow> char" where
  "xdigit_char d = char_of (if d < 10 then 48 + d else 87 + d)"

fun show_hex :: "nat \<Rightarrow> char list" where
  "show_hex n = (if n < 16 then [xdigit_char n] else show_hex (n div 16) @ [xdigit_char (n mod 16)])"

declare show_hex.simps [simp del]

lemma xdigit_val_xdigit_char: "d < 16 \<Longrightarrow> xdigit_val (xdigit_char d) = Some d"
  by (auto simp: xdigit_val_def xdigit_char_def Let_def)

lemma isxdigit_xdigit_char: "d < 16 \<Longrightarrow> isxdigit (xdigit_char d)"
  by (simp add: isxdigit_def xdigit_val_xdigit_char)

lemma hex_val_snoc: "hex_val (h @ [c]) = hex_val h * 16 + (case xdigit_val c of None \<Rightarrow> 0 | Some d \<Rightarrow> d)"
  by (simp add: hex_val_def)

lemma hex_val_show_hex: "hex_val (show_hex n) = n"
proof (induction n rule: show_hex.induct)
  case (1 n)
  show ?case
  proof (cases "n < 16")
    case True
    then show ?thesis
      by (subst show_hex.simps) (simp add: hex_val_def xdigit_val_xdigit_char)
  next
    case False
    with 1 show ?thesis
      by (subst show_hex.simps) (simp add: hex_val_snoc xdigit_val_xdigit_char)
  qed
qed

lemma show_hex_digits: "list_all isxdigit (show_hex n) \<and> show_hex n \<noteq> []"
proof (induction n rule: show_hex.induct)
  case (1 n)
  then show ?case
    by (subst (1 2) show_hex.simps) (auto simp: isxdigit_xdigit_char)
qed

text \<open>Round trip: the size line the peer prints is the size the reader scans.\<close>

lemma sscanf_x_show_hex: "n < 2 ^ 32 \<Longrightarrow> sscanf_x (show_hex n) = Some (of_nat n)"
  using sscanf_x_digits [of "show_hex n"] show_hex_digits [of n] by (simp add: hex_val_show_hex)

lemma show_hex_length: "n < 16 ^ k \<Longrightarrow> 0 < k \<Longrightarrow> length (show_hex n) \<le> k"
proof (induction k arbitrary: n)
  case (Suc k)
  show ?case
  proof (cases "n < 16")
    case True
    then show ?thesis by (subst show_hex.simps) simp
  next
    case False
    then have "0 < k" using Suc.prems by (cases k) auto
    moreover have "n div 16 < 16 ^ k" using Suc.prems by (simp add: div_less_iff_less_mult mult.commute)
    ultimately have "length (show_hex (n div 16)) \<le> k" by (rule Suc.IH [rotated])
    with False show ?thesis by (subst show_hex.simps) simp
  qed
qed simp

end
