(* ===== verification/Http_Reader.thy ===== *)
theory Http_Reader
  imports Http_Header Http_Chunk
begin

text \<open>
  \<^verbatim>\<open>exa::reader::HttpChunkReader\<close> (\<^verbatim>\<open>protocol/http/reader/http_chunk_reader.cpp\<close>), which turns
  an HTTP/1.1 chunked body into a byte stream for R.  The object's state is the shared
  \<^typ>\<open>Chunk\<close> and the weak pointer to the socket, a \<^typ>\<open>'s option\<close> that is \<^const>\<open>None\<close>
  once the socket has expired.  \<^const>\<open>None\<close> as the result of an operation is an access
  outside a buffer.
\<close>

section \<open>The operations\<close>

datatype reader_exn = ConnectionFinished | ReaderConnectionException string

definition reader_ok_answer :: "char list" where
  "reader_ok_answer =
     ''HTTP/1.1 200 OK'' @ [CR, LF] @ ''Server: EXASolution R Package'' @ [CR, LF] @
     ''Connection: close'' @ [CR, LF, CR, LF]"

definition reader_error_answer :: "char list" where
  "reader_error_answer =
     ''HTTP/1.1 404 ERROR'' @ [CR, LF] @ ''Server: EXASolution R Package'' @ [CR, LF] @
     ''Connection: close'' @ [CR, LF, CR, LF]"

definition HttpChunkReader_new :: "Chunk \<Rightarrow> Chunk" where
  "HttpChunkReader_new c = Chunk_reset c"

text \<open>The loop that reads the size line into the buffer, up to 20 bytes.\<close>

function size_line_loop ::
  "'s Socket \<Rightarrow> nat \<Rightarrow> char list \<Rightarrow> 's \<Rightarrow> ((reader_exn + nat) \<times> char list \<times> 's) option" where
  "size_line_loop sock pos buf s =
     (if pos < 20
      then (case buf_write buf pos [NUL, NUL] of
          None \<Rightarrow> None
        | Some b1 \<Rightarrow>
            (case sk_recv sock 1 s of
               None \<Rightarrow> None
             | Some ((r, bs), s') \<Rightarrow>
                 (case buf_write b1 pos bs of
                    None \<Rightarrow> None
                  | Some b2 \<Rightarrow>
                      if r < 1 then Some (Inl ConnectionFinished, b2, s')
                      else let b3 = (if b2 ! pos = CR then b2[pos := NUL] else b2) in
                        if b3 ! pos = LF then Some (Inr pos, b3, s')
                        else size_line_loop sock (pos + 1) b3 s')))
      else Some (Inr pos, buf, s))"
  by pat_completeness auto
termination
  by (relation "measure (\<lambda>(sock, pos, buf, s). 20 - pos)") auto

declare size_line_loop.simps [simp del]

text \<open>The \<^verbatim>\<open>try\<close> block after the size line: decode the size and fetch the chunk.\<close>

definition fetch_chunk ::
  "'s Socket \<Rightarrow> Chunk \<Rightarrow> 's \<Rightarrow> ((reader_exn + ssize_t) \<times> Chunk \<times> 's) option" where
  "fetch_chunk sock c s =
     (case sscanf_x (c_str (chunk_buf c)) of
        None \<Rightarrow> Some (Inl (ReaderConnectionException ''invalid buffer size provided''), c, s)
      | Some buflen \<Rightarrow>
          if buflen = 0
          then Some (Inr 0, c, sk_shutdownWr sock (snd (sk_send sock reader_ok_answer s)))
          else if MAX_HTTP_CHUNK_SIZE < unat (buflen + 2)
          then Some (Inl (ReaderConnectionException ''Buffer received larger than max chunk size.''), c, s)
          else (case sk_recv sock (unat (buflen + 2)) s of
              None \<Rightarrow> None
            | Some ((receivedBuffer, bs), s') \<Rightarrow>
                (case buf_write (chunk_buf c) 0 bs of
                   None \<Rightarrow> None
                 | Some b \<Rightarrow>
                     if receivedBuffer < 3
                     then Some (Inl (ReaderConnectionException ''invalid buffer length''),
                                c\<lparr>chunk_buf := b\<rparr>, s')
                     else (case buf_write b (nat (receivedBuffer - 2)) [NUL] of
                         None \<Rightarrow> None
                       | Some b' \<Rightarrow>
                           let c' = \<lparr>chunk_len = size_t_of (receivedBuffer - 2), chunk_pos = 0,
                                     chunk_buf = b', chunk_num = (chunk_num c + 1) mod 2 ^ 64\<rparr>
                           in Some (Inr (ssize_t_of (chunk_len c')), c', s')))))"

definition read_chunk_body ::
  "'s Socket \<Rightarrow> Chunk \<Rightarrow> 's \<Rightarrow> ((reader_exn + ssize_t) \<times> Chunk \<times> 's) option" where
  "read_chunk_body sock c s =
     (case size_line_loop sock 0 (chunk_buf c) s of
        None \<Rightarrow> None
      | Some (Inl e, b, s1) \<Rightarrow> Some (Inl e, c\<lparr>chunk_buf := b\<rparr>, s1)
      | Some (Inr pos, b, s1) \<Rightarrow>
          if 19 < pos
          then Some (Inl (ReaderConnectionException ''buffer length exceed size''),
                     c\<lparr>chunk_buf := b\<rparr>, s1)
          else (case buf_write b pos [NUL] of
              None \<Rightarrow> None
            | Some b' \<Rightarrow>
                if b' ! 0 = NUL then Some (Inl ConnectionFinished, c\<lparr>chunk_buf := b'\<rparr>, s1)
                else fetch_chunk sock (c\<lparr>chunk_buf := b'\<rparr>) s1))"

definition closeSocketWithError :: "'s Socket \<Rightarrow> 's option \<Rightarrow> 's option" where
  "closeSocketWithError sock so =
     (case so of None \<Rightarrow> None
      | Some s \<Rightarrow> Some (sk_shutdownWr sock (snd (sk_send sock reader_error_answer s))))"

definition read_next_chunk ::
  "'s Socket \<Rightarrow> Chunk \<Rightarrow> 's option \<Rightarrow> (ssize_t \<times> Chunk \<times> 's option) option" where
  "read_next_chunk sock c so =
     (case so of
        None \<Rightarrow> Some (- 1, c, closeSocketWithError sock None)
      | Some s \<Rightarrow>
          (case read_chunk_body sock c s of
             None \<Rightarrow> None
           | Some (Inl e, c', s') \<Rightarrow> Some (- 1, c', closeSocketWithError sock (Some s'))
           | Some (Inr retVal, c', s') \<Rightarrow> Some (retVal, c', Some s')))"

lemma read_next_chunk_len:
  assumes "read_next_chunk sock c so = Some (r, c', so')" and "0 < r"
  shows "int (chunk_len c') = r"
  using assms
  by (auto simp: read_next_chunk_def read_chunk_body_def fetch_chunk_def Let_def ssize_t_of_pos
      split: option.splits sum.splits prod.splits if_splits)

function read_next_loop ::
  "'s Socket \<Rightarrow> Chunk \<Rightarrow> 's option \<Rightarrow> size_t \<Rightarrow> size_t \<Rightarrow> char list \<Rightarrow> ssize_t \<Rightarrow>
     (ssize_t \<times> char list \<times> Chunk \<times> 's option) option" where
  "read_next_loop sock c so buflen rest_chunk out retlen =
     (if buflen \<le> rest_chunk
      then (case buf_read (chunk_buf c) (chunk_pos c) buflen of
          None \<Rightarrow> None
        | Some bs \<Rightarrow>
            Some (retlen + int buflen, out @ bs, c\<lparr>chunk_pos := chunk_pos c + buflen\<rparr>, so))
      else (case buf_read (chunk_buf c) (chunk_pos c) rest_chunk of
          None \<Rightarrow> None
        | Some bs \<Rightarrow>
            (case read_next_chunk sock c so of
               None \<Rightarrow> None
             | Some (readlen, c', so') \<Rightarrow>
                 if readlen = 0 then Some (retlen + int rest_chunk, out @ bs, c', so')
                 else if readlen < 0 then Some (- 1, out @ bs, c', so')
                 else read_next_loop sock c' so' (buflen - rest_chunk) (chunk_len c')
                        (out @ bs) (retlen + int rest_chunk))))"
  by pat_completeness auto
termination
  by (relation "measure (\<lambda>(sock, c, so, buflen, rest, out, retlen). 2 * buflen + (if rest = 0 then 1 else 0))")
    (auto dest: read_next_chunk_len)

declare read_next_loop.simps [simp del]

definition read_next ::
  "'s Socket \<Rightarrow> Chunk \<Rightarrow> 's option \<Rightarrow> size_t \<Rightarrow> (ssize_t \<times> char list \<times> Chunk \<times> 's option) option" where
  "read_next sock c so buflen =
     read_next_loop sock c so buflen (size_sub (chunk_len c) (chunk_pos c)) [] 0"

definition reader_pipe_read ::
  "'s Socket \<Rightarrow> Chunk \<Rightarrow> 's option \<Rightarrow> size_t \<Rightarrow> size_t \<Rightarrow>
     (size_t \<times> char list \<times> Chunk \<times> 's option) option" where
  "reader_pipe_read sock c so sz nitems =
     (case read_next sock c so (size_mul sz nitems) of
        None \<Rightarrow> None
      | Some (rlen, out, c', so') \<Rightarrow>
          if 0 < rlen
          then (if sz = 0 then None else Some (size_t_of rlen div sz, out, c', so'))
          else Some (size_t_of rlen, out, c', so'))"

definition reader_fgetc ::
  "'s Socket \<Rightarrow> Chunk \<Rightarrow> 's option \<Rightarrow> (int \<times> Chunk \<times> 's option) option" where
  "reader_fgetc sock c so =
     (let take_byte = (\<lambda>c so. case buf_read (chunk_buf c) (chunk_pos c) 1 of
            Some [b] \<Rightarrow> Some (int_of_char b, c\<lparr>chunk_pos := chunk_pos c + 1\<rparr>, so)
          | _ \<Rightarrow> None)
      in if size_sub (chunk_len c) (chunk_pos c) < 1
         then (case read_next_chunk sock c so of
             None \<Rightarrow> None
           | Some (r, c', so') \<Rightarrow> if r < 1 then Some (- 1, c', so') else take_byte c' so')
         else take_byte c so)"

definition reader_start :: "'s Socket \<Rightarrow> 's option \<Rightarrow> ((exa_exception + unit) \<times> 's option) option" where
  "reader_start sock so =
     (case so of
        None \<Rightarrow> Some (Inl (ConnectionException ''socket invalid''), None)
      | Some s \<Rightarrow> (case readHttpHeader sock s of None \<Rightarrow> None | Some (r, s') \<Rightarrow> Some (r, Some s')))"

end
