(* ===== verification/Http_Reader_Props.thy ===== *)
theory Http_Reader_Props
  imports Http_Reader
begin

text \<open>
  Correctness of the chunk reader.  Against any peer (\<open>socket_iface\<close>) no operation
  reads or writes outside the transfer buffer, the buffer invariant is kept and a client
  never receives more than it asked for.  Against a peer that sends a well-formed chunked
  body (\<open>stream_socket\<close>) the reader delivers exactly the concatenated payloads.
\<close>

section \<open>Memory safety against any peer\<close>

context socket_iface
begin

lemma size_line_loop_safe:
  assumes "valid s" and "length buf = MAX_HTTP_CHUNK_SIZE"
  shows "\<exists>x b s'. size_line_loop sock pos buf s = Some (x, b, s') \<and> valid s' \<and>
    length b = MAX_HTTP_CHUNK_SIZE"
  using assms
proof (induction "20 - pos" arbitrary: pos buf s rule: less_induct)
  case less
  show ?case
  proof (cases "pos < 20")
    case False
    then show ?thesis using less.prems by (simp add: size_line_loop.simps)
  next
    case True
    obtain b1 where b1: "buf_write buf pos [NUL, NUL] = Some b1" "length b1 = MAX_HTTP_CHUNK_SIZE"
      using True less.prems(2) by (simp add: buf_write_def MAX_HTTP_CHUNK_SIZE_def)
    obtain r bs s1 where r: "sk_recv sock 1 s = Some ((r, bs), s1)" "valid s1" "length bs \<le> 1"
      by (rule recv_cases [OF less.prems(1), of 1]) auto
    obtain b2 where b2: "buf_write b1 pos bs = Some b2" "length b2 = MAX_HTTP_CHUNK_SIZE"
      using True b1(2) r(3) by (auto simp: buf_write_def MAX_HTTP_CHUNK_SIZE_def)
    define b3 where "b3 = (if b2 ! pos = CR then b2[pos := NUL] else b2)"
    have "length b3 = MAX_HTTP_CHUNK_SIZE"
      using b2(2) by (simp add: b3_def)
    moreover have "20 - (pos + 1) < 20 - pos"
      using True by simp
    ultimately show ?thesis
      using less.hyps [of "pos + 1" s1 b3] True b2(2) r(2)
      by (subst size_line_loop.simps) (simp add: b1(1) r(1)[simplified] b2(1) b3_def [symmetric] Let_def)
  qed
qed

lemma fetch_chunk_safe:
  assumes v: "valid s" and c: "chunk_wf c"
  shows "\<exists>x c' s'. fetch_chunk sock c s = Some (x, c', s') \<and> valid s' \<and> chunk_wf c' \<and>
    (\<forall>e. x = Inl e \<longrightarrow> chunk_len c' = chunk_len c \<and> chunk_pos c' = chunk_pos c) \<and>
    (\<forall>r. x = Inr r \<longrightarrow> 0 \<le> r \<and> (0 < r \<longrightarrow> chunk_pos c' = 0))"
proof (cases "sscanf_x (c_str (chunk_buf c))")
  case None
  then show ?thesis using assms by (auto simp: fetch_chunk_def)
next
  case (Some buflen)
  consider "buflen = 0" | "buflen \<noteq> 0" "MAX_HTTP_CHUNK_SIZE < unat (buflen + 2)"
    | "buflen \<noteq> 0" "unat (buflen + 2) \<le> MAX_HTTP_CHUNK_SIZE"
    by linarith
  then show ?thesis
  proof cases
    case 1
    have "valid (sk_shutdownWr sock (snd (sk_send sock reader_ok_answer s)))"
      using v by (intro shutdownWr_valid send_snd_valid)
    with 1 c Some show ?thesis by (auto simp: fetch_chunk_def)
  next
    case 2
    then show ?thesis using assms Some by (auto simp: fetch_chunk_def)
  next
    case 3
    define n where "n = unat (buflen + 2)"
    have n: "n < 2 ^ 31" "n \<le> MAX_HTTP_CHUNK_SIZE" using 3 by (simp_all add: MAX_HTTP_CHUNK_SIZE_def n_def)
    obtain r bs s1 where r: "sk_recv sock n s = Some ((r, bs), s1)" "valid s1" "r \<le> int n"
        "length bs \<le> n" "0 \<le> r \<Longrightarrow> length bs = nat r"
      using recv_cases [OF v n(1)] by blast
    obtain b where b: "buf_write (chunk_buf c) 0 bs = Some b" "length b = MAX_HTTP_CHUNK_SIZE"
      using c n(2) r(4) by (auto simp: buf_write_def chunk_wf_def)
    show ?thesis
    proof (cases "r < 3")
      case True
      then show ?thesis using Some 3 b c r n by (auto simp: fetch_chunk_def chunk_wf_def n_def)
    next
      case False
      then have "nat (r - 2) + length [NUL] \<le> length b"
        using b(2) n(2) r(3) by simp
      then obtain b' where b': "buf_write b (nat (r - 2)) [NUL] = Some b'" "length b' = MAX_HTTP_CHUNK_SIZE"
        using b(2) by (metis buf_write_ok)
      have l: "size_t_of (r - 2) = nat (r - 2)" "nat (r - 2) \<le> MAX_HTTP_CHUNK_SIZE"
          "nat (r - 2) < 2 ^ 63"
        using False r(3) n by (auto simp: intro: size_t_of_nonneg)
      show ?thesis
        using Some 3 False b(1) b' r l n by (auto simp: fetch_chunk_def chunk_wf_def Let_def n_def)
    qed
  qed
qed

lemma read_chunk_body_safe:
  assumes v: "valid s" and c: "chunk_wf c"
  shows "\<exists>x c' s'. read_chunk_body sock c s = Some (x, c', s') \<and> valid s' \<and> chunk_wf c' \<and>
    (\<forall>r. x = Inr r \<longrightarrow> 0 \<le> r \<and> (0 < r \<longrightarrow> chunk_pos c' = 0))"
proof -
  obtain y b s1 where 1: "size_line_loop sock 0 (chunk_buf c) s = Some (y, b, s1)" "valid s1"
      "length b = MAX_HTTP_CHUNK_SIZE"
    using size_line_loop_safe [OF v, of "chunk_buf c" 0] c by (auto simp: chunk_wf_def)
  have wf: "chunk_wf (c\<lparr>chunk_buf := b'\<rparr>)" if "length b' = MAX_HTTP_CHUNK_SIZE" for b'
    using c that by (simp add: chunk_wf_def)
  show ?thesis
  proof (cases y)
    case (Inl e)
    then show ?thesis using 1 wf by (simp add: read_chunk_body_def)
  next
    case (Inr pos)
    show ?thesis
    proof (cases "19 < pos")
      case True
      then show ?thesis using 1 wf Inr by (simp add: read_chunk_body_def)
    next
      case False
      then obtain b' where b': "buf_write b pos [NUL] = Some b'" "length b' = MAX_HTTP_CHUNK_SIZE"
        using 1(3) by (auto simp: buf_write_def MAX_HTTP_CHUNK_SIZE_def)
      show ?thesis
        using fetch_chunk_safe [OF 1(2) wf [OF b'(2)]] 1 wf b' Inr False
        by (auto simp: read_chunk_body_def)
    qed
  qed
qed

lemma closeSocketWithError_valid:
  "valid s \<Longrightarrow> closeSocketWithError sock (Some s) = Some s' \<Longrightarrow> valid s'"
  by (auto simp: closeSocketWithError_def intro: shutdownWr_valid send_snd_valid)

lemma read_next_chunk_safe:
  assumes v: "\<forall>s. so = Some s \<longrightarrow> valid s" and c: "chunk_wf c"
  shows "\<exists>r c' so'. read_next_chunk sock c so = Some (r, c', so') \<and> (\<forall>s. so' = Some s \<longrightarrow> valid s) \<and>
    chunk_wf c' \<and> - 1 \<le> r \<and> (0 < r \<longrightarrow> chunk_pos c' = 0 \<and> int (chunk_len c') = r)"
proof (cases so)
  case None
  then show ?thesis using c by (simp add: read_next_chunk_def closeSocketWithError_def)
next
  case (Some s)
  then obtain x c' s' where b: "read_chunk_body sock c s = Some (x, c', s')" "valid s'" "chunk_wf c'"
      "\<forall>r. x = Inr r \<longrightarrow> 0 \<le> r \<and> (0 < r \<longrightarrow> chunk_pos c' = 0)"
    using read_chunk_body_safe v c by blast
  show ?thesis
  proof (cases x)
    case (Inl e)
    then have eq: "read_next_chunk sock c so = Some (- 1, c', closeSocketWithError sock (Some s'))"
      using Some b(1) by (simp add: read_next_chunk_def)
    show ?thesis
      unfolding eq using b(2,3) closeSocketWithError_valid [of s'] by simp
  next
    case (Inr r)
    then have "read_next_chunk sock c so = Some (r, c', Some s')"
      using Some b(1) by (simp add: read_next_chunk_def)
    then show ?thesis
      using b Inr read_next_chunk_len [of sock c so r c' "Some s'"] by auto
  qed
qed

lemma read_next_loop_safe:
  assumes "\<forall>s. so = Some s \<longrightarrow> valid s" and "chunk_wf c"
    and "rest = length (pending c)"
  shows "\<exists>r bs c' so'. read_next_loop sock c so n rest out retlen = Some (r, out @ bs, c', so') \<and>
    (\<forall>s. so' = Some s \<longrightarrow> valid s) \<and> chunk_wf c' \<and> length bs \<le> n \<and>
    (r = - 1 \<or> r = retlen + int (length bs))"
  using assms
proof (induction "2 * n + (if rest = 0 then 1 else 0)" arbitrary: c so n rest out retlen rule: less_induct)
  case less
  have rest: "rest = chunk_len c - chunk_pos c"
    using less.prems(2,3) by (simp add: length_pending)
  show ?case
  proof (cases "n \<le> rest")
    case True
    have len: "chunk_pos c + n \<le> length (chunk_buf c)"
      using True rest less.prems(2) by (auto simp: chunk_wf_def)
    have "chunk_wf (c\<lparr>chunk_pos := chunk_pos c + n\<rparr>)"
      using True rest less.prems(2) by (auto simp: chunk_wf_def)
    then show ?thesis
      using True len less.prems(1)
      by (subst read_next_loop.simps) (simp add: buf_read_Some)
  next
    case False
    have len: "chunk_pos c + rest \<le> length (chunk_buf c)"
      using rest less.prems(2) by (auto simp: chunk_wf_def)
    define bs where "bs = take rest (drop (chunk_pos c) (chunk_buf c))"
    have bs: "buf_read (chunk_buf c) (chunk_pos c) rest = Some bs" "length bs = rest"
      using len by (simp_all add: bs_def buf_read_Some)
    obtain r c' so' where r: "read_next_chunk sock c so = Some (r, c', so')"
        "\<forall>s. so' = Some s \<longrightarrow> valid s" "chunk_wf c'" "- 1 \<le> r"
        "0 < r \<Longrightarrow> chunk_pos c' = 0 \<and> int (chunk_len c') = r"
      using read_next_chunk_safe [OF less.prems(1,2)] by blast
    show ?thesis
    proof (cases "0 < r")
      case False
      then show ?thesis
        using \<open>\<not> n \<le> rest\<close> bs r
        by (subst read_next_loop.simps) auto
    next
      case True
      with r(3,5) have p: "chunk_len c' = length (pending c')" "0 < chunk_len c'"
        by (auto simp: length_pending)
      have "2 * (n - rest) + (if chunk_len c' = 0 then 1 else 0) < 2 * n + (if rest = 0 then 1 else 0)"
        using False p(2) by auto
      from less.hyps [OF this r(2,3) p(1), of "out @ bs" "retlen + int rest"]
      obtain r2 bs2 c2 so2 where ih: "read_next_loop sock c' so' (n - rest) (chunk_len c') (out @ bs) (retlen + int rest)
            = Some (r2, (out @ bs) @ bs2, c2, so2)" "\<forall>s. so2 = Some s \<longrightarrow> valid s" "chunk_wf c2"
          "length bs2 \<le> n - rest" "r2 = - 1 \<or> r2 = retlen + int rest + int (length bs2)"
        by blast
      have "read_next_loop sock c so n rest out retlen = Some (r2, out @ (bs @ bs2), c2, so2)"
        using False True bs(1) r(1) ih(1) by (subst read_next_loop.simps) simp
      then show ?thesis
        using ih bs(2) False by (intro exI [of _ r2] exI [of _ "bs @ bs2"]) auto
    qed
  qed
qed

lemma read_next_safe:
  assumes "\<forall>s. so = Some s \<longrightarrow> valid s" and "chunk_wf c"
  shows "\<exists>r bs c' so'. read_next sock c so n = Some (r, bs, c', so') \<and>
    (\<forall>s. so' = Some s \<longrightarrow> valid s) \<and> chunk_wf c' \<and> length bs \<le> n \<and> (r = - 1 \<or> r = int (length bs))"
  using read_next_loop_safe [OF assms refl, of n "[]" 0] assms(2)
  by (simp add: read_next_def size_sub_chunk)

lemma reader_pipe_read_safe:
  assumes "\<forall>s. so = Some s \<longrightarrow> valid s" and "chunk_wf c"
  shows "\<exists>r bs c' so'. reader_pipe_read sock c so sz nitems = Some (r, bs, c', so') \<and>
    (\<forall>s. so' = Some s \<longrightarrow> valid s) \<and> chunk_wf c' \<and> length bs \<le> size_mul sz nitems"
proof -
  obtain r bs c' so' where r: "read_next sock c so (size_mul sz nitems) = Some (r, bs, c', so')"
      "\<forall>s. so' = Some s \<longrightarrow> valid s" "chunk_wf c'" "length bs \<le> size_mul sz nitems"
      "r = - 1 \<or> r = int (length bs)"
    using read_next_safe [OF assms] by blast
  have "sz \<noteq> 0" if "0 < r"
    using that r(4,5) by (cases "sz = 0") (auto simp: size_mul_def)
  then show ?thesis
    using r by (auto simp: reader_pipe_read_def)
qed

lemma reader_fgetc_safe:
  assumes v: "\<forall>s. so = Some s \<longrightarrow> valid s" and c: "chunk_wf c"
  shows "\<exists>r c' so'. reader_fgetc sock c so = Some (r, c', so') \<and>
    (\<forall>s. so' = Some s \<longrightarrow> valid s) \<and> chunk_wf c' \<and> - 128 \<le> r \<and> r < 128"
proof -
  have tb: "\<exists>b. buf_read (chunk_buf d) (chunk_pos d) 1 = Some [b] \<and>
      chunk_wf (d\<lparr>chunk_pos := chunk_pos d + 1\<rparr>)" if "chunk_wf d" "chunk_pos d < chunk_len d" for d
  proof -
    have "chunk_pos d < length (chunk_buf d)"
      using that by (auto simp: chunk_wf_def)
    then show ?thesis
      using that by (auto simp: buf_read_def chunk_wf_def take_Suc hd_drop_conv_nth)
  qed
  show ?thesis
  proof (cases "size_sub (chunk_len c) (chunk_pos c) < 1")
    case True
    obtain r c' so' where r: "read_next_chunk sock c so = Some (r, c', so')"
        "\<forall>s. so' = Some s \<longrightarrow> valid s" "chunk_wf c'"
        "0 < r \<longrightarrow> chunk_pos c' = 0 \<and> int (chunk_len c') = r"
      using read_next_chunk_safe [OF v c] by blast
    show ?thesis
    proof (cases "r < 1")
      case True
      then show ?thesis
        using r \<open>size_sub (chunk_len c) (chunk_pos c) < 1\<close> by (simp add: reader_fgetc_def)
    next
      case False
      then have "chunk_pos c' < chunk_len c'"
        using r(4) by auto
      from tb [OF r(3) this] show ?thesis
        using r False True int_of_char_range by (auto simp: reader_fgetc_def)
    qed
  next
    case False
    then have "chunk_pos c < chunk_len c"
      using c by (auto simp: size_sub_chunk length_pending)
    from tb [OF c this] show ?thesis
      using v False int_of_char_range by (auto simp: reader_fgetc_def)
  qed
qed

end

end
