(* ===== verification/Http_Reader_Stream.thy ===== *)
theory Http_Reader_Stream
  imports Http_Reader_Props
begin

text \<open>
  The reader against a peer that sends a well-formed chunked body: the functional
  behaviour of every operation in terms of the bytes still to be delivered.
\<close>

section \<open>The chunked body of a well-behaved peer\<close>

text \<open>A chunk is its size line \<open>h\<close> and its payload \<open>d\<close>; the body ends with a line of
  size zero.\<close>

type_synonym http_chunk = "char list \<times> char list"

definition size_line_ok :: "char list \<Rightarrow> nat \<Rightarrow> bool" where
  "size_line_ok h n \<longleftrightarrow> list_all isxdigit h \<and> h \<noteq> [] \<and> length h \<le> 18 \<and> hex_val h = n"

definition http_chunk_ok :: "http_chunk \<Rightarrow> bool" where
  "http_chunk_ok ck \<longleftrightarrow> size_line_ok (fst ck) (length (snd ck)) \<and> snd ck \<noteq> [] \<and>
     length (snd ck) + 2 \<le> MAX_HTTP_CHUNK_SIZE"

definition encode_chunk :: "http_chunk \<Rightarrow> char list" where
  "encode_chunk ck = fst ck @ [CR, LF] @ snd ck @ [CR, LF]"

definition encode_body :: "http_chunk list \<Rightarrow> char list \<Rightarrow> char list" where
  "encode_body cs h0 = concat (map encode_chunk cs) @ h0 @ [CR, LF]"

text \<open>The bytes a reader has still to deliver: those left in its buffer, then the payloads
  of the chunks the peer has still to send.\<close>

definition delivers :: "('s \<Rightarrow> char list) \<Rightarrow> Chunk \<Rightarrow> 's \<Rightarrow> char list \<Rightarrow> bool" where
  "delivers inb c s avail \<longleftrightarrow> chunk_wf c \<and>
     (\<exists>cs h0 rest. inb s = encode_body cs h0 @ rest \<and> list_all http_chunk_ok cs \<and>
        size_line_ok h0 0 \<and> avail = pending c @ concat (map snd cs))"

lemma encode_body_Cons: "encode_body (ck # cs) h0 = encode_chunk ck @ encode_body cs h0"
  by (simp add: encode_body_def)

lemma pending_whole: "chunk_pos c = 0 \<Longrightarrow> pending c = take (chunk_len c) (chunk_buf c)"
  by (simp add: pending_def)

lemma delivers_wf: "delivers inb c s avail \<Longrightarrow> chunk_wf c"
  by (simp add: delivers_def)

lemma pending_advance:
  assumes "chunk_wf c" and "n \<le> length (pending c)"
  shows "pending (c\<lparr>chunk_pos := chunk_pos c + n\<rparr>) = drop n (pending c)"
    and "chunk_wf (c\<lparr>chunk_pos := chunk_pos c + n\<rparr>)"
    and "buf_read (chunk_buf c) (chunk_pos c) n = Some (take n (pending c))"
  using assms length_pending [OF assms(1)]
  by (auto simp: pending_def chunk_wf_def buf_read_def drop_take min_def add.commute)

lemma delivers_advance:
  assumes "delivers inb c s avail" and "n \<le> length (pending c)"
  shows "delivers inb (c\<lparr>chunk_pos := chunk_pos c + n\<rparr>) s (drop n avail)"
proof -
  obtain cs h0 rest where cs: "inb s = encode_body cs h0 @ rest" "list_all http_chunk_ok cs"
      "size_line_ok h0 0" "avail = pending c @ concat (map snd cs)" "chunk_wf c"
    using assms(1) by (auto simp: delivers_def)
  have "drop n avail = drop n (pending c) @ concat (map snd cs)"
    using cs(4) assms(2) by simp
  with cs(1-3) show ?thesis
    using pending_advance [OF cs(5) assms(2)] unfolding delivers_def by auto
qed

lemma delivers_pending_prefix:
  "delivers inb c s avail \<Longrightarrow> \<exists>rest. avail = pending c @ rest"
  by (auto simp: delivers_def)

context stream_socket
begin

lemma size_line_step:
  assumes v: "valid s" and i: "inb s = c # rest" and p: "pos < 20"
    and b: "length buf = MAX_HTTP_CHUNK_SIZE"
  obtains b' s' where "valid s'" and "inb s' = rest" and "outb s' = outb s"
    and "length b' = MAX_HTTP_CHUNK_SIZE" and "take pos b' = take pos buf"
    and "c = LF \<Longrightarrow> size_line_loop sock pos buf s = Some (Inr pos, b', s')"
    and "c \<noteq> LF \<Longrightarrow> size_line_loop sock pos buf s = size_line_loop sock (pos + 1) b' s'"
    and "take (pos + 1) b' = take pos buf @ [if c = CR then NUL else c]"
proof -
  obtain s' where r: "sk_recv sock 1 s = Some ((1, [c]), s')" and st: "valid s'" "inb s' = rest" "outb s' = outb s"
    using recv_one [OF v i] by blast
  define b1 where "b1 = take pos buf @ [NUL, NUL] @ drop (pos + 2) buf"
  define b2 where "b2 = take pos buf @ [c, NUL] @ drop (pos + 2) buf"
  have len: "pos + 2 \<le> length buf" "pos < length buf"
    using p b by (simp_all add: MAX_HTTP_CHUNK_SIZE_def)
  have w1: "buf_write buf pos [NUL, NUL] = Some b1"
    using len by (simp add: buf_write_def b1_def)
  have w2: "buf_write b1 pos [c] = Some b2"
    using len by (simp add: buf_write_def b1_def b2_def)
  have n2: "b2 ! pos = c" "length b2 = MAX_HTTP_CHUNK_SIZE"
    using len b by (simp_all add: b2_def nth_append)
  define b3 where "b3 = (if c = CR then b2[pos := NUL] else b2)"
  have n3: "b3 ! pos = (if c = CR then NUL else c)" "length b3 = MAX_HTTP_CHUNK_SIZE"
    using n2 len b by (simp_all add: b3_def)
  have "take pos b2 = take pos buf"
    using len by (simp add: b2_def)
  then have "take pos b3 = take pos buf"
    by (simp add: b3_def)
  note n3 = n3 this
  have t3: "take (pos + 1) b3 = take pos buf @ [if c = CR then NUL else c]"
    using n3 len b take_Suc_conv_app_nth [of pos b3] by simp
  have "size_line_loop sock pos buf s =
      (if (if c = CR then NUL else c) = LF then Some (Inr pos, b3, s') else size_line_loop sock (pos + 1) b3 s')"
    using p n2 n3 by (subst size_line_loop.simps)
      (simp add: w1 r [simplified] w2 Let_def b3_def [symmetric] split del: if_split)
  then show thesis
    using that [OF st n3(2,3) _ _ t3] by auto
qed

lemma size_line_chars:
  assumes "valid s" and "inb s = cs @ rest" and "pos + length cs \<le> 20"
    and "length buf = MAX_HTTP_CHUNK_SIZE" and "LF \<notin> set cs"
  shows "\<exists>b' s'. size_line_loop sock pos buf s = size_line_loop sock (pos + length cs) b' s' \<and>
    valid s' \<and> inb s' = rest \<and> outb s' = outb s \<and> length b' = MAX_HTTP_CHUNK_SIZE \<and>
    take (pos + length cs) b' = take pos buf @ map (\<lambda>c. if c = CR then NUL else c) cs"
  using assms
proof (induction cs arbitrary: s pos buf)
  case Nil
  then show ?case by auto
next
  case (Cons c cs)
  have p: "pos < 20" and c: "c \<noteq> LF" using Cons.prems by auto
  have i: "inb s = c # cs @ rest" using Cons.prems(2) by simp
  obtain b1 s1 where 1: "size_line_loop sock pos buf s = size_line_loop sock (pos + 1) b1 s1"
      "valid s1" "inb s1 = cs @ rest" "outb s1 = outb s" "length b1 = MAX_HTTP_CHUNK_SIZE"
      "take (pos + 1) b1 = take pos buf @ [if c = CR then NUL else c]"
    using size_line_step [OF Cons.prems(1) i p Cons.prems(4)] c by metis
  have "(pos + 1) + length cs \<le> 20" "LF \<notin> set cs"
    using Cons.prems by auto
  from Cons.IH [OF 1(2,3) this(1) 1(5) this(2)] 1 show ?case
    by auto
qed

lemma size_line_read:
  assumes v: "valid s" and i: "inb s = h @ [CR, LF] @ rest" and h: "size_line_ok h n"
    and b: "length buf = MAX_HTTP_CHUNK_SIZE"
  obtains b' s' where "size_line_loop sock 0 buf s = Some (Inr (length h + 1), b', s')"
    and "valid s'" and "inb s' = rest" and "outb s' = outb s" and "length b' = MAX_HTTP_CHUNK_SIZE"
    and "take (length h + 1) b' = h @ [NUL]"
proof -
  have hx: "\<forall>c \<in> set h. c \<noteq> LF \<and> c \<noteq> CR" "length h \<le> 18"
    using h isxdigit_not_control by (auto simp: size_line_ok_def list_all_iff)
  have m: "map (\<lambda>c. if c = CR then NUL else c) (h @ [CR]) = h @ [NUL]"
    using hx(1) by (auto intro: map_idI)
  have "0 + length (h @ [CR]) \<le> 20" "LF \<notin> set (h @ [CR])"
    using hx by auto
  from size_line_chars [OF v _ this(1) b this(2), of "LF # rest"] i m
  obtain b1 s1 where 1: "size_line_loop sock 0 buf s = size_line_loop sock (length h + 1) b1 s1"
      "valid s1" "inb s1 = LF # rest" "outb s1 = outb s" "length b1 = MAX_HTTP_CHUNK_SIZE"
      "take (length h + 1) b1 = h @ [NUL]"
    by auto
  have "length h + 1 < 20" using hx by simp
  from size_line_step [OF 1(2,3) this 1(5)] 1 that show thesis
    by metis
qed

lemma read_chunk_body_line:
  assumes v: "valid s" and i: "inb s = h @ [CR, LF] @ rest" and h: "size_line_ok h n"
    and c: "chunk_wf c"
  obtains b s' where "read_chunk_body sock c s = fetch_chunk sock (c\<lparr>chunk_buf := b\<rparr>) s'"
    and "valid s'" and "inb s' = rest" and "outb s' = outb s" and "length b = MAX_HTTP_CHUNK_SIZE"
    and "c_str b = h"
proof -
  obtain b1 s1 where 1: "size_line_loop sock 0 (chunk_buf c) s = Some (Inr (length h + 1), b1, s1)"
      "valid s1" "inb s1 = rest" "outb s1 = outb s" "length b1 = MAX_HTTP_CHUNK_SIZE"
      "take (length h + 1) b1 = h @ [NUL]"
    using size_line_read [OF v i h] c by (auto simp: chunk_wf_def)
  have hl: "length h \<le> 18" "h \<noteq> []" and hx: "\<forall>x \<in> set h. x \<noteq> NUL"
    using h isxdigit_not_control by (auto simp: size_line_ok_def list_all_iff)
  define b2 where "b2 = take (length h + 1) b1 @ [NUL] @ drop (length h + 2) b1"
  have w: "buf_write b1 (length h + 1) [NUL] = Some b2" "length b2 = MAX_HTTP_CHUNK_SIZE"
    using hl 1(5) by (simp_all add: buf_write_def b2_def MAX_HTTP_CHUNK_SIZE_def)
  have b2: "b2 = h @ NUL # NUL # drop (length h + 2) b1"
    using 1(6) by (simp add: b2_def)
  have "c_str b2 = h"
    unfolding b2 by (rule c_str_append_NUL) (use hx in blast)
  moreover have "b2 ! 0 \<noteq> NUL"
    using hl(2) hx by (cases h) (auto simp: b2)
  ultimately show thesis
    using that [of b2 s1] 1 w hl(1) by (simp add: read_chunk_body_def)
qed

lemma read_next_chunk_data:
  assumes v: "valid s" and i: "inb s = encode_chunk ck @ rest" and ok: "http_chunk_ok ck"
    and c: "chunk_wf c"
  shows "\<exists>c' s'. read_next_chunk sock c (Some s) = Some (int (length (snd ck)), c', Some s') \<and>
    valid s' \<and> inb s' = rest \<and> outb s' = outb s \<and> chunk_wf c' \<and> chunk_pos c' = 0 \<and>
    chunk_len c' = length (snd ck) \<and> pending c' = snd ck"
proof -
  obtain h d where ck: "ck = (h, d)" by (cases ck)
  have h: "size_line_ok h (length d)" "d \<noteq> []" "length d + 2 \<le> MAX_HTTP_CHUNK_SIZE"
    using ok by (simp_all add: http_chunk_ok_def ck)
  obtain b s1 where 1: "read_chunk_body sock c s = fetch_chunk sock (c\<lparr>chunk_buf := b\<rparr>) s1"
      "valid s1" "inb s1 = d @ [CR, LF] @ rest" "outb s1 = outb s" "length b = MAX_HTTP_CHUNK_SIZE" "c_str b = h"
    using read_chunk_body_line [OF v _ h(1) c, of "d @ [CR, LF] @ rest"] i by (auto simp: encode_chunk_def ck)
  have small: "length d + 2 < 2 ^ 31"
    using h(3) by (simp add: MAX_HTTP_CHUNK_SIZE_def)
  have sc: "sscanf_x h = Some (of_nat (length d))"
    using sscanf_x_digits [of h] h(1) small by (simp add: size_line_ok_def)
  have u: "unat (of_nat (length d) + 2 :: u32) = length d + 2"
  proof -
    have "(of_nat (length d) + 2 :: u32) = of_nat (length d + 2)" by simp
    then show ?thesis using small unat_u32_of_nat [of "length d + 2"] by (simp add: add.commute)
  qed
  have nz: "(of_nat (length d) :: u32) \<noteq> 0"
  proof
    assume "(of_nat (length d) :: u32) = 0"
    then have "unat (of_nat (length d) :: u32) = 0" by simp
    then show False using small h(2) unat_u32_of_nat [of "length d"] by simp
  qed
  obtain s2 where 2: "sk_recv sock (length d + 2) s1 = Some ((int (length d + 2), d @ [CR, LF]), s2)"
      "valid s2" "inb s2 = rest" "outb s2 = outb s1"
    using recv_streamE [OF 1(2) _ small] 1(3) by auto
  define b2 where "b2 = d @ [CR, LF] @ drop (length d + 2) b"
  define b3 where "b3 = d @ [NUL, LF] @ drop (length d + 2) b"
  have w2: "buf_write b 0 (d @ [CR, LF]) = Some b2"
    using 1(5) h(3) by (simp add: buf_write_def b2_def)
  have w3: "buf_write b2 (length d) [NUL] = Some b3" "length b3 = MAX_HTTP_CHUNK_SIZE"
    using 1(5) h(3) by (simp_all add: buf_write_def b2_def b3_def)
  let ?c = "\<lparr>chunk_len = length d, chunk_pos = 0, chunk_buf = b3, chunk_num = (chunk_num c + 1) mod 2 ^ 64\<rparr>"
  have "fetch_chunk sock (c\<lparr>chunk_buf := b\<rparr>) s1 = Some (Inr (int (length d)), ?c, s2)"
    using h(2,3) small nz by (simp add: fetch_chunk_def 1(6) sc u 2(1)[simplified] w2 w3(1) size_t_of_nonneg)
  moreover have "chunk_wf ?c" "pending ?c = d"
    using h(3) w3(2) by (simp_all add: chunk_wf_def pending_def) (simp add: b3_def)
  ultimately show ?thesis
    using 1(1,4) 2 by (simp add: read_next_chunk_def ck)
qed

lemma read_next_chunk_last:
  assumes v: "valid s" and i: "inb s = h0 @ [CR, LF] @ rest" and h: "size_line_ok h0 0"
    and c: "chunk_wf c"
  shows "\<exists>b s'. read_next_chunk sock c (Some s) = Some (0, c\<lparr>chunk_buf := b\<rparr>, Some s') \<and>
    length b = MAX_HTTP_CHUNK_SIZE \<and> valid s'"
proof -
  obtain b s1 where 1: "read_chunk_body sock c s = fetch_chunk sock (c\<lparr>chunk_buf := b\<rparr>) s1"
      "valid s1" "length b = MAX_HTTP_CHUNK_SIZE" "c_str b = h0"
    using read_chunk_body_line [OF v i h c] by blast
  have sc: "sscanf_x h0 = Some 0"
    using sscanf_x_digits [of h0] h by (simp add: size_line_ok_def)
  have "valid (sk_shutdownWr sock (snd (sk_send sock reader_ok_answer s1)))"
    using 1(2) by (intro shutdownWr_valid send_snd_valid)
  then show ?thesis
    using 1 sc by (auto simp: read_next_chunk_def fetch_chunk_def)
qed

lemma delivers_next_chunk:
  assumes v: "valid s" and d: "delivers inb c s avail" and more: "length (pending c) < length avail"
  obtains c' s' where "read_next_chunk sock c (Some s) = Some (int (length (pending c')), c', Some s')"
    and "valid s'" and "delivers inb c' s' (drop (length (pending c)) avail)"
    and "chunk_pos c' = 0" and "chunk_len c' = length (pending c')" and "0 < length (pending c')"
    and "outb s' = outb s"
proof -
  obtain cs h0 rest where cs: "inb s = encode_body cs h0 @ rest" "list_all http_chunk_ok cs"
      "size_line_ok h0 0" "avail = pending c @ concat (map snd cs)"
    using d by (auto simp: delivers_def)
  obtain ck cs' where cons: "cs = ck # cs'"
    using more cs(4) by (cases cs) auto
  have ok: "http_chunk_ok ck" "list_all http_chunk_ok cs'"
    using cs(2) cons by simp_all
  have i: "inb s = encode_chunk ck @ (encode_body cs' h0 @ rest)"
    using cs(1) by (simp add: cons encode_body_Cons)
  obtain c' s' where 1: "read_next_chunk sock c (Some s) = Some (int (length (snd ck)), c', Some s')"
      "valid s'" "inb s' = encode_body cs' h0 @ rest" "outb s' = outb s" "chunk_wf c'" "chunk_pos c' = 0"
      "chunk_len c' = length (snd ck)" "pending c' = snd ck"
    using read_next_chunk_data [OF v i ok(1) delivers_wf [OF d]] by blast
  have "delivers inb c' s' (drop (length (pending c)) avail)"
    using 1 cs(3,4) ok(2) cons by (auto simp: delivers_def)
  moreover have "snd ck \<noteq> []"
    using ok(1) by (simp add: http_chunk_ok_def)
  ultimately show thesis
    using that 1 by simp
qed

lemma delivers_end:
  assumes v: "valid s" and d: "delivers inb c s (pending c)"
  obtains b s' where "read_next_chunk sock c (Some s) = Some (0, c\<lparr>chunk_buf := b\<rparr>, Some s')"
    and "valid s'" and "length b = MAX_HTTP_CHUNK_SIZE"
proof -
  obtain cs h0 rest where cs: "inb s = encode_body cs h0 @ rest" "list_all http_chunk_ok cs"
      "size_line_ok h0 0" "concat (map snd cs) = []"
    using d by (auto simp: delivers_def)
  have "cs = []"
    using cs(2,4) by (cases cs) (auto simp: http_chunk_ok_def)
  then show thesis
    using read_next_chunk_last [OF v _ cs(3) delivers_wf [OF d], of rest] cs(1) that
    by (auto simp: encode_body_def)
qed

text \<open>\<^verbatim>\<open>read_next\<close> hands out exactly the requested bytes while there are enough of them, and
  all that is left at the end of the body.\<close>

lemma read_next_loop_delivers:
  assumes "valid s" and "delivers inb c s avail" and "n \<le> length avail"
  shows "\<exists>c' s'. read_next_loop sock c (Some s) n (length (pending c)) out retlen =
      Some (retlen + int n, out @ take n avail, c', Some s') \<and>
    valid s' \<and> delivers inb c' s' (drop n avail) \<and> outb s' = outb s"
  using assms
proof (induction "2 * n + (if length (pending c) = 0 then 1 else 0)" arbitrary: c s avail n out retlen rule: less_induct)
  case less
  note wf = delivers_wf [OF less.prems(2)]
  obtain more where av: "avail = pending c @ more"
    using delivers_pending_prefix [OF less.prems(2)] by blast
  show ?case
  proof (cases "n \<le> length (pending c)")
    case True
    then show ?thesis
      using pending_advance [OF wf True] delivers_advance [OF less.prems(2) True] less.prems(1) av
      by (subst read_next_loop.simps) simp
  next
    case False
    let ?p = "length (pending c)"
    have lt: "?p < length avail" using False less.prems(3) by simp
    obtain c1 s1 where 1: "read_next_chunk sock c (Some s) = Some (int (length (pending c1)), c1, Some s1)"
        "valid s1" "delivers inb c1 s1 (drop ?p avail)" "chunk_len c1 = length (pending c1)"
        "0 < length (pending c1)" "outb s1 = outb s"
      using delivers_next_chunk [OF less.prems(1,2) lt] by blast
    have m: "2 * (n - ?p) + (if length (pending c1) = 0 then 1 else 0) < 2 * n + (if ?p = 0 then 1 else 0)"
      using False 1(5) by auto
    have n: "n - ?p \<le> length (drop ?p avail)" using less.prems(3) by simp
    obtain c2 s2 where 2: "read_next_loop sock c1 (Some s1) (n - ?p) (length (pending c1)) (out @ pending c) (retlen + int ?p)
          = Some (retlen + int ?p + int (n - ?p), (out @ pending c) @ take (n - ?p) (drop ?p avail), c2, Some s2)"
        "valid s2" "delivers inb c2 s2 (drop (n - ?p) (drop ?p avail))" "outb s2 = outb s1"
      using less.hyps [OF m 1(2,3) n, of "out @ pending c" "retlen + int ?p"] by blast
    have rd: "buf_read (chunk_buf c) (chunk_pos c) ?p = Some (pending c)"
      using pending_advance(3) [OF wf, of ?p] by simp
    have out: "pending c @ take (n - ?p) (drop ?p avail) = take n avail" "drop (n - ?p) (drop ?p avail) = drop n avail"
      using False av by simp_all
    have "read_next_loop sock c (Some s) n ?p out retlen =
        Some (retlen + int n, out @ take n avail, c2, Some s2)"
      using False rd 1(1,4,5) 2(1) out(1)
      by (subst read_next_loop.simps) simp
    then show ?thesis
      using 2 1(6) out(2) by auto
  qed
qed

lemma read_next_delivers:
  assumes "valid s" and "delivers inb c s avail" and "n \<le> length avail"
  shows "\<exists>c' s'. read_next sock c (Some s) n = Some (int n, take n avail, c', Some s') \<and>
    valid s' \<and> delivers inb c' s' (drop n avail) \<and> outb s' = outb s"
  using read_next_loop_delivers [OF assms, of "[]" 0] delivers_wf [OF assms(2)]
  by (simp add: read_next_def size_sub_chunk)

lemma read_next_loop_at_end:
  assumes "valid s" and "delivers inb c s avail" and "length avail < n"
  shows "\<exists>c' s'. read_next_loop sock c (Some s) n (length (pending c)) out retlen =
      Some (retlen + int (length avail), out @ avail, c', Some s') \<and> valid s'"
  using assms
proof (induction "2 * n + (if length (pending c) = 0 then 1 else 0)" arbitrary: c s avail n out retlen rule: less_induct)
  case less
  note wf = delivers_wf [OF less.prems(2)]
  obtain more where av: "avail = pending c @ more"
    using delivers_pending_prefix [OF less.prems(2)] by blast
  let ?p = "length (pending c)"
  have np: "?p < n" using av less.prems(3) by simp
  have rd: "buf_read (chunk_buf c) (chunk_pos c) ?p = Some (pending c)"
    using pending_advance(3) [OF wf, of ?p] by simp
  show ?case
  proof (cases "more = []")
    case True
    then have "delivers inb c s (pending c)"
      using less.prems(2) av by simp
    then obtain b s' where "read_next_chunk sock c (Some s) = Some (0, c\<lparr>chunk_buf := b\<rparr>, Some s')" "valid s'"
      using delivers_end [OF less.prems(1)] by blast
    then show ?thesis
      using np rd True av by (subst read_next_loop.simps) simp
  next
    case False
    then have lt: "?p < length avail" using av by simp
    obtain c1 s1 where 1: "read_next_chunk sock c (Some s) = Some (int (length (pending c1)), c1, Some s1)"
        "valid s1" "delivers inb c1 s1 (drop ?p avail)" "chunk_len c1 = length (pending c1)"
        "0 < length (pending c1)"
      using delivers_next_chunk [OF less.prems(1,2) lt] by blast
    have m: "2 * (n - ?p) + (if length (pending c1) = 0 then 1 else 0) < 2 * n + (if ?p = 0 then 1 else 0)"
      using np 1(5) by auto
    have n: "length (drop ?p avail) < n - ?p" using less.prems(3) np av by simp
    obtain c2 s2 where 2: "read_next_loop sock c1 (Some s1) (n - ?p) (length (pending c1)) (out @ pending c) (retlen + int ?p)
          = Some (retlen + int ?p + int (length (drop ?p avail)), (out @ pending c) @ drop ?p avail, c2, Some s2)"
        "valid s2"
      using less.hyps [OF m 1(2,3) n, of "out @ pending c" "retlen + int ?p"] by blast
    then show ?thesis
      using np rd 1(1,4,5) av by (subst read_next_loop.simps) simp
  qed
qed

lemma read_next_at_end:
  assumes "valid s" and "delivers inb c s avail" and "length avail < n"
  shows "\<exists>c' s'. read_next sock c (Some s) n = Some (int (length avail), avail, c', Some s') \<and> valid s'"
  using read_next_loop_at_end [OF assms, of "[]" 0] delivers_wf [OF assms(2)]
  by (simp add: read_next_def size_sub_chunk)

text \<open>\<^verbatim>\<open>fgetc\<close> pops the next byte, and returns -1 at the end of the body.\<close>

lemma fgetc_take:
  assumes "delivers inb c s (b # bs)" and "pending c \<noteq> []"
  shows "buf_read (chunk_buf c) (chunk_pos c) 1 = Some [b]"
    and "delivers inb (c\<lparr>chunk_pos := chunk_pos c + 1\<rparr>) s bs"
proof -
  obtain rest where p: "pending c = b # rest"
    using delivers_pending_prefix [OF assms(1)] assms(2) by (cases "pending c") auto
  then show "buf_read (chunk_buf c) (chunk_pos c) 1 = Some [b]"
    using pending_advance(3) [OF delivers_wf [OF assms(1)], of 1] by simp
  show "delivers inb (c\<lparr>chunk_pos := chunk_pos c + 1\<rparr>) s bs"
    using delivers_advance [OF assms(1), of 1] p by simp
qed

lemma reader_fgetc_delivers:
  assumes v: "valid s" and d: "delivers inb c s (b # bs)"
  shows "\<exists>c' s'. reader_fgetc sock c (Some s) = Some (int_of_char b, c', Some s') \<and>
    valid s' \<and> delivers inb c' s' bs \<and> outb s' = outb s"
proof (cases "pending c = []")
  case False
  then show ?thesis
    using fgetc_take [OF d False] v delivers_wf [OF d]
    by (simp add: reader_fgetc_def size_sub_chunk)
next
  case True
  obtain c1 s1 where 1: "read_next_chunk sock c (Some s) = Some (int (length (pending c1)), c1, Some s1)"
      "valid s1" "delivers inb c1 s1 (b # bs)" "0 < length (pending c1)" "outb s1 = outb s"
    using delivers_next_chunk [OF v d] True by (metis drop0 length_Cons list.size(3) zero_less_Suc)
  then show ?thesis
    using fgetc_take [OF 1(3)] True delivers_wf [OF d]
    by (simp add: reader_fgetc_def size_sub_chunk)
qed

lemma reader_fgetc_at_end:
  assumes v: "valid s" and d: "delivers inb c s []"
  shows "\<exists>c' s'. reader_fgetc sock c (Some s) = Some (- 1, c', Some s') \<and> valid s'"
proof -
  have p: "pending c = []"
    using delivers_pending_prefix [OF d] by simp
  obtain b s' where "read_next_chunk sock c (Some s) = Some (0, c\<lparr>chunk_buf := b\<rparr>, Some s')" "valid s'"
    using delivers_end [OF v, of c] d p by metis
  then show ?thesis
    using p delivers_wf [OF d] by (simp add: reader_fgetc_def size_sub_chunk)
qed

text \<open>A read that hits the end of the body leaves \<^verbatim>\<open>chunk_pos\<close> where it was: the bytes it
  handed out are still pending, and a later, smaller read returns as many bytes again.\<close>

lemma read_next_stale:
  assumes v: "valid s" and d: "delivers inb c s (pending c)"
    and n: "length (pending c) < n" and m: "m \<le> length (pending c)"
  shows "\<exists>c' s' bs c''. read_next sock c (Some s) n =
      Some (int (length (pending c)), pending c, c', Some s') \<and>
    read_next sock c' (Some s') m = Some (int m, bs, c'', Some s') \<and> length bs = m"
proof -
  note wf = delivers_wf [OF d]
  obtain b s' where e: "read_next_chunk sock c (Some s) = Some (0, c\<lparr>chunk_buf := b\<rparr>, Some s')" "valid s'"
      "length b = MAX_HTTP_CHUNK_SIZE"
    using delivers_end [OF v d] by blast
  have rd: "buf_read (chunk_buf c) (chunk_pos c) (length (pending c)) = Some (pending c)"
    using pending_advance(3) [OF wf, of "length (pending c)"] by simp
  have 1: "read_next sock c (Some s) n = Some (int (length (pending c)), pending c, c\<lparr>chunk_buf := b\<rparr>, Some s')"
    using n rd e by (simp add: read_next_def size_sub_chunk [OF wf] read_next_loop.simps)
  let ?c = "c\<lparr>chunk_buf := b\<rparr>"
  have wf': "chunk_wf ?c" "length (pending ?c) = length (pending c)"
    using wf e(3) length_pending [of ?c] length_pending [OF wf] by (simp_all add: chunk_wf_def)
  have "read_next sock ?c (Some s') m = Some (int m, take m (pending ?c), ?c\<lparr>chunk_pos := chunk_pos c + m\<rparr>, Some s')"
    using pending_advance(3) [OF wf'(1), of m] m wf'
    by (simp add: read_next_def size_sub_chunk [OF wf] read_next_loop.simps)
  with 1 show ?thesis
    using m wf'(2) by auto
qed

end

end
