(* ===== verification/Http_Writer.thy ===== *)
theory Http_Writer
  imports Http_Header Http_Chunk
begin

text \<open>
  \<^verbatim>\<open>exa::writer::HttpChunkWriter\<close> (\<^verbatim>\<open>protocol/http/writer/http_chunk_writer.cpp\<close>), which sends
  R's CSV data as the body of an HTTP response.  State and conventions are those of the
  reader.  The client's memory behind \<^verbatim>\<open>ptr\<close> is the list \<open>src\<close>.
\<close>

section \<open>The operations\<close>

definition writer_ok_answer :: "char list" where
  "writer_ok_answer =
     ''HTTP/1.1 200 OK'' @ [CR, LF] @ ''Server: EXASolution R Package'' @ [CR, LF] @
     ''Content-type: application/octet-stream'' @ [CR, LF] @
     ''Content-disposition: attachment; filename=data.csv'' @ [CR, LF] @
     ''Connection: close'' @ [CR, LF, CR, LF]"

definition writer_error_answer :: "char list" where
  "writer_error_answer =
     ''HTTP/1.1 404 ERROR'' @ [CR, LF] @ ''Server: EXASolution R Package'' @ [CR, LF] @
     ''Connection: close'' @ [CR, LF, CR, LF]"

definition HttpChunkWriter_new :: "Chunk \<Rightarrow> Chunk" where
  "HttpChunkWriter_new c = Chunk_reset c"

definition send_all :: "'s Socket \<Rightarrow> char list \<Rightarrow> 's \<Rightarrow> bool \<times> 's" where
  "send_all sock bs s = (case sk_send sock bs s of (r, s') \<Rightarrow> (r = int (length bs), s'))"

definition write_next_chunk ::
  "'s Socket \<Rightarrow> Chunk \<Rightarrow> 's option \<Rightarrow> (ssize_t \<times> Chunk \<times> 's option) option" where
  "write_next_chunk sock c so =
     (let fail = (\<lambda>s. Some (- 1, c, Some (sk_shutdownRdWr sock (snd (sk_send sock writer_error_answer s)))))
      in case so of
        None \<Rightarrow> Some (- 1, c, None)
      | Some s \<Rightarrow>
          if chunk_len c = 0 then fail s
          else (case (if chunk_num c = 0 then send_all sock writer_ok_answer s else (True, s)) of
              (False, s1) \<Rightarrow> fail s1
            | (True, s1) \<Rightarrow>
                (case buf_read (chunk_buf c) 0 (chunk_len c) of
                   None \<Rightarrow> None
                 | Some bs \<Rightarrow>
                     (case send_all sock bs s1 of
                        (False, s2) \<Rightarrow> fail s2
                      | (True, s2) \<Rightarrow>
                          Some (ssize_t_of (chunk_len c),
                                c\<lparr>chunk_len := 0, chunk_num := (chunk_num c + 1) mod 2 ^ 64\<rparr>,
                                Some s2)))))"

lemma write_next_chunk_reset:
  "write_next_chunk sock c so = Some (r, c', so') \<Longrightarrow> 0 \<le> r \<Longrightarrow> chunk_len c' = 0"
  by (auto simp: write_next_chunk_def Let_def split: option.splits if_splits prod.splits bool.splits)

function pipe_write_loop ::
  "'s Socket \<Rightarrow> Chunk \<Rightarrow> 's option \<Rightarrow> char list \<Rightarrow> size_t \<Rightarrow> size_t \<Rightarrow>
     (size_t \<times> Chunk \<times> 's option) option" where
  "pipe_write_loop sock c so src len cur_rest =
     (if len \<le> cur_rest
      then (case buf_read src 0 len of
          None \<Rightarrow> None
        | Some bs \<Rightarrow>
            (case buf_write (chunk_buf c) (chunk_len c) bs of
               None \<Rightarrow> None
             | Some b \<Rightarrow> Some (len, c\<lparr>chunk_buf := b, chunk_len := chunk_len c + len\<rparr>, so)))
      else (case (if 0 < cur_rest
                  then (case buf_read src 0 cur_rest of
                      None \<Rightarrow> None
                    | Some bs \<Rightarrow>
                        (case buf_write (chunk_buf c) (chunk_len c) bs of
                           None \<Rightarrow> None
                         | Some b \<Rightarrow>
                             Some (c\<lparr>chunk_buf := b, chunk_len := chunk_len c + cur_rest\<rparr>)))
                  else Some c) of
          None \<Rightarrow> None
        | Some c1 \<Rightarrow>
            (case write_next_chunk sock c1 so of
               None \<Rightarrow> None
             | Some (r, c2, so2) \<Rightarrow>
                 if r < 0 then Some (size_t_of (- 1), c2, so2)
                 else pipe_write_loop sock c2 so2 (drop cur_rest src) (len - cur_rest)
                        (size_sub MAX_HTTP_CHUNK_SIZE (chunk_len c2)))))"
  by pat_completeness auto
termination
  by (relation "measure (\<lambda>(sock, c, so, src, len, cur). 2 * len + (if cur = 0 then 1 else 0))")
    (auto dest: write_next_chunk_reset simp: size_sub_no_wrap MAX_HTTP_CHUNK_SIZE_def)

declare pipe_write_loop.simps [simp del]

definition writer_pipe_write ::
  "'s Socket \<Rightarrow> Chunk \<Rightarrow> 's option \<Rightarrow> char list \<Rightarrow> size_t \<Rightarrow> size_t \<Rightarrow>
     (size_t \<times> Chunk \<times> 's option) option" where
  "writer_pipe_write sock c so src sz nitems =
     pipe_write_loop sock c so src (size_mul sz nitems) (size_sub MAX_HTTP_CHUNK_SIZE (chunk_len c))"

definition writer_pipe_fflush ::
  "'s Socket \<Rightarrow> Chunk \<Rightarrow> 's option \<Rightarrow> (int \<times> Chunk \<times> 's option) option" where
  "writer_pipe_fflush sock c so =
     (if 0 < chunk_len c
      then (case write_next_chunk sock c so of
          None \<Rightarrow> None
        | Some (r, c', so') \<Rightarrow> Some (if r < 0 then - 1 else 0, c', so'))
      else Some (0, c, so))"

definition writer_start :: "'s Socket \<Rightarrow> 's option \<Rightarrow> ((exa_exception + unit) \<times> 's option) option" where
  "writer_start sock so =
     (case so of
        None \<Rightarrow> Some (Inl (ConnectionException ''socket invalid''), None)
      | Some s \<Rightarrow> (case readHttpHeader sock s of None \<Rightarrow> None | Some (r, s') \<Rightarrow> Some (r, Some s')))"

section \<open>Memory safety\<close>

lemma size_sub_room:
  "chunk_wf c \<Longrightarrow> size_sub MAX_HTTP_CHUNK_SIZE (chunk_len c) = MAX_HTTP_CHUNK_SIZE - chunk_len c"
  by (rule size_sub_no_wrap) (auto simp: chunk_wf_def MAX_HTTP_CHUNK_SIZE_def)

definition writer_wf :: "Chunk \<Rightarrow> bool" where
  "writer_wf c \<longleftrightarrow> chunk_wf c \<and> chunk_pos c = 0"

lemma chunk_append:
  assumes "writer_wf c" and "chunk_len c + length bs \<le> MAX_HTTP_CHUNK_SIZE"
  obtains b where "buf_write (chunk_buf c) (chunk_len c) bs = Some b"
    and "writer_wf (c\<lparr>chunk_buf := b, chunk_len := chunk_len c + length bs\<rparr>)"
    and "take (chunk_len c + length bs) b = take (chunk_len c) (chunk_buf c) @ bs"
proof -
  obtain b where b: "buf_write (chunk_buf c) (chunk_len c) bs = Some b" "length b = length (chunk_buf c)"
    using buf_write_ok [of "chunk_len c" bs "chunk_buf c"] assms by (auto simp: writer_wf_def chunk_wf_def)
  then show thesis
    using that [OF b(1)] assms buf_write_take [OF b(1)] by (simp add: writer_wf_def chunk_wf_def)
qed

context socket_iface
begin

lemma send_all_valid: "valid s \<Longrightarrow> send_all sock bs s = (ok, s') \<Longrightarrow> valid s'"
  by (auto simp: send_all_def split: prod.splits dest: send_valid)

lemma write_next_chunk_safe:
  assumes v: "\<forall>s. so = Some s \<longrightarrow> valid s" and c: "writer_wf c"
  shows "\<exists>r c' so'. write_next_chunk sock c so = Some (r, c', so') \<and>
    (\<forall>s. so' = Some s \<longrightarrow> valid s) \<and> writer_wf c'"
proof (cases so)
  case None
  then show ?thesis using c by (simp add: write_next_chunk_def)
next
  case (Some s)
  obtain ok1 s1 where 1: "(if chunk_num c = 0 then send_all sock writer_ok_answer s else (True, s)) = (ok1, s1)"
    by fastforce
  have v1: "valid s1"
    using 1 v Some by (auto split: if_splits dest: send_all_valid)
  obtain bs where bs: "buf_read (chunk_buf c) 0 (chunk_len c) = Some bs"
    using c by (simp add: buf_read_def writer_wf_def chunk_wf_def)
  obtain ok2 s2 where 2: "send_all sock bs s1 = (ok2, s2)"
    by fastforce
  have v2: "valid s2" using 2 v1 by (rule send_all_valid [rotated])
  have vf: "valid (sk_shutdownRdWr sock (snd (sk_send sock writer_error_answer t)))" if "valid t" for t
    using that by (intro shutdownRdWr_valid send_snd_valid)
  show ?thesis
    using Some c v v1 v2 vf by (cases ok1; cases ok2) (auto simp: write_next_chunk_def Let_def 1 bs 2 writer_wf_def chunk_wf_def)
qed

lemma pipe_write_loop_safe:
  assumes "\<forall>s. so = Some s \<longrightarrow> valid s" and "writer_wf c" and "length src = len"
    and "rest = MAX_HTTP_CHUNK_SIZE - chunk_len c"
  shows "\<exists>r c' so'. pipe_write_loop sock c so src len rest = Some (r, c', so') \<and>
    (\<forall>s. so' = Some s \<longrightarrow> valid s) \<and> writer_wf c'"
  using assms
proof (induction "2 * len + (if rest = 0 then 1 else 0)" arbitrary: c so src len rest rule: less_induct)
  case less
  have le: "chunk_len c \<le> MAX_HTTP_CHUNK_SIZE" using less.prems(2) by (simp add: writer_wf_def chunk_wf_def)
  show ?case
  proof (cases "len \<le> rest")
    case True
    then have "chunk_len c + length src \<le> MAX_HTTP_CHUNK_SIZE"
      using less.prems(3,4) le by simp
    then obtain b where "buf_write (chunk_buf c) (chunk_len c) src = Some b"
        "writer_wf (c\<lparr>chunk_buf := b, chunk_len := chunk_len c + length src\<rparr>)"
      using chunk_append [OF less.prems(2)] by blast
    then show ?thesis
      using True less.prems by (subst pipe_write_loop.simps) (simp add: buf_read_def)
  next
    case False
    have len: "chunk_len c + length (take rest src) \<le> MAX_HTTP_CHUNK_SIZE" "length (take rest src) = rest"
      using less.prems(3,4) le False by simp_all
    obtain b where b: "buf_write (chunk_buf c) (chunk_len c) (take rest src) = Some b"
        "writer_wf (c\<lparr>chunk_buf := b, chunk_len := chunk_len c + rest\<rparr>)"
      using chunk_append [OF less.prems(2) len(1)] len(2) by metis
    define c1 where "c1 = (if 0 < rest then c\<lparr>chunk_buf := b, chunk_len := chunk_len c + rest\<rparr> else c)"
    have wf1: "writer_wf c1" using b(2) less.prems(2) by (simp add: c1_def)
    obtain r c2 so2 where w: "write_next_chunk sock c1 so = Some (r, c2, so2)"
        "\<forall>s. so2 = Some s \<longrightarrow> valid s" "writer_wf c2"
      using write_next_chunk_safe [OF less.prems(1) wf1] by blast
    have room: "size_sub MAX_HTTP_CHUNK_SIZE (chunk_len c2) = MAX_HTTP_CHUNK_SIZE - chunk_len c2"
      using w(3) by (intro size_sub_room) (simp add: writer_wf_def)
    have unf: "pipe_write_loop sock c so src len rest =
        (if r < 0 then Some (size_t_of (- 1), c2, so2)
         else pipe_write_loop sock c2 so2 (drop rest src) (len - rest) (MAX_HTTP_CHUNK_SIZE - chunk_len c2))"
      using False less.prems(3) b(1) w(1) by (subst pipe_write_loop.simps)
        (auto simp: buf_read_def c1_def room [symmetric])
    show ?thesis
    proof (cases "r < 0")
      case True
      then show ?thesis using w unf by simp
    next
      case r: False
      then have z: "chunk_len c2 = 0" using write_next_chunk_reset [OF w(1)] by simp
      have "2 * (len - rest) + (if MAX_HTTP_CHUNK_SIZE - chunk_len c2 = 0 then 1 else 0)
          < 2 * len + (if rest = 0 then 1 else 0)"
        using False by (auto simp: z MAX_HTTP_CHUNK_SIZE_def)
      from less.hyps [OF this w(2,3), of "drop rest src"] less.prems(3) unf r show ?thesis
        by simp
    qed
  qed
qed

lemma writer_pipe_write_safe:
  assumes "\<forall>s. so = Some s \<longrightarrow> valid s" and "writer_wf c" and "length src = size_mul sz nitems"
  shows "\<exists>r c' so'. writer_pipe_write sock c so src sz nitems = Some (r, c', so') \<and>
    (\<forall>s. so' = Some s \<longrightarrow> valid s) \<and> writer_wf c'"
  using pipe_write_loop_safe [OF assms refl] assms(2)
  by (simp add: writer_pipe_write_def size_sub_room writer_wf_def)

lemma writer_pipe_fflush_safe:
  assumes "\<forall>s. so = Some s \<longrightarrow> valid s" and "writer_wf c"
  shows "\<exists>r c' so'. writer_pipe_fflush sock c so = Some (r, c', so') \<and>
    (\<forall>s. so' = Some s \<longrightarrow> valid s) \<and> writer_wf c'"
  using write_next_chunk_safe [OF assms] assms by (auto simp: writer_pipe_fflush_def)

end

end
