(* ===== verification/Http_Writer_Stream.thy ===== *)
theory Http_Writer_Stream
  imports Http_Writer
begin

text \<open>
  What the peer of an \<^verbatim>\<open>HttpChunkWriter\<close> receives: the writer is an append-only log of the
  bytes it has accepted, carried to the socket chunk by chunk behind one HTTP header.
\<close>

section \<open>What the peer receives\<close>

text \<open>After \<open>data\<close> has been accepted, the socket has carried the HTTP header and a prefix of
  \<open>data\<close> after what was sent before (\<open>pre\<close>), or nothing if no chunk is complete, and the
  buffer holds the rest.  Each chunk carries at least one byte, so \<^verbatim>\<open>chunk_num\<close> does not
  wrap while fewer than \<open>2 ^ 64\<close> bytes are written.\<close>

definition writer_at :: "('s \<Rightarrow> char list) \<Rightarrow> char list \<Rightarrow> Chunk \<Rightarrow> 's \<Rightarrow> char list \<Rightarrow> bool" where
  "writer_at outb pre c s data \<longleftrightarrow> writer_wf c \<and>
     (\<exists>sent. data = sent @ take (chunk_len c) (chunk_buf c) \<and> chunk_num c \<le> length sent \<and>
        (if sent = [] then outb s = pre
         else 0 < chunk_num c \<and> outb s = pre @ writer_ok_answer @ sent))"

lemma writer_at_wf: "writer_at outb pre c s data \<Longrightarrow> writer_wf c"
  by (simp add: writer_at_def)

lemma writer_at_new: "writer_at outb (outb s) (HttpChunkWriter_new c) s []"
  by (auto simp: writer_at_def HttpChunkWriter_new_def writer_wf_def) (simp_all add: Chunk_reset_def)

lemma writer_at_append:
  assumes "writer_at outb pre c s data" and "chunk_len c + length bs \<le> MAX_HTTP_CHUNK_SIZE"
  obtains b where "buf_write (chunk_buf c) (chunk_len c) bs = Some b"
    and "writer_at outb pre (c\<lparr>chunk_buf := b, chunk_len := chunk_len c + length bs\<rparr>) s (data @ bs)"
proof -
  obtain b where b: "buf_write (chunk_buf c) (chunk_len c) bs = Some b"
      "writer_wf (c\<lparr>chunk_buf := b, chunk_len := chunk_len c + length bs\<rparr>)"
      "take (chunk_len c + length bs) b = take (chunk_len c) (chunk_buf c) @ bs"
    using chunk_append [OF writer_at_wf [OF assms(1)] assms(2)] by blast
  obtain sent where sent: "data = sent @ take (chunk_len c) (chunk_buf c)" "chunk_num c \<le> length sent"
      "if sent = [] then outb s = pre else 0 < chunk_num c \<and> outb s = pre @ writer_ok_answer @ sent"
    using assms(1) by (auto simp: writer_at_def)
  have "writer_at outb pre (c\<lparr>chunk_buf := b, chunk_len := chunk_len c + length bs\<rparr>) s (data @ bs)"
    unfolding writer_at_def using b(2,3) sent by (intro conjI exI [of _ sent]) simp_all
  with b(1) show thesis by (rule that)
qed

text \<open>The number of bytes that \<^verbatim>\<open>pipe_write\<close> reports for \<open>len\<close> bytes when \<open>rest\<close> of them fit the chunk: those
  after the last chunk boundary.\<close>

definition write_reported :: "nat \<Rightarrow> nat \<Rightarrow> nat" where
  "write_reported rest len = (if len \<le> rest then len else (len - rest - 1) mod MAX_HTTP_CHUNK_SIZE + 1)"

lemma write_reported_next:
  assumes "rest < len"
  shows "write_reported MAX_HTTP_CHUNK_SIZE (len - rest) = write_reported rest len"
proof -
  obtain n where n: "len - rest = Suc n" using assms by (cases "len - rest") auto
  have "n mod MAX_HTTP_CHUNK_SIZE = (n - MAX_HTTP_CHUNK_SIZE) mod MAX_HTTP_CHUNK_SIZE" if "MAX_HTTP_CHUNK_SIZE \<le> n"
    using that by (simp add: le_mod_geq)
  then show ?thesis using n assms by (auto simp: write_reported_def not_le less_Suc_eq_le)
qed

context stream_socket
begin

lemma send_all_stream:
  "valid s \<Longrightarrow> send_all sock bs s = (True, s') \<Longrightarrow> outb s' = outb s @ bs"
  by (auto simp: send_all_def split: prod.splits dest: send_stream)

lemma write_next_chunk_at:
  assumes v: "valid s" and w: "writer_at outb pre c s data" and lt: "length data < 2 ^ 64"
    and eq: "write_next_chunk sock c (Some s) = Some (r, c', so')" and r: "0 \<le> r"
  shows "\<exists>s'. so' = Some s' \<and> valid s' \<and> writer_at outb pre c' s' data \<and> chunk_len c' = 0"
proof -
  obtain sent where sent: "data = sent @ take (chunk_len c) (chunk_buf c)" "chunk_num c \<le> length sent"
      "if sent = [] then outb s = pre else 0 < chunk_num c \<and> outb s = pre @ writer_ok_answer @ sent"
    using w by (auto simp: writer_at_def)
  have wf: "writer_wf c" using w by (rule writer_at_wf)
  let ?bs = "take (chunk_len c) (chunk_buf c)"
  have bs: "buf_read (chunk_buf c) 0 (chunk_len c) = Some ?bs" "length ?bs = chunk_len c"
    using wf by (auto simp: buf_read_def writer_wf_def chunk_wf_def)
  obtain s1 s2 where 1: "(if chunk_num c = 0 then send_all sock writer_ok_answer s else (True, s)) = (True, s1)"
      and 2: "send_all sock ?bs s1 = (True, s2)" and nz: "chunk_len c \<noteq> 0"
      and res: "c' = c\<lparr>chunk_len := 0, chunk_num := (chunk_num c + 1) mod 2 ^ 64\<rparr>" "so' = Some s2"
    using eq r bs(1)
    by (auto simp: write_next_chunk_def Let_def split: if_splits prod.splits bool.splits)
  have v1: "valid s1" and v2: "valid s2"
    using 1 2 v by (auto split: if_splits dest: send_all_valid)
  have num: "chunk_num c < length data"
    using sent(1,2) bs(2) nz by simp
  have "outb s2 = pre @ writer_ok_answer @ data"
    using send_all_stream [OF v1 2] sent 1 send_all_stream [OF v, of writer_ok_answer s1]
    by (auto split: if_splits)
  moreover have "chunk_num c' = chunk_num c + 1" "chunk_len c' = 0" "writer_wf c'"
    using res(1) num lt wf by (simp_all add: writer_wf_def chunk_wf_def)
  ultimately have "writer_at outb pre c' s2 data"
    using num by (auto simp: writer_at_def intro!: exI [of _ data])
  then show ?thesis using res v2 by simp
qed

lemma pipe_write_loop_at:
  assumes "valid s" and "writer_at outb pre c s data" and "length src = len"
    and "length data + len < 2 ^ 64" and "rest = MAX_HTTP_CHUNK_SIZE - chunk_len c"
    and "pipe_write_loop sock c (Some s) src len rest = Some (r, c', so')" and "r \<noteq> size_t_of (- 1)"
  shows "\<exists>s'. so' = Some s' \<and> valid s' \<and> writer_at outb pre c' s' (data @ src) \<and>
    r \<le> MAX_HTTP_CHUNK_SIZE \<and> r \<le> len \<and> r = write_reported rest len"
  using assms
proof (induction "2 * len + (if rest = 0 then 1 else 0)" arbitrary: c s data src len rest rule: less_induct)
  case less
  note wf = writer_at_wf [OF less.prems(2)]
  have le: "chunk_len c \<le> MAX_HTTP_CHUNK_SIZE" using wf by (simp add: writer_wf_def chunk_wf_def)
  show ?case
  proof (cases "len \<le> rest")
    case True
    then have "chunk_len c + length src \<le> MAX_HTTP_CHUNK_SIZE"
      using less.prems(3,5) le by simp
    then obtain b where b: "buf_write (chunk_buf c) (chunk_len c) src = Some b"
        "writer_at outb pre (c\<lparr>chunk_buf := b, chunk_len := chunk_len c + length src\<rparr>) s (data @ src)"
      using writer_at_append [OF less.prems(2)] by blast
    have "pipe_write_loop sock c (Some s) src len rest =
        Some (len, c\<lparr>chunk_buf := b, chunk_len := chunk_len c + length src\<rparr>, Some s)"
      using True b(1) less.prems(3) by (subst pipe_write_loop.simps) (simp add: buf_read_def)
    then show ?thesis using b(2) less.prems True by (auto simp: write_reported_def)
  next
    case False
    have len: "chunk_len c + length (take rest src) \<le> MAX_HTTP_CHUNK_SIZE" "length (take rest src) = rest"
      using less.prems(3,5) le False by simp_all
    obtain b where b: "buf_write (chunk_buf c) (chunk_len c) (take rest src) = Some b"
        "writer_at outb pre (c\<lparr>chunk_buf := b, chunk_len := chunk_len c + rest\<rparr>) s (data @ take rest src)"
      using writer_at_append [OF less.prems(2) len(1)] len(2) by metis
    define c1 where "c1 = (if 0 < rest then c\<lparr>chunk_buf := b, chunk_len := chunk_len c + rest\<rparr> else c)"
    have at1: "writer_at outb pre c1 s (data @ take rest src)"
      using b(2) less.prems(2) by (simp add: c1_def)
    have wf1: "writer_wf c1" using at1 by (rule writer_at_wf)
    obtain q c2 so2 where w: "write_next_chunk sock c1 (Some s) = Some (q, c2, so2)" "writer_wf c2"
      using write_next_chunk_safe [of "Some s" c1] less.prems(1) wf1 by blast
    have room: "size_sub MAX_HTTP_CHUNK_SIZE (chunk_len c2) = MAX_HTTP_CHUNK_SIZE - chunk_len c2"
      using w(2) by (intro size_sub_room) (simp add: writer_wf_def)
    have unf: "pipe_write_loop sock c (Some s) src len rest =
        (if q < 0 then Some (size_t_of (- 1), c2, so2)
         else pipe_write_loop sock c2 so2 (drop rest src) (len - rest) (MAX_HTTP_CHUNK_SIZE - chunk_len c2))"
      using False less.prems(3) b(1) w(1) by (subst pipe_write_loop.simps)
        (auto simp: buf_read_def c1_def room [symmetric])
    have q: "0 \<le> q" using unf less.prems(6,7) by (auto split: if_splits)
    have l1: "length (data @ take rest src) < 2 ^ 64" using less.prems(3,4) False by simp
    obtain s2 where 2: "so2 = Some s2" "valid s2" "writer_at outb pre c2 s2 (data @ take rest src)" "chunk_len c2 = 0"
      using write_next_chunk_at [OF less.prems(1) at1 l1 w(1) q] by blast
    let ?rest2 = "MAX_HTTP_CHUNK_SIZE - chunk_len c2"
    have m: "2 * (len - rest) + (if ?rest2 = 0 then 1 else 0) < 2 * len + (if rest = 0 then 1 else 0)"
      using False by (auto simp: 2(4) MAX_HTTP_CHUNK_SIZE_def)
    have eq2: "pipe_write_loop sock c2 (Some s2) (drop rest src) (len - rest) ?rest2 = Some (r, c', so')"
      using unf q less.prems(6) 2(1) by simp
    have l2: "length (drop rest src) = len - rest" "length (data @ take rest src) + (len - rest) < 2 ^ 64"
      using less.prems(3,4) False by simp_all
    obtain s' where "so' = Some s'" "valid s'"
        "writer_at outb pre c' s' ((data @ take rest src) @ drop rest src)"
        "r \<le> MAX_HTTP_CHUNK_SIZE" "r \<le> len - rest" "r = write_reported ?rest2 (len - rest)"
      using less.hyps [OF m 2(2,3) l2 refl eq2 less.prems(7)] by blast
    moreover have "write_reported ?rest2 (len - rest) = write_reported rest len"
      using write_reported_next [of rest len] False 2(4) by simp
    ultimately show ?thesis using False by auto
  qed
qed

lemma writer_pipe_write_at:
  assumes "valid s" and "writer_at outb pre c s data" and "length src = size_mul sz nitems"
    and "length data + length src < 2 ^ 64"
    and "writer_pipe_write sock c (Some s) src sz nitems = Some (r, c', so')" and "r \<noteq> size_t_of (- 1)"
  shows "\<exists>s'. so' = Some s' \<and> valid s' \<and> writer_at outb pre c' s' (data @ src) \<and>
    r \<le> MAX_HTTP_CHUNK_SIZE \<and> r \<le> length src \<and> r = write_reported (MAX_HTTP_CHUNK_SIZE - chunk_len c) (length src)"
proof -
  have "chunk_wf c" using writer_at_wf [OF assms(2)] by (simp add: writer_wf_def)
  then have "pipe_write_loop sock c (Some s) src (length src) (MAX_HTTP_CHUNK_SIZE - chunk_len c) = Some (r, c', so')"
    using assms(3,5) by (simp add: writer_pipe_write_def size_sub_room)
  from pipe_write_loop_at [OF assms(1,2) refl _ refl this assms(6)] assms(4) show ?thesis
    by (auto simp: zero_less_diff)
qed

lemma writer_pipe_fflush_at:
  assumes v: "valid s" and w: "writer_at outb pre c s data" and "length data < 2 ^ 64"
    and eq: "writer_pipe_fflush sock c (Some s) = Some (0, c', so')"
  shows "\<exists>s'. so' = Some s' \<and> valid s' \<and> writer_at outb pre c' s' data \<and> chunk_len c' = 0 \<and>
    outb s' = (if data = [] then pre else pre @ writer_ok_answer @ data)"
proof -
  have "\<exists>s'. so' = Some s' \<and> valid s' \<and> writer_at outb pre c' s' data \<and> chunk_len c' = 0"
  proof (cases "0 < chunk_len c")
    case True
    then obtain r where "write_next_chunk sock c (Some s) = Some (r, c', so')" "0 \<le> r"
      using eq by (auto simp: writer_pipe_fflush_def split: option.splits if_splits)
    then show ?thesis using write_next_chunk_at [OF v w assms(3)] by blast
  next
    case False
    then show ?thesis using eq v w by (auto simp: writer_pipe_fflush_def)
  qed
  then obtain s' where "so' = Some s'" "valid s'" "writer_at outb pre c' s' data" "chunk_len c' = 0"
    by blast
  then show ?thesis by (auto simp: writer_at_def)
qed

end

end
