(* ===== verification/Connection_Establisher.thy ===== *)
theory Connection_Establisher
  imports Ssl_Socket Meta_Info Certificate Async_Executor Http_Reader_Stream Http_Writer_Stream
begin

text \<open>
  The two implementations of \<^verbatim>\<open>exa::ConnectionEstablisher\<close>
  (\<^verbatim>\<open>protocol/http/conn/http_connection_establisher.cpp\<close>,
  \<^verbatim>\<open>protocol/https/conn/https_connection_establisher.cpp\<close>), the constructor of the TLS
  socket, and the socket object behind a \<^verbatim>\<open>std::shared_ptr<Socket>\<close>, whose virtual
  functions dispatch to one of the two socket classes.  The external libraries are gathered
  in the record \<open>env\<close>, all over one state \<^typ>\<open>'w\<close> of the outside world.
\<close>

text \<open>Where the background thread may get ahead while the main thread is in the controller: after the start of
  the thread, and between shutting the socket down and dropping the pointer to it.  The environment says how many
  steps it takes there; every theorem holds for every such schedule.\<close>

datatype sched_point = AfterExecute | BeforeReset

record 'w env =
  env_posix :: "'w posix_api"
  env_ssl :: "'w ssl_api"
  env_ossl :: "'w ossl"
  env_odbc :: "'w odbc_api"
  env_sched :: "sched_point \<Rightarrow> nat"
  env_R_error :: "string \<Rightarrow> 'w \<Rightarrow> 'w"
  env_R_warning :: "string \<Rightarrow> 'w \<Rightarrow> 'w"

section \<open>The object behind a socket pointer\<close>

datatype sock_obj = PlainObj int | TlsObj bool

fun obj_recv ::
  "'w env \<Rightarrow> size_t \<Rightarrow> sock_obj \<times> 'w \<Rightarrow> ((ssize_t \<times> char list) \<times> (sock_obj \<times> 'w)) option" where
  "obj_recv env n (PlainObj fd, w) =
     map_option (\<lambda>(rb, s). (rb, (PlainObj (mSocket s), os s)))
       (SocketImpl_recv (env_posix env) n \<lparr>mSocket = fd, os = w\<rparr>)"
| "obj_recv env n (TlsObj cl, w) =
     map_option (\<lambda>(rb, s). (rb, (TlsObj (mSocketClosed s), tls s)))
       (SSLSocketImpl_recv (env_ssl env) n \<lparr>mSocketClosed = cl, tls = w\<rparr>)"

fun obj_send :: "'w env \<Rightarrow> char list \<Rightarrow> sock_obj \<times> 'w \<Rightarrow> ssize_t \<times> (sock_obj \<times> 'w)" where
  "obj_send env bs (PlainObj fd, w) =
     (case SocketImpl_send (env_posix env) bs \<lparr>mSocket = fd, os = w\<rparr> of
        (r, s) \<Rightarrow> (r, (PlainObj (mSocket s), os s)))"
| "obj_send env bs (TlsObj cl, w) =
     (case SSLSocketImpl_send (env_ssl env) bs \<lparr>mSocketClosed = cl, tls = w\<rparr> of
        (r, s) \<Rightarrow> (r, (TlsObj (mSocketClosed s), tls s)))"

fun obj_shutdownWr :: "'w env \<Rightarrow> sock_obj \<times> 'w \<Rightarrow> sock_obj \<times> 'w" where
  "obj_shutdownWr env (PlainObj fd, w) =
     (let s = SocketImpl_shutdownWr (env_posix env) \<lparr>mSocket = fd, os = w\<rparr>
      in (PlainObj (mSocket s), os s))"
| "obj_shutdownWr env (TlsObj cl, w) =
     (let s = SSLSocketImpl_shutdownWr (env_ssl env) \<lparr>mSocketClosed = cl, tls = w\<rparr>
      in (TlsObj (mSocketClosed s), tls s))"

fun obj_shutdownRdWr :: "'w env \<Rightarrow> sock_obj \<times> 'w \<Rightarrow> sock_obj \<times> 'w" where
  "obj_shutdownRdWr env (PlainObj fd, w) =
     (let s = SocketImpl_shutdownRdWr (env_posix env) \<lparr>mSocket = fd, os = w\<rparr>
      in (PlainObj (mSocket s), os s))"
| "obj_shutdownRdWr env (TlsObj cl, w) =
     (let s = SSLSocketImpl_shutdownRdWr (env_ssl env) \<lparr>mSocketClosed = cl, tls = w\<rparr>
      in (TlsObj (mSocketClosed s), tls s))"

text \<open>The destructor, run when the last shared pointer is dropped.\<close>

fun obj_destroy :: "'w env \<Rightarrow> sock_obj \<times> 'w \<Rightarrow> 'w option" where
  "obj_destroy env (PlainObj fd, w) = Some (SocketImpl_destroy (env_posix env) \<lparr>mSocket = fd, os = w\<rparr>)"
| "obj_destroy env (TlsObj cl, w) = SSLSocketImpl_destroy (env_ssl env) \<lparr>mSocketClosed = cl, tls = w\<rparr>"

definition obj_socket :: "'w env \<Rightarrow> (sock_obj \<times> 'w) Socket" where
  "obj_socket env =
     \<lparr>sk_recv = obj_recv env, sk_send = obj_send env,
      sk_shutdownWr = obj_shutdownWr env, sk_shutdownRdWr = obj_shutdownRdWr env\<rparr>"

lemma obj_socket_sel [simp]:
  "sk_recv (obj_socket env) = obj_recv env"
  "sk_send (obj_socket env) = obj_send env"
  "sk_shutdownWr (obj_socket env) = obj_shutdownWr env"
  "sk_shutdownRdWr (obj_socket env) = obj_shutdownRdWr env"
  by (simp_all add: obj_socket_def)

text \<open>The byte streams of the object, from those of the network and of the TLS session.\<close>

fun obj_bytes :: "(int \<Rightarrow> 'w \<Rightarrow> char list) \<Rightarrow> ('w \<Rightarrow> char list) \<Rightarrow> sock_obj \<times> 'w \<Rightarrow> char list" where
  "obj_bytes net sess (PlainObj fd, w) = net fd w"
| "obj_bytes net sess (TlsObj cl, w) = sess w"

definition env_ok ::
  "'w env \<Rightarrow> (int \<Rightarrow> 'w \<Rightarrow> char list) \<Rightarrow> (int \<Rightarrow> 'w \<Rightarrow> char list) \<Rightarrow>
     ('w \<Rightarrow> char list) \<Rightarrow> ('w \<Rightarrow> char list) \<Rightarrow> bool" where
  "env_ok env ni no si so \<longleftrightarrow> posix_ok (env_posix env) ni no \<and> ssl_ok (env_ssl env) si so"

lemma obj_recv_safe:
  assumes "env_ok env ni no si so" and "n < 2 ^ 31"
  shows "\<exists>r bs s'. obj_recv env n s = Some ((r, bs), s') \<and>
    - 1 \<le> r \<and> r \<le> int n \<and> length bs \<le> n \<and> (0 \<le> r \<longrightarrow> length bs = nat r) \<and>
    (obj_bytes ni si s = [] \<longrightarrow> 0 < n \<longrightarrow> r \<le> 0)"
proof -
  obtain o' w where s: "s = (o', w)" by fastforce
  have p: "posix_ok (env_posix env) ni no" and t: "ssl_ok (env_ssl env) si so"
    using assms(1) by (auto simp: env_ok_def)
  show ?thesis
  proof (cases o')
    case (PlainObj fd)
    obtain r bs w' where k: "posix_recv (env_posix env) fd n w = ((r, bs), w')"
      by (cases "posix_recv (env_posix env) fd n w") auto
    then show ?thesis
      using posix_ok_recv_range [OF p k] posix_ok_recv_empty [OF p _ k] PlainObj s
      by (auto simp: SocketImpl_recv_def)
  next
    case (TlsObj cl)
    then show ?thesis
      using SSLSocketImpl_recv_safe [OF t assms(2), of "\<lparr>mSocketClosed = cl, tls = w\<rparr>"] s
      by (fastforce simp: not_less)
  qed
qed

lemma obj_recv_full:
  assumes "env_ok env ni no si so" and "0 < n" and "n < 2 ^ 31" and "n \<le> length (obj_bytes ni si s)"
  shows "\<exists>s'. obj_recv env n s = Some ((int n, take n (obj_bytes ni si s)), s') \<and>
    obj_bytes ni si s' = drop n (obj_bytes ni si s) \<and> obj_bytes no so s' = obj_bytes no so s"
proof -
  obtain o' w where s: "s = (o', w)" by fastforce
  have p: "posix_ok (env_posix env) ni no" and t: "ssl_ok (env_ssl env) si so"
    using assms(1) by (auto simp: env_ok_def)
  show ?thesis
  proof (cases o')
    case (PlainObj fd)
    then show ?thesis
      using posix_ok_recv_waitall [OF p assms(2), of fd w] assms(4) s
      by (fastforce simp: SocketImpl_recv_def)
  next
    case (TlsObj cl)
    then show ?thesis
      using SSLSocketImpl_recv_full [OF t assms(2,3), of "\<lparr>mSocketClosed = cl, tls = w\<rparr>"] assms(4) s
      by fastforce
  qed
qed

lemma obj_send_queued:
  assumes "env_ok env ni no si so" and "obj_send env bs s = (r, s')" and "r = int (length bs)"
  shows "obj_bytes ni si s' = obj_bytes ni si s \<and> obj_bytes no so s' = obj_bytes no so s @ bs"
proof -
  obtain o' w where s: "s = (o', w)" by fastforce
  have p: "posix_ok (env_posix env) ni no" and t: "ssl_ok (env_ssl env) si so"
    using assms(1) by (auto simp: env_ok_def)
  show ?thesis
  proof (cases o')
    case (PlainObj fd)
    then show ?thesis
      using assms(2,3) s posix_ok_send [OF p, of fd bs w]
      by (auto simp: SocketImpl_send_def split: prod.splits)
  next
    case (TlsObj cl)
    then show ?thesis
      using assms(2,3) s SSLSocketImpl_send_written [OF t, of bs "\<lparr>mSocketClosed = cl, tls = w\<rparr>"]
      by (auto split: prod.splits)
  qed
qed

interpretation obj: stream_socket "obj_socket env" "\<lambda>_. env_ok env ni no si so"
  "obj_bytes ni si" "obj_bytes no so" for env :: "'w env" and ni no si so
proof unfold_locales
  fix n s r bs s'
  assume a: "env_ok env ni no si so" "n < 2 ^ 31" "sk_recv (obj_socket env) n s = Some ((r, bs), s')"
  then show "- 1 \<le> r \<and> r \<le> int n \<and> length bs \<le> n \<and> (0 \<le> r \<longrightarrow> length bs = nat r)"
    using obj_recv_safe [OF a(1,2), of s] by auto
next
  fix n s r bs s'
  assume a: "env_ok env ni no si so" "obj_bytes ni si s = []" "0 < n" "n < 2 ^ 31"
    "sk_recv (obj_socket env) n s = Some ((r, bs), s')"
  then show "r \<le> 0"
    using obj_recv_safe [OF a(1,4), of s] by auto
next
  fix n :: nat and s :: "sock_obj \<times> 'w"
  assume a: "env_ok env ni no si so" "n < 2 ^ 31"
  then show "sk_recv (obj_socket env) n s \<noteq> None"
    using obj_recv_safe [OF a, of s] by auto
next
  fix n :: nat and s :: "sock_obj \<times> 'w"
  assume a: "env_ok env ni no si so" "0 < n" "n < 2 ^ 31" "n \<le> length (obj_bytes ni si s)"
  show "\<exists>s'. sk_recv (obj_socket env) n s = Some ((int n, take n (obj_bytes ni si s)), s') \<and>
    obj_bytes ni si s' = drop n (obj_bytes ni si s) \<and> obj_bytes no so s' = obj_bytes no so s"
    using obj_recv_full [OF a] by simp
qed (auto dest: obj_send_queued)

section \<open>The constructor of the TLS socket\<close>

text \<open>The certificate is applied before the descriptor is taken over, so that an exception
  leaves it with the plain socket.\<close>

definition SSLSocketImpl_new ::
  "'w env \<Rightarrow> certificate \<Rightarrow> 'w SocketImpl \<Rightarrow> (exa_exception + sock_obj) \<times> 'w SocketImpl" where
  "SSLSocketImpl_new env cert s =
     (case Certificate_apply (env_ossl env) cert
             (ossl_run (env_ossl env)
                [SSL_load_error_strings, SSLeay_add_ssl_algorithms, SSL_CTX_new_server] (os s)) of
        (Inl e, w) \<Rightarrow> (Inl e, s\<lparr>os := w\<rparr>)
      | (Inr _, w) \<Rightarrow>
          (case SocketImpl_detach s of (fd, s1) \<Rightarrow>
             (Inr (TlsObj False),
              s1\<lparr>os := ossl_run (env_ossl env)
                         [SSL_new, SSL_set_mode_auto_retry, SSL_set_fd fd, SSL_set_accept_state] w\<rparr>)))"

section \<open>Connecting\<close>

record ConnectionInfo =
  proxyHost :: string
  proxyPort :: "u16 option"    \<comment> \<open>\<^const>\<open>None\<close> before it is first assigned\<close>
  ci_socket :: "sock_obj option"

definition ConnectionInfo_new :: ConnectionInfo where
  "ConnectionInfo_new = \<lparr>proxyHost = [], proxyPort = None, ci_socket = None\<rparr>"

definition read_meta_info ::
  "'w env \<Rightarrow> string \<Rightarrow> u16 \<Rightarrow> 'w SocketImpl \<Rightarrow>
     ((exa_exception + string \<times> u16) \<times> 'w SocketImpl) option" where
  "read_meta_info env host port s =
     metaInfo_read (SocketImpl_socket (env_posix env)) (\<lambda>s. posix_errno (env_posix env) (os s)) host port s"

text \<open>An exception destroys the local socket object on its way out.\<close>

definition HttpConnectionEstablisher_connect ::
  "'w env \<Rightarrow> string \<Rightarrow> u16 \<Rightarrow> 'w \<Rightarrow> ((exa_exception + ConnectionInfo) \<times> 'w) option" where
  "HttpConnectionEstablisher_connect env host port w =
     (case SocketImpl_connect (env_posix env) host port (SocketImpl_new w) of
        (Inl e, s) \<Rightarrow> Some (Inl e, SocketImpl_destroy (env_posix env) s)
      | (Inr _, s) \<Rightarrow>
          (case read_meta_info env host port s of
             None \<Rightarrow> None
           | Some (Inl e, s1) \<Rightarrow> Some (Inl e, SocketImpl_destroy (env_posix env) s1)
           | Some (Inr (h, p), s1) \<Rightarrow>
               Some (Inr \<lparr>proxyHost = h, proxyPort = Some p, ci_socket = Some (PlainObj (mSocket s1))\<rparr>, os s1)))"

definition HttpsConnectionEstablisher_connect ::
  "'w env \<Rightarrow> certificate \<Rightarrow> string \<Rightarrow> u16 \<Rightarrow> 'w \<Rightarrow> ((exa_exception + ConnectionInfo) \<times> 'w) option" where
  "HttpsConnectionEstablisher_connect env cert host port w =
     (let s0 = SocketImpl_new w; die = SocketImpl_destroy (env_posix env) in
      if \<not> Certificate_isValid cert
      then Some (Inl (ConnectionException ''certificate has not been initialized.''), die s0)
      else case SocketImpl_connect (env_posix env) host port s0 of
        (Inl e, s) \<Rightarrow> Some (Inl e, die s)
      | (Inr _, s) \<Rightarrow>
          (case read_meta_info env host port s of
             None \<Rightarrow> None
           | Some (Inl e, s1) \<Rightarrow> Some (Inl e, die s1)
           | Some (Inr (h, p), s1) \<Rightarrow>
               (case SSLSocketImpl_new env cert s1 of
                  (Inl e, s2) \<Rightarrow>
                    Some (Inl (case e of
                        CertificateException m \<Rightarrow>
                          ConnectionException (''Error using certificate for connection:'' @ m)
                      | _ \<Rightarrow> e), die s2)
                | (Inr sk, s2) \<Rightarrow>
                    Some (Inr \<lparr>proxyHost = h, proxyPort = Some p, ci_socket = Some sk\<rparr>, die s2))))"

section \<open>What a failed attempt leaves behind\<close>

text \<open>The descriptor a plain socket object holds, along the operations of an attempt.\<close>

lemma SocketImpl_connect_fd:
  assumes "SocketImpl_connect api host port (SocketImpl_new w) = (r, s)"
  shows "mSocket s = fst (posix_socket api w)" and "r = Inr x \<Longrightarrow> 0 \<le> mSocket s"
    and "r = Inl e \<Longrightarrow> \<exists>m. e = ConnectionException m"
  using assms
  by (auto simp: SocketImpl_connect_def SocketImpl_new_def Let_def split: prod.splits if_splits option.splits)

lemma metaInfo_read_fd:
  "metaInfo_read (SocketImpl_socket api) er host port s = Some (r, s') \<Longrightarrow> mSocket s' = mSocket s"
  by (auto simp: metaInfo_read_def SocketImpl_send_def SocketImpl_recv_def Let_def
      split: prod.splits option.splits if_splits)

lemma connected_meta_fd:
  assumes "SocketImpl_connect api host port (SocketImpl_new w) = (Inr x, s)"
    and "metaInfo_read (SocketImpl_socket api) er host port s = Some (r, s')"
  shows "mSocket s' = fst (posix_socket api w) \<and> 0 \<le> fst (posix_socket api w)"
  using SocketImpl_connect_fd [OF assms(1)] metaInfo_read_fd [OF assms(2)] by simp

lemma metaInfo_read_exn:
  "metaInfo_read sock er host port s = Some (Inl e, s') \<Longrightarrow> \<exists>m. e = ConnectionException m"
  by (auto simp: metaInfo_read_def Let_def split: prod.splits option.splits if_splits)

lemma SSLSocketImpl_new_Inl:
  "SSLSocketImpl_new env cert s = (Inl e, s') \<Longrightarrow> (\<exists>m. e = CertificateException m) \<and> mSocket s' = mSocket s"
  by (auto simp: SSLSocketImpl_new_def SocketImpl_detach_def split: prod.splits sum.splits
      dest: Certificate_apply_exn)

lemma SSLSocketImpl_new_Inr:
  "SSLSocketImpl_new env cert s = (Inr sk, s') \<Longrightarrow> sk = TlsObj False \<and> mSocket s' = - 1"
  by (auto simp: SSLSocketImpl_new_def SocketImpl_detach_def split: prod.splits sum.splits)

lemma connected_tls_failed_fd:
  assumes "SSLSocketImpl_new env cert s' = (Inl e, s'')"
    and "SocketImpl_connect api host port (SocketImpl_new w) = (Inr x, s)"
    and "metaInfo_read (SocketImpl_socket api) er host port s = Some (r, s')"
  shows "mSocket s'' = fst (posix_socket api w)"
  using SSLSocketImpl_new_Inl [OF assms(1)] connected_meta_fd [OF assms(2,3)] by simp

lemma SocketImpl_destroy_shuts:
  "0 \<le> mSocket s \<Longrightarrow> SocketImpl_destroy api s = posix_shutdown api (mSocket s) SHUT_RDWR (os s)"
  by (simp add: SocketImpl_destroy_def)

text \<open>Whichever step fails, a descriptor that was opened is shut down in both directions before
  the exception, always a \<^verbatim>\<open>ConnectionException\<close>, leaves the establisher.\<close>

definition shut_before_exit :: "'w env \<Rightarrow> 'w \<Rightarrow> exa_exception \<Rightarrow> 'w \<Rightarrow> bool" where
  "shut_before_exit env w e w' \<longleftrightarrow>
     (\<exists>m. e = ConnectionException m) \<and>
     (let fd = fst (posix_socket (env_posix env) w) in
      fd < 0 \<or> (\<exists>w1. w' = posix_shutdown (env_posix env) fd SHUT_RDWR w1))"

lemma shut_before_exitI:
  assumes "mSocket s = fst (posix_socket (env_posix env) w)" and "\<exists>m. e = ConnectionException m"
  shows "shut_before_exit env w e (SocketImpl_destroy (env_posix env) s)"
  using assms by (auto simp: shut_before_exit_def SocketImpl_destroy_def Let_def)

lemma http_connect_failure:
  assumes "HttpConnectionEstablisher_connect env host port w = Some (Inl e, w')"
  shows "shut_before_exit env w e w'"
  using assms unfolding HttpConnectionEstablisher_connect_def read_meta_info_def
  by (auto split: prod.splits sum.splits option.splits intro!: shut_before_exitI
      dest: SocketImpl_connect_fd metaInfo_read_exn connected_meta_fd)

lemma https_connect_failure:
  assumes "HttpsConnectionEstablisher_connect env cert host port w = Some (Inl e, w')"
  shows "Certificate_isValid cert \<Longrightarrow> shut_before_exit env w e w'"
    and "\<not> Certificate_isValid cert \<Longrightarrow> e = ConnectionException ''certificate has not been initialized.'' \<and> w' = w"
proof -
  show "Certificate_isValid cert \<Longrightarrow> shut_before_exit env w e w'"
    using assms unfolding HttpsConnectionEstablisher_connect_def read_meta_info_def Let_def
    by (auto split: prod.splits sum.splits option.splits exa_exception.splits intro!: shut_before_exitI
        dest: SocketImpl_connect_fd metaInfo_read_exn connected_meta_fd SSLSocketImpl_new_Inl connected_tls_failed_fd)
  show "\<not> Certificate_isValid cert \<Longrightarrow> e = ConnectionException ''certificate has not been initialized.'' \<and> w' = w"
    using assms by (auto simp: HttpsConnectionEstablisher_connect_def SocketImpl_destroy_def SocketImpl_new_def)
qed

text \<open>An attempt always ends, whatever the network answers.\<close>

lemma read_meta_info_defined:
  assumes "posix_ok (env_posix env) ni no"
  shows "read_meta_info env host port s \<noteq> None"
  using plain.metaInfo_read_errors [OF assms, of "\<lambda>s. posix_errno (env_posix env) (os s)" host port s]
  by (auto simp: read_meta_info_def)

lemma connect_defined:
  assumes "posix_ok (env_posix env) ni no"
  shows "HttpConnectionEstablisher_connect env host port w \<noteq> None"
    and "HttpsConnectionEstablisher_connect env cert host port w \<noteq> None"
  using assms
  by (auto simp: HttpConnectionEstablisher_connect_def HttpsConnectionEstablisher_connect_def Let_def
      split: prod.splits sum.splits option.splits elim: read_meta_info_defined [THEN notE])

text \<open>A successful attempt hands over an open descriptor, and nothing is shut down.\<close>

lemma http_connect_success:
  assumes "HttpConnectionEstablisher_connect env host port w = Some (Inr ci, w')"
  shows "\<exists>fd p. ci_socket ci = Some (PlainObj fd) \<and> 0 \<le> fd \<and> proxyPort ci = Some p \<and>
    fd = fst (posix_socket (env_posix env) w)"
  using assms unfolding HttpConnectionEstablisher_connect_def read_meta_info_def
  by (auto split: prod.splits sum.splits option.splits
      dest: connected_meta_fd)

lemma https_connect_success:
  assumes "HttpsConnectionEstablisher_connect env cert host port w = Some (Inr ci, w')"
  shows "ci_socket ci = Some (TlsObj False) \<and> (\<exists>p. proxyPort ci = Some p) \<and> Certificate_isValid cert"
  using assms unfolding HttpsConnectionEstablisher_connect_def Let_def
  by (auto split: prod.splits sum.splits option.splits if_splits dest: SSLSocketImpl_new_Inr)

end
