(* ===== verification/Connection_Controller.thy ===== *)
theory Connection_Controller
  imports Connection_Establisher
begin

text \<open>
  \<^verbatim>\<open>exa::ConnectionFactoryImpl\<close> (\<^verbatim>\<open>connection/connection_factory_impl.cpp\<close>) and
  \<^verbatim>\<open>exa::ConnectionController\<close> (\<^verbatim>\<open>connection/connection_controller.cpp\<close>).

  An operation returns an \<open>outcome\<close>: it returns a value, R's error handler jumps over it,
  an exception escapes it, the runtime terminates the process, or it has no result
  (undefined behaviour or a loop without end).  The error handler is a parameter that says
  whether it returns; \<^verbatim>\<open>exa::onError\<close>, the one in use, never does, because R's
  \<^verbatim>\<open>error\<close> is a \<^verbatim>\<open>longjmp\<close>.  Reader and writer objects have an identity, so that weak
  pointers to them can expire.  The background thread runs when the main thread waits for
  it; the other interleavings are the subject of the theory \<open>Shutdown_Race\<close>.
\<close>

datatype 'a outcome =
    Returned 'a
  | Jumped string
  | Uncaught exa_exception
  | Terminated
  | NoResult

type_synonym 'w error_fn = "string \<Rightarrow> 'w \<Rightarrow> bool \<times> 'w"

text \<open>The state outside the controller: the two function-local statics of the factory, the
  next object identity and the outside world.\<close>

record 'w sys =
  sys_chunk :: Chunk
  sys_cert :: certificate
  sys_fresh :: nat
  sys_w :: 'w

record controller =
  mReader :: "nat option"
  mWriter :: "nat option"
  mOdbcAsyncExecutor :: "async_executor option"
  mConnectionInfo :: ConnectionInfo

definition ConnectionController_new :: controller where
  "ConnectionController_new =
     \<lparr>mReader = None, mWriter = None, mOdbcAsyncExecutor = None, mConnectionInfo = ConnectionInfo_new\<rparr>"

definition set_socket :: "sock_obj option \<Rightarrow> controller \<Rightarrow> controller" where
  "set_socket so k = k\<lparr>mConnectionInfo := (mConnectionInfo k)\<lparr>ci_socket := so\<rparr>\<rparr>"

lemma ci_socket_set_socket [simp]: "ci_socket (mConnectionInfo (set_socket so k)) = so"
  "mOdbcAsyncExecutor (set_socket so k) = mOdbcAsyncExecutor k"
  "mReader (set_socket so k) = mReader k" "mWriter (set_socket so k) = mWriter k"
  by (simp_all add: set_socket_def)

section \<open>The factory\<close>

datatype ProtocolType = http | https | protocol_value int
  \<comment> \<open>a variable of the enumeration may hold any value of its underlying type\<close>

datatype establisher = HttpEstablisher | HttpsEstablisher certificate

definition createHttpReader :: "'w sys \<Rightarrow> nat \<times> 'w sys" where
  "createHttpReader g =
     (sys_fresh g, g\<lparr>sys_chunk := HttpChunkReader_new (sys_chunk g), sys_fresh := sys_fresh g + 1\<rparr>)"

definition createHttpWriter :: "'w sys \<Rightarrow> nat \<times> 'w sys" where
  "createHttpWriter g =
     (sys_fresh g, g\<lparr>sys_chunk := HttpChunkWriter_new (sys_chunk g), sys_fresh := sys_fresh g + 1\<rparr>)"

definition getCertificate :: "'w env \<Rightarrow> 'w sys \<Rightarrow> (exa_exception + certificate) \<times> 'w sys" where
  "getCertificate env g =
     (if \<not> Certificate_isValid (sys_cert g)
      then (case mkcert (env_ossl env) 2048 0 365 (sys_cert g) (sys_w g) of
          (Inl e, w) \<Rightarrow> (Inl e, g\<lparr>sys_w := w\<rparr>)
        | (Inr c, w) \<Rightarrow> (Inr c, g\<lparr>sys_cert := c, sys_w := w\<rparr>))
      else (Inr (sys_cert g), g))"

definition createConnectionEstablisher ::
  "'w env \<Rightarrow> 'w error_fn \<Rightarrow> ProtocolType \<Rightarrow> 'w sys \<Rightarrow> establisher option outcome \<times> 'w sys" where
  "createConnectionEstablisher env eh p g =
     (case p of
        http \<Rightarrow> (Returned (Some HttpEstablisher), g)
      | https \<Rightarrow> (case getCertificate env g of
            (Inl e, g') \<Rightarrow> (Uncaught e, g')
          | (Inr c, g') \<Rightarrow> (Returned (Some (HttpsEstablisher c)), g'))
      | protocol_value _ \<Rightarrow>
          (case eh ''Unknown protocol. Only Http and Https are supported'' (sys_w g) of
             (ret, w) \<Rightarrow>
               (if ret then Returned None else Jumped ''Unknown protocol. Only Http and Https are supported'',
                g\<lparr>sys_w := w\<rparr>)))"

fun establisher_connect ::
  "'w env \<Rightarrow> establisher \<Rightarrow> string \<Rightarrow> u16 \<Rightarrow> 'w \<Rightarrow> ((exa_exception + ConnectionInfo) \<times> 'w) option" where
  "establisher_connect env HttpEstablisher = HttpConnectionEstablisher_connect env"
| "establisher_connect env (HttpsEstablisher c) = HttpsConnectionEstablisher_connect env c"

section \<open>The controller\<close>

type_synonym ('a, 'w) ctl_result = "'a outcome \<times> controller \<times> 'w sys"

text \<open>Call the error handler, then go on with \<open>cont\<close> if it returned.\<close>

definition call_handler ::
  "'w error_fn \<Rightarrow> string \<Rightarrow> controller \<Rightarrow> 'w sys \<Rightarrow>
     (controller \<Rightarrow> 'w sys \<Rightarrow> ('a, 'w) ctl_result) \<Rightarrow> ('a, 'w) ctl_result" where
  "call_handler eh m k g cont =
     (case eh m (sys_w g) of
        (True, w) \<Rightarrow> cont k (g\<lparr>sys_w := w\<rparr>)
      | (False, w) \<Rightarrow> (Jumped m, k, g\<lparr>sys_w := w\<rparr>))"

text \<open>The two \<^verbatim>\<open>catch\<close> clauses of \<^verbatim>\<open>startReading\<close> and \<^verbatim>\<open>startWriting\<close>.\<close>

definition handle_start_exn ::
  "'w error_fn \<Rightarrow> exa_exception \<Rightarrow> controller \<Rightarrow> 'w sys \<Rightarrow> (nat option, 'w) ctl_result" where
  "handle_start_exn eh e k g =
     (case e of
        CertificateException _ \<Rightarrow> (Uncaught e, k, g)
      | _ \<Rightarrow> call_handler eh (exa_what e) k g (\<lambda>k g. (Returned None, k, g)))"

text \<open>Replacing an executor destroys the old one: a joinable \<^verbatim>\<open>std::thread\<close> in it
  terminates the process, otherwise its statement handle is freed.\<close>

definition replace_executor ::
  "'w env \<Rightarrow> async_executor option \<Rightarrow> controller \<Rightarrow> 'w sys \<Rightarrow> (controller \<times> 'w sys) option" where
  "replace_executor env a k g =
     (case mOdbcAsyncExecutor k of
        None \<Rightarrow> Some (k\<lparr>mOdbcAsyncExecutor := a\<rparr>, g)
      | Some old \<Rightarrow>
          (case mThread old of
             Joinable _ \<Rightarrow> None
           | NotJoinable \<Rightarrow>
               Some (k\<lparr>mOdbcAsyncExecutor := a\<rparr>,
                     g\<lparr>sys_w := OdbcQueryExecutor_destroy (env_odbc env) (mQueryExecutor old) (sys_w g)\<rparr>)))"

text \<open>The common beginning: create the executor and start it; \<open>Inl\<close> is the result of
  a path that ends there.\<close>

definition start_executor ::
  "'w env \<Rightarrow> 'w error_fn \<Rightarrow> odbc_session \<Rightarrow> controller \<Rightarrow> 'w sys \<Rightarrow>
     (nat option, 'w) ctl_result + (controller \<times> 'w sys)" where
  "start_executor env eh si k g =
     (case replace_executor env (Some (AsyncExecutorImpl_new si)) k g of
        None \<Rightarrow> Inl (Terminated, k, g)
      | Some (k1, g1) \<Rightarrow>
          (case async_execute (env_odbc env) (AsyncExecutorImpl_new si) (sys_w g1) of
             None \<Rightarrow> Inl (Terminated, k1, g1)
           | Some (r, a, w) \<Rightarrow>
               (let k2 = k1\<lparr>mOdbcAsyncExecutor := Some a\<rparr>; g2 = g1\<lparr>sys_w := w\<rparr> in
                case r of
                  Inl e \<Rightarrow> Inl (handle_start_exn eh e k2 g2)
                | Inr _ \<Rightarrow> Inr (k2, g2))))"

text \<open>The socket the controller points to, as the reader and the writer see it.\<close>

definition ctl_socket :: "controller \<Rightarrow> 'w sys \<Rightarrow> (sock_obj \<times> 'w) option" where
  "ctl_socket k g = map_option (\<lambda>sk. (sk, sys_w g)) (ci_socket (mConnectionInfo k))"

definition shut_socket :: "'w env \<Rightarrow> controller \<Rightarrow> 'w \<Rightarrow> controller \<times> 'w" where
  "shut_socket env k w =
     (case ci_socket (mConnectionInfo k) of
        None \<Rightarrow> (k, w)
      | Some sk \<Rightarrow> (case obj_shutdownRdWr env (sk, w) of (sk', w') \<Rightarrow> (set_socket (Some sk') k, w')))"

definition onOdbcError :: "'w env \<Rightarrow> controller \<Rightarrow> 'w \<Rightarrow> controller \<times> 'w" where
  "onOdbcError env k w = shut_socket env k w"

text \<open>A step of the background thread while the main thread is not waiting for it: the error callback acts on the
  controller's socket at that time.  The callback is one step here; the accesses it makes one after the other
  are those of the theory \<open>Shutdown_Race\<close>.\<close>

definition background_step :: "'w env \<Rightarrow> controller \<Rightarrow> 'w \<Rightarrow> (controller \<times> 'w) option" where
  "background_step env k w =
     (case mOdbcAsyncExecutor k of
        None \<Rightarrow> None
      | Some a \<Rightarrow>
          (if mThread a = Joinable BgHandler
           then (case onOdbcError env k w of
                   (k1, w1) \<Rightarrow> Some (k1\<lparr>mOdbcAsyncExecutor := Some (a\<lparr>mThread := Joinable BgEnd\<rparr>)\<rparr>, w1))
           else map_option (\<lambda>(a', w'). (k\<lparr>mOdbcAsyncExecutor := Some a'\<rparr>, w')) (bg_step (env_odbc env) id (a, w))))"

fun background_run :: "'w env \<Rightarrow> nat \<Rightarrow> controller \<Rightarrow> 'w \<Rightarrow> controller \<times> 'w" where
  "background_run env 0 k w = (k, w)"
| "background_run env (Suc n) k w =
     (case background_step env k w of None \<Rightarrow> (k, w) | Some (k', w') \<Rightarrow> background_run env n k' w')"

definition startReading ::
  "'w env \<Rightarrow> 'w error_fn \<Rightarrow> odbc_session \<Rightarrow> controller \<Rightarrow> 'w sys \<Rightarrow> (nat option, 'w) ctl_result" where
  "startReading env eh si k g =
     (case ci_socket (mConnectionInfo k) of
        None \<Rightarrow> call_handler eh ''Connection not established'' k g (\<lambda>k g. (Returned None, k, g))
      | Some _ \<Rightarrow>
          (case start_executor env eh si k g of
             Inl res \<Rightarrow> res
           | Inr (k0, g0) \<Rightarrow>
               (case background_run env (env_sched env AfterExecute) k0 (sys_w g0) of (k1, w1) \<Rightarrow>
                (case createHttpReader (g0\<lparr>sys_w := w1\<rparr>) of (rd, g2) \<Rightarrow>
                  (let k2 = k1\<lparr>mReader := Some rd\<rparr> in
                   case reader_start (obj_socket env) (ctl_socket k2 g2) of
                     None \<Rightarrow> (NoResult, k2, g2)
                   | Some (_, None) \<Rightarrow> (NoResult, k2, g2)
                   | Some (r, Some (sk', w)) \<Rightarrow>
                       (let k3 = set_socket (Some sk') k2; g3 = g2\<lparr>sys_w := w\<rparr> in
                        case r of
                          Inl e \<Rightarrow> handle_start_exn eh e k3 g3
                        | Inr _ \<Rightarrow> (Returned (Some rd), k3, g3)))))))"

definition startWriting ::
  "'w env \<Rightarrow> 'w error_fn \<Rightarrow> odbc_session \<Rightarrow> controller \<Rightarrow> 'w sys \<Rightarrow> (nat option, 'w) ctl_result" where
  "startWriting env eh si k g =
     (case ci_socket (mConnectionInfo k) of
        None \<Rightarrow> call_handler eh ''Connection not established'' k g (\<lambda>k g. (Returned None, k, g))
      | Some _ \<Rightarrow>
          (case start_executor env eh si k g of
             Inl res \<Rightarrow> res
           | Inr (k0, g0) \<Rightarrow>
               (case background_run env (env_sched env AfterExecute) k0 (sys_w g0) of (k1, w1) \<Rightarrow>
                (case createHttpWriter (g0\<lparr>sys_w := w1\<rparr>) of (wr, g2) \<Rightarrow>
                  (let k2 = k1\<lparr>mWriter := Some wr\<rparr> in
                   case writer_start (obj_socket env) (ctl_socket k2 g2) of
                     None \<Rightarrow> (NoResult, k2, g2)
                   | Some (_, None) \<Rightarrow> (NoResult, k2, g2)
                   | Some (r, Some (sk', w)) \<Rightarrow>
                       (let k3 = set_socket (Some sk') k2; g3 = g2\<lparr>sys_w := w\<rparr> in
                        case r of
                          Inl e \<Rightarrow> handle_start_exn eh e k3 g3
                        | Inr _ \<Rightarrow> (Returned (Some wr), k3, g3)))))))"

text \<open>Dropping the pointer destroys the socket; \<^const>\<open>None\<close> when the destructor runs into undefined behaviour.\<close>

definition reset_socket :: "'w env \<Rightarrow> controller \<Rightarrow> 'w \<Rightarrow> (controller \<times> 'w) option" where
  "reset_socket env k w =
     (case ci_socket (mConnectionInfo k) of
        None \<Rightarrow> Some (k, w)
      | Some sk \<Rightarrow> map_option (\<lambda>w'. (set_socket None k, w')) (obj_destroy env (sk, w)))"

definition close_socket :: "'w env \<Rightarrow> controller \<Rightarrow> 'w \<Rightarrow> (controller \<times> 'w) option" where
  "close_socket env k w = (case shut_socket env k w of (k1, w1) \<Rightarrow> reset_socket env k1 w1)"

text \<open>The rest of \<^verbatim>\<open>shutDown\<close>: join the thread and report.  The socket pointer is empty by then, so that an error
  callback that begins only now does nothing.\<close>

definition finish_statement :: "'w env \<Rightarrow> 'w error_fn \<Rightarrow> controller \<Rightarrow> 'w sys \<Rightarrow> (bool, 'w) ctl_result" where
  "finish_statement env eh k g =
     (case (case mOdbcAsyncExecutor k of
              None \<Rightarrow> Some ([], True, k, g)
            | Some a \<Rightarrow>
                (case joinAndCheckResult (env_odbc env) (\<lambda>w. snd (onOdbcError env k w)) a (sys_w g) of
                   None \<Rightarrow> None
                 | Some (m, a', w1) \<Rightarrow>
                     (case replace_executor env None (k\<lparr>mOdbcAsyncExecutor := Some a'\<rparr>) (g\<lparr>sys_w := w1\<rparr>) of
                        None \<Rightarrow> None
                      | Some (k1, g1) \<Rightarrow> Some (m, async_isDone a', k1, g1)))) of
        None \<Rightarrow> (NoResult, k, g)
      | Some (errorMsg, retVal, k1, g1) \<Rightarrow>
          (let k2 = k1\<lparr>mReader := None, mWriter := None\<rparr> in
           if errorMsg \<noteq> []
           then call_handler eh errorMsg k2 g1 (\<lambda>k g. (Returned retVal, k, g))
           else (Returned retVal, k2, g1)))"

definition shutDown :: "'w env \<Rightarrow> 'w error_fn \<Rightarrow> controller \<Rightarrow> 'w sys \<Rightarrow> (bool, 'w) ctl_result" where
  "shutDown env eh k g =
     (case shut_socket env k (sys_w g) of
        (k1, w1) \<Rightarrow>
          (case background_run env (env_sched env BeforeReset) k1 w1 of
             (k2, w2) \<Rightarrow>
               (case reset_socket env k2 w2 of
                  None \<Rightarrow> (NoResult, k2, g\<lparr>sys_w := w2\<rparr>)
                | Some (k3, w3) \<Rightarrow> finish_statement env eh k3 (g\<lparr>sys_w := w3\<rparr>))))"

definition isValidProtocol :: "ProtocolType \<Rightarrow> bool" where
  "isValidProtocol p \<longleftrightarrow> http = p \<or> https = p"

text \<open>Assigning the connection info drops the pointer to the old socket.\<close>

definition controller_connect ::
  "'w env \<Rightarrow> 'w error_fn \<Rightarrow> ProtocolType \<Rightarrow> string \<Rightarrow> u16 \<Rightarrow> controller \<Rightarrow> 'w sys \<Rightarrow>
     (bool, 'w) ctl_result" where
  "controller_connect env eh p host port k g =
     (if isValidProtocol p
      then (case createConnectionEstablisher env eh p g of
          (Returned None, g1) \<Rightarrow> (Returned False, k, g1)
        | (Returned (Some est), g1) \<Rightarrow>
            (case establisher_connect env est host port (sys_w g1) of
               None \<Rightarrow> (NoResult, k, g1)
             | Some (Inl (ConnectionException m), w) \<Rightarrow>
                 call_handler eh m k (g1\<lparr>sys_w := w\<rparr>)
                   (\<lambda>k g. case close_socket env k (sys_w g) of
                        None \<Rightarrow> (NoResult, k, g)
                      | Some (k', w') \<Rightarrow> (Returned False, k', g\<lparr>sys_w := w'\<rparr>))
             | Some (Inl e, w) \<Rightarrow> (Uncaught e, k, g1\<lparr>sys_w := w\<rparr>)
             | Some (Inr ci, w) \<Rightarrow>
                 (case (case ci_socket (mConnectionInfo k) of
                          None \<Rightarrow> Some w | Some old \<Rightarrow> obj_destroy env (old, w)) of
                    None \<Rightarrow> (NoResult, k, g1)
                  | Some w' \<Rightarrow> (Returned True, k\<lparr>mConnectionInfo := ci\<rparr>, g1\<lparr>sys_w := w'\<rparr>)))
        | (Jumped m, g1) \<Rightarrow> (Jumped m, k, g1)
        | (Uncaught e, g1) \<Rightarrow> (Uncaught e, k, g1)
        | (Terminated, g1) \<Rightarrow> (Terminated, k, g1)
        | (NoResult, g1) \<Rightarrow> (NoResult, k, g1))
      else (Returned False, k, g))"

definition getProxyHost :: "controller \<Rightarrow> string" where
  "getProxyHost k = proxyHost (mConnectionInfo k)"

definition getProxyPort :: "controller \<Rightarrow> u16 option" where
  "getProxyPort k = proxyPort (mConnectionInfo k)"

section \<open>Closing\<close>

definition sock_closed :: "sock_obj \<Rightarrow> bool" where
  "sock_closed sk \<longleftrightarrow> sk = PlainObj (- 1) \<or> sk = TlsObj True"

lemma obj_shutdownRdWr_closed: "\<exists>sk' w'. obj_shutdownRdWr env (sk, w) = (sk', w') \<and> sock_closed sk'"
  by (cases sk) (auto simp: sock_closed_def SocketImpl_shutdownRdWr_def SSLSocketImpl_shutdownRdWr_def
      SSLSocketImpl_closeSocket_def Let_def)

lemma shutdown_closes: "obj_shutdownRdWr env x = (sk', w') \<Longrightarrow> sock_closed sk'"
  using obj_shutdownRdWr_closed [of env "fst x" "snd x"] by auto

text \<open>Destroying a socket that was shut down before is always defined.\<close>

lemma destroy_closed_defined: "sock_closed sk \<Longrightarrow> \<exists>w'. obj_destroy env (sk, w) = Some w'"
  by (auto simp: sock_closed_def SSLSocketImpl_destroy_def Let_def split: prod.splits)

text \<open>Destroying an open TLS socket is not: \<^verbatim>\<open>closeSocket\<close> uses the freed session.\<close>

lemma obj_destroy_open_tls: "obj_destroy env (TlsObj False, w) = None"
  by (simp add: SSLSocketImpl_destroy_def Let_def split: prod.splits)

definition ctl_closed :: "controller \<Rightarrow> bool" where
  "ctl_closed k \<longleftrightarrow> (\<forall>sk. ci_socket (mConnectionInfo k) = Some sk \<longrightarrow> sock_closed sk)"

lemma shut_socket_closed: "shut_socket env k w = (k', w') \<Longrightarrow> ctl_closed k'"
  by (auto simp: shut_socket_def ctl_closed_def dest: shutdown_closes split: option.splits prod.splits)

lemma reset_socket_closed: "ctl_closed k \<Longrightarrow> \<exists>w'. reset_socket env k w = Some (set_socket None k, w')"
  using destroy_closed_defined [of _ env w]
  by (cases "ci_socket (mConnectionInfo k)") (fastforce simp: reset_socket_def ctl_closed_def set_socket_def)+

lemma close_socket_defined: "\<exists>w'. close_socket env k w = Some (set_socket None k, w')"
proof -
  obtain k1 w1 where s: "shut_socket env k w = (k1, w1)" by fastforce
  obtain w2 where r: "reset_socket env k1 w1 = Some (set_socket None k1, w2)"
    using reset_socket_closed [OF shut_socket_closed [OF s], of env w1] by blast
  have "set_socket None k1 = set_socket None k"
    using s by (auto simp: shut_socket_def set_socket_def split: option.splits prod.splits)
  with s r show ?thesis by (simp add: close_socket_def)
qed

lemma close_socket_none: "ci_socket (mConnectionInfo k) = None \<Longrightarrow> close_socket env k w = Some (k, w)"
  by (simp add: close_socket_def shut_socket_def reset_socket_def)

section \<open>The background thread\<close>

text \<open>What the background thread cannot change.\<close>

definition ctl_frame :: "controller \<Rightarrow> controller \<Rightarrow> bool" where
  "ctl_frame k k' \<longleftrightarrow> mReader k' = mReader k \<and> mWriter k' = mWriter k \<and>
     proxyHost (mConnectionInfo k') = proxyHost (mConnectionInfo k) \<and>
     proxyPort (mConnectionInfo k') = proxyPort (mConnectionInfo k) \<and>
     (ci_socket (mConnectionInfo k') = None \<longleftrightarrow> ci_socket (mConnectionInfo k) = None) \<and>
     (mOdbcAsyncExecutor k' = None \<longleftrightarrow> mOdbcAsyncExecutor k = None)"

lemma ctl_frame_refl [simp]: "ctl_frame k k"
  by (simp add: ctl_frame_def)

lemma ctl_frame_trans: "ctl_frame k k1 \<Longrightarrow> ctl_frame k1 k2 \<Longrightarrow> ctl_frame k k2"
  by (simp add: ctl_frame_def)

lemma shut_socket_frame: "shut_socket env k w = (k', w') \<Longrightarrow> ctl_frame k k' \<and> mOdbcAsyncExecutor k' = mOdbcAsyncExecutor k"
  by (auto simp: shut_socket_def ctl_frame_def set_socket_def split: option.splits prod.splits)

definition ctl_released :: "controller \<Rightarrow> bool" where
  "ctl_released k \<longleftrightarrow> mReader k = None \<and> mWriter k = None \<and> mOdbcAsyncExecutor k = None \<and>
     ci_socket (mConnectionInfo k) = None"

text \<open>The executor of a controller is absent, or its thread was started.\<close>

definition ctl_started :: "controller \<Rightarrow> bool" where
  "ctl_started k \<longleftrightarrow>
     (\<forall>a. mOdbcAsyncExecutor k = Some a \<longrightarrow> bg_inv a \<and> (\<exists>pc. mThread a = Joinable pc))"

lemma ctl_started_new [simp]: "ctl_started ConnectionController_new"
  by (simp add: ctl_started_def ConnectionController_new_def)

lemma background_step_frame: "background_step env k w = Some (k', w') \<Longrightarrow> ctl_frame k k'"
  by (auto simp: background_step_def ctl_frame_def onOdbcError_def dest!: shut_socket_frame
      split: option.splits if_splits prod.splits)

lemma background_step_joinable:
  "background_step env k w = Some (k', w') \<Longrightarrow> \<exists>a pc. mOdbcAsyncExecutor k' = Some a \<and> mThread a = Joinable pc"
  by (auto simp: background_step_def dest: bg_step_joinable split: option.splits if_splits prod.splits)

lemma background_step_started:
  assumes "background_step env k w = Some (k', w')" and "ctl_started k"
  shows "ctl_started k'"
  using assms bg_step_joinable [of "env_odbc env" id]
  by (auto simp: background_step_def ctl_started_def simp del: bg_inv.simps dest: bg_step_inv
      split: option.splits if_splits prod.splits) auto

lemma background_step_closed: "background_step env k w = Some (k', w') \<Longrightarrow> ctl_closed k \<Longrightarrow> ctl_closed k'"
  by (auto simp: background_step_def onOdbcError_def ctl_closed_def [of k] dest!: shut_socket_closed
      split: option.splits if_splits prod.splits) (auto simp: ctl_closed_def)

text \<open>A property that every step keeps holds after any number of steps.\<close>

lemma background_run_keeps:
  assumes "\<And>k w k' w'. background_step env k w = Some (k', w') \<Longrightarrow> P k \<Longrightarrow> P k'"
    and "P k" and "background_run env n k w = (k', w')"
  shows "P k'"
  using assms(2,3)
proof (induction n arbitrary: k w)
  case (Suc n)
  show ?case
  proof (cases "background_step env k w")
    case (Some x)
    then obtain k1 w1 where "background_step env k w = Some (k1, w1)" by (cases x) auto
    then show ?thesis using Suc assms(1) [of k w k1 w1] by simp
  qed (use Suc in simp)
qed simp

lemma background_run_started: "background_run env n k w = (k', w') \<Longrightarrow> ctl_started k \<Longrightarrow> ctl_started k'"
  by (rule background_run_keeps [of env ctl_started]) (blast intro: background_step_started)+

lemma background_run_closed: "background_run env n k w = (k', w') \<Longrightarrow> ctl_closed k \<Longrightarrow> ctl_closed k'"
  by (rule background_run_keeps [of env ctl_closed]) (blast intro: background_step_closed)+

lemma background_run_frame: "background_run env n k w = (k', w') \<Longrightarrow> ctl_frame k k'"
  by (rule background_run_keeps [of env "ctl_frame k"]) (auto dest: background_step_frame intro: ctl_frame_trans)

lemma background_run_joinable:
  assumes "mOdbcAsyncExecutor k = Some a" and "mThread a = Joinable pc" and "background_run env n k w = (k', w')"
  shows "\<exists>a' pc'. mOdbcAsyncExecutor k' = Some a' \<and> mThread a' = Joinable pc'"
proof -
  let ?P = "\<lambda>k. \<exists>a' pc'. mOdbcAsyncExecutor k = Some a' \<and> mThread a' = Joinable pc'"
  have "?P k" using assms(1,2) by blast
  then show ?thesis
    by (rule background_run_keeps [of env ?P, OF _ _ assms(3), rotated]) (rule background_step_joinable)
qed

text \<open>Without a thread nothing happens.\<close>

lemma background_run_idle:
  "(\<And>a. mOdbcAsyncExecutor k = Some a \<Longrightarrow> mThread a = NotJoinable) \<Longrightarrow> background_run env n k w = (k, w)"
  by (cases n) (auto simp: background_step_def bg_step.simps split: option.splits)

lemma call_handler_cases:
  "call_handler eh m k g (\<lambda>k g. (Returned v, k, g)) = (r, k', g') \<Longrightarrow>
     k' = k \<and> (r = Returned v \<or> r = Jumped m)"
  by (auto simp: call_handler_def split: prod.splits bool.splits)

section \<open>Shutting down\<close>

text \<open>Closing the socket is always defined, whatever the background thread does in between; what is left is to
  finish the statement without a socket.\<close>

lemma shutDown_finish:
  obtains k1 w1 k2 w2 w3 where "shut_socket env k (sys_w g) = (k1, w1)"
    and "background_run env (env_sched env BeforeReset) k1 w1 = (k2, w2)"
    and "shutDown env eh k g = finish_statement env eh (set_socket None k2) (g\<lparr>sys_w := w3\<rparr>)"
proof -
  obtain k1 w1 where s: "shut_socket env k (sys_w g) = (k1, w1)" by fastforce
  obtain k2 w2 where b: "background_run env (env_sched env BeforeReset) k1 w1 = (k2, w2)" by fastforce
  obtain w3 where r: "reset_socket env k2 w2 = Some (set_socket None k2, w3)"
    using reset_socket_closed [OF background_run_closed [OF b shut_socket_closed [OF s]], of env w2] by blast
  show thesis by (rule that [OF s b]) (simp add: shutDown_def s b r)
qed

lemma finish_statement_joined:
  assumes "joinAndCheckResult (env_odbc env) (\<lambda>w. snd (onOdbcError env k w)) a (sys_w g) = Some (m, a', w)"
    and "mOdbcAsyncExecutor k = Some a" and "async_isDone a'" and "mThread a' = NotJoinable"
    and "ci_socket (mConnectionInfo k) = None" and "finish_statement env eh k g = (r, k', g')"
  shows "ctl_released k' \<and> (r = Returned True \<or> (m \<noteq> [] \<and> r = Jumped m))"
  using assms by (auto simp: finish_statement_def Let_def ctl_released_def replace_executor_def
      dest!: call_handler_cases split: if_splits)

lemma finish_statement_started:
  assumes "ctl_started k" and "ci_socket (mConnectionInfo k) = None" and "finish_statement env eh k g = (r, k', g')"
  shows "ctl_released k' \<and> (r = Returned True \<or> (\<exists>m. m \<noteq> [] \<and> r = Jumped m))"
proof (cases "mOdbcAsyncExecutor k")
  case None
  then show ?thesis using assms by (auto simp: finish_statement_def Let_def ctl_released_def)
next
  case (Some a)
  then obtain pc where inv: "bg_inv a" "mThread a = Joinable pc" using assms(1) by (auto simp: ctl_started_def)
  then obtain m a' w where "joinAndCheckResult (env_odbc env) (\<lambda>w. snd (onOdbcError env k w)) a (sys_w g) = Some (m, a', w)"
      "async_isDone a'" "mThread a' = NotJoinable"
    using joinAndCheckResult_started [OF inv, of "env_odbc env"] by blast
  with finish_statement_joined [OF _ Some _ _ assms(2,3)] show ?thesis by blast
qed

text \<open>After a successful start, or before any, \<^verbatim>\<open>shutDown\<close> always ends, releases everything
  and reports a finished transfer, unless the handler jumps away with the error message.\<close>

lemma shutDown_started:
  assumes "ctl_started k" and "shutDown env eh k g = (r, k', g')"
  shows "ctl_released k' \<and> (r = Returned True \<or> (\<exists>m. m \<noteq> [] \<and> r = Jumped m))"
proof -
  obtain k1 w1 k2 w2 w3 where s: "shut_socket env k (sys_w g) = (k1, w1)"
      "background_run env (env_sched env BeforeReset) k1 w1 = (k2, w2)"
      "shutDown env eh k g = finish_statement env eh (set_socket None k2) (g\<lparr>sys_w := w3\<rparr>)"
    by (rule shutDown_finish)
  have "ctl_started k1" using shut_socket_frame [OF s(1)] assms(1) by (simp add: ctl_started_def)
  then have "ctl_started (set_socket None k2)"
    using background_run_started [OF s(2)] by (simp add: ctl_started_def)
  with finish_statement_started [of "set_socket None k2" env eh "g\<lparr>sys_w := w3\<rparr>"] assms(2) s(3)
  show ?thesis by simp
qed

text \<open>When the statement could not even be allocated, \<^verbatim>\<open>shutDown\<close> reads the result
  code of a statement that never ran.\<close>

lemma joinAndCheckResult_unstarted:
  "mThread a = NotJoinable \<Longrightarrow> mRes (mQueryExecutor a) = None \<Longrightarrow> joinAndCheckResult api h a w = None"
  by (simp add: joinAndCheckResult_def getQueryExecutorResult_def)

lemma shutDown_unstarted:
  assumes "mOdbcAsyncExecutor k = Some a" and "mThread a = NotJoinable"
    and "mRes (mQueryExecutor a) = None"
  shows "fst (shutDown env eh k g) = NoResult"
proof -
  obtain k1 w1 k2 w2 w3 where s: "shut_socket env k (sys_w g) = (k1, w1)"
      "background_run env (env_sched env BeforeReset) k1 w1 = (k2, w2)"
      "shutDown env eh k g = finish_statement env eh (set_socket None k2) (g\<lparr>sys_w := w3\<rparr>)"
    by (rule shutDown_finish)
  have 1: "mOdbcAsyncExecutor k1 = Some a" using shut_socket_frame [OF s(1)] assms(1) by simp
  then have "k2 = k1" using s(2) assms(2) background_run_idle [of k1 env] by simp
  then show ?thesis
    using s(3) assms 1 by (simp add: finish_statement_def joinAndCheckResult_unstarted Let_def)
qed

text \<open>No error callback is pending and none will be: there is no thread, its statement succeeds, or it has
  ended.\<close>

definition no_callback :: "'w env \<Rightarrow> controller \<Rightarrow> bool" where
  "no_callback env k \<longleftrightarrow>
     (\<forall>a. mOdbcAsyncExecutor k = Some a \<longrightarrow> bg_inv a \<and> (stmt_ok (env_odbc env) a \<or> mThread a = Joinable BgEnd))"

text \<open>A controller whose statement succeeds, whether it was executed already or not.\<close>

definition ctl_succeeds :: "'w env \<Rightarrow> controller \<Rightarrow> bool" where
  "ctl_succeeds env k \<longleftrightarrow> (\<exists>a. mOdbcAsyncExecutor k = Some a \<and> bg_inv a \<and> stmt_ok (env_odbc env) a)"

text \<open>In a step, the thread of such a controller executes the statement or nothing outside.\<close>

lemma background_step_succeeds:
  assumes "mOdbcAsyncExecutor k = Some a" and "bg_inv a" and "stmt_ok (env_odbc env) a"
    and "background_step env k w = Some (k', w')"
  obtains a' where "k' = k\<lparr>mOdbcAsyncExecutor := Some a'\<rparr>" and "bg_inv a'" and "stmt_ok (env_odbc env) a'"
    and "mOdbcSessionInfo (mQueryExecutor a') = mOdbcSessionInfo (mQueryExecutor a)"
    and "w' = w \<or> w' = snd (api_SQLExecDirect (env_odbc env) (mStmt (mQueryExecutor a))
        (mQuery (mOdbcSessionInfo (mQueryExecutor a))) w)"
proof -
  have h: "mThread a \<noteq> Joinable BgHandler" using stmt_ok_joinable [OF assms(3)] by auto
  then obtain a' where s: "bg_step (env_odbc env) id (a, w) = Some (a', w')" and k: "k' = k\<lparr>mOdbcAsyncExecutor := Some a'\<rparr>"
    using assms(1,4) by (auto simp: background_step_def)
  show thesis
    by (rule that [OF k bg_step_inv [OF assms(2) s] bg_step_stmt_ok [OF assms(3,2) s] bg_step_session [OF s]
          bg_step_world [OF h s]])
qed

lemma background_run_succeeds: "background_run env n k w = (k', w') \<Longrightarrow> ctl_succeeds env k \<Longrightarrow> ctl_succeeds env k'"
  by (rule background_run_keeps [of env "ctl_succeeds env"])
    (auto simp: ctl_succeeds_def simp del: bg_inv.simps elim: background_step_succeeds)

lemma finish_statement_succeeds:
  assumes "ctl_succeeds env k" and "ci_socket (mConnectionInfo k) = None" and "finish_statement env eh k g = (r, k', g')"
  shows "ctl_released k' \<and> r = Returned True"
proof -
  obtain a where a: "mOdbcAsyncExecutor k = Some a" "bg_inv a" "stmt_ok (env_odbc env) a"
    using assms(1) by (auto simp: ctl_succeeds_def)
  obtain a' w where "joinAndCheckResult (env_odbc env) (\<lambda>w. snd (onOdbcError env k w)) a (sys_w g) = Some ([], a', w)"
      "async_isDone a'" "mThread a' = NotJoinable"
    using join_stmt_ok [OF a(3,2)] by blast
  with finish_statement_joined [OF _ a(1) _ _ assms(2,3)] show ?thesis by blast
qed

text \<open>Without a pending callback \<^verbatim>\<open>shutDown\<close> is the same in every schedule.\<close>

lemma shutDown_succeeds:
  assumes "ctl_succeeds env k" and "shutDown env eh k g = (r, k', g')"
  shows "ctl_released k' \<and> r = Returned True"
proof -
  obtain k1 w1 k2 w2 w3 where s: "shut_socket env k (sys_w g) = (k1, w1)"
      "background_run env (env_sched env BeforeReset) k1 w1 = (k2, w2)"
      "shutDown env eh k g = finish_statement env eh (set_socket None k2) (g\<lparr>sys_w := w3\<rparr>)"
    by (rule shutDown_finish)
  have "ctl_succeeds env k1" using shut_socket_frame [OF s(1)] assms(1) by (simp add: ctl_succeeds_def)
  then have "ctl_succeeds env (set_socket None k2)"
    using background_run_succeeds [OF s(2)] by (simp add: ctl_succeeds_def)
  with finish_statement_succeeds [of env "set_socket None k2" eh "g\<lparr>sys_w := w3\<rparr>"] assms(2) s(3)
  show ?thesis by simp
qed

lemma finish_statement_none:
  "mOdbcAsyncExecutor k = None \<Longrightarrow> ci_socket (mConnectionInfo k) = None \<Longrightarrow> finish_statement env eh k g = (r, k', g') \<Longrightarrow>
     ctl_released k' \<and> r = Returned True"
  by (auto simp: finish_statement_def Let_def ctl_released_def)

lemma shutDown_none:
  assumes "mOdbcAsyncExecutor k = None" and "shutDown env eh k g = (r, k', g')"
  shows "ctl_released k' \<and> r = Returned True"
proof -
  obtain k1 w1 k2 w2 w3 where s: "shut_socket env k (sys_w g) = (k1, w1)"
      "background_run env (env_sched env BeforeReset) k1 w1 = (k2, w2)"
      "shutDown env eh k g = finish_statement env eh (set_socket None k2) (g\<lparr>sys_w := w3\<rparr>)"
    by (rule shutDown_finish)
  have "mOdbcAsyncExecutor k1 = None" using shut_socket_frame [OF s(1)] assms(1) by simp
  then have "mOdbcAsyncExecutor (set_socket None k2) = None"
    using background_run_frame [OF s(2)] by (simp add: ctl_frame_def)
  with finish_statement_none [of "set_socket None k2" env eh "g\<lparr>sys_w := w3\<rparr>"] assms(2) s(3) show ?thesis by simp
qed

text \<open>With a thread that has ended, joining reports what the driver says of the statement.\<close>

lemma join_ended:
  assumes "mThread a = Joinable BgEnd" and "bg_inv a"
  obtains m w' where "getQueryExecutorResult api (mQueryExecutor a) w = Some (m, w')"
    and "joinAndCheckResult api h a w = Some (m, a\<lparr>mThread := NotJoinable\<rparr>, w')" and "mDone a"
proof -
  have "bg_step api h (a, w) = None" using assms(1) by (simp add: bg_step.simps)
  then have r: "bg_run api h a w = (a, w)" by (subst bg_run.simps) simp
  obtain m w' where g: "getQueryExecutorResult api (mQueryExecutor a) w = Some (m, w')"
    using assms getQueryExecutorResult_defined [of "mQueryExecutor a" api w] by auto
  show thesis by (rule that [OF g]) (use assms r g in \<open>simp_all add: joinAndCheckResult_def\<close>)
qed

lemma shutDown_ended:
  assumes "mOdbcAsyncExecutor k = Some a" and "mThread a = Joinable BgEnd" and "bg_inv a"
    and "shutDown env eh k g = (r, k', g')"
  shows "ctl_released k' \<and> (r = Returned True \<or>
    (\<exists>m w w'. getQueryExecutorResult (env_odbc env) (mQueryExecutor a) w = Some (m, w') \<and> m \<noteq> [] \<and> r = Jumped m))"
proof -
  obtain k1 w1 k2 w2 w3 where s: "shut_socket env k (sys_w g) = (k1, w1)"
      "background_run env (env_sched env BeforeReset) k1 w1 = (k2, w2)"
      "shutDown env eh k g = finish_statement env eh (set_socket None k2) (g\<lparr>sys_w := w3\<rparr>)"
    by (rule shutDown_finish)
  have 1: "mOdbcAsyncExecutor k1 = Some a" using shut_socket_frame [OF s(1)] assms(1) by simp
  then have "background_step env k1 w1 = None" using assms(2) by (simp add: background_step_def bg_step.simps)
  then have 2: "mOdbcAsyncExecutor (set_socket None k2) = Some a" using s(2) 1 by (cases "env_sched env BeforeReset") auto
  let ?h = "\<lambda>w. snd (onOdbcError env (set_socket None k2) w)"
  obtain m w4 where j: "getQueryExecutorResult (env_odbc env) (mQueryExecutor a) w3 = Some (m, w4)"
      "joinAndCheckResult (env_odbc env) ?h a w3 = Some (m, a\<lparr>mThread := NotJoinable\<rparr>, w4)" "mDone a"
    using join_ended [OF assms(2,3), of "env_odbc env" w3 ?h] by metis
  from j(2) have "joinAndCheckResult (env_odbc env) ?h a (sys_w (g\<lparr>sys_w := w3\<rparr>)) = Some (m, a\<lparr>mThread := NotJoinable\<rparr>, w4)"
    by simp
  from finish_statement_joined [OF this 2, of eh r k' g'] j(3) assms(4) s(3)
  have "ctl_released k' \<and> (r = Returned True \<or> m \<noteq> [] \<and> r = Jumped m)" by (simp add: async_isDone_def)
  with j(1) show ?thesis by blast
qed

section \<open>Starting\<close>

lemma start_executor_Inr:
  assumes "start_executor env eh si k g = Inr (k1, g1)"
  shows "ctl_started k1 \<and> mConnectionInfo k1 = mConnectionInfo k \<and> mReader k1 = mReader k \<and>
    mWriter k1 = mWriter k \<and> mOdbcAsyncExecutor k1 \<noteq> None \<and> sys_cert g1 = sys_cert g"
  using assms
  by (auto simp: start_executor_def Let_def ctl_started_def replace_executor_def
      split: option.splits prod.splits sum.splits thread.splits dest: async_execute_inv)

lemma startReading_returns_reader:
  assumes "startReading env eh si k g = (Returned (Some rd), k', g')"
  shows "ctl_started k' \<and> mReader k' = Some rd \<and> ci_socket (mConnectionInfo k') \<noteq> None \<and>
    mOdbcAsyncExecutor k' \<noteq> None"
proof -
  have no: "call_handler eh m k g (\<lambda>k g. (Returned None, k, g)) \<noteq> (Returned (Some rd), k', g')"
    "handle_start_exn eh e k g \<noteq> (Returned (Some rd), k', g')" for m e k g
    by (auto simp: call_handler_def handle_start_exn_def split: prod.splits bool.splits exa_exception.splits)
  have noL: "start_executor env eh si k g \<noteq> Inl (Returned (Some rd), k', g')"
    using no by (auto simp: start_executor_def Let_def split: option.splits prod.splits sum.splits)
  have frame: "P" if "start_executor env eh si k g = Inr (k0, g0)" "background_run env m k0 w = (k1, w1)"
    "ctl_started k1 \<Longrightarrow> mOdbcAsyncExecutor k1 \<noteq> None \<Longrightarrow> P" for P k0 g0 m w k1 w1
    using start_executor_Inr [OF that(1)] background_run_started [OF that(2)] background_run_frame [OF that(2)] that(3)
    by (auto simp: ctl_frame_def)
  show ?thesis
    using assms no noL
    by (auto simp: startReading_def Let_def split: option.splits sum.splits prod.splits elim!: frame)
      (auto simp: ctl_started_def)
qed

lemma startWriting_returns_writer:
  assumes "startWriting env eh si k g = (Returned (Some wr), k', g')"
  shows "ctl_started k' \<and> mWriter k' = Some wr \<and> ci_socket (mConnectionInfo k') \<noteq> None \<and>
    mOdbcAsyncExecutor k' \<noteq> None"
proof -
  have no: "call_handler eh m k g (\<lambda>k g. (Returned None, k, g)) \<noteq> (Returned (Some wr), k', g')"
    "handle_start_exn eh e k g \<noteq> (Returned (Some wr), k', g')" for m e k g
    by (auto simp: call_handler_def handle_start_exn_def split: prod.splits bool.splits exa_exception.splits)
  have noL: "start_executor env eh si k g \<noteq> Inl (Returned (Some wr), k', g')"
    using no by (auto simp: start_executor_def Let_def split: option.splits prod.splits sum.splits)
  have frame: "P" if "start_executor env eh si k g = Inr (k0, g0)" "background_run env m k0 w = (k1, w1)"
    "ctl_started k1 \<Longrightarrow> mOdbcAsyncExecutor k1 \<noteq> None \<Longrightarrow> P" for P k0 g0 m w k1 w1
    using start_executor_Inr [OF that(1)] background_run_started [OF that(2)] background_run_frame [OF that(2)] that(3)
    by (auto simp: ctl_frame_def)
  show ?thesis
    using assms no noL
    by (auto simp: startWriting_def Let_def split: option.splits sum.splits prod.splits elim!: frame)
      (auto simp: ctl_started_def)
qed

section \<open>Connecting\<close>

lemma establisher_connect_exn:
  "establisher_connect env est host port w = Some (Inl e, w') \<Longrightarrow>
     shut_before_exit env w e w' \<or>
     (\<exists>c. est = HttpsEstablisher c \<and> \<not> Certificate_isValid c \<and> w' = w \<and> (\<exists>m. e = ConnectionException m))"
  by (cases est) (auto dest: http_connect_failure https_connect_failure)

lemma establisher_connect_class:
  "establisher_connect env est host port w = Some (Inl e, w') \<Longrightarrow> \<exists>m. e = ConnectionException m"
  using establisher_connect_exn by (fastforce simp: shut_before_exit_def)

lemma establisher_connect_defined:
  "posix_ok (env_posix env) ni no \<Longrightarrow> establisher_connect env est host port w \<noteq> None"
  by (cases est) (auto simp: connect_defined)

lemma establisher_connect_socket:
  "establisher_connect env est host port w = Some (Inr ci, w') \<Longrightarrow>
     ci_socket ci \<noteq> None \<and> proxyPort ci \<noteq> None"
  by (cases est) (auto dest: http_connect_success https_connect_success)

lemma getCertificate_exn: "getCertificate env g = (Inl e, g') \<Longrightarrow> \<exists>m. e = CertificateException m"
  by (auto simp: getCertificate_def split: if_splits prod.splits sum.splits dest: mkcert_exn)

text \<open>What a controller without a socket looks like after \<^verbatim>\<open>connect\<close>, by outcome.\<close>

fun connect_post :: "bool outcome \<Rightarrow> ProtocolType \<Rightarrow> controller \<Rightarrow> controller \<Rightarrow> bool" where
  "connect_post (Returned True) p k k' \<longleftrightarrow>
     ci_socket (mConnectionInfo k') \<noteq> None \<and> getProxyPort k' \<noteq> None \<and> isValidProtocol p"
| "connect_post (Returned False) p k k' \<longleftrightarrow> k' = k"
| "connect_post (Jumped m) p k k' \<longleftrightarrow> k' = k \<and> isValidProtocol p"
| "connect_post (Uncaught e) p k k' \<longleftrightarrow> k' = k \<and> p = https \<and> (\<exists>m. e = CertificateException m)"
| "connect_post Terminated p k k' \<longleftrightarrow> False"
| "connect_post NoResult p k k' \<longleftrightarrow> k' = k"

lemma controller_connect_post:
  assumes "controller_connect env eh p host port k g = (r, k', g')"
    and "ci_socket (mConnectionInfo k) = None"
  shows "connect_post r p k k'"
proof -
  note n = close_socket_none [OF assms(2)]
  show ?thesis
    using assms
    by (auto simp: controller_connect_def createConnectionEstablisher_def call_handler_def n
        isValidProtocol_def getProxyPort_def
        split: if_splits ProtocolType.splits prod.splits sum.splits option.splits exa_exception.splits bool.splits
        simp del: establisher_connect.simps
        dest!: getCertificate_exn establisher_connect_socket establisher_connect_class)
qed

text \<open>Over a network that keeps its contract, \<^verbatim>\<open>connect\<close> on a controller without a socket
  always has a defined outcome.\<close>

lemma controller_connect_defined:
  assumes "posix_ok (env_posix env) ni no" and "ci_socket (mConnectionInfo k) = None"
  shows "fst (controller_connect env eh p host port k g) \<noteq> NoResult"
  using assms
  by (auto simp: close_socket_none [OF assms(2)] controller_connect_def createConnectionEstablisher_def
      call_handler_def isValidProtocol_def
      split: if_splits ProtocolType.splits prod.splits sum.splits option.splits exa_exception.splits bool.splits
      simp del: establisher_connect.simps elim: establisher_connect_defined [THEN notE])

end
