(* ===== verification/Shutdown_Race.thy ===== *)
theory Shutdown_Race
  imports Connection_Controller
begin

text \<open>
  The main thread in \<^verbatim>\<open>ConnectionController::shutDown\<close> beside the background thread in
  \<^verbatim>\<open>AsyncExecutorImpl::executeAsyncQuery\<close>, whose error callback is
  \<^verbatim>\<open>ConnectionController::onOdbcError\<close>.  Each access to the shared socket pointer is a step
  of its own: the source has no lock around it.  \<open>rs_crashed\<close> records that a null socket
  pointer was dereferenced, \<open>rs_closed\<close> that the connection to the database was closed.

  The statement of a writer ends only when the database has seen the end of its data, that is
  when the connection is closed (the comment in \<^verbatim>\<open>shutDown\<close> and that of \<^verbatim>\<open>joinAndCheckResult\<close>).  The
  parameter \<open>waits\<close> says whether the statement is of this kind: then \<^verbatim>\<open>SQLExecDirect\<close> cannot return
  before \<open>rs_closed\<close>.
\<close>

datatype main_pc =
    MRunning   \<comment> \<open>before \<^verbatim>\<open>shutDown\<close>, the transfer in progress\<close>
  | MCheck     \<comment> \<open>before \<^verbatim>\<open>if (mConnectionInfo.socket)\<close>\<close>
  | MShut      \<comment> \<open>before \<^verbatim>\<open>socket->shutdownRdWr()\<close>\<close>
  | MReset     \<comment> \<open>before \<^verbatim>\<open>socket.reset()\<close>\<close>
  | MJoin      \<comment> \<open>in \<^verbatim>\<open>joinAndCheckResult\<close>\<close>
  | MEnd

datatype err_pc =
    EQuery | ESetDone bool
  | ECheck     \<comment> \<open>in \<^verbatim>\<open>onOdbcError\<close>, before the test of the pointer\<close>
  | EShut      \<comment> \<open>after the test, before the call\<close>
  | EEnd

record 'w race_state =
  rs_main :: main_pc
  rs_bg :: err_pc
  rs_sock :: "sock_obj option"
  rs_done :: bool
  rs_res :: "int option"
  rs_crashed :: bool
  rs_closed :: bool
  rs_w :: 'w

definition race_init :: "sock_obj \<Rightarrow> 'w \<Rightarrow> 'w race_state" where
  "race_init sk w =
     \<lparr>rs_main = MRunning, rs_bg = EQuery, rs_sock = Some sk, rs_done = False, rs_res = None,
      rs_crashed = False, rs_closed = False, rs_w = w\<rparr>"

text \<open>The successor of a thread, if it can move.\<close>

definition main_next :: "'w env \<Rightarrow> 'w race_state \<Rightarrow> 'w race_state option" where
  "main_next env s =
     (case rs_main s of
        MRunning \<Rightarrow> Some (s\<lparr>rs_main := MCheck\<rparr>)
      | MCheck \<Rightarrow> Some (s\<lparr>rs_main := (if rs_sock s = None then MReset else MShut)\<rparr>)
      | MShut \<Rightarrow> (case rs_sock s of
            None \<Rightarrow> Some (s\<lparr>rs_crashed := True\<rparr>)
          | Some sk \<Rightarrow> (case obj_shutdownRdWr env (sk, rs_w s) of
                (sk', w') \<Rightarrow> Some (s\<lparr>rs_sock := Some sk', rs_w := w', rs_closed := True, rs_main := MReset\<rparr>)))
      | MReset \<Rightarrow> (case rs_sock s of
            None \<Rightarrow> Some (s\<lparr>rs_main := MJoin\<rparr>)
          | Some sk \<Rightarrow> (case obj_destroy env (sk, rs_w s) of
                None \<Rightarrow> None
              | Some w' \<Rightarrow> Some (s\<lparr>rs_sock := None, rs_w := w', rs_main := MJoin\<rparr>)))
      | MJoin \<Rightarrow> (if rs_bg s = EEnd then Some (s\<lparr>rs_main := MEnd\<rparr>) else None)
      | MEnd \<Rightarrow> None)"

definition bg_next :: "'w env \<Rightarrow> bool \<Rightarrow> nat option \<Rightarrow> string \<Rightarrow> 'w race_state \<Rightarrow> 'w race_state option" where
  "bg_next env waits stmt query s =
     (case rs_bg s of
        EQuery \<Rightarrow>
          (if waits \<and> \<not> rs_closed s then None
           else (case api_SQLExecDirect (env_odbc env) stmt query (rs_w s) of
               (r, w') \<Rightarrow> Some (s\<lparr>rs_res := Some r, rs_w := w', rs_bg := ESetDone (sql_ok r)\<rparr>)))
      | ESetDone result \<Rightarrow> Some (s\<lparr>rs_done := True, rs_bg := (if result then EEnd else ECheck)\<rparr>)
      | ECheck \<Rightarrow> Some (s\<lparr>rs_bg := (if rs_sock s = None then EEnd else EShut)\<rparr>)
      | EShut \<Rightarrow> (case rs_sock s of
            None \<Rightarrow> Some (s\<lparr>rs_crashed := True\<rparr>)
          | Some sk \<Rightarrow> (case obj_shutdownRdWr env (sk, rs_w s) of
                (sk', w') \<Rightarrow> Some (s\<lparr>rs_sock := Some sk', rs_w := w', rs_closed := True, rs_bg := EEnd\<rparr>)))
      | EEnd \<Rightarrow> None)"

inductive race_step :: "'w env \<Rightarrow> bool \<Rightarrow> nat option \<Rightarrow> string \<Rightarrow> 'w race_state \<Rightarrow> 'w race_state \<Rightarrow> bool"
  for env waits stmt query where
  main: "\<not> rs_crashed s \<Longrightarrow> main_next env s = Some s' \<Longrightarrow> race_step env waits stmt query s s'"
| bg: "\<not> rs_crashed s \<Longrightarrow> bg_next env waits stmt query s = Some s' \<Longrightarrow> race_step env waits stmt query s s'"

inductive race_reachable ::
  "'w env \<Rightarrow> bool \<Rightarrow> nat option \<Rightarrow> string \<Rightarrow> sock_obj \<Rightarrow> 'w \<Rightarrow> 'w race_state \<Rightarrow> bool"
  for env waits stmt query sk w where
  init: "race_reachable env waits stmt query sk w (race_init sk w)"
| step: "race_reachable env waits stmt query sk w s \<Longrightarrow> race_step env waits stmt query s s' \<Longrightarrow>
    race_reachable env waits stmt query sk w s'"

inductive_cases race_stepE: "race_step env waits stmt query s s'"

text \<open>The invariant of the two threads.\<close>

fun bg_consistent :: "err_pc \<Rightarrow> bool \<Rightarrow> int option \<Rightarrow> bool" where
  "bg_consistent EQuery d r \<longleftrightarrow> \<not> d \<and> r = None"
| "bg_consistent (ESetDone b) d r \<longleftrightarrow> \<not> d \<and> map_option sql_ok r = Some b"
| "bg_consistent ECheck d r \<longleftrightarrow> d \<and> map_option sql_ok r = Some False"
| "bg_consistent EShut d r \<longleftrightarrow> d \<and> map_option sql_ok r = Some False"
| "bg_consistent EEnd d r \<longleftrightarrow> d \<and> r \<noteq> None"

fun main_consistent :: "main_pc \<Rightarrow> sock_obj option \<Rightarrow> err_pc \<Rightarrow> bool" where
  "main_consistent MRunning so b \<longleftrightarrow> so \<noteq> None"
| "main_consistent MCheck so b \<longleftrightarrow> so \<noteq> None"
| "main_consistent MShut so b \<longleftrightarrow> so \<noteq> None"
| "main_consistent MReset so b \<longleftrightarrow> (\<exists>sk. so = Some sk \<and> sock_closed sk)"
| "main_consistent MJoin so b \<longleftrightarrow> so = None"
| "main_consistent MEnd so b \<longleftrightarrow> so = None \<and> b = EEnd"

definition race_inv :: "'w race_state \<Rightarrow> bool" where
  "race_inv s \<longleftrightarrow>
     bg_consistent (rs_bg s) (rs_done s) (rs_res s) \<and>
     main_consistent (rs_main s) (rs_sock s) (rs_bg s) \<and>
     (rs_main s \<in> {MReset, MJoin, MEnd} \<longrightarrow> rs_closed s) \<and>
     (rs_crashed s \<longrightarrow> rs_bg s = EShut \<and> rs_main s = MJoin)"

lemma main_next_inv: "race_inv s \<Longrightarrow> main_next env s = Some s' \<Longrightarrow> \<not> rs_crashed s \<Longrightarrow> race_inv s'"
  unfolding race_inv_def main_next_def
  by (cases "rs_main s") (auto split: option.splits prod.splits if_splits dest: shutdown_closes)

lemma bg_next_inv:
  assumes "race_inv s" and "bg_next env waits stmt query s = Some s'" and "\<not> rs_crashed s"
  shows "race_inv s'"
proof (cases "rs_bg s")
  case EShut
  then show ?thesis
    using assms unfolding race_inv_def bg_next_def
    by (cases "rs_main s") (auto split: option.splits prod.splits dest: shutdown_closes)
qed (use assms in \<open>cases "rs_main s"; auto simp: race_inv_def bg_next_def split: prod.splits if_splits\<close>)+

lemma race_step_inv: "race_step env waits stmt query s s' \<Longrightarrow> race_inv s \<Longrightarrow> race_inv s'"
  by (erule race_stepE) (auto dest: main_next_inv bg_next_inv)

lemma race_reachable_inv: "race_reachable env waits stmt query sk w s \<Longrightarrow> race_inv s"
  by (induction rule: race_reachable.induct)
    (auto simp: race_init_def race_inv_def dest: race_step_inv [unfolded race_inv_def])

text \<open>No deadlock: unless the program crashed or both threads have ended, one can move.\<close>

lemma race_progress:
  assumes "race_inv s" and "\<not> rs_crashed s" and "\<not> (rs_main s = MEnd \<and> rs_bg s = EEnd)"
  shows "\<exists>s'. race_step env waits stmt query s s'"
proof (cases "rs_bg s = EEnd")
  case True
  have "\<exists>s'. main_next env s = Some s'"
  proof (cases "rs_main s")
    case MReset
    then obtain sk' where "rs_sock s = Some sk'" "sock_closed sk'"
      using assms(1) by (auto simp: race_inv_def)
    then show ?thesis
      using destroy_closed_defined [of sk' env "rs_w s"] MReset by (auto simp: main_next_def)
  qed (use True assms in \<open>auto simp: main_next_def race_inv_def split: option.splits prod.splits\<close>)
  then show ?thesis using assms(2) by (auto intro: race_step.main)
next
  case False
  show ?thesis
  proof (cases "rs_bg s = EQuery \<and> waits \<and> \<not> rs_closed s")
    case True
    then have "rs_main s \<in> {MRunning, MCheck, MShut}"
      using assms(1) by (cases "rs_main s") (auto simp: race_inv_def)
    then have "\<exists>s'. main_next env s = Some s'" by (auto simp: main_next_def split: option.splits prod.splits)
    then show ?thesis using assms(2) by (auto intro: race_step.main)
  next
    case wait: False
    then have "\<exists>s'. bg_next env waits stmt query s = Some s'"
      using \<open>rs_bg s \<noteq> EEnd\<close> by (cases "rs_bg s") (auto simp: bg_next_def split: option.splits prod.splits)
    then show ?thesis using assms(2) by (auto intro: race_step.bg)
  qed
qed

text \<open>Every run ends: each step other than a crash advances one of the two counters.\<close>

fun main_rank :: "main_pc \<Rightarrow> nat" where
  "main_rank MRunning = 5"
| "main_rank MCheck = 4"
| "main_rank MShut = 3"
| "main_rank MReset = 2"
| "main_rank MJoin = 1"
| "main_rank MEnd = 0"

fun err_rank :: "err_pc \<Rightarrow> nat" where
  "err_rank EQuery = 4"
| "err_rank (ESetDone b) = 3"
| "err_rank ECheck = 2"
| "err_rank EShut = 1"
| "err_rank EEnd = 0"

lemma race_step_rank:
  "race_step env waits stmt query s s' \<Longrightarrow>
     main_rank (rs_main s') + err_rank (rs_bg s') < main_rank (rs_main s) + err_rank (rs_bg s) \<or> rs_crashed s'"
  by (erule race_stepE)
    (auto simp: main_next_def bg_next_def split: main_pc.splits err_pc.splits option.splits prod.splits if_splits)

text \<open>A statement that succeeds never makes the background thread touch the socket, so a crash
  needs a failed statement.\<close>

lemma race_crash_failed:
  assumes "race_reachable env waits stmt query sk w s" and "rs_crashed s"
  shows "\<exists>r. rs_res s = Some r \<and> \<not> sql_ok r"
  using race_reachable_inv [OF assms(1)] assms(2) by (auto simp: race_inv_def)

text \<open>And it happens: the statement fails, the callback tests the pointer, the main thread drops it, the callback
  calls through it.  A statement that waits for the closed connection fails after that; any other may fail
  before.\<close>

lemma race_crash_from:
  assumes "race_reachable env waits stmt query sk w s" and "\<not> rs_crashed s" and "rs_main s = MReset"
    and "rs_bg s = ESetDone False" and "rs_sock s = Some sk'" and "sock_closed sk'"
  shows "\<exists>s'. race_reachable env waits stmt query sk w s' \<and> rs_crashed s'"
proof -
  let ?R = "race_reachable env waits stmt query sk w"
  note st = race_reachable.step and mn = race_step.main and bs = race_step.bg
  obtain w3 where d: "obj_destroy env (sk', rs_w s) = Some w3" using destroy_closed_defined [OF assms(6), of env "rs_w s"] by blast
  have "?R (s\<lparr>rs_done := True, rs_bg := ECheck\<rparr>)"
    by (rule st [OF assms(1)]) (rule bs, simp_all add: assms bg_next_def)
  then have "?R (s\<lparr>rs_done := True, rs_bg := EShut\<rparr>)"
    by (rule st) (rule bs, simp_all add: assms bg_next_def)
  then have "?R (s\<lparr>rs_done := True, rs_bg := EShut, rs_main := MJoin, rs_sock := None, rs_w := w3\<rparr>)"
    by (rule st) (rule mn, simp_all add: assms main_next_def d)
  then have "?R (s\<lparr>rs_done := True, rs_bg := EShut, rs_main := MJoin, rs_sock := None, rs_w := w3, rs_crashed := True\<rparr>)"
    by (rule st) (rule bs, simp_all add: assms bg_next_def)
  then show ?thesis by (intro exI conjI) auto
qed

lemma race_crash_reachable:
  assumes "\<not> sql_ok (fst (api_SQLExecDirect (env_odbc env) stmt query
      (if waits then snd (obj_shutdownRdWr env (sk, w)) else w)))"
  shows "\<exists>s. race_reachable env waits stmt query sk w s \<and> rs_crashed s"
proof -
  let ?R = "race_reachable env waits stmt query sk w"
  note st = race_reachable.step and mn = race_step.main and bs = race_step.bg
  define a where "a = race_init sk w"
  note a = a_def race_init_def
  have 0: "?R a" unfolding a_def by (rule race_reachable.init)
  show ?thesis
  proof (cases waits)
    case True
    obtain sk2 w2 where s2: "obj_shutdownRdWr env (sk, w) = (sk2, w2)" by fastforce
    then have c: "sock_closed sk2" by (rule shutdown_closes)
    obtain r w1 where q: "api_SQLExecDirect (env_odbc env) stmt query w2 = (r, w1)" by fastforce
    have f: "sql_ok r = False" using assms True s2 q by simp
    from 0 have "?R (a\<lparr>rs_main := MCheck\<rparr>)" by (rule st) (rule mn, simp_all add: a main_next_def)
    then have "?R (a\<lparr>rs_main := MShut\<rparr>)" by (rule st) (rule mn, simp_all add: a main_next_def)
    then have "?R (a\<lparr>rs_main := MReset, rs_sock := Some sk2, rs_w := w2, rs_closed := True\<rparr>)"
      by (rule st) (rule mn, simp_all add: a main_next_def s2)
    then have "?R (a\<lparr>rs_main := MReset, rs_sock := Some sk2, rs_w := w1, rs_closed := True, rs_res := Some r,
        rs_bg := ESetDone False\<rparr>)"
      by (rule st) (rule bs, simp_all add: a bg_next_def q f)
    then show ?thesis by (rule race_crash_from [OF _ _ _ _ _ c]) (simp_all add: a)
  next
    case False
    obtain r w1 where q: "api_SQLExecDirect (env_odbc env) stmt query w = (r, w1)" by fastforce
    obtain sk2 w2 where s2: "obj_shutdownRdWr env (sk, w1) = (sk2, w2)" by fastforce
    then have c: "sock_closed sk2" by (rule shutdown_closes)
    have f: "sql_ok r = False" using assms False q by simp
    define b where "b = a\<lparr>rs_res := Some r, rs_w := w1, rs_bg := ESetDone False\<rparr>"
    note b = b_def a
    from 0 have "?R b" by (rule st) (rule bs, simp_all add: b bg_next_def q f False)
    then have "?R (b\<lparr>rs_main := MCheck\<rparr>)" by (rule st) (rule mn, simp_all add: b main_next_def)
    then have "?R (b\<lparr>rs_main := MShut\<rparr>)" by (rule st) (rule mn, simp_all add: b main_next_def)
    then have "?R (b\<lparr>rs_main := MReset, rs_sock := Some sk2, rs_w := w2, rs_closed := True\<rparr>)"
      by (rule st) (rule mn, simp_all add: b main_next_def s2)
    then show ?thesis by (rule race_crash_from [OF _ _ _ _ _ c]) (simp_all add: b)
  qed
qed

end
