(* ===== verification/R_Connection.thy ===== *)
theory R_Connection
  imports Connection_Controller
begin

text \<open>
  The bridge to R's connections: \<^verbatim>\<open>rconnection/connection_hook.h\<close>,
  \<^verbatim>\<open>rconnection/r_reader_connection.cpp\<close> and \<^verbatim>\<open>rconnection/r_writer_connection.cpp\<close>.  R owns the
  connection structures (\<^verbatim>\<open>struct Rconn\<close>); each holds in \<^verbatim>\<open>priv\<close> a pointer, the hook, to
  the weak pointer inside the C++ object, or null once released.  The C++ object and the
  reader or writer behind it have identities, so that a hook can dangle and a weak pointer
  can expire: \<open>rc_priv\<close> is the identity of the C++ object the hook points into,
  \<open>ro_target\<close> that of the reader or writer the weak pointer in the object refers to.
  \<open>rc_kind\<close> says which callbacks are installed.
\<close>

datatype conn_kind = ReaderConn | WriterConn

record Rconn =
  rc_mode :: string
  rc_isopen :: bool
  rc_blocking :: bool
  rc_canread :: bool
  rc_canwrite :: bool
  rc_save :: int
  rc_kind :: conn_kind
  rc_priv :: "nat option"

record RConnection =
  ro_id :: nat
  ro_kind :: conn_kind
  ro_target :: nat
  ro_mConn :: "nat option"

record 'w conn_context =
  mConnection :: "RConnection option"
  mConnectionController :: "controller option"
  cx_sys :: "'w sys"
  cx_rconns :: "nat \<Rightarrow> Rconn option"

section \<open>Hooks\<close>

definition storeConnectionHook ::
  "nat option \<Rightarrow> nat option \<Rightarrow> (nat \<Rightarrow> Rconn option) \<Rightarrow> (nat \<Rightarrow> Rconn option) option" where
  "storeConnectionHook con value rcs =
     (case con of
        None \<Rightarrow> None
      | Some c \<Rightarrow> (case rcs c of None \<Rightarrow> None | Some rc \<Rightarrow> Some (rcs(c := Some (rc\<lparr>rc_priv := value\<rparr>)))))"

definition getConnectionHook :: "nat \<Rightarrow> (nat \<Rightarrow> Rconn option) \<Rightarrow> nat option option" where
  "getConnectionHook con rcs = map_option rc_priv (rcs con)"

definition RConnection_new :: "conn_kind \<Rightarrow> nat \<Rightarrow> nat \<Rightarrow> RConnection" where
  "RConnection_new kind oid target = \<lparr>ro_id = oid, ro_kind = kind, ro_target = target, ro_mConn = None\<rparr>"

text \<open>\<^verbatim>\<open>create\<close>: R makes the connection \<open>con\<close>, whose fields are then set.\<close>

definition RReaderConnection_create ::
  "nat \<Rightarrow> RConnection \<Rightarrow> (nat \<Rightarrow> Rconn option) \<Rightarrow> (RConnection \<times> (nat \<Rightarrow> Rconn option)) option" where
  "RReaderConnection_create con ro rcs =
     map_option (Pair (ro\<lparr>ro_mConn := Some con\<rparr>))
       (storeConnectionHook (Some con) (Some (ro_id ro))
          (rcs(con \<mapsto> \<lparr>rc_mode = ''r'', rc_isopen = True, rc_blocking = True, rc_canread = True,
                       rc_canwrite = False, rc_save = - 1000, rc_kind = ReaderConn, rc_priv = None\<rparr>)))"

definition RWriterConnection_create ::
  "nat \<Rightarrow> RConnection \<Rightarrow> (nat \<Rightarrow> Rconn option) \<Rightarrow> (RConnection \<times> (nat \<Rightarrow> Rconn option)) option" where
  "RWriterConnection_create con ro rcs =
     map_option (Pair (ro\<lparr>ro_mConn := Some con\<rparr>))
       (storeConnectionHook (Some con) (Some (ro_id ro))
          (rcs(con \<mapsto> \<lparr>rc_mode = ''w'', rc_isopen = True, rc_blocking = True, rc_canread = False,
                       rc_canwrite = True, rc_save = - 1000, rc_kind = WriterConn, rc_priv = None\<rparr>)))"

definition RConnection_release ::
  "RConnection \<Rightarrow> (nat \<Rightarrow> Rconn option) \<Rightarrow> (nat \<Rightarrow> Rconn option) option" where
  "RConnection_release ro rcs = storeConnectionHook (ro_mConn ro) None rcs"

section \<open>The callbacks\<close>

text \<open>Follow the hook of connection \<open>con\<close> and lock the weak pointer: \<open>None\<close> when the
  hook dangles, \<open>Some None\<close> when there is nothing to call.\<close>

definition lock_hook :: "conn_kind \<Rightarrow> nat \<Rightarrow> 'w conn_context \<Rightarrow> controller option option" where
  "lock_hook kind con x =
     (case getConnectionHook con (cx_rconns x) of
        None \<Rightarrow> None
      | Some None \<Rightarrow> Some None
      | Some (Some oid) \<Rightarrow>
          (case mConnection x of
             None \<Rightarrow> None
           | Some ro \<Rightarrow>
               if ro_id ro = oid \<and> ro_kind ro = kind
               then Some (case mConnectionController x of
                     None \<Rightarrow> None
                   | Some k \<Rightarrow>
                       if (case kind of ReaderConn \<Rightarrow> mReader k | WriterConn \<Rightarrow> mWriter k) = Some (ro_target ro)
                       then Some k else None)
               else None))"

text \<open>The state after the reader or writer used the socket.\<close>

definition put_transfer :: "controller \<Rightarrow> Chunk \<Rightarrow> (sock_obj \<times> 'w) option \<Rightarrow> 'w conn_context \<Rightarrow> 'w conn_context" where
  "put_transfer k c so x =
     x\<lparr>mConnectionController := Some (case so of None \<Rightarrow> k | Some (sk, w) \<Rightarrow> set_socket (Some sk) k),
       cx_sys := (cx_sys x)\<lparr>sys_chunk := c,
                             sys_w := (case so of None \<Rightarrow> sys_w (cx_sys x) | Some (sk, w) \<Rightarrow> w)\<rparr>\<rparr>"

definition rcon_pipe_read ::
  "'w env \<Rightarrow> size_t \<Rightarrow> size_t \<Rightarrow> nat \<Rightarrow> 'w conn_context \<Rightarrow> (size_t \<times> char list) outcome \<times> 'w conn_context" where
  "rcon_pipe_read env sz nitems con x =
     (case lock_hook ReaderConn con x of
        None \<Rightarrow> (NoResult, x)
      | Some None \<Rightarrow> (Returned (0, []), x)
      | Some (Some k) \<Rightarrow>
          (case reader_pipe_read (obj_socket env) (sys_chunk (cx_sys x)) (ctl_socket k (cx_sys x)) sz nitems of
             None \<Rightarrow> (NoResult, x)
           | Some (r, out, c, so) \<Rightarrow> (Returned (r, out), put_transfer k c so x)))"

definition file_fgetc_internal :: "'w env \<Rightarrow> nat \<Rightarrow> 'w conn_context \<Rightarrow> int outcome \<times> 'w conn_context" where
  "file_fgetc_internal env con x =
     (case lock_hook ReaderConn con x of
        None \<Rightarrow> (NoResult, x)
      | Some None \<Rightarrow> (Returned 0, x)
      | Some (Some k) \<Rightarrow>
          (case reader_fgetc (obj_socket env) (sys_chunk (cx_sys x)) (ctl_socket k (cx_sys x)) of
             None \<Rightarrow> (NoResult, x)
           | Some (r, c, so) \<Rightarrow> (Returned r, put_transfer k c so x)))"

definition rcon_pipe_write ::
  "'w env \<Rightarrow> char list \<Rightarrow> size_t \<Rightarrow> size_t \<Rightarrow> nat \<Rightarrow> 'w conn_context \<Rightarrow> size_t outcome \<times> 'w conn_context" where
  "rcon_pipe_write env src sz nitems con x =
     (case lock_hook WriterConn con x of
        None \<Rightarrow> (NoResult, x)
      | Some None \<Rightarrow> (Returned 0, x)
      | Some (Some k) \<Rightarrow>
          (case writer_pipe_write (obj_socket env) (sys_chunk (cx_sys x)) (ctl_socket k (cx_sys x)) src sz nitems of
             None \<Rightarrow> (NoResult, x)
           | Some (r, c, so) \<Rightarrow> (Returned r, put_transfer k c so x)))"

definition rcon_pipe_fflush :: "'w env \<Rightarrow> nat \<Rightarrow> 'w conn_context \<Rightarrow> int outcome \<times> 'w conn_context" where
  "rcon_pipe_fflush env con x =
     (case lock_hook WriterConn con x of
        None \<Rightarrow> (NoResult, x)
      | Some None \<Rightarrow> (Returned 0, x)
      | Some (Some k) \<Rightarrow>
          (case writer_pipe_fflush (obj_socket env) (sys_chunk (cx_sys x)) (ctl_socket k (cx_sys x)) of
             None \<Rightarrow> (NoResult, x)
           | Some (r, c, so) \<Rightarrow> (Returned r, put_transfer k c so x)))"

text \<open>A released connection is inert: every callback returns 0 and changes nothing.\<close>

lemma released_inert:
  assumes "cx_rconns x con = Some rc" and "rc_priv rc = None"
  shows "rcon_pipe_read env sz n con x = (Returned (0, []), x)"
    and "file_fgetc_internal env con x = (Returned 0, x)"
    and "rcon_pipe_write env src sz n con x = (Returned 0, x)"
    and "rcon_pipe_fflush env con x = (Returned 0, x)"
  using assms
  by (simp_all add: rcon_pipe_read_def file_fgetc_internal_def rcon_pipe_write_def rcon_pipe_fflush_def
      lock_hook_def getConnectionHook_def)

end
