(* ===== verification/Date_Fields.thy ===== *)
theory Date_Fields
  imports Exa_Prelude "HOL-Library.Signed_Division"
begin

text \<open>
  The calendar fields of the date library the trace log uses
  (\<^verbatim>\<open>debug_print/date.h\<close>): \<^verbatim>\<open>day\<close>, \<^verbatim>\<open>month\<close>, \<^verbatim>\<open>year\<close> and \<^verbatim>\<open>weekday\<close>, with their
  arithmetic and their order.  A field keeps the width of its C++ member
  (\<^verbatim>\<open>unsigned char\<close> or \<^verbatim>\<open>short\<close>); \<^verbatim>\<open>unsigned\<close> is a 32-bit word, and the counts of
  \<^verbatim>\<open>days\<close>, \<^verbatim>\<open>months\<close> and \<^verbatim>\<open>years\<close> are integers.  Division of signed values
  truncates, so it is \<open>sdiv\<close>.
\<close>

type_synonym days = int
type_synonym months = int
type_synonym years = int

section \<open>Truncating division\<close>

text \<open>The idiom \<^verbatim>\<open>(a >= 0 ? a : a-(b-1)) / b\<close> is division rounding down.\<close>

lemma sdiv_floor:
  fixes a b c :: int
  assumes "0 < b" and c: "c = b - 1"
  shows "(if 0 \<le> a then a else a - c) sdiv b = a div b"
proof (cases "0 \<le> a")
  case True
  then show ?thesis using assms(1) by (simp add: signed_divide_int_def sgn_if)
next
  case False
  have "a div b = - ((b - 1 - a) div b)"
  proof -
    define q r where "q = (b - 1 - a) div b" and "r = (b - 1 - a) mod b"
    have r: "0 \<le> r" "r < b" and qr: "q * b + r = b - 1 - a"
      using assms(1) by (simp_all add: q_def r_def)
    have "a = b * (- q) + (b - 1 - r)"
      using qr by (simp add: algebra_simps)
    then have "a div b = - q"
      using r by (intro int_div_pos_eq [of _ _ _ "b - 1 - r"]) auto
    then show ?thesis by (simp add: q_def)
  qed
  moreover have "a - (b - 1) < 0" "\<bar>a - (b - 1)\<bar> = b - 1 - a" using False assms(1) by auto
  ultimately show ?thesis using assms(1) False by (simp add: c signed_divide_int_def sgn_if)
qed

lemma byte_bound: "uint (x :: byte) < 256"
  using uint_lt2p [of x] by simp

lemma uint_ucast_up [simp]: "uint (ucast (x :: byte) :: u32) = uint x"
  using byte_bound [of x] by (simp add: unsigned_ucast_eq take_bit_int_eq_self_iff)

lemma short_bound: "- 32768 \<le> sint (x :: 16 word)" "sint (x :: 16 word) < 32768"
  using sint_range_size [of x] by (simp_all add: word_size)

lemma sint_of_int_short: "- 32768 \<le> i \<Longrightarrow> i < 32768 \<Longrightarrow> sint (of_int i :: 16 word) = i"
  by (simp add: signed_of_int signed_take_bit_int_eq_self)

lemma sdiv_floor_12: "(if 0 \<le> a then a else a - 11) sdiv 12 = a div (12 :: int)"
  by (rule sdiv_floor) simp_all

lemma sdiv_floor_7: "(if 0 \<le> a then a else a - 6) sdiv 7 = a div (7 :: int)"
  by (rule sdiv_floor) simp_all

lemma sdiv_floor_400: "(if 0 \<le> a then a else a - 399) sdiv 400 = a div (400 :: int)"
  by (rule sdiv_floor) simp_all

lemma sdiv_floor_146097: "(if 0 \<le> a then a else a - 146096) sdiv 146097 = a div (146097 :: int)"
  by (rule sdiv_floor) simp_all

lemma sint_of_int_u32: "- (2 ^ 31) \<le> i \<Longrightarrow> i < 2 ^ 31 \<Longrightarrow> sint (word_of_int i :: u32) = i"
  by (simp add: signed_of_int signed_take_bit_int_eq_self)

lemma uint_of_int_u32: "0 \<le> i \<Longrightarrow> i < 2 ^ 32 \<Longrightarrow> uint (of_int i :: u32) = i"
  by (simp add: uint_word_of_int)

lemma byte_of_u32: "0 \<le> i \<Longrightarrow> i < 256 \<Longrightarrow> uint (ucast (of_int i :: u32) :: byte) = i"
  by (simp add: unsigned_ucast_eq uint_word_of_int take_bit_int_eq_self)

lemma sint_u32_diff:
  fixes a b :: u32
  assumes "uint a < 2 ^ 31" and "uint b < 2 ^ 31"
  shows "sint (a - b) = uint a - uint b"
proof -
  define i where "i = uint a - uint b"
  have "- (2 ^ 31) \<le> i" "i < 2 ^ 31"
    using assms uint_ge_0 [of a] uint_ge_0 [of b] unfolding i_def by linarith+
  then have "sint (word_of_int i :: u32) = i" by (rule sint_of_int_u32)
  moreover have "a - b = word_of_int i" by (simp add: i_def)
  ultimately show ?thesis by (simp only: i_def)
qed

lemma byte_u32_plus: "uint (ucast (a + of_int n :: u32) :: byte) = (uint a + n) mod 256"
proof -
  define i where "i = uint a + n"
  have "a + of_int n = word_of_int i" by (simp add: i_def)
  then show ?thesis
    by (simp add: i_def [symmetric] unsigned_ucast_eq uint_word_of_int take_bit_eq_mod mod_mod_cancel)
qed

section \<open>\<^verbatim>\<open>day\<close>\<close>

datatype day = Day (day_d: byte)

definition day_new :: "u32 \<Rightarrow> day" where
  "day_new d = Day (ucast d)"

definition day_unsigned :: "day \<Rightarrow> u32" where
  "day_unsigned x = ucast (day_d x)"

definition day_inc :: "day \<Rightarrow> day" where
  "day_inc x = Day (day_d x + 1)"

definition day_dec :: "day \<Rightarrow> day" where
  "day_dec x = Day (day_d x - 1)"

definition day_ok :: "day \<Rightarrow> bool" where
  "day_ok x \<longleftrightarrow> 1 \<le> day_d x \<and> day_d x \<le> 31"

definition day_eq :: "day \<Rightarrow> day \<Rightarrow> bool" where
  "day_eq x y \<longleftrightarrow> day_unsigned x = day_unsigned y"

definition day_less :: "day \<Rightarrow> day \<Rightarrow> bool" where
  "day_less x y \<longleftrightarrow> day_unsigned x < day_unsigned y"

definition day_less_eq :: "day \<Rightarrow> day \<Rightarrow> bool" where
  "day_less_eq x y \<longleftrightarrow> \<not> day_less y x"

definition day_diff :: "day \<Rightarrow> day \<Rightarrow> days" where
  "day_diff x y = sint (day_unsigned x - day_unsigned y)"

definition day_plus :: "day \<Rightarrow> days \<Rightarrow> day" where
  "day_plus x y = day_new (day_unsigned x + of_int y)"

definition day_minus :: "day \<Rightarrow> days \<Rightarrow> day" where
  "day_minus x y = day_plus x (- y)"

lemma uint_day_unsigned [simp]: "uint (day_unsigned x) = uint (day_d x)"
  by (simp add: day_unsigned_def)

lemma day_eq_iff: "day_eq x y \<longleftrightarrow> x = y"
  by (cases x; cases y) (simp add: day_eq_def word_uint_eq_iff)

instantiation day :: linorder
begin

definition less_day_inst: "less_day = day_less"

definition less_eq_day_inst: "less_eq_day = day_less_eq"

instance
  by standard
    (auto simp: less_day_inst less_eq_day_inst day_less_def day_less_eq_def word_less_def
      word_uint_eq_iff day.expand not_less)

end

lemma day_le_uint: "x \<le> y \<longleftrightarrow> uint (day_d x) \<le> uint (day_d y)"
  by (simp add: less_eq_day_inst day_less_eq_def day_less_def word_less_def not_less)

lemma day_less_uint: "x < y \<longleftrightarrow> uint (day_d x) < uint (day_d y)"
  by (simp add: less_day_inst day_less_def word_less_def)

lemma day_ok_uint: "day_ok x \<longleftrightarrow> 1 \<le> uint (day_d x) \<and> uint (day_d x) \<le> 31"
  by (simp add: day_ok_def word_le_def)

lemma day_diff_uint: "day_diff x y = uint (day_d x) - uint (day_d y)"
  using byte_bound [of "day_d x"] byte_bound [of "day_d y"]
  by (simp add: day_diff_def sint_u32_diff)

lemma day_plus_uint: "uint (day_d (day_plus x n)) = (uint (day_d x) + n) mod 256"
  by (simp add: day_plus_def day_new_def byte_u32_plus)

text \<open>Within a month's range, a difference added back gives the day.\<close>

lemma day_plus_diff: "day_plus y (day_diff x y) = x"
  using byte_bound [of "day_d x"]
  by (intro day.expand) (simp add: word_uint_eq_iff day_plus_uint day_diff_uint)

section \<open>\<^verbatim>\<open>month\<close>\<close>

datatype month = Month (month_m: byte)

definition month_new :: "u32 \<Rightarrow> month" where
  "month_new m = Month (ucast m)"

definition month_unsigned :: "month \<Rightarrow> u32" where
  "month_unsigned x = ucast (month_m x)"

definition month_ok :: "month \<Rightarrow> bool" where
  "month_ok x \<longleftrightarrow> 1 \<le> month_m x \<and> month_m x \<le> 12"

definition month_eq :: "month \<Rightarrow> month \<Rightarrow> bool" where
  "month_eq x y \<longleftrightarrow> month_unsigned x = month_unsigned y"

definition month_less :: "month \<Rightarrow> month \<Rightarrow> bool" where
  "month_less x y \<longleftrightarrow> month_unsigned x < month_unsigned y"

definition month_less_eq :: "month \<Rightarrow> month \<Rightarrow> bool" where
  "month_less_eq x y \<longleftrightarrow> \<not> month_less y x"

definition month_diff :: "month \<Rightarrow> month \<Rightarrow> months" where
  "month_diff x y =
     (let d = month_unsigned x - month_unsigned y in sint (if d \<le> 11 then d else d + 12))"

definition month_plus :: "month \<Rightarrow> months \<Rightarrow> month" where
  "month_plus x y =
     (let mu = uint (month_unsigned x) + y - 1;
          yr = (if 0 \<le> mu then mu else mu - 11) sdiv 12
      in month_new (of_int (mu - yr * 12 + 1)))"

definition month_minus :: "month \<Rightarrow> months \<Rightarrow> month" where
  "month_minus x y = month_plus x (- y)"

definition month_inc :: "month \<Rightarrow> month" where
  "month_inc x = month_plus x 1"

definition month_dec :: "month \<Rightarrow> month" where
  "month_dec x = month_minus x 1"

lemma uint_month_unsigned [simp]: "uint (month_unsigned x) = uint (month_m x)"
  by (simp add: month_unsigned_def)

lemma month_eq_iff: "month_eq x y \<longleftrightarrow> x = y"
  by (cases x; cases y) (simp add: month_eq_def word_uint_eq_iff)

instantiation month :: linorder
begin

definition less_month_inst: "less_month = month_less"

definition less_eq_month_inst: "less_eq_month = month_less_eq"

instance
  by standard
    (auto simp: less_month_inst less_eq_month_inst month_less_def month_less_eq_def word_less_def
      word_uint_eq_iff month.expand not_less)

end

lemma month_le_uint: "x \<le> y \<longleftrightarrow> uint (month_m x) \<le> uint (month_m y)"
  by (simp add: less_eq_month_inst month_less_eq_def month_less_def word_less_def not_less)

lemma month_less_uint: "x < y \<longleftrightarrow> uint (month_m x) < uint (month_m y)"
  by (simp add: less_month_inst month_less_def word_less_def)

lemma month_ok_uint: "month_ok x \<longleftrightarrow> 1 \<le> uint (month_m x) \<and> uint (month_m x) \<le> 12"
  by (simp add: month_ok_def word_le_def)

lemma month_new_uint: "0 \<le> i \<Longrightarrow> i < 256 \<Longrightarrow> uint (month_m (month_new (of_int i))) = i"
  by (simp add: month_new_def byte_of_u32)

text \<open>Months are added modulo twelve, and the result is always a valid month.\<close>

lemma month_plus_floor:
  "month_plus x n = month_new (of_int ((uint (month_m x) + n - 1) mod 12 + 1))"
  by (simp only: month_plus_def Let_def uint_month_unsigned sdiv_floor_12 minus_div_mult_eq_mod)

lemma month_plus_uint: "uint (month_m (month_plus x n)) = (uint (month_m x) + n - 1) mod 12 + 1"
proof -
  define r where "r = (uint (month_m x) + n - 1) mod 12"
  have "0 \<le> r + 1" "r + 1 < 256"
    using pos_mod_bound [of 12 "uint (month_m x) + n - 1"] pos_mod_sign [of 12 "uint (month_m x) + n - 1"]
    unfolding r_def by linarith+
  then show ?thesis
    unfolding month_plus_floor r_def [symmetric] by (rule month_new_uint)
qed

lemma month_plus_ok: "month_ok (month_plus x n)"
  using pos_mod_bound [of 12 "uint (month_m x) + n - 1"] by (simp add: month_ok_uint month_plus_uint)

lemma month_plus_plus: "month_plus (month_plus x a) b = month_plus x (a + b)"
proof -
  have "((uint (month_m x) + a - 1) mod 12 + 1 + b - 1) mod 12 = ((uint (month_m x) + a - 1) + b) mod 12"
    using mod_add_left_eq [of "uint (month_m x) + a - 1" 12 b] by simp
  then show ?thesis
    by (intro month.expand) (simp only: word_uint_eq_iff month_plus_uint, simp add: algebra_simps)
qed

lemma month_plus_0: "month_ok x \<Longrightarrow> month_plus x 0 = x"
  by (intro month.expand) (simp add: word_uint_eq_iff month_plus_uint month_ok_uint)

lemma month_diff_uint:
  assumes "month_ok x" and "month_ok y"
  shows "month_diff x y = (uint (month_m x) - uint (month_m y)) mod 12"
proof -
  define i where "i = uint (month_m x) - uint (month_m y)"
  have b: "- 11 \<le> i" "i \<le> 11"
    using assms by (simp_all add: month_ok_uint i_def)
  define d where "d = month_unsigned x - month_unsigned y"
  have d: "d = word_of_int i"
    by (simp add: d_def i_def month_unsigned_def)
  have ud: "uint d = i mod 2 ^ 32"
    by (simp add: d uint_word_of_int)
  have md: "month_diff x y = sint (if d \<le> 11 then d else d + 12)"
    by (simp add: month_diff_def Let_def d_def)
  show ?thesis
  proof (cases "0 \<le> i")
    case True
    then have "d \<le> 11" using b ud by (simp add: word_le_def)
    moreover have "sint d = i" unfolding d using b by (intro sint_of_int_u32) auto
    ultimately show ?thesis using True b by (simp add: md i_def [symmetric])
  next
    case False
    have "i mod 2 ^ 32 = (i + 2 ^ 32) mod 2 ^ 32" by simp
    also have "\<dots> = i + 2 ^ 32" using b False by (intro mod_pos_pos_trivial) auto
    finally have "\<not> d \<le> 11" using b ud by (simp add: word_le_def)
    moreover have "d + 12 = word_of_int (i + 12)" by (simp add: d)
    moreover have "sint (word_of_int (i + 12) :: u32) = i + 12"
      using b by (intro sint_of_int_u32) auto
    moreover have "i mod 12 = i + 12" using b False by presburger
    ultimately show ?thesis by (simp add: md i_def [symmetric])
  qed
qed

text \<open>The difference of two months is the number of months to add to get from one to the
  other, between 0 and 11.\<close>

lemma month_plus_diff:
  assumes "month_ok x" and "month_ok y"
  shows "month_plus y (month_diff x y) = x \<and> 0 \<le> month_diff x y \<and> month_diff x y \<le> 11"
proof -
  let ?x = "uint (month_m x)" and ?y = "uint (month_m y)"
  have "(?y + (?x - ?y) mod 12 - 1) mod 12 = ((?y - 1) + (?x - ?y)) mod 12"
    using mod_add_right_eq [of "?y - 1" "?x - ?y" 12] by (simp add: algebra_simps)
  also have "(?y - 1) + (?x - ?y) = ?x - 1" by simp
  finally have "month_plus y (month_diff x y) = x"
    using assms by (intro month.expand)
      (simp add: word_uint_eq_iff month_plus_uint month_diff_uint month_ok_uint)
  then show ?thesis
    using assms pos_mod_bound [of 12 "?x - ?y"] by (simp add: month_diff_uint)
qed

section \<open>\<^verbatim>\<open>year\<close>\<close>

datatype year = Year (year_y: "16 word")

definition year_new :: "int \<Rightarrow> year" where
  "year_new y = Year (of_int y)"

definition year_int :: "year \<Rightarrow> int" where
  "year_int x = sint (year_y x)"

definition year_inc :: "year \<Rightarrow> year" where
  "year_inc x = Year (year_y x + 1)"

definition year_dec :: "year \<Rightarrow> year" where
  "year_dec x = Year (year_y x - 1)"

definition year_neg :: "year \<Rightarrow> year" where
  "year_neg x = year_new (- sint (year_y x))"

definition is_leap :: "year \<Rightarrow> bool" where
  "is_leap x \<longleftrightarrow> year_int x smod 4 = 0 \<and> (year_int x smod 100 \<noteq> 0 \<or> year_int x smod 400 = 0)"

definition year_ok :: "year \<Rightarrow> bool" where
  "year_ok x \<longleftrightarrow> year_int x \<noteq> - 32768"

definition year_min :: year where
  "year_min = year_new (- 32767)"

definition year_max :: year where
  "year_max = year_new 32767"

definition year_eq :: "year \<Rightarrow> year \<Rightarrow> bool" where
  "year_eq x y \<longleftrightarrow> year_int x = year_int y"

definition year_less :: "year \<Rightarrow> year \<Rightarrow> bool" where
  "year_less x y \<longleftrightarrow> year_int x < year_int y"

definition year_less_eq :: "year \<Rightarrow> year \<Rightarrow> bool" where
  "year_less_eq x y \<longleftrightarrow> \<not> year_less y x"

definition year_diff :: "year \<Rightarrow> year \<Rightarrow> years" where
  "year_diff x y = year_int x - year_int y"

definition year_plus :: "year \<Rightarrow> years \<Rightarrow> year" where
  "year_plus x y = year_new (year_int x + y)"

definition year_minus :: "year \<Rightarrow> years \<Rightarrow> year" where
  "year_minus x y = year_new (year_int x - y)"

lemma year_int_inject: "year_int x = year_int y \<longleftrightarrow> x = y"
  by (cases x; cases y) (auto simp: year_int_def intro: signed_word_eqI)

lemma year_eq_iff: "year_eq x y \<longleftrightarrow> x = y"
  by (simp add: year_eq_def year_int_inject)

instantiation year :: linorder
begin

definition less_year_inst: "less_year = year_less"

definition less_eq_year_inst: "less_eq_year = year_less_eq"

instance
  by standard
    (auto simp: less_year_inst less_eq_year_inst year_less_def year_less_eq_def year_int_inject [symmetric])

end

lemma year_le_int: "x \<le> y \<longleftrightarrow> year_int x \<le> year_int y"
  by (auto simp: less_eq_year_inst year_less_eq_def year_less_def)

lemma year_less_int: "x < y \<longleftrightarrow> year_int x < year_int y"
  by (simp add: less_year_inst year_less_def)

lemma year_int_bound: "- 32768 \<le> year_int x" "year_int x \<le> 32767"
  using short_bound [of "year_y x"] by (simp_all add: year_int_def)

lemma year_int_new: "- 32768 \<le> i \<Longrightarrow> i \<le> 32767 \<Longrightarrow> year_int (year_new i) = i"
  by (simp add: year_int_def year_new_def sint_of_int_short)

lemma year_new_int [simp]: "year_new (year_int x) = x"
  by (cases x) (simp add: year_int_def year_new_def)

lemma year_ok_range: "year_ok x \<longleftrightarrow> year_min \<le> x \<and> x \<le> year_max"
  using year_int_bound [of x]
  by (auto simp: year_ok_def year_min_def year_max_def year_le_int year_int_new)

lemma year_plus_int:
  "- 32768 \<le> year_int x + n \<Longrightarrow> year_int x + n \<le> 32767 \<Longrightarrow> year_int (year_plus x n) = year_int x + n"
  by (simp add: year_plus_def year_int_new)

text \<open>Stepping past the last year wraps to the value that is not a year.\<close>

lemma year_inc_max: "\<not> year_ok (year_inc year_max)"
  by (simp add: year_ok_def year_inc_def year_max_def year_new_def year_int_def)

text \<open>C's remainder has the sign of the dividend; for the test against zero it is divisibility.\<close>

lemma smod_eq_0:
  fixes a b :: int
  assumes "0 < b"
  shows "a smod b = 0 \<longleftrightarrow> b dvd a"
proof (cases "0 \<le> a")
  case True
  then have "a smod b = a mod b"
    using assms by (auto simp: signed_modulo_int_def signed_divide_int_def sgn_if minus_mult_div_eq_mod)
  then show ?thesis by (simp add: dvd_eq_mod_eq_0)
next
  case False
  then have "a smod b = - (- a mod b)"
    using assms by (simp add: signed_modulo_int_def signed_divide_int_def sgn_if minus_mult_div_eq_mod [symmetric])
  then show ?thesis by (simp add: dvd_eq_mod_eq_0 [symmetric])
qed

lemma is_leap_dvd: "is_leap x \<longleftrightarrow> 4 dvd year_int x \<and> (\<not> 100 dvd year_int x \<or> 400 dvd year_int x)"
  by (simp add: is_leap_def smod_eq_0)

section \<open>\<^verbatim>\<open>weekday\<close>\<close>

datatype weekday = Weekday (weekday_wd: byte)

definition weekday_from_days :: "int \<Rightarrow> byte" where
  "weekday_from_days z =
     (let u = (of_int z :: u32) in ucast (if - 4 \<le> z then (u + 4) mod 7 else u mod 7))"

definition weekday_new :: "u32 \<Rightarrow> weekday" where
  "weekday_new wd = Weekday (ucast (if wd \<noteq> 7 then wd else 0))"

definition weekday_of_days :: "days \<Rightarrow> weekday" where
  "weekday_of_days dp = Weekday (weekday_from_days dp)"

definition weekday_ok :: "weekday \<Rightarrow> bool" where
  "weekday_ok x \<longleftrightarrow> weekday_wd x \<le> 6"

definition c_encoding :: "weekday \<Rightarrow> u32" where
  "c_encoding x = ucast (weekday_wd x)"

definition iso_encoding :: "weekday \<Rightarrow> u32" where
  "iso_encoding x = (if weekday_wd x = 0 then 7 else ucast (weekday_wd x))"

definition weekday_diff :: "weekday \<Rightarrow> weekday \<Rightarrow> days" where
  "weekday_diff x y =
     (let wdu = uint (weekday_wd x) - uint (weekday_wd y);
          wk = (if 0 \<le> wdu then wdu else wdu - 6) sdiv 7
      in wdu - wk * 7)"

definition weekday_plus :: "weekday \<Rightarrow> days \<Rightarrow> weekday" where
  "weekday_plus x y =
     (let wdu = uint (weekday_wd x) + y;
          wk = (if 0 \<le> wdu then wdu else wdu - 6) sdiv 7
      in weekday_new (of_int (wdu - wk * 7)))"

definition weekday_minus :: "weekday \<Rightarrow> days \<Rightarrow> weekday" where
  "weekday_minus x y = weekday_plus x (- y)"

definition weekday_inc :: "weekday \<Rightarrow> weekday" where
  "weekday_inc x = weekday_plus x 1"

definition weekday_dec :: "weekday \<Rightarrow> weekday" where
  "weekday_dec x = weekday_minus x 1"

lemma weekday_ok_uint: "weekday_ok x \<longleftrightarrow> uint (weekday_wd x) \<le> 6"
  by (simp add: weekday_ok_def word_le_def)

lemma weekday_diff_mod: "weekday_diff x y = (uint (weekday_wd x) - uint (weekday_wd y)) mod 7"
  by (simp only: weekday_diff_def Let_def sdiv_floor_7 minus_div_mult_eq_mod)

lemma weekday_new_uint:
  assumes "0 \<le> i" and "i < 7"
  shows "uint (weekday_wd (weekday_new (of_int i))) = i"
proof -
  have "(of_int i :: u32) \<noteq> 7"
    using assms by (simp add: word_uint_eq_iff uint_of_int_u32)
  then show ?thesis using assms by (simp add: weekday_new_def byte_of_u32)
qed

lemma weekday_plus_uint: "uint (weekday_wd (weekday_plus x n)) = (uint (weekday_wd x) + n) mod 7"
  unfolding weekday_plus_def Let_def sdiv_floor_7 minus_div_mult_eq_mod
  by (rule weekday_new_uint) simp_all

lemma weekday_plus_ok: "weekday_ok (weekday_plus x n)"
  using pos_mod_bound [of 7 "uint (weekday_wd x) + n"] by (simp add: weekday_ok_uint weekday_plus_uint)

lemma weekday_plus_diff:
  assumes "weekday_ok x"
  shows "weekday_plus y (weekday_diff x y) = x \<and> 0 \<le> weekday_diff x y \<and> weekday_diff x y \<le> 6"
proof -
  let ?x = "uint (weekday_wd x)" and ?y = "uint (weekday_wd y)"
  have "(?y + (?x - ?y) mod 7) mod 7 = ?x"
    using assms mod_add_right_eq [of ?y "?x - ?y" 7] by (simp add: weekday_ok_uint)
  then have "weekday_plus y (weekday_diff x y) = x"
    by (intro weekday.expand) (simp add: word_uint_eq_iff weekday_plus_uint weekday_diff_mod)
  then show ?thesis
    using pos_mod_bound [of 7 "?x - ?y"] by (simp add: weekday_diff_mod)
qed

text \<open>The unsigned arithmetic of \<^verbatim>\<open>weekday_from_days\<close> computes the day count plus four modulo
  seven, for negative counts as well: the wrap-around adds \<open>2 ^ 32\<close>, which is four modulo
  seven.\<close>

lemma weekday_from_days_mod:
  assumes "- (2 ^ 31) \<le> z" and "z < 2 ^ 31"
  shows "uint (weekday_from_days z) = (z + 4) mod 7"
proof -
  have r: "uint (ucast (w mod 7 :: u32) :: byte) = uint w mod 7" for w :: u32
  proof -
    have "uint (w mod 7) = uint w mod 7" by (simp add: uint_mod)
    moreover have "uint w mod 7 < 256" using pos_mod_bound [of 7 "uint w"] by linarith
    ultimately show ?thesis
      by (simp add: unsigned_ucast_eq take_bit_int_eq_self)
  qed
  show ?thesis
  proof (cases "- 4 \<le> z")
    case True
    have "(of_int z + 4 :: u32) = of_int (z + 4)" by simp
    then have "uint (of_int z + 4 :: u32) = z + 4"
      using True assms uint_of_int_u32 [of "z + 4"] by simp
    then show ?thesis
      using True by (simp add: weekday_from_days_def Let_def r)
  next
    case False
    have "uint (of_int z :: u32) = z mod 2 ^ 32" by (simp add: uint_word_of_int)
    also have "\<dots> = (z + 2 ^ 32) mod 2 ^ 32" by simp
    also have "\<dots> = z + 2 ^ 32" using False assms by (intro mod_pos_pos_trivial) auto
    finally have "uint (of_int z :: u32) mod 7 = (z + 2 ^ 32) mod 7" by (rule arg_cong)
    also have "z + 2 ^ 32 = z + 4 + 613566756 * 7" by simp
    also have "\<dots> mod 7 = (z + 4) mod 7" by (rule mod_mult_self1)
    finally have "uint (of_int z :: u32) mod 7 = (z + 4) mod 7" .
    then show ?thesis
      using False by (simp add: weekday_from_days_def Let_def r)
  qed
qed

lemma weekday_of_days_plus:
  assumes "- (2 ^ 31) \<le> z" "z < 2 ^ 31" "- (2 ^ 31) \<le> z + n" "z + n < 2 ^ 31"
  shows "weekday_of_days (z + n) = weekday_plus (weekday_of_days z) n"
proof -
  have "((z + 4) mod 7 + n) mod 7 = (z + n + 4) mod 7"
    using mod_add_left_eq [of "z + 4" 7 n] by (simp add: algebra_simps)
  then show ?thesis
    using assms by (intro weekday.expand)
      (simp add: word_uint_eq_iff weekday_plus_uint weekday_of_days_def weekday_from_days_mod)
qed

lemma weekday_of_days_ok: "- (2 ^ 31) \<le> z \<Longrightarrow> z < 2 ^ 31 \<Longrightarrow> weekday_ok (weekday_of_days z)"
  using pos_mod_bound [of 7 "z + 4"]
  by (simp add: weekday_ok_uint weekday_of_days_def weekday_from_days_mod)

section \<open>Constants\<close>

definition January :: month where "January = month_new 1"
definition February :: month where "February = month_new 2"
definition March :: month where "March = month_new 3"
definition Sunday :: weekday where "Sunday = weekday_new 7"
definition Monday :: weekday where "Monday = weekday_new 1"
definition Thursday :: weekday where "Thursday = weekday_new 4"

lemma Sunday_zero: "weekday_wd Sunday = 0"
  by (simp add: Sunday_def weekday_new_def)

lemma month_le_February: "m \<le> February \<longleftrightarrow> uint (month_m m) \<le> 2"
  by (simp add: month_le_uint February_def month_new_def)

end
