(* ===== verification/Date_Duration.thy ===== *)
theory Date_Duration
  imports Date_Fields
begin

text \<open>
  Durations of \<^verbatim>\<open>std::chrono\<close> as \<^verbatim>\<open>debug_print/date.h\<close> uses and rounds them: a period is a
  ratio of seconds, a duration a count of it.  The compile-time arithmetic of the header
  (\<^verbatim>\<open>static_gcd\<close>, \<^verbatim>\<open>no_overflow\<close>, \<^verbatim>\<open>width\<close>, \<^verbatim>\<open>static_pow10\<close>) comes with it.  Counts are
  integers; the periods are positive, as \<^verbatim>\<open>std::ratio\<close> normalises them.
\<close>

section \<open>Periods and casts\<close>

record ratio =
  rnum :: int
  rden :: int

definition ratio_ok :: "ratio \<Rightarrow> bool" where
  "ratio_ok r \<longleftrightarrow> 0 < rnum r \<and> 0 < rden r"

definition seconds_period :: ratio where "seconds_period = \<lparr>rnum = 1, rden = 1\<rparr>"
definition minutes_period :: ratio where "minutes_period = \<lparr>rnum = 60, rden = 1\<rparr>"
definition hours_period :: ratio where "hours_period = \<lparr>rnum = 3600, rden = 1\<rparr>"
definition days_period :: ratio where "days_period = \<lparr>rnum = 86400, rden = 1\<rparr>"
definition milli_period :: ratio where "milli_period = \<lparr>rnum = 1, rden = 1000\<rparr>"

text \<open>\<^verbatim>\<open>duration_cast<To>(d)\<close> for integral representations: multiply, then divide
  truncating.\<close>

definition duration_cast :: "ratio \<Rightarrow> ratio \<Rightarrow> int \<Rightarrow> int" where
  "duration_cast to from c = (c * (rnum from * rden to)) sdiv (rden from * rnum to)"

text \<open>The order of two durations, in their common period.\<close>

definition dur_less :: "ratio \<Rightarrow> int \<Rightarrow> ratio \<Rightarrow> int \<Rightarrow> bool" where
  "dur_less p a q b \<longleftrightarrow> a * (rnum p * rden q) < b * (rnum q * rden p)"

definition dur_trunc :: "ratio \<Rightarrow> ratio \<Rightarrow> int \<Rightarrow> int" where
  "dur_trunc to from c = duration_cast to from c"

definition dur_floor :: "ratio \<Rightarrow> ratio \<Rightarrow> int \<Rightarrow> int" where
  "dur_floor to from c =
     (let t = dur_trunc to from c in if dur_less from c to t then t - 1 else t)"

definition dur_ceil :: "ratio \<Rightarrow> ratio \<Rightarrow> int \<Rightarrow> int" where
  "dur_ceil to from c =
     (let t = dur_trunc to from c in if dur_less to t from c then t + 1 else t)"

text \<open>The distances are counted in the common unit of the two periods, one
  \<open>rden from * rden to\<close>-th of a second.\<close>

definition dur_round :: "ratio \<Rightarrow> ratio \<Rightarrow> int \<Rightarrow> int" where
  "dur_round to from c =
     (let t0 = dur_floor to from c;
          t1 = t0 + 1;
          t1 = (if t1 = 0 \<and> t0 < 0 then - t1 else t1);
          diff0 = c * (rnum from * rden to) - t0 * (rnum to * rden from);
          diff1 = t1 * (rnum to * rden from) - c * (rnum from * rden to)
      in if diff0 = diff1
         then (if t0 - dur_trunc to to (t0 sdiv 2) * 2 = 0 then t0 else t1)
         else if diff0 < diff1 then t0 else t1)"

definition dur_abs :: "int \<Rightarrow> int" where
  "dur_abs d = (if d \<ge> 0 then d else - d)"

text \<open>The overloads for periods whose quotient \<^verbatim>\<open>intmax_t\<close> does not hold go through seconds.\<close>

definition dur_trunc_far :: "ratio \<Rightarrow> ratio \<Rightarrow> int \<Rightarrow> int" where
  "dur_trunc_far to from c = duration_cast to seconds_period (duration_cast seconds_period from c)"

definition dur_floor_far :: "ratio \<Rightarrow> ratio \<Rightarrow> int \<Rightarrow> int" where
  "dur_floor_far to from c = dur_floor to seconds_period (dur_floor seconds_period from c)"

text \<open>A time point is the count since the epoch; rounding one rounds the count.  \<^verbatim>\<open>round_i\<close> leaves a count of a
  floating-point representation as it is, which does not arise here.\<close>

definition tp_floor :: "ratio \<Rightarrow> ratio \<Rightarrow> int \<Rightarrow> int" where
  "tp_floor to from tp = dur_floor to from tp"

definition tp_round :: "ratio \<Rightarrow> ratio \<Rightarrow> int \<Rightarrow> int" where
  "tp_round to from tp = dur_round to from tp"

definition tp_ceil :: "ratio \<Rightarrow> ratio \<Rightarrow> int \<Rightarrow> int" where
  "tp_ceil to from tp = dur_ceil to from tp"

definition round_i :: "ratio \<Rightarrow> ratio \<Rightarrow> int \<Rightarrow> int" where
  "round_i to from d = dur_round to from d"

definition tp_round_i :: "ratio \<Rightarrow> ratio \<Rightarrow> int \<Rightarrow> int" where
  "tp_round_i to from tp = round_i to from tp"

definition tp_trunc :: "ratio \<Rightarrow> ratio \<Rightarrow> int \<Rightarrow> int" where
  "tp_trunc to from tp = dur_trunc to from tp"

section \<open>Rounding\<close>

lemma sdiv_pos: "0 \<le> n \<Longrightarrow> 0 < m \<Longrightarrow> n sdiv m = n div (m :: int)"
  by (simp add: signed_divide_int_def sgn_if)

lemma sdiv_neg: "n < 0 \<Longrightarrow> 0 < m \<Longrightarrow> n sdiv m = - ((- n) div (m :: int))"
  by (simp add: signed_divide_int_def sgn_if)

lemma sdiv_bounds:
  fixes n m :: int
  assumes "0 < m"
  defines "t \<equiv> n sdiv m"
  shows "0 \<le> n \<Longrightarrow> t * m \<le> n \<and> n < t * m + m" and "n < 0 \<Longrightarrow> n \<le> t * m \<and> t * m < n + m"
proof -
  have r: "k div m * m \<le> k" "k < k div m * m + m" for k
    using assms(1) pos_mod_bound [of m k] pos_mod_sign [of m k] div_mult_mod_eq [of k m] by linarith+
  show "0 \<le> n \<Longrightarrow> t * m \<le> n \<and> n < t * m + m"
    using r [of n] assms(1) by (simp add: t_def sdiv_pos)
  show "n < 0 \<Longrightarrow> n \<le> t * m \<and> t * m < n + m"
    using r [of "- n"] assms(1) by (simp add: t_def sdiv_neg)
qed

lemma div_unique_bounds:
  fixes n m q :: int
  assumes "q * m \<le> n" and "n < q * m + m"
  shows "n div m = q"
  using int_div_pos_eq [of n m q "n - q * m"] assms by (simp add: mult.commute)

lemma dur_floor_div:
  assumes "ratio_ok to" and "ratio_ok from"
  shows "dur_floor to from c = (c * (rnum from * rden to)) div (rnum to * rden from)"
proof -
  define n m where "n = c * (rnum from * rden to)" and "m = rnum to * rden from"
  define t where "t = n sdiv m"
  have m: "0 < m" using assms by (simp add: ratio_ok_def m_def)
  have f: "dur_floor to from c = (if n < t * m then t - 1 else t)"
    by (simp add: dur_floor_def dur_trunc_def duration_cast_def dur_less_def n_def m_def t_def Let_def mult.commute)
  note b = sdiv_bounds [OF m, of n, folded t_def]
  show ?thesis
  proof (cases "n < t * m")
    case True
    with b have "n < 0" by linarith
    with b(2) True have "(t - 1) * m \<le> n" "n < (t - 1) * m + m" by (auto simp: algebra_simps)
    with True show ?thesis using div_unique_bounds [of "t - 1" m n] f by (simp flip: n_def m_def)
  next
    case False
    then have "t * m \<le> n" "n < t * m + m" using b m by linarith+
    with False show ?thesis using div_unique_bounds [of t m n] f by (simp flip: n_def m_def)
  qed
qed

lemma dur_ceil_div:
  assumes "ratio_ok to" and "ratio_ok from"
  shows "dur_ceil to from c = - ((- (c * (rnum from * rden to))) div (rnum to * rden from))"
proof -
  define n m where "n = c * (rnum from * rden to)" and "m = rnum to * rden from"
  define t where "t = n sdiv m"
  have m: "0 < m" using assms by (simp add: ratio_ok_def m_def)
  have f: "dur_ceil to from c = (if t * m < n then t + 1 else t)"
    by (simp add: dur_ceil_def dur_trunc_def duration_cast_def dur_less_def n_def m_def t_def Let_def mult.commute)
  note b = sdiv_bounds [OF m, of n, folded t_def]
  show ?thesis
  proof (cases "t * m < n")
    case True
    with b have "0 \<le> n" by linarith
    with b(1) True have "(- (t + 1)) * m \<le> - n" "- n < (- (t + 1)) * m + m" by (auto simp: algebra_simps)
    with True show ?thesis using div_unique_bounds [of "- (t + 1)" m "- n"] f by (simp flip: n_def m_def)
  next
    case False
    then have "n \<le> t * m" "t * m < n + m" using b m by linarith+
    then have "(- t) * m \<le> - n" "- n < (- t) * m + m" by simp_all
    with False show ?thesis using div_unique_bounds [of "- t" m "- n"] f by (simp flip: n_def m_def)
  qed
qed

text \<open>Going through seconds makes no difference to periods of whole seconds.\<close>

lemma dur_floor_far_floor:
  assumes "ratio_ok to" and "ratio_ok from" and "rden to = 1"
  shows "dur_floor_far to from c = dur_floor to from c"
proof -
  have s: "ratio_ok seconds_period" by (simp add: ratio_ok_def seconds_period_def)
  have "0 \<le> rnum to" using assms(1) by (simp add: ratio_ok_def)
  then have "c * rnum from div (rden from * rnum to) = c * rnum from div rden from div rnum to" by (rule zdiv_zmult2_eq)
  then show ?thesis
    unfolding dur_floor_far_def dur_floor_div [OF assms(1) s] dur_floor_div [OF s assms(2)] dur_floor_div [OF assms(1,2)]
    by (simp add: assms(3) seconds_period_def mult.commute)
qed

text \<open>The floor of a time point is not after it, the ceiling not before it, and truncation is one of the two: the floor
  after the epoch, the ceiling before it.\<close>

lemma tp_trunc_cases:
  assumes "ratio_ok to" and "ratio_ok from"
  shows "tp_trunc to from tp = (if 0 \<le> tp then tp_floor to from tp else tp_ceil to from tp)"
proof -
  define n m where "n = tp * (rnum from * rden to)" and "m = rnum to * rden from"
  have m: "0 < m" and k: "0 < rnum from * rden to" using assms by (simp_all add: ratio_ok_def m_def)
  have "n sdiv m = (if 0 \<le> tp then n div m else - ((- n) div m))"
  proof (cases "0 \<le> tp")
    case True
    then have "0 \<le> n" using k by (simp add: n_def)
    with True m show ?thesis by (simp add: sdiv_pos)
  next
    case False
    then have "n < 0" using k by (simp add: n_def mult_less_0_iff)
    with False m show ?thesis by (simp add: sdiv_neg)
  qed
  then show ?thesis
    using dur_floor_div [OF assms, of tp] dur_ceil_div [OF assms, of tp]
    by (simp add: tp_trunc_def tp_floor_def tp_ceil_def dur_trunc_def duration_cast_def n_def m_def mult.commute)
qed

text \<open>Rounding goes to a nearest count, and to the even one of two.\<close>

lemma dur_round_nearest:
  fixes c :: int
  assumes "ratio_ok to" and "ratio_ok from"
  defines "n \<equiv> c * (rnum from * rden to)" and "m \<equiv> rnum to * rden from"
  defines "t \<equiv> dur_round to from c"
  shows "2 * \<bar>n - t * m\<bar> \<le> m" and "2 * \<bar>n - t * m\<bar> = m \<Longrightarrow> even t"
proof -
  have m: "0 < m" using assms by (simp add: ratio_ok_def m_def)
  define t0 where "t0 = n div m"
  have t0: "dur_floor to from c = t0" using dur_floor_div [OF assms(1,2)] by (simp add: t0_def n_def m_def)
  have b: "t0 * m \<le> n" "n < t0 * m + m"
    using m pos_mod_bound [of m n] pos_mod_sign [of m n] div_mult_mod_eq [of n m] unfolding t0_def by linarith+
  have tt: "dur_trunc to to k = k" for k
  proof -
    have "0 < rnum to * rden to" using assms(1) by (simp add: ratio_ok_def)
    then show ?thesis
      by (cases "0 \<le> k") (auto simp: dur_trunc_def duration_cast_def sdiv_pos sdiv_neg mult_less_0_iff
          mult.commute [of "rden to"] simp flip: mult_minus_left)
  qed
  have ev: "t0 - t0 sdiv 2 * 2 = 0 \<longleftrightarrow> even t0"
  proof (cases "0 \<le> t0")
    case True
    then show ?thesis by (simp add: sdiv_pos minus_div_mult_eq_mod even_iff_mod_2_eq_zero)
  next
    case False
    have "t0 + (- t0) div 2 * 2 = 0 \<longleftrightarrow> even t0" by presburger
    with False show ?thesis by (simp add: sdiv_neg)
  qed
  have t: "t = (if n - t0 * m = (t0 + 1) * m - n then (if even t0 then t0 else t0 + 1)
      else if n - t0 * m < (t0 + 1) * m - n then t0 else t0 + 1)"
    unfolding t_def dur_round_def Let_def t0 tt n_def [symmetric] m_def [symmetric] ev by simp
  define a where "a = t0 * m"
  have s: "(t0 + 1) * m = a + m" by (simp add: a_def algebra_simps)
  have "t = t0 \<and> 2 * (n - a) \<le> m \<and> (2 * (n - a) = m \<longrightarrow> even t0) \<or>
      t = t0 + 1 \<and> m \<le> 2 * (n - a) \<and> (2 * (n - a) = m \<longrightarrow> odd t0)"
    using t [unfolded s a_def [symmetric]] by (auto split: if_splits)
  then have "(t * m = a \<and> 2 * (n - a) \<le> m \<and> (2 * (n - a) = m \<longrightarrow> even t)) \<or>
      (t * m = a + m \<and> m \<le> 2 * (n - a) \<and> (2 * (n - a) = m \<longrightarrow> even t))"
    using s by (auto simp: a_def)
  then show "2 * \<bar>n - t * m\<bar> \<le> m" "2 * \<bar>n - t * m\<bar> = m \<Longrightarrow> even t"
    using b unfolding a_def [symmetric] by auto
qed

section \<open>Counts of a fixed width\<close>

text \<open>The counts above are exact.  In the code a count has a signed integer type, whose overflow is undefined: the
  operations once more, over types of so many bits, \<^const>\<open>None\<close> when an intermediate value does not fit (or is
  changed by the conversion to the narrower type of the result).  \<^verbatim>\<open>duration_cast\<close> multiplies in \<^verbatim>\<open>intmax_t\<close> by
  the numerator of the reduced quotient of the periods and divides by its denominator; two durations are compared and
  subtracted in the wider of their types, counted in their common unit.\<close>

record duration_type =
  dt_period :: ratio
  dt_bits :: nat

definition fits :: "nat \<Rightarrow> int \<Rightarrow> bool" where
  "fits w x \<longleftrightarrow> - (2 ^ (w - 1)) \<le> x \<and> x < 2 ^ (w - 1)"

definition checked :: "nat \<Rightarrow> int \<Rightarrow> int option" where
  "checked w x = (if fits w x then Some x else None)"

definition cast_num :: "duration_type \<Rightarrow> duration_type \<Rightarrow> int" where
  "cast_num to from =
     (let n = rnum (dt_period from) * rden (dt_period to); d = rnum (dt_period to) * rden (dt_period from)
      in n div gcd n d)"

definition cast_den :: "duration_type \<Rightarrow> duration_type \<Rightarrow> int" where
  "cast_den to from =
     (let n = rnum (dt_period from) * rden (dt_period to); d = rnum (dt_period to) * rden (dt_period from)
      in d div gcd n d)"

definition trunc_checked :: "duration_type \<Rightarrow> duration_type \<Rightarrow> int \<Rightarrow> int option" where
  "trunc_checked to from c =
     Option.bind (checked 64 (c * cast_num to from)) (\<lambda>x. checked (dt_bits to) (x sdiv cast_den to from))"

text \<open>The counts of \<open>c\<close> and of \<open>t\<close> in the common unit.\<close>

definition in_common :: "duration_type \<Rightarrow> duration_type \<Rightarrow> int \<Rightarrow> int \<Rightarrow> (int \<times> int) option" where
  "in_common to from c t =
     (let w = max (dt_bits to) (dt_bits from)
      in Option.bind (checked w (c * cast_num to from)) (\<lambda>x. map_option (Pair x) (checked w (t * cast_den to from))))"

definition floor_checked :: "duration_type \<Rightarrow> duration_type \<Rightarrow> int \<Rightarrow> int option" where
  "floor_checked to from c =
     Option.bind (trunc_checked to from c) (\<lambda>t.
     Option.bind (in_common to from c t) (\<lambda>(x, y). if x < y then checked (dt_bits to) (t - 1) else Some t))"

definition ceil_checked :: "duration_type \<Rightarrow> duration_type \<Rightarrow> int \<Rightarrow> int option" where
  "ceil_checked to from c =
     Option.bind (trunc_checked to from c) (\<lambda>t.
     Option.bind (in_common to from c t) (\<lambda>(x, y). if y < x then checked (dt_bits to) (t + 1) else Some t))"

definition round_checked :: "duration_type \<Rightarrow> duration_type \<Rightarrow> int \<Rightarrow> int option" where
  "round_checked to from c =
     (let w = max (dt_bits to) (dt_bits from) in
      Option.bind (floor_checked to from c) (\<lambda>t0.
      Option.bind (checked (dt_bits to) (t0 + 1)) (\<lambda>t1.
      let t1 = (if t1 = 0 \<and> t0 < 0 then - t1 else t1) in
      Option.bind (in_common to from c t0) (\<lambda>(x, y0).
      Option.bind (checked w (x - y0)) (\<lambda>diff0.
      Option.bind (in_common to from c t1) (\<lambda>(x, y1).
      Option.bind (checked w (y1 - x)) (\<lambda>diff1.
        if diff0 = diff1 then (if t0 - t0 sdiv 2 * 2 = 0 then Some t0 else Some t1)
        else if diff0 < diff1 then Some t0 else Some t1)))))))"

lemma checked_Some [simp]: "checked w x = Some y \<longleftrightarrow> fits w x \<and> y = x"
  by (auto simp: checked_def)

lemma in_common_Some [simp]:
  "in_common to from c t = Some p \<longleftrightarrow>
     fits (max (dt_bits to) (dt_bits from)) (c * cast_num to from) \<and>
     fits (max (dt_bits to) (dt_bits from)) (t * cast_den to from) \<and> p = (c * cast_num to from, t * cast_den to from)"
  by (auto simp: in_common_def Let_def bind_eq_Some_conv)

text \<open>The reduced quotient of the periods.\<close>

lemma cast_ratio:
  assumes "ratio_ok (dt_period to)" and "ratio_ok (dt_period from)"
  obtains g where "0 < g" and "0 < cast_num to from" and "0 < cast_den to from"
    and "rnum (dt_period from) * rden (dt_period to) = g * cast_num to from"
    and "rnum (dt_period to) * rden (dt_period from) = g * cast_den to from"
proof -
  define n d where "n = rnum (dt_period from) * rden (dt_period to)" and "d = rnum (dt_period to) * rden (dt_period from)"
  have p: "0 < n" "0 < d" using assms by (simp_all add: ratio_ok_def n_def d_def)
  then have g: "0 < gcd n d" by simp
  have e: "n = gcd n d * cast_num to from" "d = gcd n d * cast_den to from"
    by (simp_all add: cast_num_def cast_den_def Let_def flip: n_def d_def)
  then have "0 < cast_num to from" "0 < cast_den to from" using p g by (metis zero_less_mult_pos)+
  with g e show thesis using that unfolding n_def d_def by blast
qed

lemma sdiv_cancel:
  fixes g x y :: int
  assumes "0 < g"
  shows "(g * x) sdiv (g * y) = x sdiv y"
  using assms by (simp add: signed_divide_int_def sgn_mult abs_mult)

lemma dur_common:
  assumes "ratio_ok (dt_period to)" and "ratio_ok (dt_period from)"
  shows "dur_trunc (dt_period to) (dt_period from) c = c * cast_num to from sdiv cast_den to from"
    and "dur_less (dt_period from) c (dt_period to) t \<longleftrightarrow> c * cast_num to from < t * cast_den to from"
    and "dur_less (dt_period to) t (dt_period from) c \<longleftrightarrow> t * cast_den to from < c * cast_num to from"
proof -
  obtain g where g: "0 < g" and n: "rnum (dt_period from) * rden (dt_period to) = g * cast_num to from"
      and d: "rnum (dt_period to) * rden (dt_period from) = g * cast_den to from"
    by (rule cast_ratio [OF assms])
  have "dur_trunc (dt_period to) (dt_period from) c = (g * (c * cast_num to from)) sdiv (g * cast_den to from)"
    by (simp add: dur_trunc_def duration_cast_def n mult.commute [of "rden (dt_period from)"] d mult.left_commute)
  then show "dur_trunc (dt_period to) (dt_period from) c = c * cast_num to from sdiv cast_den to from"
    by (simp only: sdiv_cancel [OF g])
  show "dur_less (dt_period from) c (dt_period to) t \<longleftrightarrow> c * cast_num to from < t * cast_den to from"
    "dur_less (dt_period to) t (dt_period from) c \<longleftrightarrow> t * cast_den to from < c * cast_num to from"
    using g by (simp_all add: dur_less_def n d mult.left_commute [of _ g])
qed

text \<open>Where the checked operations give a count it is the exact one.\<close>

lemma floor_checked_exact:
  assumes "ratio_ok (dt_period to)" and "ratio_ok (dt_period from)" and "floor_checked to from c = Some t"
  shows "t = dur_floor (dt_period to) (dt_period from) c"
  using assms(3) by (auto simp: floor_checked_def trunc_checked_def dur_floor_def dur_common [OF assms(1,2)]
      bind_eq_Some_conv Let_def split: if_splits)

lemma ceil_checked_exact:
  assumes "ratio_ok (dt_period to)" and "ratio_ok (dt_period from)" and "ceil_checked to from c = Some t"
  shows "t = dur_ceil (dt_period to) (dt_period from) c"
  using assms(3) by (auto simp: ceil_checked_def trunc_checked_def dur_ceil_def dur_common [OF assms(1,2)]
      bind_eq_Some_conv Let_def split: if_splits)

lemma dur_round_common:
  fixes c :: int
  assumes "ratio_ok (dt_period to)" and "ratio_ok (dt_period from)"
  defines "t0 \<equiv> dur_floor (dt_period to) (dt_period from) c"
  defines "diff0 \<equiv> c * cast_num to from - t0 * cast_den to from"
    and "diff1 \<equiv> (t0 + 1) * cast_den to from - c * cast_num to from"
  shows "dur_round (dt_period to) (dt_period from) c =
    (if diff0 = diff1 then (if t0 - t0 sdiv 2 * 2 = 0 then t0 else t0 + 1) else if diff0 < diff1 then t0 else t0 + 1)"
proof -
  obtain g where g: "0 < g" and n: "rnum (dt_period from) * rden (dt_period to) = g * cast_num to from"
      and d: "rnum (dt_period to) * rden (dt_period from) = g * cast_den to from"
    by (rule cast_ratio [OF assms(1,2)])
  have e: "c * (g * k) - t * (g * m) = g * (c * k - t * m)" for k t m by (simp add: algebra_simps)
  have f: "t * (g * m) - c * (g * k) = g * (t * m - c * k)" for k t m by (simp add: algebra_simps)
  have tt: "dur_trunc (dt_period to) (dt_period to) k = k" for k
  proof -
    have "0 < rnum (dt_period to) * rden (dt_period to)" using assms(1) by (simp add: ratio_ok_def)
    then show ?thesis using sdiv_cancel [of "rnum (dt_period to) * rden (dt_period to)" k 1]
      by (simp add: dur_trunc_def duration_cast_def mult.commute)
  qed
  show ?thesis
    using g by (simp add: dur_round_def Let_def tt n d e f t0_def [symmetric] diff0_def diff1_def)
qed

lemma round_checked_exact:
  assumes "ratio_ok (dt_period to)" and "ratio_ok (dt_period from)" and "round_checked to from c = Some t"
  shows "t = dur_round (dt_period to) (dt_period from) c"
proof -
  obtain t0 where t0: "floor_checked to from c = Some t0"
    using assms(3) by (auto simp: round_checked_def Let_def bind_eq_Some_conv)
  note e = floor_checked_exact [OF assms(1,2) t0]
  show ?thesis
    using assms(3) t0 unfolding dur_round_common [OF assms(1,2)] e [symmetric]
    by (auto simp: round_checked_def Let_def bind_eq_Some_conv split: if_splits)
qed

text \<open>And they give one whenever the count, enlarged by one unit of the result, fits the type they compute in and the
  result fits its own.\<close>

lemma fits_abs: "\<bar>x\<bar> < 2 ^ (w - 1) \<Longrightarrow> fits w x"
  by (auto simp: fits_def abs_less_iff)

definition rounding_fits :: "duration_type \<Rightarrow> duration_type \<Rightarrow> int \<Rightarrow> bool" where
  "rounding_fits to from c \<longleftrightarrow> 1 \<le> dt_bits to \<and> dt_bits to \<le> 64 \<and> dt_bits from \<le> 64 \<and>
     \<bar>c * cast_num to from\<bar> + cast_den to from < 2 ^ (max (dt_bits to) (dt_bits from) - 1) \<and>
     \<bar>c * cast_num to from\<bar> div cast_den to from + 1 < 2 ^ (dt_bits to - 1)"

lemma sdiv_abs:
  fixes x m :: int
  assumes "0 < m"
  shows "\<bar>x sdiv m\<bar> = \<bar>x\<bar> div m"
  using assms by (cases "0 \<le> x") (simp_all add: sdiv_pos sdiv_neg pos_imp_zdiv_nonneg_iff)

text \<open>The counts near the quotient.\<close>

definition near_quotient :: "duration_type \<Rightarrow> duration_type \<Rightarrow> int \<Rightarrow> int \<Rightarrow> bool" where
  "near_quotient to from c t \<longleftrightarrow> \<bar>t\<bar> \<le> \<bar>c * cast_num to from\<bar> div cast_den to from + 1"

lemma near_fits:
  assumes "rounding_fits to from c" and "0 < cast_den to from" and "near_quotient to from c t"
  shows "fits (dt_bits to) t" and "in_common to from c t = Some (c * cast_num to from, t * cast_den to from)"
proof -
  define X D where "X = \<bar>c * cast_num to from\<bar>" and "D = cast_den to from"
  define w where "w = max (dt_bits to) (dt_bits from)"
  have b: "X + D < 2 ^ (w - 1)" "X div D + 1 < 2 ^ (dt_bits to - 1)"
    using assms(1) by (simp_all add: rounding_fits_def X_def D_def w_def)
  have t: "\<bar>t\<bar> \<le> X div D + 1" using assms(3) by (simp add: near_quotient_def X_def D_def)
  have D: "0 < D" using assms(2) by (simp add: D_def)
  show "fits (dt_bits to) t" using t b(2) by (intro fits_abs) linarith
  have "\<bar>t * D\<bar> \<le> (X div D + 1) * D" using t D by (simp add: abs_mult mult_right_mono)
  also have "X div D * D \<le> X" using div_mult_mod_eq [of X D] pos_mod_sign [OF D, of X] by linarith
  then have "(X div D + 1) * D \<le> X + D" by (simp add: distrib_right)
  finally have "fits w (t * D)" using b(1) by (intro fits_abs) linarith
  moreover have "fits w (c * cast_num to from)" using b(1) D by (intro fits_abs) (simp add: X_def)
  ultimately show "in_common to from c t = Some (c * cast_num to from, t * cast_den to from)"
    by (simp add: w_def D_def)
qed

lemma trunc_checked_defined:
  assumes "rounding_fits to from c" and "0 < cast_den to from"
  shows "trunc_checked to from c = Some (c * cast_num to from sdiv cast_den to from)"
proof -
  define X D where "X = c * cast_num to from" and "D = cast_den to from"
  have b: "\<bar>X\<bar> + D < 2 ^ (max (dt_bits to) (dt_bits from) - 1)" "\<bar>X\<bar> div D + 1 < 2 ^ (dt_bits to - 1)"
    and w: "max (dt_bits to) (dt_bits from) - 1 \<le> 63"
    using assms(1) by (auto simp: rounding_fits_def X_def D_def)
  have "(2 :: int) ^ (max (dt_bits to) (dt_bits from) - 1) \<le> 2 ^ 63" using w by (rule power_increasing) simp
  then have "fits 64 X" using b(1) assms(2) by (intro fits_abs) (simp add: D_def)
  moreover have "fits (dt_bits to) (X sdiv D)" using b(2) assms(2) by (intro fits_abs) (simp add: sdiv_abs D_def)
  ultimately show ?thesis by (simp add: trunc_checked_def bind_eq_Some_conv flip: X_def D_def)
qed

lemma floor_checked_defined:
  assumes "rounding_fits to from c" and "0 < cast_den to from"
  shows "floor_checked to from c \<noteq> None" and "ceil_checked to from c \<noteq> None"
proof -
  let ?t = "c * cast_num to from sdiv cast_den to from"
  have a: "\<bar>?t\<bar> = \<bar>c * cast_num to from\<bar> div cast_den to from" by (rule sdiv_abs [OF assms(2)])
  then have "near_quotient to from c ?t" "near_quotient to from c (?t - 1)" "near_quotient to from c (?t + 1)"
    unfolding near_quotient_def by linarith+
  note n = near_fits [OF assms this(1)] near_fits [OF assms this(2)] near_fits [OF assms this(3)]
  show "floor_checked to from c \<noteq> None" "ceil_checked to from c \<noteq> None"
    using n by (simp_all add: floor_checked_def ceil_checked_def trunc_checked_defined [OF assms] checked_def del: in_common_Some)
qed

lemma round_checked_defined:
  assumes "ratio_ok (dt_period to)" and "ratio_ok (dt_period from)" and "rounding_fits to from c"
  shows "round_checked to from c \<noteq> None"
proof -
  obtain g where g: "0 < g" "0 < cast_den to from" and n: "rnum (dt_period from) * rden (dt_period to) = g * cast_num to from"
      and d: "rnum (dt_period to) * rden (dt_period from) = g * cast_den to from"
    by (rule cast_ratio [OF assms(1,2)]) blast
  define X D where "X = c * cast_num to from" and "D = cast_den to from"
  define w where "w = max (dt_bits to) (dt_bits from)"
  obtain t0 where t0: "floor_checked to from c = Some t0" using floor_checked_defined(1) [OF assms(3) g(2)] by blast
  have "t0 = g * X div (g * D)"
    using floor_checked_exact [OF assms(1,2) t0] dur_floor_div [OF assms(1,2), of c]
    by (simp add: n d X_def D_def mult.left_commute)
  then have q: "t0 = X div D" using g(1) by simp
  have D: "0 < D" using g(2) by (simp add: D_def)
  have b: "t0 * D \<le> X" "X < t0 * D + D" using pos_mod_bound [OF D, of X] pos_mod_sign [OF D, of X] div_mult_mod_eq [of X D]
    unfolding q by linarith+
  have "\<bar>t0\<bar> \<le> \<bar>X\<bar> div D + 1 \<and> \<bar>t0 + 1\<bar> \<le> \<bar>X\<bar> div D + 1"
  proof (cases "0 \<le> X")
    case True
    then have "0 \<le> t0" using D by (simp add: q pos_imp_zdiv_nonneg_iff)
    with True show ?thesis by (simp add: q)
  next
    case False
    then have "t0 < 0" using D by (simp add: q pos_imp_zdiv_neg_iff)
    moreover have "(- t0 - 1) * D \<le> - X" using b(2) by (simp add: algebra_simps)
    then have "- t0 - 1 \<le> (- X) div D" using D zdiv_mono1 [of "(- t0 - 1) * D" "- X" D] by simp
    ultimately show ?thesis using False by simp
  qed
  then have "near_quotient to from c t0" "near_quotient to from c (t0 + 1)"
    by (simp_all add: near_quotient_def X_def D_def)
  note nf = near_fits [OF assms(3) g(2) this(1)] near_fits [OF assms(3) g(2) this(2)]
  have "\<bar>X\<bar> + D < 2 ^ (w - 1)" using assms(3) by (simp add: rounding_fits_def X_def D_def w_def)
  then have "\<bar>X - t0 * D\<bar> < 2 ^ (w - 1)" "\<bar>(t0 + 1) * D - X\<bar> < 2 ^ (w - 1)" using b by (auto simp: algebra_simps)
  then have "fits w (X - t0 * D)" "fits w ((t0 + 1) * D - X)" by (simp_all add: fits_abs)
  then have "checked w (X - t0 * D) = Some (X - t0 * D)" "checked w ((t0 + 1) * D - X) = Some ((t0 + 1) * D - X)" by simp_all
  moreover have "(if t0 + 1 = 0 \<and> t0 < 0 then - (t0 + 1) else t0 + 1) = t0 + 1" by simp
  moreover have "checked (dt_bits to) (t0 + 1) = Some (t0 + 1)" using nf(3) by simp
  ultimately show ?thesis
    using nf(2,4) by (simp only: round_checked_def Let_def t0 w_def [symmetric] X_def [symmetric] D_def [symmetric]
        bind.bind_lunit case_prod_conv) simp
qed

text \<open>Near the ends of the type rounding overflows: at the last count of nanoseconds that \<^verbatim>\<open>int64_t\<close> holds, the next
  day has none.\<close>

lemma round_overflow: "round_checked \<lparr>dt_period = days_period, dt_bits = 32\<rparr> \<lparr>dt_period = \<lparr>rnum = 1, rden = 10 ^ 9\<rparr>, dt_bits = 64\<rparr>
    (2 ^ 63 - 1) = None"
  by code_simp

section \<open>Compile-time arithmetic\<close>

fun static_gcd :: "int \<Rightarrow> int \<Rightarrow> int" where
  "static_gcd xp yp =
     (if yp = 0 then (if xp = 0 then 1 else xp)
      else if 0 \<le> xp \<and> 0 < yp then static_gcd yp (xp mod yp) else 0)"

declare static_gcd.simps [simp del]

definition INTMAX :: int where "INTMAX = 2 ^ 63 - 1"

definition no_overflow :: "ratio \<Rightarrow> ratio \<Rightarrow> bool \<times> ratio" where
  "no_overflow r1 r2 =
     (let gcd_n1_n2 = static_gcd (rnum r1) (rnum r2);
          gcd_d1_d2 = static_gcd (rden r1) (rden r2);
          n1 = rnum r1 sdiv gcd_n1_n2;
          d1 = rden r1 sdiv gcd_d1_d2;
          n2 = rnum r2 sdiv gcd_n1_n2;
          d2 = rden r2 sdiv gcd_d1_d2;
          v = (n1 \<le> INTMAX sdiv d2 \<and> n2 \<le> INTMAX sdiv d1)
      in (v, \<lparr>rnum = (if v then n1 * d2 else 1), rden = (if v then n2 * d1 else 1)\<rparr>))"

text \<open>The digits of the fraction \<^verbatim>\<open>n/d\<close>, at most 19, over \<^verbatim>\<open>uint64_t\<close>.\<close>

function width_from :: "nat \<Rightarrow> nat \<Rightarrow> nat \<Rightarrow> nat" where
  "width_from n d w =
     (if n mod d \<noteq> 0 \<and> w < 19 then 1 + width_from (n mod d * 10 mod 2 ^ 64) d (w + 1) else 0)"
  by pat_completeness auto
termination by (relation "measure (\<lambda>(n, d, w). 19 - w)") auto

declare width_from.simps [simp del]

fun static_pow10 :: "nat \<Rightarrow> nat" where
  "static_pow10 e =
     (if e = 0 then 1
      else (let h = static_pow10 (e div 2) in h * h * (if e mod 2 \<noteq> 0 then 10 else 1) mod 2 ^ 64))"

declare static_pow10.simps [simp del]

lemma static_gcd_gcd:
  assumes "0 \<le> x" and "0 \<le> y"
  shows "static_gcd x y = (if x = 0 \<and> y = 0 then 1 else gcd x y)"
  using assms
proof (induction x y rule: static_gcd.induct)
  case (1 x y)
  show ?case
  proof (cases "y = 0")
    case False
    then have "static_gcd x y = static_gcd y (x mod y)"
      using 1(2,3) by (subst static_gcd.simps) simp
    also have "\<dots> = gcd y (x mod y)" using 1(1) [OF False] 1(2,3) False by simp
    finally show ?thesis using False by (simp add: gcd_red_int [of x y])
  qed (use 1 in \<open>simp add: static_gcd.simps\<close>)
qed

text \<open>Where \<^verbatim>\<open>no_overflow\<close> holds, its quotient of the two periods is exact and both of its
  parts fit \<^verbatim>\<open>intmax_t\<close>.\<close>

lemma no_overflow_exact:
  assumes "ratio_ok r1" and "ratio_ok r2" and "fst (no_overflow r1 r2)"
  defines "q \<equiv> snd (no_overflow r1 r2)"
  shows "rnum q * (rden r1 * rnum r2) = rden q * (rnum r1 * rden r2)"
    and "0 < rnum q" and "0 < rden q" and "rnum q \<le> INTMAX" and "rden q \<le> INTMAX"
proof -
  define g h where "g = gcd (rnum r1) (rnum r2)" and "h = gcd (rden r1) (rden r2)"
  have pos: "0 < rnum r1" "0 < rnum r2" "0 < rden r1" "0 < rden r2" using assms(1,2) by (simp_all add: ratio_ok_def)
  have gh: "0 < g" "0 < h" using pos by (simp_all add: g_def h_def)
  have sg: "static_gcd (rnum r1) (rnum r2) = g" "static_gcd (rden r1) (rden r2) = h"
    using pos by (simp_all add: static_gcd_gcd g_def h_def)
  define n1 n2 d1 d2 where "n1 = rnum r1 div g" and "n2 = rnum r2 div g" and "d1 = rden r1 div h" and "d2 = rden r2 div h"
  have e: "rnum r1 = n1 * g" "rnum r2 = n2 * g" "rden r1 = d1 * h" "rden r2 = d2 * h"
    by (simp_all add: n1_def n2_def d1_def d2_def g_def h_def)
  then have p: "0 < n1" "0 < n2" "0 < d1" "0 < d2" using pos gh by (auto simp: zero_less_mult_iff)
  have i: "0 \<le> INTMAX" by (simp add: INTMAX_def)
  have no: "no_overflow r1 r2 = (let v = (n1 \<le> INTMAX div d2 \<and> n2 \<le> INTMAX div d1)
      in (v, \<lparr>rnum = (if v then n1 * d2 else 1), rden = (if v then n2 * d1 else 1)\<rparr>))"
    unfolding no_overflow_def Let_def sg
    using pos gh p i by (simp add: sdiv_pos flip: n1_def n2_def d1_def d2_def)
  then have v: "n1 \<le> INTMAX div d2" "n2 \<le> INTMAX div d1" and q: "rnum q = n1 * d2" "rden q = n2 * d1"
    using assms(3) by (simp_all add: q_def Let_def)
  show "rnum q * (rden r1 * rnum r2) = rden q * (rnum r1 * rden r2)" by (simp add: q e)
  show "0 < rnum q" "0 < rden q" using p by (simp_all add: q)
  have "k \<le> INTMAX div d \<Longrightarrow> 0 < d \<Longrightarrow> k * d \<le> INTMAX" for k d :: int
    using div_mult_mod_eq [of INTMAX d] pos_mod_sign [of d INTMAX] mult_right_mono [of k "INTMAX div d" d] by linarith
  then show "rnum q \<le> INTMAX" "rden q \<le> INTMAX" using v p by (simp_all add: q)
qed

lemma static_pow10_power: "e \<le> 19 \<Longrightarrow> static_pow10 e = 10 ^ e"
proof (induction e rule: static_pow10.induct)
  case (1 e)
  show ?case
  proof (cases "e = 0")
    case False
    have "static_pow10 e = 10 ^ (e div 2) * 10 ^ (e div 2) * (if e mod 2 \<noteq> 0 then 10 else 1) mod 2 ^ 64"
      using 1 False by (subst static_pow10.simps) (simp add: Let_def)
    also have "10 ^ (e div 2) * 10 ^ (e div 2) * (if e mod 2 \<noteq> 0 then 10 else 1) = (10 ^ e :: nat)"
    proof (cases "even e")
      case True
      then show ?thesis by (simp flip: power_add mult_2)
    next
      case odd: False
      then have "10 ^ e = (10 :: nat) ^ (e div 2 + e div 2 + 1)" by (simp flip: mult_2)
      with odd show ?thesis by (simp only: power_add power_one_right odd_iff_mod_2_eq_one) simp
    qed
    also have "(10 :: nat) ^ e mod 2 ^ 64 = 10 ^ e"
      using 1(2) power_increasing [of e 19 "10 :: nat"] by simp
    finally show ?thesis .
  qed (simp add: static_pow10.simps)
qed

text \<open>Below 19 digits, \<^verbatim>\<open>width\<close> is the least number of decimal digits in which the fraction
  is exact.\<close>

lemma width_from_exact:
  assumes "0 < d" and "d * 10 \<le> 2 ^ 64" and "w + width_from n d w < 19"
  shows "d dvd n * 10 ^ width_from n d w" and "j < width_from n d w \<Longrightarrow> \<not> d dvd n * 10 ^ j"
proof -
  have step: "width_from n d w = Suc (width_from (n mod d * 10) d (w + 1))" if "n mod d \<noteq> 0" "w < 19" for n w
  proof -
    have "n mod d * 10 < d * 10" using assms(1) by simp
    then have "n mod d * 10 mod 2 ^ 64 = n mod d * 10" using assms(2) by (intro mod_less) linarith
    then show ?thesis using that by (subst width_from.simps) simp
  qed
  have dv: "d dvd n mod d * 10 * k \<longleftrightarrow> d dvd n * (10 * k)" for n k
    by (metis dvd_eq_mod_eq_0 mod_mult_left_eq mult.assoc)
  have "w + width_from n d w < 19 \<Longrightarrow>
      d dvd n * 10 ^ width_from n d w \<and> (\<forall>j < width_from n d w. \<not> d dvd n * 10 ^ j)" for n w
  proof (induction "19 - w" arbitrary: n w)
    case (Suc x)
    show ?case
    proof (cases "n mod d = 0")
      case True
      then show ?thesis by (subst (1 2) width_from.simps) auto
    next
      case False
      note s = step [OF False, of w]
      have lt: "w < 19" using Suc(2) by simp
      have ih: "d dvd n mod d * 10 * 10 ^ width_from (n mod d * 10) d (w + 1)"
        "\<forall>j < width_from (n mod d * 10) d (w + 1). \<not> d dvd n mod d * 10 * 10 ^ j"
        using Suc(1) [of "w + 1" "n mod d * 10"] Suc(2,3) s [OF lt] by simp_all
      have "\<not> d dvd n * 10 ^ j" if "j < Suc (width_from (n mod d * 10) d (w + 1))" for j
      proof (cases j)
        case 0
        with False show ?thesis by (simp add: dvd_eq_mod_eq_0)
      next
        case (Suc i)
        then show ?thesis using that ih(2) unfolding dv by simp
      qed
      with ih(1) show ?thesis unfolding s [OF lt] power_Suc using dv by blast
    qed
  qed simp
  from this [OF assms(3)] show "d dvd n * 10 ^ width_from n d w"
    "j < width_from n d w \<Longrightarrow> \<not> d dvd n * 10 ^ j" by blast+
qed

end
