(* ===== verification/Date_Composite.thy ===== *)
theory Date_Composite
  imports Date_Fields
begin

text \<open>
  The partial dates of \<^verbatim>\<open>debug_print/date.h\<close> below a full date: \<^verbatim>\<open>weekday_indexed\<close>,
  \<^verbatim>\<open>weekday_last\<close>, \<^verbatim>\<open>year_month\<close>, \<^verbatim>\<open>month_day\<close>, \<^verbatim>\<open>month_day_last\<close>, \<^verbatim>\<open>month_weekday\<close> and
  \<^verbatim>\<open>month_weekday_last\<close>, their validity tests, order and month arithmetic, and the operators
  \<^verbatim>\<open>/\<close> that build them.
\<close>

section \<open>\<^verbatim>\<open>weekday_indexed\<close> and \<^verbatim>\<open>weekday_last\<close>\<close>

text \<open>Both members are bit fields of four bits.\<close>

record weekday_indexed =
  wi_wd :: "4 word"
  wi_idx :: "4 word"

definition weekday_indexed_new :: "weekday \<Rightarrow> u32 \<Rightarrow> weekday_indexed" where
  "weekday_indexed_new wd index = \<lparr>wi_wd = ucast (weekday_wd wd), wi_idx = ucast index\<rparr>"

definition wi_weekday :: "weekday_indexed \<Rightarrow> weekday" where
  "wi_weekday x = weekday_new (ucast (wi_wd x))"

definition wi_index :: "weekday_indexed \<Rightarrow> u32" where
  "wi_index x = ucast (wi_idx x)"

definition wi_ok :: "weekday_indexed \<Rightarrow> bool" where
  "wi_ok x \<longleftrightarrow> weekday_ok (wi_weekday x) \<and> 1 \<le> wi_idx x \<and> wi_idx x \<le> 5"

definition wi_eq :: "weekday_indexed \<Rightarrow> weekday_indexed \<Rightarrow> bool" where
  "wi_eq x y \<longleftrightarrow> wi_weekday x = wi_weekday y \<and> wi_index x = wi_index y"

record weekday_last =
  wl_wd :: weekday

definition weekday_last_new :: "weekday \<Rightarrow> weekday_last" where
  "weekday_last_new wd = \<lparr>wl_wd = wd\<rparr>"

definition wl_weekday :: "weekday_last \<Rightarrow> weekday" where
  "wl_weekday x = wl_wd x"

definition wl_ok :: "weekday_last \<Rightarrow> bool" where
  "wl_ok x \<longleftrightarrow> weekday_ok (wl_wd x)"

text \<open>A valid weekday and an index below 16 survive the packing into four bits.\<close>

lemma nibble_bound: "uint (x :: 4 word) < 16"
  using uint_lt2p [of x] by simp

lemma uint_nibble_u32 [simp]: "uint (ucast (x :: 4 word) :: u32) = uint x"
  using nibble_bound [of x] by (simp add: unsigned_ucast_eq take_bit_int_eq_self_iff)

lemma uint_to_nibble: "uint (x :: 'a :: len word) < 16 \<Longrightarrow> uint (ucast x :: 4 word) = uint x"
  by (simp add: unsigned_ucast_eq take_bit_int_eq_self)

lemma uint_u32_byte: "uint (x :: u32) < 256 \<Longrightarrow> uint (ucast x :: byte) = uint x"
  by (simp add: unsigned_ucast_eq take_bit_int_eq_self)

lemma wi_round_trip:
  assumes "weekday_ok wd" and "uint n < 16"
  shows "wi_weekday (weekday_indexed_new wd n) = wd" and "wi_index (weekday_indexed_new wd n) = n"
proof -
  define a b where "a = (ucast (weekday_wd wd) :: 4 word)" and "b = (ucast a :: u32)"
  have w: "uint (weekday_wd wd) \<le> 6" using assms(1) by (simp add: weekday_ok_uint)
  have "uint a = uint (weekday_wd wd)" using w by (simp add: a_def uint_to_nibble)
  then have u: "uint b = uint (weekday_wd wd)" by (simp only: b_def uint_nibble_u32)
  then have "b \<noteq> 7" using w by (auto simp: word_uint_eq_iff)
  moreover have "uint (ucast b :: byte) = uint (weekday_wd wd)"
    using w u by (simp add: uint_u32_byte)
  ultimately show "wi_weekday (weekday_indexed_new wd n) = wd"
    by (intro weekday.expand)
      (simp add: wi_weekday_def weekday_indexed_new_def weekday_new_def a_def [symmetric] b_def [symmetric]
        word_uint_eq_iff)
  have "uint (ucast (ucast n :: 4 word) :: u32) = uint n"
    using assms(2) by (simp only: uint_nibble_u32 uint_to_nibble)
  then show "wi_index (weekday_indexed_new wd n) = n"
    by (simp only: wi_index_def weekday_indexed_new_def word_uint_eq_iff weekday_indexed.simps)
qed

section \<open>\<^verbatim>\<open>year_month\<close>\<close>

record year_month =
  ym_year :: year
  ym_month :: month

definition year_month_new :: "year \<Rightarrow> month \<Rightarrow> year_month" where
  "year_month_new y m = \<lparr>ym_year = y, ym_month = m\<rparr>"

definition ym_ok :: "year_month \<Rightarrow> bool" where
  "ym_ok x \<longleftrightarrow> year_ok (ym_year x) \<and> month_ok (ym_month x)"

definition ym_less :: "year_month \<Rightarrow> year_month \<Rightarrow> bool" where
  "ym_less x y \<longleftrightarrow>
     (if ym_year x < ym_year y then True
      else if ym_year y < ym_year x then False else ym_month x < ym_month y)"

definition ym_less_eq :: "year_month \<Rightarrow> year_month \<Rightarrow> bool" where
  "ym_less_eq x y \<longleftrightarrow> \<not> ym_less y x"

definition ym_plus_months :: "year_month \<Rightarrow> months \<Rightarrow> year_month" where
  "ym_plus_months ym dm =
     (let dmi = uint (month_unsigned (ym_month ym)) - 1 + dm;
          dy = (if 0 \<le> dmi then dmi else dmi - 11) sdiv 12;
          dmi' = dmi - dy * 12 + 1
      in year_month_new (year_plus (ym_year ym) dy) (month_new (of_int dmi')))"

definition ym_minus_months :: "year_month \<Rightarrow> months \<Rightarrow> year_month" where
  "ym_minus_months ym dm = ym_plus_months ym (- dm)"

definition ym_diff :: "year_month \<Rightarrow> year_month \<Rightarrow> months" where
  "ym_diff x y =
     year_diff (ym_year x) (ym_year y) * 12 +
     sint (month_unsigned (ym_month x) - month_unsigned (ym_month y))"

definition ym_plus_years :: "year_month \<Rightarrow> years \<Rightarrow> year_month" where
  "ym_plus_years ym dy = year_month_new (year_plus (ym_year ym) dy) (ym_month ym)"

definition ym_minus_years :: "year_month \<Rightarrow> years \<Rightarrow> year_month" where
  "ym_minus_years ym dy = ym_plus_years ym (- dy)"

text \<open>The position of a month on the time line, the abstraction of \<^verbatim>\<open>year_month\<close>.\<close>

definition ym_index :: "year_month \<Rightarrow> int" where
  "ym_index x = year_int (ym_year x) * 12 + uint (month_m (ym_month x)) - 1"

lemma ym_index_div_mod:
  assumes "month_ok (ym_month x)"
  shows "ym_index x div 12 = year_int (ym_year x)" and "ym_index x mod 12 = uint (month_m (ym_month x)) - 1"
proof -
  have "ym_index x = uint (month_m (ym_month x)) - 1 + year_int (ym_year x) * 12"
    by (simp add: ym_index_def)
  moreover have "0 \<le> uint (month_m (ym_month x)) - 1" "uint (month_m (ym_month x)) - 1 < 12"
    using assms by (simp_all add: month_ok_uint)
  ultimately show "ym_index x div 12 = year_int (ym_year x)" "ym_index x mod 12 = uint (month_m (ym_month x)) - 1"
    by simp_all
qed

lemma ym_plus_months_floor:
  "ym_plus_months ym dm =
     (let i = uint (month_m (ym_month ym)) - 1 + dm in
      year_month_new (year_plus (ym_year ym) (i div 12)) (month_new (of_int (i mod 12 + 1))))"
  by (simp only: ym_plus_months_def Let_def uint_month_unsigned sdiv_floor_12 minus_div_mult_eq_mod)

text \<open>Adding months moves the position, as long as the year stays in range, and gives a valid
  month.\<close>

lemma ym_plus_months_index:
  assumes r: "- 32768 * 12 \<le> ym_index ym + dm" "ym_index ym + dm < 32768 * 12"
  shows "ym_index (ym_plus_months ym dm) = ym_index ym + dm \<and> month_ok (ym_month (ym_plus_months ym dm))"
proof -
  define i where "i = uint (month_m (ym_month ym)) - 1 + dm"
  define y where "y = year_int (ym_year ym)"
  have q: "ym_index ym + dm = y * 12 + i" by (simp add: i_def y_def ym_index_def)
  have "(y * 12 + i) div 12 = y + i div 12" by simp
  then have "- 32768 \<le> y + i div 12" "y + i div 12 \<le> 32767"
    using r div_mult_mod_eq [of "y * 12 + i" 12] pos_mod_bound [of 12 "y * 12 + i"] pos_mod_sign [of 12 "y * 12 + i"]
    unfolding q by linarith+
  then have yr: "year_int (year_plus (ym_year ym) (i div 12)) = y + i div 12"
    unfolding y_def by (intro year_plus_int)
  have mo: "uint (month_m (month_new (of_int (i mod 12 + 1)))) = i mod 12 + 1"
    using pos_mod_bound [of 12 i] by (intro month_new_uint) (auto intro: order_trans)
  have "ym_plus_months ym dm =
      year_month_new (year_plus (ym_year ym) (i div 12)) (month_new (of_int (i mod 12 + 1)))"
    by (simp only: ym_plus_months_floor Let_def i_def)
  then show ?thesis
    using yr mo q div_mult_mod_eq [of i 12] pos_mod_bound [of 12 i]
    by (simp add: ym_index_def year_month_new_def month_ok_uint del: of_int_add)
qed

lemma ym_diff_index: "ym_diff x y = ym_index x - ym_index y"
proof -
  have "sint (month_unsigned (ym_month x) - month_unsigned (ym_month y)) =
      uint (month_m (ym_month x)) - uint (month_m (ym_month y))"
    using byte_bound [of "month_m (ym_month x)"] byte_bound [of "month_m (ym_month y)"]
    by (subst sint_u32_diff) auto
  then show ?thesis by (simp add: ym_diff_def ym_index_def year_diff_def)
qed

lemma ym_index_inject:
  assumes "month_ok (ym_month x)" and "month_ok (ym_month y)" and "ym_index x = ym_index y"
  shows "x = y"
  using ym_index_div_mod [OF assms(1)] ym_index_div_mod [OF assms(2)] assms(3)
  by (intro year_month.equality) (auto simp: year_int_inject [symmetric] intro!: month.expand simp: word_uint_eq_iff)

lemma ym_less_index:
  assumes "month_ok (ym_month x)" and "month_ok (ym_month y)"
  shows "ym_less x y \<longleftrightarrow> ym_index x < ym_index y"
  using assms by (auto simp: ym_less_def ym_index_def year_less_int month_less_uint month_ok_uint)

lemma ym_ok_index_range: "ym_ok x \<Longrightarrow> - 32767 * 12 \<le> ym_index x \<and> ym_index x < 32768 * 12"
  using year_int_bound [of "ym_year x"] by (auto simp: ym_ok_def ym_index_def year_ok_def month_ok_uint)

lemma ym_plus_diff:
  assumes "ym_ok x" and "ym_ok y"
  shows "ym_plus_months y (ym_diff x y) = x"
proof -
  have "ym_index (ym_plus_months y (ym_diff x y)) = ym_index x \<and> month_ok (ym_month (ym_plus_months y (ym_diff x y)))"
    using ym_plus_months_index [of y "ym_diff x y"] ym_ok_index_range [OF assms(1)] by (simp add: ym_diff_index)
  then show ?thesis
    using assms(1) by (intro ym_index_inject) (auto simp: ym_ok_def)
qed

section \<open>\<^verbatim>\<open>month_day\<close> and \<^verbatim>\<open>month_day_last\<close>\<close>

record month_day =
  md_month :: month
  md_day :: day

definition month_day_new :: "month \<Rightarrow> day \<Rightarrow> month_day" where
  "month_day_new m d = \<lparr>md_month = m, md_day = d\<rparr>"

definition md_ok :: "month_day \<Rightarrow> bool" where
  "md_ok x \<longleftrightarrow>
     (let d = map day_new [31, 29, 31, 30, 31, 30, 31, 31, 30, 31, 30, 31] in
      month_ok (md_month x) \<and> day_new 1 \<le> md_day x \<and>
      md_day x \<le> d ! (unat (month_unsigned (md_month x)) - 1))"

definition md_less :: "month_day \<Rightarrow> month_day \<Rightarrow> bool" where
  "md_less x y \<longleftrightarrow>
     (if md_month x < md_month y then True
      else if md_month y < md_month x then False else md_day x < md_day y)"

definition md_less_eq :: "month_day \<Rightarrow> month_day \<Rightarrow> bool" where
  "md_less_eq x y \<longleftrightarrow> \<not> md_less y x"

record month_day_last =
  mdl_month :: month

definition month_day_last_new :: "month \<Rightarrow> month_day_last" where
  "month_day_last_new m = \<lparr>mdl_month = m\<rparr>"

definition mdl_ok :: "month_day_last \<Rightarrow> bool" where
  "mdl_ok x \<longleftrightarrow> month_ok (mdl_month x)"

definition mdl_less :: "month_day_last \<Rightarrow> month_day_last \<Rightarrow> bool" where
  "mdl_less x y \<longleftrightarrow> mdl_month x < mdl_month y"

section \<open>\<^verbatim>\<open>month_weekday\<close> and \<^verbatim>\<open>month_weekday_last\<close>\<close>

record month_weekday =
  mw_month :: month
  mw_wdi :: weekday_indexed

definition month_weekday_new :: "month \<Rightarrow> weekday_indexed \<Rightarrow> month_weekday" where
  "month_weekday_new m wdi = \<lparr>mw_month = m, mw_wdi = wdi\<rparr>"

definition mw_ok :: "month_weekday \<Rightarrow> bool" where
  "mw_ok x \<longleftrightarrow> month_ok (mw_month x) \<and> wi_ok (mw_wdi x)"

record month_weekday_last =
  mwl_month :: month
  mwl_wdl :: weekday_last

definition month_weekday_last_new :: "month \<Rightarrow> weekday_last \<Rightarrow> month_weekday_last" where
  "month_weekday_last_new m wdl = \<lparr>mwl_month = m, mwl_wdl = wdl\<rparr>"

definition mwl_ok :: "month_weekday_last \<Rightarrow> bool" where
  "mwl_ok x \<longleftrightarrow> month_ok (mwl_month x) \<and> wl_ok (mwl_wdl x)"

end
