(* ===== verification/Date_Civil.thy ===== *)
theory Date_Civil
  imports Date_Composite
begin

text \<open>
  Full dates of \<^verbatim>\<open>debug_print/date.h\<close>: \<^verbatim>\<open>year_month_day_last\<close> and \<^verbatim>\<open>year_month_day\<close>, with the
  conversions between a date of the proleptic Gregorian calendar and the number of days since
  1970-01-01 (\<^verbatim>\<open>to_days\<close>, \<^verbatim>\<open>from_days\<close>).  The conversions compute in \<^verbatim>\<open>unsigned\<close>, a
  32-bit word.
\<close>

section \<open>\<^verbatim>\<open>year_month_day_last\<close>\<close>

record year_month_day_last =
  ymdl_year :: year
  ymdl_mdl :: month_day_last

definition year_month_day_last_new :: "year \<Rightarrow> month_day_last \<Rightarrow> year_month_day_last" where
  "year_month_day_last_new y mdl = \<lparr>ymdl_year = y, ymdl_mdl = mdl\<rparr>"

definition ymdl_month :: "year_month_day_last \<Rightarrow> month" where
  "ymdl_month x = mdl_month (ymdl_mdl x)"

definition ymdl_day :: "year_month_day_last \<Rightarrow> day" where
  "ymdl_day x =
     (let d = map day_new [31, 28, 31, 30, 31, 30, 31, 31, 30, 31, 30, 31] in
      if (ymdl_month x \<noteq> February \<or> \<not> is_leap (ymdl_year x)) \<and> mdl_ok (ymdl_mdl x)
      then d ! (unat (month_unsigned (ymdl_month x)) - 1)
      else day_new 29)"

definition ymdl_ok :: "year_month_day_last \<Rightarrow> bool" where
  "ymdl_ok x \<longleftrightarrow> year_ok (ymdl_year x) \<and> mdl_ok (ymdl_mdl x)"

definition ymdl_less :: "year_month_day_last \<Rightarrow> year_month_day_last \<Rightarrow> bool" where
  "ymdl_less x y \<longleftrightarrow>
     (if ymdl_year x < ymdl_year y then True
      else if ymdl_year y < ymdl_year x then False else mdl_less (ymdl_mdl x) (ymdl_mdl y))"

text \<open>\<^verbatim>\<open>year_month / last\<close>.\<close>

definition ym_last :: "year_month \<Rightarrow> year_month_day_last" where
  "ym_last ym = year_month_day_last_new (ym_year ym) (month_day_last_new (ym_month ym))"

definition ymdl_plus_months :: "year_month_day_last \<Rightarrow> months \<Rightarrow> year_month_day_last" where
  "ymdl_plus_months x dm = ym_last (ym_plus_months (year_month_new (ymdl_year x) (ymdl_month x)) dm)"

definition ymdl_minus_months :: "year_month_day_last \<Rightarrow> months \<Rightarrow> year_month_day_last" where
  "ymdl_minus_months x dm = ymdl_plus_months x (- dm)"

definition ymdl_plus_years :: "year_month_day_last \<Rightarrow> years \<Rightarrow> year_month_day_last" where
  "ymdl_plus_years x dy = year_month_day_last_new (year_plus (ymdl_year x) dy) (ymdl_mdl x)"

definition ymdl_minus_years :: "year_month_day_last \<Rightarrow> years \<Rightarrow> year_month_day_last" where
  "ymdl_minus_years x dy = ymdl_plus_years x (- dy)"

section \<open>\<^verbatim>\<open>year_month_day\<close>\<close>

record year_month_day =
  ymd_year :: year
  ymd_month :: month
  ymd_day :: day

definition year_month_day_new :: "year \<Rightarrow> month \<Rightarrow> day \<Rightarrow> year_month_day" where
  "year_month_day_new y m d = \<lparr>ymd_year = y, ymd_month = m, ymd_day = d\<rparr>"

definition ymd_of_last :: "year_month_day_last \<Rightarrow> year_month_day" where
  "ymd_of_last x = year_month_day_new (ymdl_year x) (ymdl_month x) (ymdl_day x)"

definition to_days :: "year_month_day \<Rightarrow> days" where
  "to_days x =
     (let y = year_int (ymd_year x) - (if ymd_month x \<le> February then 1 else 0);
          m = month_unsigned (ymd_month x);
          d = day_unsigned (ymd_day x);
          era = (if 0 \<le> y then y else y - 399) sdiv 400;
          yoe = (of_int (y - era * 400) :: u32);
          doy = (153 * (if 2 < m then m - 3 else m + 9) + 2) div 5 + d - 1;
          doe = yoe * 365 + yoe div 4 - yoe div 100 + doy
      in era * 146097 + sint doe - 719468)"

definition from_days :: "days \<Rightarrow> year_month_day" where
  "from_days dp =
     (let z = dp + 719468;
          era = (if 0 \<le> z then z else z - 146096) sdiv 146097;
          doe = (of_int (z - era * 146097) :: u32);
          yoe = (doe - doe div 1460 + doe div 36524 - doe div 146096) div 365;
          y = sint yoe + era * 400;
          doy = doe - (365 * yoe + yoe div 4 - yoe div 100);
          mp = (5 * doy + 2) div 153;
          d = doy - (153 * mp + 2) div 5 + 1;
          m = (if mp < 10 then mp + 3 else mp - 9)
      in year_month_day_new (year_new (y + (if m \<le> 2 then 1 else 0))) (month_new m) (day_new d))"

definition ymd_ok :: "year_month_day \<Rightarrow> bool" where
  "ymd_ok x \<longleftrightarrow>
     (if \<not> (year_ok (ymd_year x) \<and> month_ok (ymd_month x)) then False
      else day_new 1 \<le> ymd_day x \<and>
        ymd_day x \<le> ymdl_day (ym_last (year_month_new (ymd_year x) (ymd_month x))))"

definition ymd_less :: "year_month_day \<Rightarrow> year_month_day \<Rightarrow> bool" where
  "ymd_less x y \<longleftrightarrow>
     (if ymd_year x < ymd_year y then True
      else if ymd_year y < ymd_year x then False
      else if ymd_month x < ymd_month y then True
      else if ymd_month y < ymd_month x then False
      else ymd_day x < ymd_day y)"

definition ymd_less_eq :: "year_month_day \<Rightarrow> year_month_day \<Rightarrow> bool" where
  "ymd_less_eq x y \<longleftrightarrow> \<not> ymd_less y x"

definition ymd_plus_months :: "year_month_day \<Rightarrow> months \<Rightarrow> year_month_day" where
  "ymd_plus_months x dm =
     (let ym = ym_plus_months (year_month_new (ymd_year x) (ymd_month x)) dm
      in year_month_day_new (ym_year ym) (ym_month ym) (ymd_day x))"

definition ymd_minus_months :: "year_month_day \<Rightarrow> months \<Rightarrow> year_month_day" where
  "ymd_minus_months x dm = ymd_plus_months x (- dm)"

definition ymd_plus_years :: "year_month_day \<Rightarrow> years \<Rightarrow> year_month_day" where
  "ymd_plus_years x dy = year_month_day_new (year_plus (ymd_year x) dy) (ymd_month x) (ymd_day x)"

definition ymd_minus_years :: "year_month_day \<Rightarrow> years \<Rightarrow> year_month_day" where
  "ymd_minus_years x dy = ymd_plus_years x (- dy)"

section \<open>The conversions over the integers\<close>

text \<open>A year of the calendar's 400-year era that starts in March: \<open>yoe\<close> its number in the
  era, \<open>doy\<close> the day in it, \<open>doe\<close> the day in the era.\<close>

definition era_leap :: "int \<Rightarrow> bool" where
  "era_leap yoe \<longleftrightarrow> (yoe + 1) mod 4 = 0 \<and> ((yoe + 1) mod 100 \<noteq> 0 \<or> (yoe + 1) mod 400 = 0)"

definition era_day_ok :: "int \<Rightarrow> int \<Rightarrow> bool" where
  "era_day_ok yoe doy \<longleftrightarrow> 0 \<le> yoe \<and> yoe < 400 \<and> 0 \<le> doy \<and> (doy \<le> 364 \<or> doy = 365 \<and> era_leap yoe)"

definition era_doe :: "int \<Rightarrow> int \<Rightarrow> int" where
  "era_doe yoe doy = yoe * 365 + yoe div 4 - yoe div 100 + doy"

definition era_yoe :: "int \<Rightarrow> int" where
  "era_yoe doe = (doe - doe div 1460 + doe div 36524 - doe div 146096) div 365"

text \<open>Centuries, four-year groups and years of the era.\<close>

lemma era_leap_parts:
  assumes "yoe = 100 * c + 4 * q + s" "0 \<le> c" "c \<le> 3" "0 \<le> q" "q \<le> 24" "0 \<le> s" "s \<le> 3"
  shows "era_leap yoe \<longleftrightarrow> s = 3 \<and> (q \<noteq> 24 \<or> c = 3)"
proof -
  have e: "yoe + 1 = (s + 1) + (25 * c + q) * 4" "yoe + 1 = (4 * q + s + 1) + c * 100"
    using assms(1) by simp_all
  have "(yoe + 1) mod 4 = (s + 1) mod 4" by (simp only: e(1) mod_mult_self1)
  moreover have "(yoe + 1) mod 100 = (4 * q + s + 1) mod 100" by (simp only: e(2) mod_mult_self1)
  moreover have "(s + 1) mod 4 = 0 \<longleftrightarrow> s = 3" using assms(6,7) by presburger
  moreover have "(4 * q + s + 1) mod 100 = 0 \<longleftrightarrow> 4 * q + s + 1 = 100"
    using assms(4-7) by (cases "4 * q + s + 1 = 100") auto
  moreover have "0 < yoe + 1" "yoe + 1 \<le> 400" using assms by simp_all
  then have "(yoe + 1) mod 400 = 0 \<longleftrightarrow> yoe + 1 = 400"
    by (cases "yoe + 1 = 400") simp_all
  ultimately show ?thesis using assms unfolding era_leap_def by auto
qed

lemma era_parts:
  assumes "0 \<le> yoe" "yoe < 400"
  obtains c q s where "yoe = 100 * c + 4 * q + s" "0 \<le> c" "c \<le> 3" "0 \<le> q" "q \<le> 24" "0 \<le> s" "s \<le> (3 :: int)"
proof -
  define c r where "c = yoe div 100" and "r = yoe mod 100"
  define q s where "q = r div 4" and "s = r mod 4"
  have "yoe = 100 * c + r" "0 \<le> r" "r < 100" "0 \<le> c" "c \<le> 3"
    using assms by (simp_all add: c_def r_def)
  moreover have "r = 4 * q + s" "0 \<le> s" "s < 4" by (simp_all add: q_def s_def)
  ultimately show thesis by (intro that [of c q s]) auto
qed

lemma era_doe_parts:
  assumes "yoe = 100 * c + 4 * q + s" "0 \<le> c" "c \<le> 3" "0 \<le> q" "q \<le> 24" "0 \<le> s" "s \<le> (3 :: int)"
  shows "era_doe yoe doy = 36524 * c + 1461 * q + 365 * s + doy"
proof -
  have "yoe div 4 = 25 * c + q" "yoe div 100 = c" using assms by simp_all
  then show ?thesis using assms(1) by (simp add: era_doe_def)
qed

text \<open>The year of the era is recovered from the day of the era.\<close>

lemma era_yoe_doe:
  assumes "era_day_ok yoe doy"
  shows "era_yoe (era_doe yoe doy) = yoe" and "0 \<le> era_doe yoe doy" and "era_doe yoe doy \<le> 146096"
proof -
  have y: "0 \<le> yoe" "yoe < 400" "0 \<le> doy" "doy \<le> 365"
    using assms by (auto simp: era_day_ok_def)
  obtain c q s where p: "yoe = 100 * c + 4 * q + s" "0 \<le> c" "c \<le> 3" "0 \<le> q" "q \<le> 24" "0 \<le> s" "s \<le> 3"
    using era_parts [OF y(1,2)] by metis
  have leap: "doy \<le> 364 \<or> s = 3 \<and> (q \<noteq> 24 \<or> c = 3)"
    using assms era_leap_parts [OF p] by (auto simp: era_day_ok_def)
  define doe where "doe = era_doe yoe doy"
  have doe: "doe = 36524 * c + 1461 * q + 365 * s + doy"
    unfolding doe_def by (rule era_doe_parts [OF p])
  have lo: "0 \<le> doe" and hi: "doe \<le> 146096"
    using doe p(2-) y(3,4) leap by auto
  then show "0 \<le> era_doe yoe doy" "era_doe yoe doy \<le> 146096"
    by (simp_all add: doe_def)
  have cent: "doe div 36524 - doe div 146096 = c"
  proof (cases "doe = 146096")
    case True
    then show ?thesis using doe p y leap by auto
  next
    case False
    then have "doe < 36524 * c + 36524" using doe p y leap by auto
    then have "doe div 36524 = c" using doe p y by (intro int_div_pos_eq [of _ _ _ "doe - 36524 * c"]) auto
    moreover have "doe div 146096 = 0" using False lo hi by simp
    ultimately show ?thesis by simp
  qed
  define t where "t = (24 * c + q + 365 * s + doy) div 1460"
  have "doe = (24 * c + q + 365 * s + doy) + 1460 * (25 * c + q)" using doe by simp
  then have four: "doe div 1460 = 25 * c + q + t" by (simp add: t_def)
  have t: "t = (if 1460 \<le> 24 * c + q + 365 * s + doy then 1 else 0)"
    using p y by (auto simp: t_def intro!: int_div_pos_eq [of _ _ _ "24 * c + q + 365 * s + doy - 1460"])
  have "doe - doe div 1460 + doe div 36524 - doe div 146096 = 365 * yoe + (doy - t)"
    using cent four doe p(1) by simp
  moreover have "0 \<le> doy - t" "doy - t < 365" using t p y leap by auto
  ultimately show "era_yoe (era_doe yoe doy) = yoe"
    unfolding era_yoe_def doe_def [symmetric] by simp
qed

text \<open>Every day of the era has a year and a day in it.\<close>

lemma era_doe_cover:
  assumes "0 \<le> doe" "doe \<le> 146096"
  obtains yoe doy where "era_day_ok yoe doy" "era_doe yoe doy = doe"
proof -
  define c where "c = min 3 (doe div 36524)"
  define r where "r = doe - 36524 * c"
  define q where "q = min 24 (r div 1461)"
  define r2 where "r2 = r - 1461 * q"
  define s where "s = min 3 (r2 div 365)"
  define doy where "doy = r2 - 365 * s"
  have c: "0 \<le> c" "c \<le> 3" "0 \<le> r" "r \<le> 36524" "c \<noteq> 3 \<longrightarrow> r < 36524"
    using assms unfolding c_def r_def by (auto simp: min_def)
  have q: "0 \<le> q" "q \<le> 24" "0 \<le> r2" "r2 \<le> 1460" "q = 24 \<longrightarrow> c \<noteq> 3 \<longrightarrow> r2 < 1460"
    using c unfolding q_def r2_def by (auto simp: min_def)
  have s: "0 \<le> s" "s \<le> 3" "0 \<le> doy" "doy \<le> 365" "s \<noteq> 3 \<longrightarrow> doy < 365"
    "q = 24 \<longrightarrow> c \<noteq> 3 \<longrightarrow> doy < 365"
    using q unfolding s_def doy_def by (auto simp: min_def)
  let ?yoe = "100 * c + 4 * q + s"
  have "era_doe ?yoe doy = doe"
    using era_doe_parts [OF refl c(1,2) q(1,2) s(1,2)] by (simp add: doy_def r2_def r_def)
  moreover have "era_day_ok ?yoe doy"
    unfolding era_day_ok_def era_leap_parts [OF refl c(1,2) q(1,2) s(1,2)]
    using c(1,2) q(1,2) s by (cases "doy = 365") auto
  ultimately show thesis using that by blast
qed

text \<open>Months of the year that starts in March: \<open>mp\<close> is 0 for March and 11 for February.\<close>

definition month_start :: "int \<Rightarrow> int" where
  "month_start mp = (153 * mp + 2) div 5"

definition march_month_ok :: "int \<Rightarrow> int \<Rightarrow> bool" where
  "march_month_ok mp d \<longleftrightarrow> 0 \<le> mp \<and> mp \<le> 11 \<and> 1 \<le> d \<and>
     d \<le> [31, 30, 31, 30, 31, 31, 30, 31, 30, 31, 31, 29] ! nat mp"

lemma march_month_cases:
  "0 \<le> mp \<Longrightarrow> mp \<le> 11 \<Longrightarrow> mp = 0 \<or> mp = 1 \<or> mp = 2 \<or> mp = 3 \<or> mp = 4 \<or> mp = 5 \<or> mp = 6 \<or>
     mp = 7 \<or> mp = 8 \<or> mp = 9 \<or> mp = 10 \<or> mp = (11 :: int)"
  by presburger

lemma march_month_doy:
  assumes "march_month_ok mp d"
  defines "doy \<equiv> month_start mp + d - 1"
  shows "(5 * doy + 2) div 153 = mp" and "0 \<le> doy" and "doy \<le> 365"
    and "doy = 365 \<longleftrightarrow> mp = 11 \<and> d = 29"
proof -
  have c: "0 \<le> mp" "mp \<le> 11" using assms(1) by (auto simp: march_month_ok_def)
  have "(5 * doy + 2) div 153 = mp \<and> 0 \<le> doy \<and> doy \<le> 365 \<and> (doy = 365 \<longleftrightarrow> mp = 11 \<and> d = 29)"
    using march_month_cases [OF c] assms(1)
    by (elim disjE) (auto simp: march_month_ok_def month_start_def doy_def)
  then show "(5 * doy + 2) div 153 = mp" "0 \<le> doy" "doy \<le> 365" "doy = 365 \<longleftrightarrow> mp = 11 \<and> d = 29"
    by blast+
qed

lemma march_month_cover:
  assumes "0 \<le> doy" "doy \<le> 365"
  defines "mp \<equiv> (5 * doy + 2) div 153"
  shows "march_month_ok mp (doy - month_start mp + 1)"
proof -
  have r: "153 * mp \<le> 5 * doy + 2" "5 * doy + 2 < 153 * mp + 153"
    using div_mult_mod_eq [of "5 * doy + 2" 153] pos_mod_bound [of 153 "5 * doy + 2"] pos_mod_sign [of 153 "5 * doy + 2"]
    unfolding mp_def by linarith+
  then have c: "0 \<le> mp" "mp \<le> 11" using assms(1,2) by auto
  show ?thesis
    using march_month_cases [OF c] r assms(1,2)
    by (elim disjE) (auto simp: march_month_ok_def month_start_def)
qed

section \<open>The code computes them\<close>

definition civil_days :: "int \<Rightarrow> int \<Rightarrow> int \<Rightarrow> int" where
  "civil_days y m d =
     (let y' = (if m \<le> 2 then y - 1 else y); mp = (if 2 < m then m - 3 else m + 9)
      in y' div 400 * 146097 + era_doe (y' mod 400) (month_start mp + d - 1) - 719468)"

text \<open>Unsigned arithmetic that does not wrap.\<close>

lemma u32_add: "uint a + uint b < 2 ^ 32 \<Longrightarrow> uint (a + b :: u32) = uint a + uint b"
  by (simp add: uint_word_ariths)

lemma u32_sub: "uint b \<le> uint a \<Longrightarrow> uint (a - b :: u32) = uint a - uint b"
  using uint_sub_lem [of b a] by simp

lemma u32_mult: "uint a * uint b < 2 ^ 32 \<Longrightarrow> uint (a * b :: u32) = uint a * uint b"
  by (simp add: uint_word_ariths)

lemma u32_div: "uint (a div b :: u32) = uint a div uint b"
  by (simp add: uint_div)

lemma sint_u32: "uint (a :: u32) < 2 ^ 31 \<Longrightarrow> sint a = uint a"
  using sint_of_int_u32 [of "uint a"] uint_ge_0 [of a] by simp

lemmas u32_arith = u32_add u32_sub u32_mult u32_div

text \<open>For every month number of its type and every day from 1, \<^verbatim>\<open>to_days\<close> does not wrap.\<close>

lemma to_days_civil:
  assumes "1 \<le> uint (day_d (ymd_day x))"
  shows "to_days x =
    civil_days (year_int (ymd_year x)) (uint (month_m (ymd_month x))) (uint (day_d (ymd_day x)))"
proof -
  define M D where "M = uint (month_m (ymd_month x))" and "D = uint (day_d (ymd_day x))"
  define y where "y = year_int (ymd_year x) - (if ymd_month x \<le> February then 1 else 0)"
  define m where "m = month_unsigned (ymd_month x)"
  define yoe where "yoe = (of_int (y mod 400) :: u32)"
  define mp where "mp = (if 2 < m then m - 3 else m + 9)"
  define st where "st = (153 * mp + 2) div 5"
  define doy where "doy = st + day_unsigned (ymd_day x) - 1"
  have M: "0 \<le> M" "M < 256" and D: "1 \<le> D" "D < 256"
    using byte_bound assms by (simp_all add: M_def D_def)
  have y': "y = (if M \<le> 2 then year_int (ymd_year x) - 1 else year_int (ymd_year x))"
    by (simp add: y_def M_def month_le_February)
  have um: "uint m = M" by (simp add: m_def M_def)
  have m2: "2 < m \<longleftrightarrow> 2 < M" by (simp add: word_less_def um)
  have ump: "uint mp = (if 2 < M then M - 3 else M + 9)"
    using M by (simp add: mp_def m2 u32_sub u32_add um)
  have ust: "uint st = month_start (uint mp)"
    using M ump by (simp add: st_def month_start_def u32_div u32_add u32_mult)
  have st: "0 \<le> uint st" "uint st \<le> 8200"
  proof -
    have "uint mp \<le> 264" using M ump by (simp split: if_splits)
    then show "uint st \<le> 8200" unfolding ust month_start_def by linarith
  qed simp
  have "uint (st + day_unsigned (ymd_day x)) = uint st + D"
    using st D by (simp add: u32_add D_def)
  then have udoy: "uint doy = month_start (uint mp) + D - 1"
    using st(1) D u32_sub [of 1 "st + day_unsigned (ymd_day x)"] by (simp add: doy_def ust)
  have uy: "uint yoe = y mod 400"
    unfolding yoe_def by (rule uint_of_int_u32) (auto intro: less_trans [OF pos_mod_bound])
  have yb: "0 \<le> y mod 400" "y mod 400 < 400" by simp_all
  have q: "uint (yoe div 4) = y mod 400 div 4" "uint (yoe div 100) = y mod 400 div 100"
    by (simp_all add: u32_div uy)
  have e1: "uint (yoe * 365) = y mod 400 * 365"
    using yb by (simp add: u32_mult uy)
  have e2: "uint (yoe * 365 + yoe div 4 - yoe div 100) = y mod 400 * 365 + y mod 400 div 4 - y mod 400 div 100"
    using yb by (simp add: u32_sub u32_add e1 q)
  have doe: "uint (yoe * 365 + yoe div 4 - yoe div 100 + doy) = era_doe (y mod 400) (month_start (uint mp) + D - 1)"
    using yb st D by (simp add: u32_add e2 udoy ust [symmetric] era_doe_def)
  have "uint (yoe * 365 + yoe div 4 - yoe div 100 + doy) < 2 ^ 31"
    using yb st D unfolding doe era_doe_def ust [symmetric] by simp
  then have s: "sint (yoe * 365 + yoe div 4 - yoe div 100 + doy) = era_doe (y mod 400) (month_start (uint mp) + D - 1)"
    by (simp add: sint_u32 doe)
  have "to_days x = y div 400 * 146097 + sint (yoe * 365 + yoe div 4 - yoe div 100 + doy) - 719468"
    by (simp only: to_days_def Let_def sdiv_floor_400 minus_div_mult_eq_mod y_def yoe_def doy_def st_def mp_def m_def)
  then show ?thesis
    by (simp add: s civil_days_def Let_def y' ump M_def [symmetric] D_def [symmetric])
qed

end
