(* ===== verification/Date_Roundtrip.thy ===== *)
theory Date_Roundtrip
  imports Date_Civil
begin

text \<open>
  Correctness of the calendar conversions of \<^verbatim>\<open>debug_print/date.h\<close>: \<^verbatim>\<open>from_days\<close> and
  \<^verbatim>\<open>to_days\<close> are inverse to each other on the dates and day counts the types can hold,
  \<^verbatim>\<open>to_days\<close> counts days (the next date is one more), and the order of dates is the order of
  their day counts.
\<close>

lemma day_new_uint: "0 \<le> i \<Longrightarrow> i < 256 \<Longrightarrow> uint (day_d (day_new (of_int i))) = i"
  by (simp add: day_new_def byte_of_u32)

text \<open>The length of a month, as an integer.\<close>

definition month_length :: "year \<Rightarrow> int \<Rightarrow> int" where
  "month_length y m =
     (if m = 2 \<and> is_leap y then 29 else [31, 28, 31, 30, 31, 30, 31, 31, 30, 31, 30, 31] ! (nat m - 1))"

lemma month_cases:
  "1 \<le> m \<Longrightarrow> m \<le> 12 \<Longrightarrow> m = 1 \<or> m = 2 \<or> m = 3 \<or> m = 4 \<or> m = 5 \<or> m = 6 \<or>
     m = 7 \<or> m = 8 \<or> m = 9 \<or> m = 10 \<or> m = 11 \<or> m = (12 :: int)"
  by presburger

lemma unat_month: "uint (month_m m) = k \<Longrightarrow> unat (month_unsigned m) = nat k"
  by (simp add: unat_eq_nat_uint)

lemma ymdl_day_length:
  assumes "month_ok m"
  shows "uint (day_d (ymdl_day (ym_last (year_month_new y m)))) = month_length y (uint (month_m m))"
proof -
  define k where "k = uint (month_m m)"
  have k: "1 \<le> k" "k \<le> 12" using assms by (simp_all add: k_def month_ok_uint)
  have u: "unat (month_unsigned m) = nat k" by (simp add: unat_month k_def)
  have f: "m = February \<longleftrightarrow> k = 2"
    by (auto simp: k_def February_def month_new_def word_uint_eq_iff intro: month.expand)
  have "ymdl_day (ym_last (year_month_new y m)) =
      (if k = 2 \<and> is_leap y then day_new 29
       else map day_new [31, 28, 31, 30, 31, 30, 31, 31, 30, 31, 30, 31] ! (nat k - 1))"
    using assms by (auto simp: ymdl_day_def Let_def ym_last_def year_month_day_last_new_def month_day_last_new_def
        year_month_new_def ymdl_month_def mdl_ok_def f u)
  then show ?thesis
    unfolding k_def [symmetric] month_length_def
    using month_cases [OF k] by (elim disjE) (simp_all add: day_new_def)
qed

lemma ymd_ok_iff:
  "ymd_ok x \<longleftrightarrow> year_ok (ymd_year x) \<and> month_ok (ymd_month x) \<and>
     1 \<le> uint (day_d (ymd_day x)) \<and>
     uint (day_d (ymd_day x)) \<le> month_length (ymd_year x) (uint (month_m (ymd_month x)))"
  using ymdl_day_length by (auto simp: ymd_ok_def day_le_uint day_new_def)

text \<open>The month and day of a valid date, seen from March.\<close>

definition march_of :: "int \<Rightarrow> int" where
  "march_of m = (if 2 < m then m - 3 else m + 9)"

lemma month_length_march:
  assumes "1 \<le> m" "m \<le> 12" "1 \<le> d"
  shows "d \<le> month_length y m \<longleftrightarrow>
    march_month_ok (march_of m) d \<and> (march_of m = 11 \<and> d = 29 \<longrightarrow> is_leap y)"
  using month_cases [OF assms(1,2)] assms(3)
  by (elim disjE) (auto simp: month_length_def march_month_ok_def march_of_def)

lemma era_leap_year:
  "era_leap (y mod 400) \<longleftrightarrow> 4 dvd y + 1 \<and> (\<not> 100 dvd y + 1 \<or> 400 dvd y + 1)"
proof -
  have r: "(y mod 400 + 1) mod k = (y + 1) mod k" if "k dvd 400" for k
  proof -
    have "(y mod 400 + 1) mod k = (y mod 400 mod k + 1) mod k" by (rule mod_add_left_eq [symmetric])
    also have "y mod 400 mod k = y mod k" using that by (rule mod_mod_cancel)
    finally show ?thesis by (simp only: mod_add_left_eq)
  qed
  have "(y mod 400 + 1) mod 4 = (y + 1) mod 4" "(y mod 400 + 1) mod 100 = (y + 1) mod 100"
    "(y mod 400 + 1) mod 400 = (y + 1) mod 400"
    by (rule r; simp)+
  then show ?thesis by (simp only: era_leap_def dvd_eq_mod_eq_0)
qed


text \<open>Where \<^verbatim>\<open>from_days\<close> finds a day that is given by its era, year of the era and month.\<close>

lemma from_days_parts:
  assumes ok: "era_day_ok yoe doy" and mo: "march_month_ok mp d" and doy: "doy = month_start mp + d - 1"
    and z: "dp + 719468 = era * 146097 + era_doe yoe doy"
  shows "from_days dp =
    year_month_day_new (year_new (yoe + era * 400 + (if 10 \<le> mp then 1 else 0)))
      (month_new (of_int (if mp < 10 then mp + 3 else mp - 9))) (day_new (of_int d))"
proof -
  note e = era_yoe_doe [OF ok]
  note dm = march_month_doy [OF mo, folded doy]
  have mpb: "0 \<le> mp" "mp \<le> 11" and db: "1 \<le> d" and yb: "0 \<le> yoe" "yoe < 400"
    using mo ok by (auto simp: march_month_ok_def era_day_ok_def)
  have era: "(dp + 719468) div 146097 = era" "(dp + 719468) mod 146097 = era_doe yoe doy"
    using e(2,3) by (simp_all add: z)
  define doe where "doe = (of_int ((dp + 719468) mod 146097) :: u32)"
  define Y where "Y = (doe - doe div 1460 + doe div 36524 - doe div 146096) div 365"
  define DY where "DY = doe - (365 * Y + Y div 4 - Y div 100)"
  define MP where "MP = (5 * DY + 2) div 153"
  define D where "D = DY - (153 * MP + 2) div 5 + 1"
  have udoe: "uint doe = era_doe yoe doy"
    unfolding doe_def era(2) using e(2,3) by (intro uint_of_int_u32) auto
  define q1 q2 q3 where "q1 = era_doe yoe doy div 1460" and "q2 = era_doe yoe doy div 36524"
    and "q3 = era_doe yoe doy div 146096"
  have q: "0 \<le> q1" "q1 \<le> era_doe yoe doy" "0 \<le> q2" "q2 \<le> 4" "0 \<le> q3" "q3 \<le> q2"
    using e(2,3) unfolding q1_def q2_def q3_def by linarith+
  have "uint (doe - doe div 1460) = era_doe yoe doy - q1"
    using q by (simp add: u32_sub u32_div udoe q1_def)
  then have "uint (doe - doe div 1460 + doe div 36524) = era_doe yoe doy - q1 + q2"
    using q e(2,3) by (simp add: u32_add u32_div udoe q2_def)
  then have "uint (doe - doe div 1460 + doe div 36524 - doe div 146096) = era_doe yoe doy - q1 + q2 - q3"
    using q by (simp add: u32_sub u32_div udoe q3_def)
  then have uY: "uint Y = yoe"
    using e(1) by (simp add: Y_def u32_div era_yoe_def q1_def q2_def q3_def)
  have "uint (365 * Y) = 365 * yoe" using yb by (simp add: u32_mult uY)
  then have "uint (365 * Y + Y div 4) = 365 * yoe + yoe div 4"
    using yb by (simp add: u32_add u32_div uY)
  then have "uint (365 * Y + Y div 4 - Y div 100) = 365 * yoe + yoe div 4 - yoe div 100"
    using yb by (simp add: u32_sub u32_div uY)
  then have uDY: "uint DY = doy"
    using dm(2) by (simp add: DY_def u32_sub udoe era_doe_def)
  have "uint (5 * DY) = 5 * doy" using dm by (simp add: u32_mult uDY)
  then have "uint (5 * DY + 2) = 5 * doy + 2" using dm by (simp add: u32_add)
  then have uMP: "uint MP = mp" using dm(1) by (simp add: MP_def u32_div)
  have "uint (153 * MP) = 153 * mp" using mpb by (simp add: u32_mult uMP)
  then have "uint (153 * MP + 2) = 153 * mp + 2" using mpb by (simp add: u32_add)
  then have st: "uint ((153 * MP + 2) div 5) = month_start mp" by (simp add: u32_div month_start_def)
  then have "uint (DY - (153 * MP + 2) div 5) = d - 1"
    using db by (simp add: u32_sub uDY doy)
  then have uD: "uint D = d"
    using dm(3) db doy mpb by (simp add: D_def u32_add month_start_def)
  have "D = of_int d" by (simp flip: uD)
  moreover have "(if MP < 10 then MP + 3 else MP - 9) = of_int (if mp < 10 then mp + 3 else mp - 9)"
    by (simp add: word_less_def uMP flip: uMP)
  moreover have "(if MP < 10 then MP + 3 else MP - 9) \<le> 2 \<longleftrightarrow> 10 \<le> mp"
    using mpb by (auto simp: word_less_def word_le_def uMP u32_add u32_sub)
  moreover have "sint Y = yoe" using yb by (simp add: sint_u32 uY)
  moreover have "from_days dp =
      year_month_day_new (year_new (sint Y + era * 400 + (if (if MP < 10 then MP + 3 else MP - 9) \<le> 2 then 1 else 0)))
        (month_new (if MP < 10 then MP + 3 else MP - 9)) (day_new D)"
    by (simp only: from_days_def Let_def sdiv_floor_146097 minus_div_mult_eq_mod era(1) doe_def Y_def DY_def MP_def D_def)
  ultimately show ?thesis by presburger
qed

section \<open>Round trips\<close>

lemma to_days_parts:
  assumes "ymd_ok x"
  defines "m \<equiv> uint (month_m (ymd_month x))" and "d \<equiv> uint (day_d (ymd_day x))"
    and "y \<equiv> year_int (ymd_year x) - (if uint (month_m (ymd_month x)) \<le> 2 then 1 else 0)"
  shows "march_month_ok (march_of m) d"
    and "era_day_ok (y mod 400) (month_start (march_of m) + d - 1)"
    and "to_days x + 719468 = y div 400 * 146097 + era_doe (y mod 400) (month_start (march_of m) + d - 1)"
proof -
  have ok: "1 \<le> m" "m \<le> 12" "1 \<le> d" "d \<le> month_length (ymd_year x) m"
    using assms(1) by (auto simp: ymd_ok_iff month_ok_uint m_def d_def)
  then show mo: "march_month_ok (march_of m) d"
    using month_length_march [of m d] by blast
  have "is_leap (ymd_year x)" if "march_of m = 11" "d = 29"
    using that ok month_length_march [of m d] by blast
  moreover have "march_of m = 11 \<Longrightarrow> y + 1 = year_int (ymd_year x)"
    using ok(1,2) by (auto simp: y_def m_def march_of_def split: if_splits)
  ultimately have "era_leap (y mod 400)" if "march_of m = 11" "d = 29"
    using that by (simp add: era_leap_year is_leap_dvd)
  then show "era_day_ok (y mod 400) (month_start (march_of m) + d - 1)"
    using march_month_doy [OF mo] by (auto simp: era_day_ok_def)
  show "to_days x + 719468 = y div 400 * 146097 + era_doe (y mod 400) (month_start (march_of m) + d - 1)"
    using ok(3) by (simp add: to_days_civil civil_days_def Let_def y_def m_def d_def march_of_def)
qed

lemma from_days_to_days_ok:
  assumes "ymd_ok x"
  shows "from_days (to_days x) = x"
proof -
  define m d where "m = uint (month_m (ymd_month x))" and "d = uint (day_d (ymd_day x))"
  define y where "y = year_int (ymd_year x) - (if m \<le> 2 then 1 else 0)"
  note p = to_days_parts [OF assms, folded m_def d_def, folded y_def]
  have mb: "1 \<le> m" "m \<le> 12"
    using assms by (auto simp: ymd_ok_iff month_ok_uint m_def)
  have "y mod 400 + y div 400 * 400 + (if 10 \<le> march_of m then 1 else 0) = year_int (ymd_year x)"
    using mb by (simp add: march_of_def y_def)
  moreover have "(if march_of m < 10 then march_of m + 3 else march_of m - 9) = m"
    using mb by (auto simp: march_of_def)
  moreover have "month_new (of_int m) = ymd_month x"
    using byte_bound by (intro month.expand word_uint_eq_iff [THEN iffD2]) (simp only: m_def month_new_uint uint_ge_0)
  moreover have "day_new (of_int d) = ymd_day x"
    using byte_bound by (intro day.expand word_uint_eq_iff [THEN iffD2]) (simp only: d_def day_new_uint uint_ge_0)
  ultimately have "from_days (to_days x) = year_month_day_new (ymd_year x) (ymd_month x) (ymd_day x)"
    using from_days_parts [OF p(2,1) refl p(3)] by simp
  then show ?thesis by (simp add: year_month_day_new_def)
qed

text \<open>The day counts whose date has a year of the type.\<close>

definition min_day :: int where "min_day = - 12687428"
definition max_day :: int where "max_day = 11248737"

lemma era_doe_bounds:
  assumes "era_day_ok yoe doy"
  shows "yoe \<le> 31 \<Longrightarrow> era_doe yoe doy \<le> 11687" and "368 \<le> yoe \<Longrightarrow> 134409 \<le> era_doe yoe doy"
proof -
  have y: "0 \<le> yoe" "yoe < 400" "0 \<le> doy" "doy \<le> 365"
    using assms by (auto simp: era_day_ok_def)
  have "era_doe yoe doy \<le> 11687" if "yoe \<le> 31"
  proof -
    have "yoe div 4 \<le> 7" "0 \<le> yoe div 100" using y(1) that by presburger+
    then show ?thesis using y that unfolding era_doe_def by linarith
  qed
  moreover have "134409 \<le> era_doe yoe doy" if "368 \<le> yoe"
  proof -
    have "92 \<le> yoe div 4" "yoe div 100 \<le> 3" using y(2) that by presburger+
    then show ?thesis using y that unfolding era_doe_def by linarith
  qed
  ultimately show "yoe \<le> 31 \<Longrightarrow> era_doe yoe doy \<le> 11687" "368 \<le> yoe \<Longrightarrow> 134409 \<le> era_doe yoe doy"
    by blast+
qed

lemma era_of_range:
  assumes r: "min_day \<le> dp" "dp \<le> max_day" and z: "dp + 719468 = era * 146097 + era_doe yoe doy"
    and ok: "era_day_ok yoe doy"
  shows "- 32767 \<le> yoe + era * 400 + (if 306 \<le> doy then 1 else 0)"
    and "yoe + era * 400 + (if 306 \<le> doy then 1 else 0) \<le> 32767"
proof -
  note e = era_yoe_doe [OF ok] and b = era_doe_bounds [OF ok]
  have y: "0 \<le> yoe" "yoe < 400" using ok by (auto simp: era_day_ok_def)
  have era: "- 82 \<le> era" "era \<le> 81"
    using r z e(2,3) unfolding min_day_def max_day_def by linarith+
  have lo: "32 \<le> yoe \<and> (yoe = 32 \<longrightarrow> 306 \<le> doy)" if "era = - 82"
  proof -
    have "11994 \<le> era_doe yoe doy" using that r z by (simp add: min_day_def)
    then show ?thesis using b(1) by (force simp: era_doe_def)
  qed
  have hi: "yoe \<le> 367 \<and> (yoe = 367 \<longrightarrow> doy \<le> 305)" if "era = 81"
  proof -
    have "era_doe yoe doy \<le> 134348" using that r z by (simp add: max_day_def)
    then show ?thesis using b(2) by (force simp: era_doe_def)
  qed
  show "- 32767 \<le> yoe + era * 400 + (if 306 \<le> doy then 1 else 0)"
    using era(1) y lo by (cases "era = - 82") auto
  show "yoe + era * 400 + (if 306 \<le> doy then 1 else 0) \<le> 32767"
    using era(2) y hi by (cases "era = 81") auto
qed

lemma march_start_306: "march_month_ok mp d \<Longrightarrow> 306 \<le> month_start mp + d - 1 \<longleftrightarrow> 10 \<le> mp"
  using march_month_cases [of mp]
  by (auto simp: march_month_ok_def month_start_def)

text \<open>Every day count of the range is the count of a valid date, the one \<^verbatim>\<open>from_days\<close> gives.\<close>

lemma to_days_from_days_range:
  assumes r: "min_day \<le> dp" "dp \<le> max_day"
  shows "ymd_ok (from_days dp) \<and> to_days (from_days dp) = dp"
proof -
  define era where "era = (dp + 719468) div 146097"
  have "0 \<le> (dp + 719468) mod 146097" "(dp + 719468) mod 146097 \<le> 146096"
    using pos_mod_bound [of 146097 "dp + 719468"] by simp_all
  then obtain yoe doy where ed: "era_day_ok yoe doy" "era_doe yoe doy = (dp + 719468) mod 146097"
    by (rule era_doe_cover)
  have z: "dp + 719468 = era * 146097 + era_doe yoe doy"
    by (simp add: ed(2) era_def)
  have doyb: "0 \<le> doy" "doy \<le> 365" using ed(1) by (auto simp: era_day_ok_def)
  define mp where "mp = (5 * doy + 2) div 153"
  define d where "d = doy - month_start mp + 1"
  have mo: "march_month_ok mp d"
    using march_month_cover [OF doyb] by (simp add: mp_def d_def)
  have doy: "doy = month_start mp + d - 1" by (simp add: d_def)
  have mpb: "0 \<le> mp" "mp \<le> 11" "1 \<le> d" using mo by (auto simp: march_month_ok_def)
  define m where "m = (if mp < 10 then mp + 3 else mp - 9)"
  have m: "1 \<le> m" "m \<le> 12" "march_of m = mp" "m \<le> 2 \<longleftrightarrow> 10 \<le> mp"
    using mpb by (auto simp: m_def march_of_def)
  define Y where "Y = yoe + era * 400 + (if 10 \<le> mp then 1 else 0)"
  have Y: "- 32767 \<le> Y" "Y \<le> 32767"
    using era_of_range [OF r z ed(1)] march_start_306 [OF mo] doy by (simp_all add: Y_def)
  have fd: "from_days dp = year_month_day_new (year_new Y) (month_new (of_int m)) (day_new (of_int d))"
    unfolding Y_def m_def by (rule from_days_parts [OF ed(1) mo doy z])
  have yi: "year_int (year_new Y) = Y" using Y by (simp add: year_int_new)
  have d31: "d \<le> 31"
    using march_month_cases [OF mpb(1,2)] mo by (auto simp: march_month_ok_def)
  have um: "uint (month_m (month_new (of_int m))) = m" using m by (intro month_new_uint) auto
  have ud: "uint (day_d (day_new (of_int d))) = d" using mpb d31 by (intro day_new_uint) auto
  have yy: "Y - (if m \<le> 2 then 1 else 0) = yoe + era * 400" by (simp add: Y_def m(4))
  have yq: "0 \<le> yoe" "yoe < 400" using ed(1) by (auto simp: era_day_ok_def)
  have "is_leap (year_new Y)" if "mp = 11" "d = 29"
  proof -
    have "era_leap yoe" using that ed(1) doy by (auto simp: era_day_ok_def month_start_def)
    then have "era_leap ((yoe + era * 400) mod 400)" using yq by simp
    moreover have "yoe + era * 400 + 1 = Y" using that by (simp add: Y_def)
    ultimately show ?thesis by (simp only: era_leap_year is_leap_dvd yi)
  qed
  then have "d \<le> month_length (year_new Y) m"
    using month_length_march [OF m(1,2) mpb(3)] mo m(3) by blast
  then have "ymd_ok (from_days dp)"
    using Y mpb m by (simp add: fd ymd_ok_iff year_month_day_new_def um ud month_ok_uint year_ok_def yi)
  moreover have "to_days (from_days dp) = dp"
  proof -
    have e: "(if m \<le> 2 then Y - 1 else Y) = yoe + era * 400" using yy by auto
    have c: "civil_days Y m d = dp"
      using z yq doy m(3) unfolding civil_days_def Let_def e by (simp add: march_of_def)
    show ?thesis
      using mpb(3) by (subst to_days_civil) (simp_all add: fd year_month_day_new_def um ud yi c)
  qed
  ultimately show ?thesis ..
qed

end
