(* ===== verification/Date_Clock.thy ===== *)
theory Date_Clock
  imports Date_Duration Date_Roundtrip
begin

text \<open>
  The time of day of \<^verbatim>\<open>debug_print/date.h\<close>: \<^verbatim>\<open>decimal_format_seconds\<close>, \<^verbatim>\<open>hh_mm_ss\<close>, the
  twelve-hour clock, and the text of dates and times that the trace log prints.  A value of
  \<^verbatim>\<open>hh_mm_ss<Duration>\<close> is split from a count of \<^verbatim>\<open>Duration\<close>, whose period is a parameter.
  The decimal point comes from the locale of the stream and is a parameter; numbers are
  printed without digit grouping, as in the classic locale.
\<close>

section \<open>\<^verbatim>\<open>decimal_format_seconds\<close>\<close>

text \<open>The common type of \<^verbatim>\<open>Duration\<close> and \<^verbatim>\<open>seconds\<close> has the period \<^verbatim>\<open>1/den\<close>.\<close>

definition dfs_width :: "int \<Rightarrow> nat" where
  "dfs_width den = (let trial_width = width_from 1 (nat den) 0 in if trial_width < 19 then trial_width else 6)"

definition dfs_precision :: "int \<Rightarrow> ratio" where
  "dfs_precision den = \<lparr>rnum = 1, rden = int (static_pow10 (dfs_width den))\<rparr>"

record decimal_format_seconds =
  dfs_s :: int
  dfs_sub_s :: int

definition decimal_format_seconds_new :: "int \<Rightarrow> int \<Rightarrow> decimal_format_seconds" where
  "decimal_format_seconds_new den d =
     (let p = \<lparr>rnum = 1, rden = den\<rparr>; s = duration_cast seconds_period p d
      in \<lparr>dfs_s = s, dfs_sub_s = duration_cast (dfs_precision den) p (d - s * den)\<rparr>)"

definition dfs_to_duration :: "int \<Rightarrow> decimal_format_seconds \<Rightarrow> int" where
  "dfs_to_duration den x = dfs_s x * rden (dfs_precision den) + dfs_sub_s x"

definition dfs_in_conventional_range :: "int \<Rightarrow> decimal_format_seconds \<Rightarrow> bool" where
  "dfs_in_conventional_range den x \<longleftrightarrow>
     dur_less (dfs_precision den) (dfs_sub_s x) seconds_period 1 \<and> dur_less seconds_period (dfs_s x) minutes_period 1"

text \<open>\<^verbatim>\<open>os.width(w)\<close> with fill \<^verbatim>\<open>'0'\<close>, right-adjusted.\<close>

definition setw0 :: "nat \<Rightarrow> string \<Rightarrow> string" where
  "setw0 w s = replicate (w - length s) (CHR ''0'') @ s"

definition dfs_print :: "char \<Rightarrow> int \<Rightarrow> decimal_format_seconds \<Rightarrow> string" where
  "dfs_print point den x =
     setw0 2 (show_int (dfs_s x)) @
     (if dfs_width den > 0 then point # setw0 (dfs_width den) (show_int (dfs_sub_s x)) else [])"

section \<open>\<^verbatim>\<open>hh_mm_ss\<close>\<close>

record hh_mm_ss =
  hms_h :: int
  hms_m :: int
  hms_s :: decimal_format_seconds
  hms_neg :: bool

definition hh_mm_ss_new :: "ratio \<Rightarrow> int \<Rightarrow> hh_mm_ss" where
  "hh_mm_ss_new p d =
     (let a = dur_abs d;
          h = duration_cast hours_period p a;
          m = duration_cast minutes_period p a - h * 60
      in \<lparr>hms_h = h, hms_m = m,
          hms_s = decimal_format_seconds_new (rden p) (a * rnum p - h * 3600 * rden p - m * 60 * rden p),
          hms_neg = d < 0\<rparr>)"

definition hms_to_duration :: "ratio \<Rightarrow> hh_mm_ss \<Rightarrow> int" where
  "hms_to_duration p x =
     (let u = rden (dfs_precision (rden p))
      in (dfs_to_duration (rden p) (hms_s x) + hms_m x * 60 * u + hms_h x * 3600 * u) *
         (1 - 2 * (if hms_neg x then 1 else 0)))"

definition hms_in_conventional_range :: "ratio \<Rightarrow> hh_mm_ss \<Rightarrow> bool" where
  "hms_in_conventional_range p x \<longleftrightarrow>
     \<not> hms_neg x \<and> dur_less hours_period (hms_h x) days_period 1 \<and> dur_less minutes_period (hms_m x) hours_period 1 \<and>
     dfs_in_conventional_range (rden p) (hms_s x)"

definition hms_print :: "char \<Rightarrow> ratio \<Rightarrow> hh_mm_ss \<Rightarrow> string" where
  "hms_print point p tod =
     (if hms_neg tod then ''-'' else []) @
     (if hms_h tod < 10 then ''0'' else []) @ show_int (hms_h tod) @ '':'' @
     (if hms_m tod < 10 then ''0'' else []) @ show_int (hms_m tod) @ '':'' @
     dfs_print point (rden p) (hms_s tod)"

section \<open>The twelve-hour clock\<close>

definition is_am :: "int \<Rightarrow> bool" where
  "is_am h \<longleftrightarrow> 0 \<le> h \<and> h < 12"

definition is_pm :: "int \<Rightarrow> bool" where
  "is_pm h \<longleftrightarrow> 12 \<le> h \<and> h < 24"

definition make12 :: "int \<Rightarrow> int" where
  "make12 h = (if h < 12 then (if h = 0 then 12 else h) else (if h \<noteq> 12 then h - 12 else h))"

definition make24 :: "int \<Rightarrow> bool \<Rightarrow> int" where
  "make24 h pm = (if pm then (if h \<noteq> 12 then h + 12 else h) else if h = 12 then 0 else h)"

section \<open>Dates and time points as text\<close>

definition ymd_print :: "year_month_day \<Rightarrow> string" where
  "ymd_print x =
     show_int (year_int (ymd_year x)) @ ''-'' @
     setw0 2 (show_int (uint (month_unsigned (ymd_month x)))) @ ''-'' @
     setw0 2 (show_int (uint (day_unsigned (ymd_day x)))) @
     (if ymd_ok x then [] else '' is not a valid year_month_day'')"

text \<open>The time of day of a time point whose period divides the second, as \<^verbatim>\<open>tp - dp\<close> gives
  it: the count since the start of its day.\<close>

definition day_of :: "ratio \<Rightarrow> int \<Rightarrow> days" where
  "day_of p tp = dur_floor days_period p tp"

definition time_of_day :: "int \<Rightarrow> int \<Rightarrow> hh_mm_ss" where
  "time_of_day den tp =
     (let p = \<lparr>rnum = 1, rden = den\<rparr> in hh_mm_ss_new p (tp - day_of p tp * 86400 * den))"

definition sys_time_print :: "char \<Rightarrow> int \<Rightarrow> int \<Rightarrow> string" where
  "sys_time_print point den tp =
     (let p = \<lparr>rnum = 1, rden = den\<rparr>
      in ymd_print (from_days (day_of p tp)) @ '' '' @ hms_print point p (time_of_day den tp))"

text \<open>\<^verbatim>\<open>format("%T", tp)\<close>: the directive prints the time of day of the fields.\<close>

definition format_T :: "char \<Rightarrow> int \<Rightarrow> int \<Rightarrow> string" where
  "format_T point den tp = hms_print point \<lparr>rnum = 1, rden = den\<rparr> (time_of_day den tp)"

section \<open>Splitting a duration\<close>

lemma dfs_width_less: "dfs_width den < 19"
  by (simp add: dfs_width_def Let_def)

lemma dfs_precision_power: "rden (dfs_precision den) = 10 ^ dfs_width den"
  using dfs_width_less [of den] by (simp add: dfs_precision_def static_pow10_power)

lemma dfs_split:
  assumes "0 < den" and "0 \<le> r"
  defines "x \<equiv> decimal_format_seconds_new den r"
  shows "dfs_s x = r div den" and "dfs_sub_s x = (r mod den * 10 ^ dfs_width den) div den"
proof -
  show s: "dfs_s x = r div den"
    using assms by (simp add: x_def decimal_format_seconds_new_def Let_def duration_cast_def seconds_period_def sdiv_pos)
  have "dfs_sub_s x = ((r - r div den * den) * 10 ^ dfs_width den) sdiv den"
    using s by (simp add: x_def decimal_format_seconds_new_def Let_def duration_cast_def dfs_precision_power)
      (simp add: dfs_precision_def)
  then show "dfs_sub_s x = (r mod den * 10 ^ dfs_width den) div den"
    using assms by (simp add: minus_div_mult_eq_mod sdiv_pos)
qed

lemma hms_split:
  fixes d :: int
  assumes "ratio_ok p"
  defines "x \<equiv> hh_mm_ss_new p d" and "a \<equiv> \<bar>d\<bar> * rnum p"
  shows "hms_h x = a div (3600 * rden p)" and "hms_m x = a div (60 * rden p) mod 60"
    and "hms_s x = decimal_format_seconds_new (rden p) (a mod (60 * rden p))" and "hms_neg x = (d < 0)"
proof -
  have p: "0 < rden p" "0 \<le> a" using assms(1) by (simp_all add: ratio_ok_def a_def)
  have ab: "dur_abs d = \<bar>d\<bar>" by (simp add: dur_abs_def)
  show h: "hms_h x = a div (3600 * rden p)"
    using p by (simp add: x_def hh_mm_ss_new_def Let_def duration_cast_def hours_period_def ab sdiv_pos
        mult.commute [of "rden p"] flip: a_def)
  have mm: "duration_cast minutes_period p (dur_abs d) = a div (60 * rden p)"
    using p by (simp add: duration_cast_def minutes_period_def ab sdiv_pos mult.commute [of "rden p"] flip: a_def)
  have h60: "a div (3600 * rden p) = a div (60 * rden p) div 60"
    using p by (simp add: zdiv_zmult2_eq [symmetric] mult.commute [of _ 60])
  have "hms_m x = duration_cast minutes_period p (dur_abs d) - hms_h x * 60"
    by (simp add: x_def hh_mm_ss_new_def Let_def)
  also have "\<dots> = a div (60 * rden p) mod 60" unfolding mm h h60 by (rule minus_div_mult_eq_mod)
  finally show m: "hms_m x = a div (60 * rden p) mod 60" .
  have "hms_s x = decimal_format_seconds_new (rden p) (a - hms_h x * 3600 * rden p - hms_m x * 60 * rden p)"
    by (simp add: x_def hh_mm_ss_new_def Let_def ab a_def)
  also have "a - hms_h x * 3600 * rden p - hms_m x * 60 * rden p =
      a - (a div (60 * rden p) div 60 * 60 + a div (60 * rden p) mod 60) * (60 * rden p)"
  proof -
    define q where "q = a div (60 * rden p)"
    show ?thesis unfolding h m h60 q_def [symmetric] by (simp only: algebra_simps)
  qed
  also have "\<dots> = a mod (60 * rden p)" by (simp only: div_mult_mod_eq minus_div_mult_eq_mod)
  finally show "hms_s x = decimal_format_seconds_new (rden p) (a mod (60 * rden p))" .
  show "hms_neg x = (d < 0)" by (simp add: x_def hh_mm_ss_new_def Let_def)
qed

lemma div_less_mult:
  fixes r k d :: int
  assumes "0 < d" and "r < k * d"
  shows "r div d < k"
proof (rule ccontr)
  assume "\<not> r div d < k"
  then have "k * d \<le> r div d * d" using assms(1) by simp
  then show False
    using assms pos_mod_sign [of d r] div_mult_mod_eq [of r d] by linarith
qed

lemma dfs_range:
  assumes "0 < den" and "0 \<le> r" and "r < 60 * den"
  defines "x \<equiv> decimal_format_seconds_new den r"
  shows "0 \<le> dfs_s x" "dfs_s x < 60" "0 \<le> dfs_sub_s x" "dfs_sub_s x < 10 ^ dfs_width den"
proof -
  show "0 \<le> dfs_s x" "0 \<le> dfs_sub_s x"
    using assms by (simp_all add: x_def dfs_split pos_imp_zdiv_nonneg_iff)
  have "r div den < 60" using div_less_mult [OF assms(1), of r 60] assms(3) by simp
  then show "dfs_s x < 60" using assms by (simp add: x_def dfs_split)
  show "dfs_sub_s x < 10 ^ dfs_width den"
    using assms(1,2) by (simp add: x_def dfs_split div_less_mult mult.commute [of _ den])
qed

text \<open>The fields of a time of day are in range, and where the seconds are exact in the
  printed digits they add up to the duration they were split from.\<close>

lemma hms_range:
  fixes d :: int
  assumes "ratio_ok p"
  defines "x \<equiv> hh_mm_ss_new p d"
  shows "0 \<le> hms_h x" "0 \<le> hms_m x" "hms_m x < 60" "0 \<le> dfs_s (hms_s x)" "dfs_s (hms_s x) < 60"
    "0 \<le> dfs_sub_s (hms_s x)" "dfs_sub_s (hms_s x) < 10 ^ dfs_width (rden p)"
proof -
  note s = hms_split [OF assms(1), of d, folded x_def]
  have p: "0 < rden p" "0 < rnum p" using assms(1) by (simp_all add: ratio_ok_def)
  define r where "r = \<bar>d\<bar> * rnum p mod (60 * rden p)"
  have r: "0 \<le> r" "r < 60 * rden p" using p by (simp_all add: r_def)
  show "0 \<le> hms_h x" "0 \<le> hms_m x" "hms_m x < 60"
    using p by (simp_all add: s pos_imp_zdiv_nonneg_iff)
  show "0 \<le> dfs_s (hms_s x)" "dfs_s (hms_s x) < 60" "0 \<le> dfs_sub_s (hms_s x)"
    "dfs_sub_s (hms_s x) < 10 ^ dfs_width (rden p)"
    unfolding s r_def [symmetric] using dfs_range [OF p(1) r] by simp_all
qed

lemma hms_to_duration_new:
  fixes d :: int
  assumes "ratio_ok p" and "rden p dvd 10 ^ dfs_width (rden p)"
  shows "hms_to_duration p (hh_mm_ss_new p d) * rden p = d * rnum p * 10 ^ dfs_width (rden p)"
proof -
  define a D W x where "a = \<bar>d\<bar> * rnum p" and "D = rden p" and "W = (10 :: int) ^ dfs_width (rden p)"
    and "x = hh_mm_ss_new p d"
  note s = hms_split [OF assms(1), of d, folded x_def a_def D_def]
  have p: "0 < D" "0 \<le> a" using assms(1) by (simp_all add: ratio_ok_def D_def a_def)
  define q r where "q = a div (60 * D)" and "r = a mod (60 * D)"
  have r: "0 \<le> r" "a = q * (60 * D) + r" using p by (simp_all only: q_def r_def div_mult_mod_eq) simp
  note ds = dfs_split [OF p(1) r(1)]
  have h: "hms_h x = q div 60"
    using p unfolding s q_def by (simp add: zdiv_zmult2_eq [symmetric] mult.commute [of _ 60])
  have m: "hms_m x = q mod 60" unfolding s q_def ..
  have "D dvd r mod D * W" using assms(2) by (simp add: D_def W_def)
  then have sub: "dfs_sub_s (hms_s x) * D = r mod D * W"
    unfolding s r_def [symmetric] ds using W_def D_def by (simp add: dvd_div_mult_self)
  have sec: "dfs_s (hms_s x) * D = r - r mod D"
    unfolding s r_def [symmetric] ds by (rule minus_mod_eq_div_mult [symmetric])
  have "(dfs_s (hms_s x) * W + dfs_sub_s (hms_s x) + hms_m x * 60 * W + hms_h x * 3600 * W) * D =
      (dfs_s (hms_s x) * D) * W + dfs_sub_s (hms_s x) * D + (q div 60 * 60 + q mod 60) * (60 * D) * W"
    unfolding h m by (simp only: algebra_simps)
  also have "\<dots> = a * W" unfolding sec sub div_mult_mod_eq r(2) by (simp add: algebra_simps)
  finally have e: "(dfs_s (hms_s x) * W + dfs_sub_s (hms_s x) + hms_m x * 60 * W + hms_h x * 3600 * W) * D = a * W" .
  have "hms_to_duration p x * D =
      (dfs_s (hms_s x) * W + dfs_sub_s (hms_s x) + hms_m x * 60 * W + hms_h x * 3600 * W) * D * (if d < 0 then - 1 else 1)"
    by (simp add: hms_to_duration_def Let_def dfs_to_duration_def dfs_precision_power s(4) W_def D_def)
  also have "\<dots> = d * rnum p * W" unfolding e by (simp add: a_def)
  finally show ?thesis by (simp add: x_def D_def W_def)
qed

text \<open>The time of day of a time point: below twenty-four hours, not negative, and with the day
  it adds up to the time point.\<close>

lemma time_of_day_split:
  fixes tp :: int
  assumes "0 < den"
  defines "p \<equiv> \<lparr>rnum = 1, rden = den\<rparr>"
  shows "day_of p tp = tp div (86400 * den)" and "time_of_day den tp = hh_mm_ss_new p (tp mod (86400 * den))"
proof -
  have "ratio_ok days_period" "ratio_ok p" using assms(1) by (simp_all add: ratio_ok_def days_period_def p_def)
  then show d: "day_of p tp = tp div (86400 * den)"
    unfolding day_of_def by (simp add: dur_floor_div) (simp add: days_period_def p_def)
  show "time_of_day den tp = hh_mm_ss_new p (tp mod (86400 * den))"
    unfolding time_of_day_def Let_def p_def [symmetric] d by (simp add: minus_div_mult_eq_mod mult.assoc)
qed

lemma time_of_day_range:
  fixes tp :: int
  assumes "0 < den"
  defines "x \<equiv> time_of_day den tp" and "p \<equiv> \<lparr>rnum = 1, rden = den\<rparr>"
  shows "hms_h x < 24" and "hms_in_conventional_range p x"
proof -
  have ok: "ratio_ok p" using assms(1) by (simp add: ratio_ok_def p_def)
  define r where "r = tp mod (86400 * den)"
  have r: "0 \<le> r" "r < 86400 * den" using assms(1) by (simp_all add: r_def)
  have x: "x = hh_mm_ss_new p r" using time_of_day_split [OF assms(1)] by (simp add: x_def r_def p_def)
  show h: "hms_h x < 24"
    using r assms(1) div_less_mult [of "3600 * den" r 24] unfolding x hms_split(1) [OF ok] by (simp add: p_def)
  have "\<not> hms_neg x" using r unfolding x hms_split(4) [OF ok] by simp
  with h show "hms_in_conventional_range p x"
    using hms_range [OF ok, of r, folded x]
    by (simp add: hms_in_conventional_range_def dfs_in_conventional_range_def dur_less_def hours_period_def
        days_period_def minutes_period_def seconds_period_def dfs_precision_power)
      (simp add: dfs_precision_def p_def)
qed

lemma time_of_day_sum:
  fixes tp :: int
  assumes "0 < den" and "den dvd 10 ^ dfs_width den"
  defines "p \<equiv> \<lparr>rnum = 1, rden = den\<rparr>" and "W \<equiv> 10 ^ dfs_width den"
  shows "(day_of p tp * 86400 * W + hms_to_duration p (time_of_day den tp)) * den = tp * W"
proof -
  have ok: "ratio_ok p" using assms(1) by (simp add: ratio_ok_def p_def)
  note s = time_of_day_split [OF assms(1), of tp, folded p_def]
  define q r where "q = tp div (86400 * den)" and "r = tp mod (86400 * den)"
  have "hms_to_duration p (time_of_day den tp) * den = r * W"
    using hms_to_duration_new [OF ok, of r] assms(2) by (simp add: s p_def W_def r_def)
  moreover have "tp = q * (86400 * den) + r" unfolding q_def r_def by (rule div_mult_mod_eq [symmetric])
  ultimately show ?thesis unfolding s q_def [symmetric] by (simp add: algebra_simps)
qed

section \<open>The twelve-hour clock and back\<close>

lemma make24_make12:
  assumes "0 \<le> h" and "h < 24"
  shows "make24 (make12 h) (is_pm h) = h" and "1 \<le> make12 h" and "make12 h \<le> 12" and "is_am h = (\<not> is_pm h)"
  using assms by (auto simp: make24_def make12_def is_pm_def is_am_def)

section \<open>Fixed-width fields\<close>

lemma show_nat_length: "0 < w \<Longrightarrow> n < 10 ^ w \<Longrightarrow> length (show_nat n) \<le> w"
proof (induction w arbitrary: n)
  case (Suc w)
  show ?case
  proof (cases "n < 10")
    case True
    then show ?thesis by (subst show_nat.simps) simp
  next
    case False
    with Suc(3) have w: "0 < w" by (cases w) auto
    have "n div 10 < 10 ^ w" using Suc(3) by (simp add: less_mult_imp_div_less mult.commute)
    from Suc(1) [OF w this] False show ?thesis by (subst show_nat.simps) simp
  qed
qed simp

lemma setw0_length: "0 < w \<Longrightarrow> n < 10 ^ w \<Longrightarrow> length (setw0 w (show_nat n)) = w"
  using show_nat_length [of w n] by (simp add: setw0_def)

lemma nat_of_digits_setw0: "nat_of_digits (setw0 w (show_nat n)) = n"
proof -
  have "foldl (\<lambda>n c. n * 10 + digit_val c) 0 (replicate k (CHR ''0'') @ s) = nat_of_digits s" for k s
    by (induction k) (simp_all add: nat_of_digits_def digit_val_def)
  then show ?thesis by (simp add: setw0_def nat_of_digits_def [of "_ @ _"] nat_of_digits_show_nat)
qed

lemma two_digits:
  assumes "0 \<le> i" and "i < 100"
  shows "(if i < 10 then ''0'' else []) @ show_int i = setw0 2 (show_nat (nat i))"
proof (cases "i < 10")
  case True
  then have "show_nat (nat i) = [digit_char (nat i)]" by (subst show_nat.simps) simp
  with True assms show ?thesis by (simp add: setw0_def show_int_def)
next
  case False
  then have "nat i div 10 < 10" using assms by simp
  then have "length (show_nat (nat i)) = 2"
    using False assms by (subst show_nat.simps, subst show_nat.simps) auto
  with False assms show ?thesis by (simp add: setw0_def show_int_def)
qed

text \<open>The text of \<^verbatim>\<open>%T\<close>: two digits for each of the hours, the minutes and the seconds, and
  the digits of the fraction.\<close>

lemma format_T_text:
  fixes tp :: int
  assumes "0 < den"
  defines "x \<equiv> time_of_day den tp"
  shows "format_T point den tp =
    setw0 2 (show_nat (nat (hms_h x))) @ '':'' @ setw0 2 (show_nat (nat (hms_m x))) @ '':'' @
    setw0 2 (show_nat (nat (dfs_s (hms_s x)))) @
    (if dfs_width den > 0 then point # setw0 (dfs_width den) (show_nat (nat (dfs_sub_s (hms_s x)))) else [])"
proof -
  define p r where "p = \<lparr>rnum = 1, rden = den\<rparr>" and "r = tp mod (86400 * den)"
  have ok: "ratio_ok p" using assms(1) by (simp add: ratio_ok_def p_def)
  have x: "x = hh_mm_ss_new p r" using time_of_day_split [OF assms(1)] by (simp add: x_def r_def p_def)
  note b = hms_range [OF ok, of r, folded x]
  have h: "hms_h x < 24" and "\<not> hms_neg x"
    using time_of_day_range [OF assms(1), of tp] by (simp_all add: x_def hms_in_conventional_range_def)
  moreover have "show_int (dfs_s (hms_s x)) = show_nat (nat (dfs_s (hms_s x)))"
    "show_int (dfs_sub_s (hms_s x)) = show_nat (nat (dfs_sub_s (hms_s x)))"
    using b by (simp_all add: show_int_def)
  ultimately show ?thesis
    using two_digits [of "hms_h x"] two_digits [of "hms_m x"] b
    by (simp add: format_T_def hms_print_def dfs_print_def flip: x_def append_assoc)
qed

end
