(* ===== verification/Debug_Log.thy ===== *)
theory Debug_Log
  imports Date_Clock
begin

text \<open>
  The trace log: \<^verbatim>\<open>debug_print/debug_printer.h\<close> and \<^verbatim>\<open>.cpp\<close> (the global log function, the
  printer and the stack and lifecycle loggers) and \<^verbatim>\<open>debug_print/file_logger.cpp\<close> (the log
  function that appends to a file).  The file system is a parameter: opening a file for
  writing, and writing to an open one.  The type names of \<^verbatim>\<open>typeid\<close>, the clock and the
  decimal point of the locale are arguments.
\<close>

section \<open>\<^verbatim>\<open>std::ofstream\<close>\<close>

record 'w file_api =
  api_open :: "string \<Rightarrow> 'w \<Rightarrow> bool \<times> 'w"
  api_write :: "string \<Rightarrow> string \<Rightarrow> 'w \<Rightarrow> bool \<times> 'w"

record ofstream =
  os_file :: "string option"
  os_failbit :: bool

definition ofstream_new :: ofstream where
  "ofstream_new = \<lparr>os_file = None, os_failbit = False\<rparr>"

text \<open>Opening a stream that is open fails and leaves the open file in place; a successful
  opening clears the state, a failed one sets \<^verbatim>\<open>failbit\<close>.\<close>

definition ofstream_open :: "'w file_api \<Rightarrow> string \<Rightarrow> ofstream \<Rightarrow> 'w \<Rightarrow> ofstream \<times> 'w" where
  "ofstream_open api f os w =
     (case os_file os of
        Some _ \<Rightarrow> (os\<lparr>os_failbit := True\<rparr>, w)
      | None \<Rightarrow>
          (let (ok, w') = api_open api f w
           in if ok then (\<lparr>os_file = Some f, os_failbit = False\<rparr>, w') else (os\<lparr>os_failbit := True\<rparr>, w')))"

definition ofstream_is_open :: "ofstream \<Rightarrow> bool" where
  "ofstream_is_open os \<longleftrightarrow> os_file os \<noteq> None"

text \<open>Insertion and flush write nothing on a stream that has failed.\<close>

definition ofstream_put :: "'w file_api \<Rightarrow> string \<Rightarrow> ofstream \<Rightarrow> 'w \<Rightarrow> ofstream \<times> 'w" where
  "ofstream_put api msg os w =
     (case os_file os of
        None \<Rightarrow> (os\<lparr>os_failbit := True\<rparr>, w)
      | Some f \<Rightarrow>
          if os_failbit os then (os, w)
          else (let (ok, w') = api_write api f msg w in (os\<lparr>os_failbit := \<not> ok\<rparr>, w')))"

section \<open>The global log function\<close>

text \<open>\<^verbatim>\<open>tLogFunction\<close> is empty or the lambda of \<^verbatim>\<open>FileLogger::enableLogging\<close>, the only
  function the library sets.\<close>

datatype tLogFunction = NoLogFunction | FileLogFunction

record log_state =
  gLogFunction :: tLogFunction
  outStream :: ofstream

definition log_init :: log_state where
  "log_init = \<lparr>gLogFunction = NoLogFunction, outStream = ofstream_new\<rparr>"

definition isLoggingEnabled :: "log_state \<Rightarrow> bool" where
  "isLoggingEnabled s \<longleftrightarrow> gLogFunction s \<noteq> NoLogFunction"

definition setLogger :: "tLogFunction \<Rightarrow> log_state \<Rightarrow> log_state" where
  "setLogger f s = s\<lparr>gLogFunction := f\<rparr>"

definition call_log :: "'w file_api \<Rightarrow> string \<Rightarrow> log_state \<Rightarrow> 'w \<Rightarrow> log_state \<times> 'w" where
  "call_log api msg s w =
     (case gLogFunction s of
        NoLogFunction \<Rightarrow> (s, w)
      | FileLogFunction \<Rightarrow>
          if ofstream_is_open (outStream s)
          then (let (os, w') = ofstream_put api msg (outStream s) w in (s\<lparr>outStream := os\<rparr>, w'))
          else (s, w))"

definition log_line :: "char \<Rightarrow> int \<Rightarrow> string \<Rightarrow> string \<Rightarrow> string" where
  "log_line point now caller msg =
     ''(['' @ caller @ ''] '' @ format_T point 1000 now @ ''): '' @ msg @ [LF]"

definition logImpl :: "'w file_api \<Rightarrow> char \<Rightarrow> int \<Rightarrow> string \<Rightarrow> string \<Rightarrow> log_state \<Rightarrow> 'w \<Rightarrow> log_state \<times> 'w" where
  "logImpl api point now caller msg s w =
     (if gLogFunction s \<noteq> NoLogFunction then call_log api (c_str (log_line point now caller msg)) s w else (s, w))"

section \<open>\<^verbatim>\<open>DebugPrinter\<close>\<close>

fun printToStream :: "string \<Rightarrow> string list \<Rightarrow> string" where
  "printToStream o' [] = o'"
| "printToStream o' (t # args) = printToStream (o' @ t) args"

definition DebugPrinter_print ::
    "'w file_api \<Rightarrow> char \<Rightarrow> int \<Rightarrow> string \<Rightarrow> string \<Rightarrow> string list \<Rightarrow> log_state \<Rightarrow> 'w \<Rightarrow> log_state \<times> 'w" where
  "DebugPrinter_print api point now caller msg args s w =
     (if isLoggingEnabled s then logImpl api point now caller (printToStream [] (msg # args)) s w else (s, w))"

definition StackTraceLogger_new ::
    "'w file_api \<Rightarrow> char \<Rightarrow> int \<Rightarrow> string \<Rightarrow> string \<Rightarrow> log_state \<Rightarrow> 'w \<Rightarrow> log_state \<times> 'w" where
  "StackTraceLogger_new api point now caller fName =
     DebugPrinter_print api point now caller ''entering '' [caller, ''::'', c_str fName]"

definition StackTraceLogger_destroy ::
    "'w file_api \<Rightarrow> char \<Rightarrow> int \<Rightarrow> string \<Rightarrow> string \<Rightarrow> log_state \<Rightarrow> 'w \<Rightarrow> log_state \<times> 'w" where
  "StackTraceLogger_destroy api point now caller fName =
     DebugPrinter_print api point now caller ''exiting '' [caller, ''::'', c_str fName]"

definition ObjectLifecycleLogger_new ::
    "'w file_api \<Rightarrow> char \<Rightarrow> int \<Rightarrow> string \<Rightarrow> log_state \<Rightarrow> 'w \<Rightarrow> log_state \<times> 'w" where
  "ObjectLifecycleLogger_new api point now caller =
     DebugPrinter_print api point now caller ''entering '' [caller, ''::<ctor>'']"

definition ObjectLifecycleLogger_destroy ::
    "'w file_api \<Rightarrow> char \<Rightarrow> int \<Rightarrow> string \<Rightarrow> log_state \<Rightarrow> 'w \<Rightarrow> log_state \<times> 'w" where
  "ObjectLifecycleLogger_destroy api point now caller =
     DebugPrinter_print api point now caller ''entering '' [caller, ''::<dtor>'']"

section \<open>Enabling the trace\<close>

definition enableLogging :: "'w file_api \<Rightarrow> string \<Rightarrow> log_state \<Rightarrow> 'w \<Rightarrow> bool \<times> log_state \<times> 'w" where
  "enableLogging api traceFile s w =
     (let (os, w') = ofstream_open api traceFile (outStream s) w;
          s' = setLogger FileLogFunction (s\<lparr>outStream := os\<rparr>)
      in (ofstream_is_open (outStream s'), s', w'))"

definition enableTracing :: "'w file_api \<Rightarrow> string \<Rightarrow> log_state \<Rightarrow> 'w \<Rightarrow> int \<times> log_state \<times> 'w" where
  "enableTracing api tracefile s w =
     (let (ok, s', w') = enableLogging api tracefile s w in (if ok then 0 else - 1, s', w'))"

section \<open>What the trace contains\<close>

text \<open>What the log relies on: opening truncates the file, writing appends to it and to no
  other file.\<close>

definition file_ok :: "'w file_api \<Rightarrow> ('w \<Rightarrow> string \<Rightarrow> string) \<Rightarrow> bool" where
  "file_ok api contents \<longleftrightarrow>
     (\<forall>f w. fst (api_open api f w) \<longrightarrow> contents (snd (api_open api f w)) = (contents w)(f := [])) \<and>
     (\<forall>f s w. fst (api_write api f s w) \<longrightarrow>
        contents (snd (api_write api f s w)) = (contents w)(f := contents w f @ s))"

text \<open>A disk that is never full.\<close>

definition file_total :: "'w file_api \<Rightarrow> bool" where
  "file_total api \<longleftrightarrow> (\<forall>f s w. fst (api_write api f s w))"

text \<open>A run of trace messages, each with its time, the name of its class and its parts.\<close>

type_synonym trace_entry = "int \<times> string \<times> string \<times> string list"

fun print_all :: "'w file_api \<Rightarrow> char \<Rightarrow> trace_entry list \<Rightarrow> log_state \<Rightarrow> 'w \<Rightarrow> log_state \<times> 'w" where
  "print_all api point [] s w = (s, w)"
| "print_all api point ((now, caller, msg, args) # es) s w =
     (let (s', w') = DebugPrinter_print api point now caller msg args s w in print_all api point es s' w')"

text \<open>The characters that reach the log function for an entry: what the stream was given, up to a NUL.\<close>

definition entry_text :: "char \<Rightarrow> trace_entry \<Rightarrow> string" where
  "entry_text point e = (case e of (now, caller, msg, args) \<Rightarrow> c_str (log_line point now caller (concat (msg # args))))"

definition tracing_to :: "string \<Rightarrow> log_state \<Rightarrow> bool" where
  "tracing_to f s \<longleftrightarrow> gLogFunction s = FileLogFunction \<and> outStream s = \<lparr>os_file = Some f, os_failbit = False\<rparr>"

definition tracing_dead :: "log_state \<Rightarrow> bool" where
  "tracing_dead s \<longleftrightarrow> os_failbit (outStream s)"

lemma printToStream_concat: "printToStream t args = t @ concat args"
  by (induction t args rule: printToStream.induct) simp_all

lemma print_disabled: "\<not> isLoggingEnabled s \<Longrightarrow> print_all api point es s w = (s, w)"
  by (induction es) (auto simp: DebugPrinter_print_def)

lemma print_dead:
  assumes "tracing_dead s"
  shows "print_all api point es s w = (s, w)"
proof -
  have "DebugPrinter_print api point now caller msg args s w = (s, w)" for now caller msg args
    using assms by (simp add: DebugPrinter_print_def logImpl_def call_log_def ofstream_put_def ofstream_is_open_def
        tracing_dead_def split: option.split tLogFunction.split)
  then show ?thesis by (induction es) auto
qed

lemma print_tracing:
  assumes "file_ok api contents" and "file_total api" and "tracing_to f s"
  shows "fst (DebugPrinter_print api point now caller msg args s w) = s"
    and "contents (snd (DebugPrinter_print api point now caller msg args s w)) =
      (contents w)(f := contents w f @ entry_text point (now, caller, msg, args))"
proof -
  let ?t = "entry_text point (now, caller, msg, args)"
  have "fst (api_write api f ?t w)" using assms(2) by (simp add: file_total_def)
  moreover have "DebugPrinter_print api point now caller msg args s w =
      (s\<lparr>outStream := \<lparr>os_file = Some f, os_failbit = \<not> fst (api_write api f ?t w)\<rparr>\<rparr>, snd (api_write api f ?t w))"
    using assms(3)
    by (simp add: DebugPrinter_print_def isLoggingEnabled_def logImpl_def call_log_def ofstream_put_def
        ofstream_is_open_def tracing_to_def printToStream_concat entry_text_def case_prod_beta Let_def)
  ultimately show "fst (DebugPrinter_print api point now caller msg args s w) = s"
    "contents (snd (DebugPrinter_print api point now caller msg args s w)) = (contents w)(f := contents w f @ ?t)"
    using assms by (simp_all add: file_ok_def tracing_to_def)
qed

lemma print_all_tracing:
  assumes "file_ok api contents" and "file_total api" and "tracing_to f s"
  shows "fst (print_all api point es s w) = s \<and>
    contents (snd (print_all api point es s w)) = (contents w)(f := contents w f @ concat (map (entry_text point) es))"
proof (induction es arbitrary: w)
  case (Cons e es)
  obtain now caller msg args where e: "e = (now, caller, msg, args)" by (cases e)
  obtain s' w' where p: "DebugPrinter_print api point now caller msg args s w = (s', w')" by force
  with print_tracing [OF assms, of point now caller msg args w]
  have "s' = s" "contents w' = (contents w)(f := contents w f @ entry_text point e)" by (simp_all add: e)
  then show ?case using Cons [of w'] by (auto simp: e p fun_eq_iff)
qed simp

lemma enableTracing_fresh:
  assumes "os_file (outStream s) = None" and "fst (api_open api f w)"
  shows "fst (enableTracing api f s w) = 0" and "tracing_to f (fst (snd (enableTracing api f s w)))"
    and "snd (snd (enableTracing api f s w)) = snd (api_open api f w)"
  using assms
  by (simp_all add: enableTracing_def enableLogging_def ofstream_open_def setLogger_def ofstream_is_open_def
      tracing_to_def case_prod_beta Let_def)

lemma enableTracing_failed:
  assumes "os_file (outStream s) = None" and "\<not> fst (api_open api f w)"
  shows "fst (enableTracing api f s w) = - 1" and "tracing_dead (fst (snd (enableTracing api f s w)))"
  using assms
  by (simp_all add: enableTracing_def enableLogging_def ofstream_open_def setLogger_def ofstream_is_open_def
      tracing_dead_def case_prod_beta Let_def)

text \<open>Enabling the trace a second time reports success and leaves the stream failed.\<close>

lemma enableTracing_again:
  assumes "tracing_to f s"
  shows "fst (enableTracing api g s w) = 0" and "tracing_dead (fst (snd (enableTracing api g s w)))"
    and "snd (snd (enableTracing api g s w)) = w"
  using assms
  by (simp_all add: enableTracing_def enableLogging_def ofstream_open_def setLogger_def ofstream_is_open_def
      tracing_to_def tracing_dead_def case_prod_beta Let_def)

end
