(* ===== verification/Connection_Context.thy ===== *)
theory Connection_Context
  imports R_Connection Debug_Log
begin

text \<open>
  \<^verbatim>\<open>exa::ConnectionContext\<close> (\<^verbatim>\<open>connection_context.cpp\<close>), the singleton behind the C interface,
  the forwarding functions of \<^verbatim>\<open>connection.cpp\<close> and the entry points of \<^verbatim>\<open>exasol.c\<close> that R
  calls.  R's values are the datatype \<open>sexp\<close>; a fresh R connection gets the next free
  identity.
\<close>

text \<open>\<^verbatim>\<open>exa::onError\<close> never returns.\<close>

definition exa_onError :: "'w env \<Rightarrow> 'w error_fn" where
  "exa_onError env m w = (False, env_R_error env (m @ [LF]) w)"

definition ConnectionContext_new :: "certificate \<Rightarrow> Chunk \<Rightarrow> 'w \<Rightarrow> 'w conn_context" where
  "ConnectionContext_new cert ch w =
     \<lparr>mConnection = None, mConnectionController = None,
      cx_sys = \<lparr>sys_chunk = ch, sys_cert = cert, sys_fresh = 0, sys_w = w\<rparr>, cx_rconns = (\<lambda>_. None)\<rparr>"

definition convertProtocol :: "string \<Rightarrow> ProtocolType option" where
  "convertProtocol p = (if p = ''http'' then Some http else if p = ''https'' then Some https else None)"

definition destroyConnection :: "'w env \<Rightarrow> bool \<Rightarrow> 'w conn_context \<Rightarrow> int outcome \<times> 'w conn_context" where
  "destroyConnection env checkDone x =
     (case (case mConnection x of
              None \<Rightarrow> Some (cx_rconns x)
            | Some ro \<Rightarrow> RConnection_release ro (cx_rconns x)) of
        None \<Rightarrow> (NoResult, x)
      | Some rcs \<Rightarrow>
          (let x1 = x\<lparr>cx_rconns := rcs\<rparr> in
           case (case mConnectionController x1 of
                   None \<Rightarrow> (Returned False, x1)
                 | Some k \<Rightarrow>
                     (case shutDown env (exa_onError env) k (cx_sys x1) of
                        (r, k', g) \<Rightarrow> (r, x1\<lparr>mConnectionController := Some k', cx_sys := g\<rparr>))) of
             (Returned wasDone, x2) \<Rightarrow>
               (let x3 = (if checkDone \<and> \<not> wasDone
                          then x2\<lparr>cx_sys := (cx_sys x2)\<lparr>sys_w :=
                                 env_R_warning env ''Transfer was not done jet.'' (sys_w (cx_sys x2))\<rparr>\<rparr>
                          else x2)
                in (Returned (if wasDone then 0 else - 1),
                    x3\<lparr>mConnection := None, mConnectionController := None\<rparr>))
           | (Jumped m, x2) \<Rightarrow> (Jumped m, x2)
           | (Uncaught e, x2) \<Rightarrow> (Uncaught e, x2)
           | (Terminated, x2) \<Rightarrow> (Terminated, x2)
           | (NoResult, x2) \<Rightarrow> (NoResult, x2)))"

text \<open>An unknown protocol makes \<^verbatim>\<open>convertProtocol\<close> call R's \<^verbatim>\<open>error\<close>, after the new
  controller was installed.\<close>

definition initConnection ::
  "'w env \<Rightarrow> string \<Rightarrow> int \<Rightarrow> string \<Rightarrow> 'w conn_context \<Rightarrow> int outcome \<times> 'w conn_context" where
  "initConnection env host port protocol x =
     (case destroyConnection env False x of
        (Returned _, x1) \<Rightarrow>
          (let x2 = x1\<lparr>mConnectionController := Some ConnectionController_new\<rparr> in
           case convertProtocol protocol of
             None \<Rightarrow>
               (Jumped (''Unknown protocol:'' @ protocol),
                x2\<lparr>cx_sys := (cx_sys x2)\<lparr>sys_w :=
                     env_R_error env (''Unknown protocol:'' @ protocol) (sys_w (cx_sys x2))\<rparr>\<rparr>)
           | Some p \<Rightarrow>
               (case controller_connect env (exa_onError env) p host (of_int port)
                       ConnectionController_new (cx_sys x2) of
                  (r, k, g) \<Rightarrow>
                    (case r of
                       Returned ok \<Rightarrow> Returned (if ok then 0 else - 1)
                     | Jumped m \<Rightarrow> Jumped m | Uncaught e \<Rightarrow> Uncaught e
                     | Terminated \<Rightarrow> Terminated | NoResult \<Rightarrow> NoResult,
                     x2\<lparr>mConnectionController := Some k, cx_sys := g\<rparr>)))
      | (Jumped m, x1) \<Rightarrow> (Jumped m, x1)
      | (Uncaught e, x1) \<Rightarrow> (Uncaught e, x1)
      | (Terminated, x1) \<Rightarrow> (Terminated, x1)
      | (NoResult, x1) \<Rightarrow> (NoResult, x1))"

definition copyHostName :: "'w conn_context \<Rightarrow> string option" where
  "copyHostName x = map_option (\<lambda>k. c_str (getProxyHost k)) (mConnectionController x)"

text \<open>\<^const>\<open>None\<close>: the port of a controller that never connected is indeterminate.\<close>

definition copyHostPort :: "'w conn_context \<Rightarrow> int option" where
  "copyHostPort x =
     (case mConnectionController x of
        None \<Rightarrow> Some (uint (- 1 :: u16))
      | Some k \<Rightarrow> map_option uint (getProxyPort k))"

text \<open>The C++ object and R's structure of a new connection take the next two identities.\<close>

definition install_connection ::
  "conn_kind \<Rightarrow> nat \<Rightarrow> 'w conn_context \<Rightarrow> nat option outcome \<times> 'w conn_context" where
  "install_connection kind target x =
     (let oid = sys_fresh (cx_sys x); con = oid + 1; ro = RConnection_new kind oid target;
          x1 = x\<lparr>cx_sys := (cx_sys x)\<lparr>sys_fresh := oid + 2\<rparr>\<rparr>
      in case (case kind of
                 ReaderConn \<Rightarrow> RReaderConnection_create con ro (cx_rconns x)
               | WriterConn \<Rightarrow> RWriterConnection_create con ro (cx_rconns x)) of
           None \<Rightarrow> (NoResult, x1)
         | Some (ro', rcs) \<Rightarrow> (Returned (Some con), x1\<lparr>mConnection := Some ro', cx_rconns := rcs\<rparr>))"

definition create_connection ::
  "conn_kind \<Rightarrow> (controller \<Rightarrow> 'w sys \<Rightarrow> (nat option, 'w) ctl_result) \<Rightarrow> 'w conn_context \<Rightarrow>
     nat option outcome \<times> 'w conn_context" where
  "create_connection kind start x =
     (case mConnectionController x of
        None \<Rightarrow> (Returned None, x)
      | Some k \<Rightarrow>
          (case start k (cx_sys x) of
             (r, k', g) \<Rightarrow>
               (let x1 = x\<lparr>mConnectionController := Some k', cx_sys := g\<rparr> in
                case r of
                  Returned None \<Rightarrow> (Returned None, x1)
                | Returned (Some target) \<Rightarrow> install_connection kind target x1
                | Jumped m \<Rightarrow> (Jumped m, x1)
                | Uncaught e \<Rightarrow> (Uncaught e, x1)
                | Terminated \<Rightarrow> (Terminated, x1)
                | NoResult \<Rightarrow> (NoResult, x1))))"

definition createReadConnection ::
  "'w env \<Rightarrow> odbc_session \<Rightarrow> 'w conn_context \<Rightarrow> nat option outcome \<times> 'w conn_context" where
  "createReadConnection env si = create_connection ReaderConn (startReading env (exa_onError env) si)"

definition createWriteConnection ::
  "'w env \<Rightarrow> odbc_session \<Rightarrow> 'w conn_context \<Rightarrow> nat option outcome \<times> 'w conn_context" where
  "createWriteConnection env si = create_connection WriterConn (startWriting env (exa_onError env) si)"

text \<open>What the background thread does between two calls from R: \<open>n\<close> steps, or fewer when it has ended.\<close>

definition background :: "'w env \<Rightarrow> nat \<Rightarrow> 'w conn_context \<Rightarrow> 'w conn_context" where
  "background env n x =
     (case mConnectionController x of
        None \<Rightarrow> x
      | Some k \<Rightarrow>
          (case background_run env n k (sys_w (cx_sys x)) of
             (k', w') \<Rightarrow> x\<lparr>mConnectionController := Some k', cx_sys := (cx_sys x)\<lparr>sys_w := w'\<rparr>\<rparr>))"

section \<open>The entry points of \<^verbatim>\<open>exasol.c\<close>\<close>

datatype sexp = ScalarInteger int | ScalarString string | CustomConnection nat | NullPointer

definition asyncRODBCIOStart ::
  "'w env \<Rightarrow> string \<Rightarrow> int \<Rightarrow> string \<Rightarrow> 'w conn_context \<Rightarrow> sexp outcome \<times> 'w conn_context" where
  "asyncRODBCIOStart env host port protocol x =
     (case initConnection env host port protocol x of (r, x') \<Rightarrow> (map_outcome ScalarInteger r, x'))"

definition asyncRODBCProxyHost :: "'w conn_context \<Rightarrow> sexp" where
  "asyncRODBCProxyHost x = (case copyHostName x of None \<Rightarrow> NullPointer | Some h \<Rightarrow> ScalarString h)"

definition asyncRODBCProxyPort :: "'w conn_context \<Rightarrow> sexp option" where
  "asyncRODBCProxyPort x = map_option ScalarInteger (copyHostPort x)"

definition sexp_of_connection :: "nat option \<Rightarrow> sexp" where
  "sexp_of_connection c = (case c of None \<Rightarrow> NullPointer | Some con \<Rightarrow> CustomConnection con)"

definition asyncRODBCQueryStart ::
  "'w env \<Rightarrow> int option \<Rightarrow> string option \<Rightarrow> int \<Rightarrow> 'w conn_context \<Rightarrow> sexp outcome \<times> 'w conn_context" where
  "asyncRODBCQueryStart env rodbc q writer x =
     (case (rodbc, q) of
        (Some h, Some query) \<Rightarrow>
          (let si = \<lparr>mHandle = h, mQuery = query\<rparr> in
           case (if writer \<noteq> 0 then createWriteConnection env si x else createReadConnection env si x) of
             (r, x') \<Rightarrow> (map_outcome sexp_of_connection r, x'))
      | _ \<Rightarrow>
          (Jumped ''Could not get RODBC structure from channel'',
           x\<lparr>cx_sys := (cx_sys x)\<lparr>sys_w :=
                env_R_error env ''Could not get RODBC structure from channel'' (sys_w (cx_sys x))\<rparr>\<rparr>))"

definition asyncRODBCQueryFinish :: "'w env \<Rightarrow> int \<Rightarrow> 'w conn_context \<Rightarrow> sexp outcome \<times> 'w conn_context" where
  "asyncRODBCQueryFinish env checkWasDone x =
     (case destroyConnection env (1 = checkWasDone) x of (r, x') \<Rightarrow> (map_outcome ScalarInteger r, x'))"

definition asyncEnableTracing :: "'v file_api \<Rightarrow> string \<Rightarrow> log_state \<Rightarrow> 'v \<Rightarrow> sexp \<times> log_state \<times> 'v" where
  "asyncEnableTracing api tracefile s w =
     (case enableTracing api tracefile s w of (r, s', w') \<Rightarrow> (ScalarInteger r, s', w'))"

text \<open>The registration table: the name of each entry point and its number of arguments.\<close>

definition CallEntries :: "(string \<times> nat) list" where
  "CallEntries =
     [(''asyncRODBCIOStart'', 3), (''asyncRODBCProxyHost'', 0), (''asyncRODBCQueryStart'', 4),
      (''asyncRODBCProxyPort'', 0), (''asyncRODBCQueryFinish'', 1), (''asyncEnableTracing'', 1),
      (''run_testthat_tests'', 1)]"

end
