(* ===== verification/Context_Safety.thy ===== *)
theory Context_Safety
  imports Connection_Context
begin

text \<open>
  The invariant of the whole library under any sequence of calls from R: entry points in any
  order, with any arguments, interleaved with the callbacks R makes on the connections it
  was given.  It says that a hook in R's memory never dangles and that the shared chunk
  fits the buffer, and gives that no callback ever runs into undefined behaviour.
\<close>

definition hook_live :: "'w conn_context \<Rightarrow> nat \<Rightarrow> nat \<Rightarrow> bool" where
  "hook_live x con oid \<longleftrightarrow> (\<exists>rc. cx_rconns x con = Some rc \<and> rc_priv rc = Some oid)"

definition executor_joinable :: "'w conn_context \<Rightarrow> bool" where
  "executor_joinable x \<longleftrightarrow>
     (\<exists>k a pc. mConnectionController x = Some k \<and> mOdbcAsyncExecutor k = Some a \<and> mThread a = Joinable pc)"

text \<open>A live hook belongs to the current C++ object and to its R connection, and the thread
  started with it has not been joined.\<close>

definition hooks_inv :: "'w conn_context \<Rightarrow> bool" where
  "hooks_inv x \<longleftrightarrow>
     (\<forall>con rc oid. cx_rconns x con = Some rc \<longrightarrow> rc_priv rc = Some oid \<longrightarrow>
        executor_joinable x \<and>
        (\<exists>ro. mConnection x = Some ro \<and> ro_id ro = oid \<and> ro_kind ro = rc_kind rc \<and> ro_mConn ro = Some con \<and>
           (rc_kind rc = WriterConn \<longrightarrow> chunk_pos (sys_chunk (cx_sys x)) = 0)))"

definition objects_inv :: "'w conn_context \<Rightarrow> bool" where
  "objects_inv x \<longleftrightarrow>
     (\<forall>ro. mConnection x = Some ro \<longrightarrow> (\<exists>con. ro_mConn ro = Some con \<and> cx_rconns x con \<noteq> None)) \<and>
     chunk_wf (sys_chunk (cx_sys x)) \<and>
     (\<forall>con. sys_fresh (cx_sys x) \<le> con \<longrightarrow> cx_rconns x con = None)"

definition ctx_inv :: "'w conn_context \<Rightarrow> bool" where
  "ctx_inv x \<longleftrightarrow> hooks_inv x \<and> objects_inv x"

text \<open>Outcomes after which R goes on.\<close>

fun continues :: "'a outcome \<Rightarrow> bool" where
  "continues (Returned v) = True"
| "continues (Jumped m) = True"
| "continues _ = False"

lemma ctx_inv_new [simp]: "ctx_inv (ConnectionContext_new Certificate_new Chunk_new w)"
  by (simp add: ctx_inv_def hooks_inv_def objects_inv_def ConnectionContext_new_def)

text \<open>States without live hooks.\<close>

definition no_hooks :: "'w conn_context \<Rightarrow> bool" where
  "no_hooks x \<longleftrightarrow> (\<forall>con rc. cx_rconns x con = Some rc \<longrightarrow> rc_priv rc = None)"

lemma no_hooks_inv: "no_hooks x \<Longrightarrow> hooks_inv x"
  by (auto simp: no_hooks_def hooks_inv_def)

lemma no_hooks_unless_joinable: "hooks_inv x \<Longrightarrow> \<not> executor_joinable x \<Longrightarrow> no_hooks x"
  by (fastforce simp: no_hooks_def hooks_inv_def)

section \<open>Controller operations and the rest of the state\<close>

lemma call_handler_sys:
  "call_handler eh m k g (\<lambda>k g. (Returned v, k, g)) = (r, k', g') \<Longrightarrow>
     sys_chunk g' = sys_chunk g \<and> sys_fresh g' = sys_fresh g \<and> k' = k"
  by (auto simp: call_handler_def split: prod.splits bool.splits)

lemma handle_start_exn_sys:
  "handle_start_exn eh e k g = (r, k', g') \<Longrightarrow>
     sys_chunk g' = sys_chunk g \<and> sys_fresh g' = sys_fresh g \<and> k' = k"
  by (auto simp: handle_start_exn_def dest: call_handler_sys split: exa_exception.splits)

lemma replace_executor_sys:
  "replace_executor env a k g = Some (k', g') \<Longrightarrow>
     sys_chunk g' = sys_chunk g \<and> sys_fresh g' = sys_fresh g"
  by (auto simp: replace_executor_def split: option.splits thread.splits)

lemma shutDown_sys:
  "shutDown env eh k g = (r, k', g') \<Longrightarrow> sys_chunk g' = sys_chunk g \<and> sys_fresh g' = sys_fresh g"
  by (auto simp: shutDown_def finish_statement_def Let_def split: option.splits prod.splits if_splits
      dest!: call_handler_sys replace_executor_sys)

lemma getCertificate_sys:
  "getCertificate env g = (r, g') \<Longrightarrow> sys_chunk g' = sys_chunk g \<and> sys_fresh g' = sys_fresh g"
  by (auto simp: getCertificate_def split: if_splits prod.splits sum.splits)

lemma createConnectionEstablisher_sys:
  "createConnectionEstablisher env eh p g = (r, g') \<Longrightarrow>
     sys_chunk g' = sys_chunk g \<and> sys_fresh g' = sys_fresh g"
  by (auto simp: createConnectionEstablisher_def dest: getCertificate_sys
      split: ProtocolType.splits prod.splits sum.splits)

lemma controller_connect_sys:
  "controller_connect env eh p host port k g = (r, k', g') \<Longrightarrow>
     sys_chunk g' = sys_chunk g \<and> sys_fresh g' = sys_fresh g"
  by (auto simp: controller_connect_def call_handler_def
      split: if_splits prod.splits outcome.splits option.splits sum.splits exa_exception.splits bool.splits
      dest!: createConnectionEstablisher_sys)

lemma start_executor_sys:
  assumes "start_executor env eh si k g = Inr (k1, g1)"
  shows "sys_chunk g1 = sys_chunk g \<and> sys_fresh g1 = sys_fresh g"
  using assms
  by (auto simp: start_executor_def Let_def split: option.splits prod.splits sum.splits
      dest: replace_executor_sys)

lemma start_executor_Inl_sys:
  assumes "start_executor env eh si k g = Inl (r, k1, g1)"
  shows "sys_chunk g1 = sys_chunk g \<and> sys_fresh g1 = sys_fresh g"
  using assms
  by (auto simp: start_executor_def Let_def split: option.splits prod.splits sum.splits
      dest!: replace_executor_sys handle_start_exn_sys)

text \<open>A start beside a running thread ends the process.\<close>

lemma start_executor_running:
  "mOdbcAsyncExecutor k = Some a \<Longrightarrow> mThread a = Joinable pc \<Longrightarrow>
     start_executor env eh si k g = Inl (Terminated, k, g)"
  by (simp add: start_executor_def replace_executor_def)

section \<open>The contract of \<^verbatim>\<open>startReading\<close> and \<^verbatim>\<open>startWriting\<close>\<close>

locale transfer_start =
  fixes start :: "controller \<Rightarrow> 'w sys \<Rightarrow> (nat option, 'w) ctl_result"
  assumes start_running: "mOdbcAsyncExecutor k = Some a \<Longrightarrow> mThread a = Joinable pc \<Longrightarrow>
      start k g = (r, k', g') \<Longrightarrow> continues r \<Longrightarrow>
      k' = k \<and> sys_chunk g' = sys_chunk g \<and> sys_fresh g' = sys_fresh g \<and> (\<forall>t. r \<noteq> Returned (Some t))"
    and start_target: "start k g = (Returned (Some t), k', g') \<Longrightarrow>
      (\<exists>a pc. mOdbcAsyncExecutor k' = Some a \<and> mThread a = Joinable pc) \<and> chunk_pos (sys_chunk g') = 0"
    and start_sys: "start k g = (r, k', g') \<Longrightarrow>
      (chunk_wf (sys_chunk g) \<longrightarrow> chunk_wf (sys_chunk g')) \<and> sys_fresh g \<le> sys_fresh g'"
begin

lemma start_preserves_objects:
  assumes "objects_inv x" and "start k (cx_sys x) = (r, k', g)"
  shows "objects_inv (x\<lparr>mConnectionController := Some k', cx_sys := g\<rparr>)"
  using assms start_sys [OF assms(2)] by (auto simp: objects_inv_def)

lemma start_preserves_hooks:
  assumes h: "hooks_inv x" and k: "mConnectionController x = Some k"
    and s: "start k (cx_sys x) = (r, k', g)" and c: "continues r"
  shows "hooks_inv (x\<lparr>mConnectionController := Some k', cx_sys := g\<rparr>) \<and>
    (\<forall>t. r = Returned (Some t) \<longrightarrow> no_hooks x)"
proof (cases "executor_joinable x")
  case True
  then obtain a pc where a: "mOdbcAsyncExecutor k = Some a" "mThread a = Joinable pc"
    using k by (auto simp: executor_joinable_def)
  note same = start_running [OF a s c]
  have "executor_joinable (x\<lparr>mConnectionController := Some k', cx_sys := g\<rparr>)"
    using a same by (auto simp: executor_joinable_def)
  then show ?thesis
    using h same by (auto simp: hooks_inv_def)
next
  case False
  then have "no_hooks x" using no_hooks_unless_joinable [OF h] by blast
  then show ?thesis by (auto intro!: no_hooks_inv simp: no_hooks_def)
qed

end

text \<open>Creating the R connection for a started transfer, in a state without live hooks.\<close>

lemma install_connection_inv:
  assumes o: "objects_inv x" and n: "no_hooks x" and j: "executor_joinable x"
    and p: "chunk_pos (sys_chunk (cx_sys x)) = 0"
    and i: "install_connection kind target x = (r, x')"
  shows "ctx_inv x' \<and> (\<exists>con. r = Returned (Some con))"
proof -
  have free: "cx_rconns x con = None" if "sys_fresh (cx_sys x) \<le> con" for con
    using o that by (auto simp: objects_inv_def)
  let ?f = "sys_fresh (cx_sys x)"
  define rc where "rc = \<lparr>rc_mode = (if kind = ReaderConn then ''r'' else ''w''), rc_isopen = True,
      rc_blocking = True, rc_canread = (kind = ReaderConn), rc_canwrite = (kind = WriterConn),
      rc_save = - 1000, rc_kind = kind, rc_priv = Some ?f\<rparr>"
  have rc: "rc_kind rc = kind" "rc_priv rc = Some ?f"
    by (simp_all add: rc_def)
  have "x' = x\<lparr>cx_sys := (cx_sys x)\<lparr>sys_fresh := ?f + 2\<rparr>,
        mConnection := Some ((RConnection_new kind ?f target)\<lparr>ro_mConn := Some (?f + 1)\<rparr>),
        cx_rconns := (cx_rconns x)(?f + 1 := Some rc)\<rparr> \<and> r = Returned (Some (?f + 1))"
    using i by (cases kind) (auto simp: rc_def install_connection_def Let_def RReaderConnection_create_def
        RWriterConnection_create_def storeConnectionHook_def RConnection_new_def)
  then have x': "x' = x\<lparr>cx_sys := (cx_sys x)\<lparr>sys_fresh := ?f + 2\<rparr>,
        mConnection := Some ((RConnection_new kind ?f target)\<lparr>ro_mConn := Some (?f + 1)\<rparr>),
        cx_rconns := (cx_rconns x)(?f + 1 := Some rc)\<rparr>" and r: "r = Returned (Some (?f + 1))"
    by blast+
  have "executor_joinable x'"
    using j by (simp add: x' executor_joinable_def)
  then have "hooks_inv x'"
    using n p rc by (auto simp: hooks_inv_def x' no_hooks_def RConnection_new_def split: if_splits)
  moreover have "objects_inv x'"
    using o free by (auto simp: objects_inv_def x')
  ultimately show ?thesis using r by (simp add: ctx_inv_def)
qed

context transfer_start
begin

lemma create_connection_inv:
  assumes inv: "ctx_inv x" and c: "create_connection kind start x = (r, x')" and ok: "continues r"
  shows "ctx_inv x'"
proof (cases "mConnectionController x")
  case None
  then show ?thesis using inv c by (simp add: create_connection_def)
next
  case (Some k)
  obtain r1 k' g where s: "start k (cx_sys x) = (r1, k', g)" by (metis prod_cases3)
  define x1 where "x1 = x\<lparr>mConnectionController := Some k', cx_sys := g\<rparr>"
  have o: "objects_inv x1"
    using start_preserves_objects [OF _ s] inv by (simp add: ctx_inv_def x1_def)
  have cont: "continues r1"
    using c ok Some s by (cases r1) (auto simp: create_connection_def Let_def)
  have h: "hooks_inv x1" "\<forall>t. r1 = Returned (Some t) \<longrightarrow> no_hooks x"
    using start_preserves_hooks [OF _ Some s cont] inv by (auto simp: ctx_inv_def x1_def)
  show ?thesis
  proof (cases "\<exists>t. r1 = Returned (Some t)")
    case True
    then obtain t where t: "r1 = Returned (Some t)" by blast
    have "install_connection kind t x1 = (r, x')"
      using c Some s t by (simp add: create_connection_def Let_def x1_def)
    moreover have "no_hooks x1" "executor_joinable x1" "chunk_pos (sys_chunk (cx_sys x1)) = 0"
      using h(2) t start_target [OF s [unfolded t]]
      by (auto simp: x1_def no_hooks_def executor_joinable_def)
    ultimately show ?thesis using install_connection_inv [OF o] by blast
  next
    case False
    then have "x' = x1"
      using c Some s by (auto simp: create_connection_def Let_def x1_def split: outcome.splits option.splits)
    then show ?thesis using o h by (simp add: ctx_inv_def)
  qed
qed

end

text \<open>Both operations of the controller keep the contract.\<close>

lemma createHttpReader_sys:
  "createHttpReader g = (rd, g') \<Longrightarrow> chunk_wf (sys_chunk g') \<and> chunk_pos (sys_chunk g') = 0 \<and>
     sys_fresh g \<le> sys_fresh g'"
  by (auto simp: createHttpReader_def HttpChunkReader_new_def Chunk_reset_def chunk_wf_def)

lemma createHttpWriter_sys:
  "createHttpWriter g = (wr, g') \<Longrightarrow> chunk_wf (sys_chunk g') \<and> chunk_pos (sys_chunk g') = 0 \<and>
     sys_fresh g \<le> sys_fresh g'"
  by (auto simp: createHttpWriter_def HttpChunkWriter_new_def Chunk_reset_def chunk_wf_def)

lemma startReading_sys:
  assumes "startReading env eh si k g = (r, k', g')"
  shows "(chunk_wf (sys_chunk g) \<longrightarrow> chunk_wf (sys_chunk g')) \<and> sys_fresh g \<le> sys_fresh g'"
  using assms
  by (auto simp: startReading_def Let_def split: option.splits sum.splits prod.splits
      dest!: call_handler_sys start_executor_sys start_executor_Inl_sys handle_start_exn_sys createHttpReader_sys)

lemma startWriting_sys:
  assumes "startWriting env eh si k g = (r, k', g')"
  shows "(chunk_wf (sys_chunk g) \<longrightarrow> chunk_wf (sys_chunk g')) \<and> sys_fresh g \<le> sys_fresh g'"
  using assms
  by (auto simp: startWriting_def Let_def split: option.splits sum.splits prod.splits
      dest!: call_handler_sys start_executor_sys start_executor_Inl_sys handle_start_exn_sys createHttpWriter_sys)

lemma startReading_running:
  assumes "mOdbcAsyncExecutor k = Some a" and "mThread a = Joinable pc"
    and "startReading env eh si k g = (r, k', g')" and "continues r"
  shows "k' = k \<and> sys_chunk g' = sys_chunk g \<and> sys_fresh g' = sys_fresh g \<and> (\<forall>t. r \<noteq> Returned (Some t))"
  using assms(3,4)
  by (auto simp: startReading_def start_executor_running [OF assms(1,2)] call_handler_def
      split: option.splits prod.splits bool.splits)

lemma startWriting_running:
  assumes "mOdbcAsyncExecutor k = Some a" and "mThread a = Joinable pc"
    and "startWriting env eh si k g = (r, k', g')" and "continues r"
  shows "k' = k \<and> sys_chunk g' = sys_chunk g \<and> sys_fresh g' = sys_fresh g \<and> (\<forall>t. r \<noteq> Returned (Some t))"
  using assms(3,4)
  by (auto simp: startWriting_def start_executor_running [OF assms(1,2)] call_handler_def
      split: option.splits prod.splits bool.splits)

lemma handle_start_exn_none: "handle_start_exn eh e k g \<noteq> (Returned (Some t), k', g')"
  by (auto simp: handle_start_exn_def call_handler_def split: exa_exception.splits prod.splits bool.splits)

lemma startReading_chunk:
  assumes "startReading env eh si k g = (Returned (Some t), k', g')"
  shows "chunk_pos (sys_chunk g') = 0"
  using assms
  by (auto simp: handle_start_exn_none startReading_def Let_def start_executor_def call_handler_def
      split: option.splits sum.splits prod.splits bool.splits dest!: createHttpReader_sys)

lemma startWriting_chunk:
  assumes "startWriting env eh si k g = (Returned (Some t), k', g')"
  shows "chunk_pos (sys_chunk g') = 0"
  using assms
  by (auto simp: handle_start_exn_none startWriting_def Let_def start_executor_def call_handler_def
      split: option.splits sum.splits prod.splits bool.splits dest!: createHttpWriter_sys)

interpretation reading: transfer_start "startReading env eh si" for env :: "'w env" and eh si
proof unfold_locales
  fix k k' :: controller and g g' :: "'w sys" and t
  assume a: "startReading env eh si k g = (Returned (Some t), k', g')"
  show "(\<exists>a pc. mOdbcAsyncExecutor k' = Some a \<and> mThread a = Joinable pc) \<and> chunk_pos (sys_chunk g') = 0"
    using startReading_returns_reader [OF a] startReading_chunk [OF a] by (auto simp: ctl_started_def)
qed (fact startReading_running, fact startReading_sys)

interpretation writing: transfer_start "startWriting env eh si" for env :: "'w env" and eh si
proof unfold_locales
  fix k k' :: controller and g g' :: "'w sys" and t
  assume a: "startWriting env eh si k g = (Returned (Some t), k', g')"
  show "(\<exists>a pc. mOdbcAsyncExecutor k' = Some a \<and> mThread a = Joinable pc) \<and> chunk_pos (sys_chunk g') = 0"
    using startWriting_returns_writer [OF a] startWriting_chunk [OF a] by (auto simp: ctl_started_def)
qed (fact startWriting_running, fact startWriting_sys)

section \<open>Closing and connecting\<close>

text \<open>Releasing the current connection clears the only live hook.\<close>

lemma release_clears:
  assumes "ctx_inv x" and "mConnection x = Some ro"
  shows "\<exists>rcs. RConnection_release ro (cx_rconns x) = Some rcs \<and>
    no_hooks (x\<lparr>cx_rconns := rcs\<rparr>) \<and> objects_inv (x\<lparr>cx_rconns := rcs\<rparr>)"
proof -
  obtain con rc where con: "ro_mConn ro = Some con" "cx_rconns x con = Some rc"
    using assms by (auto simp: ctx_inv_def objects_inv_def)
  have "rc_priv rc' = None" if "cx_rconns x c = Some rc'" "c \<noteq> con" for c rc'
    using that assms con(1) by (cases "rc_priv rc'") (auto simp: ctx_inv_def hooks_inv_def)
  then show ?thesis
    using con assms by (auto simp: RConnection_release_def storeConnectionHook_def no_hooks_def
        ctx_inv_def objects_inv_def)
qed

lemma no_connection_no_hooks: "hooks_inv x \<Longrightarrow> mConnection x = None \<Longrightarrow> no_hooks x"
  unfolding no_hooks_def hooks_inv_def by (metis option.distinct(1) option.exhaust)

lemma destroyConnection_inv:
  assumes inv: "ctx_inv x" and d: "destroyConnection env chk x = (r, x')" and c: "continues r"
  shows "ctx_inv x' \<and> no_hooks x' \<and> (\<forall>v. r = Returned v \<longrightarrow> mConnection x' = None \<and> mConnectionController x' = None)"
proof -
  obtain rcs where rel: "(case mConnection x of None \<Rightarrow> Some (cx_rconns x)
        | Some ro \<Rightarrow> RConnection_release ro (cx_rconns x)) = Some rcs"
      "no_hooks (x\<lparr>cx_rconns := rcs\<rparr>)" "objects_inv (x\<lparr>cx_rconns := rcs\<rparr>)"
    using release_clears [OF inv] no_connection_no_hooks inv
    by (cases "mConnection x") (auto simp: ctx_inv_def)
  have "no_hooks x' \<and> objects_inv x' \<and>
      (\<forall>v. r = Returned v \<longrightarrow> mConnection x' = None \<and> mConnectionController x' = None)"
    using d c rel
    by (auto simp: destroyConnection_def Let_def no_hooks_def objects_inv_def
        split: option.splits prod.splits outcome.splits if_splits dest: shutDown_sys)
  then show ?thesis by (simp add: ctx_inv_def no_hooks_inv)
qed

lemma initConnection_inv:
  assumes inv: "ctx_inv x" and i: "initConnection env host port protocol x = (r, x')" and c: "continues r"
  shows "ctx_inv x'"
proof -
  obtain r1 x1 where d: "destroyConnection env False x = (r1, x1)" by fastforce
  have c1: "continues r1"
    using i c d by (cases r1) (auto simp: initConnection_def)
  note post = destroyConnection_inv [OF inv d c1]
  then have "no_hooks x' \<and> objects_inv x'"
    using i c d c1
    by (auto simp: initConnection_def Let_def no_hooks_def objects_inv_def ctx_inv_def
        split: outcome.splits option.splits prod.splits dest!: controller_connect_sys)
  then show ?thesis by (simp add: ctx_inv_def no_hooks_inv)
qed

section \<open>Callbacks\<close>

text \<open>R only calls the callbacks installed on a connection it holds.\<close>

definition has_conn :: "conn_kind \<Rightarrow> nat \<Rightarrow> 'w conn_context \<Rightarrow> bool" where
  "has_conn kind con x \<longleftrightarrow> (\<exists>rc. cx_rconns x con = Some rc \<and> rc_kind rc = kind)"

lemma lock_hook_safe:
  assumes "ctx_inv x" and "has_conn kind con x"
  shows "\<exists>ko. lock_hook kind con x = Some ko \<and>
    (\<forall>k. ko = Some k \<longrightarrow> mConnectionController x = Some k \<and>
       (\<exists>ro. mConnection x = Some ro \<and> ro_kind ro = kind) \<and>
       (kind = WriterConn \<longrightarrow> chunk_pos (sys_chunk (cx_sys x)) = 0))"
proof -
  obtain rc where rc: "cx_rconns x con = Some rc" "rc_kind rc = kind"
    using assms(2) by (auto simp: has_conn_def)
  show ?thesis
  proof (cases "rc_priv rc")
    case None
    then show ?thesis using rc by (simp add: lock_hook_def getConnectionHook_def)
  next
    case (Some oid)
    then obtain ro where ro: "mConnection x = Some ro" "ro_id ro = oid" "ro_kind ro = kind"
        "kind = WriterConn \<longrightarrow> chunk_pos (sys_chunk (cx_sys x)) = 0"
      using assms(1) rc by (fastforce simp: ctx_inv_def hooks_inv_def)
    then show ?thesis
      using rc Some by (auto simp: lock_hook_def getConnectionHook_def split: option.splits if_splits)
  qed
qed

lemma put_transfer_inv:
  assumes inv: "ctx_inv x" and k: "mConnectionController x = Some k" and wf: "chunk_wf c"
    and ro: "mConnection x = Some ro" and w: "ro_kind ro = WriterConn \<longrightarrow> chunk_pos c = 0"
  shows "ctx_inv (put_transfer k c so x)"
proof -
  have "executor_joinable (put_transfer k c so x) = executor_joinable x"
    using k by (auto simp: executor_joinable_def put_transfer_def split: option.splits)
  moreover have "cx_rconns (put_transfer k c so x) = cx_rconns x"
    "mConnection (put_transfer k c so x) = mConnection x" "sys_chunk (cx_sys (put_transfer k c so x)) = c"
    "sys_fresh (cx_sys (put_transfer k c so x)) = sys_fresh (cx_sys x)"
    by (simp_all add: put_transfer_def)
  ultimately show ?thesis
    using inv wf ro w by (auto simp: ctx_inv_def hooks_inv_def objects_inv_def)
qed

lemma ctl_socket_ok: "env_ok env ni no si so \<Longrightarrow> \<forall>s. ctl_socket k g = Some s \<longrightarrow> env_ok env ni no si so"
  by simp

lemma rcon_pipe_read_safe:
  assumes e: "env_ok env ni no si so" and inv: "ctx_inv x" and h: "has_conn ReaderConn con x"
  shows "\<exists>v bs x'. rcon_pipe_read env sz nitems con x = (Returned (v, bs), x') \<and> ctx_inv x' \<and>
    length bs \<le> size_mul sz nitems"
proof -
  obtain ko where ko: "lock_hook ReaderConn con x = Some ko"
    "\<forall>k. ko = Some k \<longrightarrow> mConnectionController x = Some k \<and> (\<exists>ro. mConnection x = Some ro \<and> ro_kind ro = ReaderConn)"
    using lock_hook_safe [OF inv h] by auto
  show ?thesis
  proof (cases ko)
    case None
    then show ?thesis using ko(1) inv by (simp add: rcon_pipe_read_def)
  next
    case (Some k)
    obtain r bs c' so' where "reader_pipe_read (obj_socket env) (sys_chunk (cx_sys x))
        (ctl_socket k (cx_sys x)) sz nitems = Some (r, bs, c', so')" "chunk_wf c'" "length bs \<le> size_mul sz nitems"
      using obj.reader_pipe_read_safe [OF ctl_socket_ok [OF e], of "sys_chunk (cx_sys x)" k "cx_sys x" sz nitems]
        inv by (auto simp: ctx_inv_def objects_inv_def)
    then show ?thesis
      using ko Some put_transfer_inv [OF inv, of k c'] by (auto simp: rcon_pipe_read_def)
  qed
qed

lemma file_fgetc_internal_safe:
  assumes e: "env_ok env ni no si so" and inv: "ctx_inv x" and h: "has_conn ReaderConn con x"
  shows "\<exists>v x'. file_fgetc_internal env con x = (Returned v, x') \<and> ctx_inv x'"
proof -
  obtain ko where ko: "lock_hook ReaderConn con x = Some ko"
    "\<forall>k. ko = Some k \<longrightarrow> mConnectionController x = Some k \<and> (\<exists>ro. mConnection x = Some ro \<and> ro_kind ro = ReaderConn)"
    using lock_hook_safe [OF inv h] by auto
  show ?thesis
  proof (cases ko)
    case None
    then show ?thesis using ko(1) inv by (simp add: file_fgetc_internal_def)
  next
    case (Some k)
    obtain r c' so' where "reader_fgetc (obj_socket env) (sys_chunk (cx_sys x))
        (ctl_socket k (cx_sys x)) = Some (r, c', so')" "chunk_wf c'"
      using obj.reader_fgetc_safe [OF ctl_socket_ok [OF e], of "sys_chunk (cx_sys x)" k "cx_sys x"]
        inv by (auto simp: ctx_inv_def objects_inv_def)
    then show ?thesis
      using ko Some put_transfer_inv [OF inv, of k c'] by (auto simp: file_fgetc_internal_def)
  qed
qed

lemma rcon_pipe_write_safe:
  assumes e: "env_ok env ni no si so" and inv: "ctx_inv x" and h: "has_conn WriterConn con x"
    and l: "length src = size_mul sz nitems"
  shows "\<exists>v x'. rcon_pipe_write env src sz nitems con x = (Returned v, x') \<and> ctx_inv x'"
proof -
  obtain ko where ko: "lock_hook WriterConn con x = Some ko"
    "\<forall>k. ko = Some k \<longrightarrow> mConnectionController x = Some k \<and> (\<exists>ro. mConnection x = Some ro \<and> ro_kind ro = WriterConn) \<and>
       chunk_pos (sys_chunk (cx_sys x)) = 0"
    using lock_hook_safe [OF inv h] by auto
  show ?thesis
  proof (cases ko)
    case None
    then show ?thesis using ko(1) inv by (simp add: rcon_pipe_write_def)
  next
    case (Some k)
    then have "writer_wf (sys_chunk (cx_sys x))"
      using ko(2) inv by (auto simp: writer_wf_def ctx_inv_def objects_inv_def)
    then obtain r c' so' where "writer_pipe_write (obj_socket env) (sys_chunk (cx_sys x))
        (ctl_socket k (cx_sys x)) src sz nitems = Some (r, c', so')" "writer_wf c'"
      using obj.writer_pipe_write_safe [OF ctl_socket_ok [OF e] _ l, of "sys_chunk (cx_sys x)" k "cx_sys x"]
      by auto
    then show ?thesis
      using ko Some put_transfer_inv [OF inv, of k c'] by (auto simp: rcon_pipe_write_def writer_wf_def)
  qed
qed

lemma rcon_pipe_fflush_safe:
  assumes e: "env_ok env ni no si so" and inv: "ctx_inv x" and h: "has_conn WriterConn con x"
  shows "\<exists>v x'. rcon_pipe_fflush env con x = (Returned v, x') \<and> ctx_inv x'"
proof -
  obtain ko where ko: "lock_hook WriterConn con x = Some ko"
    "\<forall>k. ko = Some k \<longrightarrow> mConnectionController x = Some k \<and> (\<exists>ro. mConnection x = Some ro \<and> ro_kind ro = WriterConn) \<and>
       chunk_pos (sys_chunk (cx_sys x)) = 0"
    using lock_hook_safe [OF inv h] by auto
  show ?thesis
  proof (cases ko)
    case None
    then show ?thesis using ko(1) inv by (simp add: rcon_pipe_fflush_def)
  next
    case (Some k)
    then have "writer_wf (sys_chunk (cx_sys x))"
      using ko(2) inv by (auto simp: writer_wf_def ctx_inv_def objects_inv_def)
    then obtain r c' so' where "writer_pipe_fflush (obj_socket env) (sys_chunk (cx_sys x))
        (ctl_socket k (cx_sys x)) = Some (r, c', so')" "writer_wf c'"
      using obj.writer_pipe_fflush_safe [OF ctl_socket_ok [OF e], of "sys_chunk (cx_sys x)" k "cx_sys x"]
      by auto
    then show ?thesis
      using ko Some put_transfer_inv [OF inv, of k c'] by (auto simp: rcon_pipe_fflush_def writer_wf_def)
  qed
qed

section \<open>Runs of the library\<close>

text \<open>The background thread between the calls touches neither the hooks nor the buffer, and stays joinable.\<close>

lemma background_inv:
  assumes "ctx_inv x"
  shows "ctx_inv (background env n x)"
proof (cases "mConnectionController x")
  case None
  then show ?thesis using assms by (simp add: background_def)
next
  case (Some k)
  obtain k' w' where r: "background_run env n k (sys_w (cx_sys x)) = (k', w')" by fastforce
  have "executor_joinable x \<Longrightarrow> executor_joinable (background env n x)"
    using background_run_joinable [OF _ _ r] Some by (auto simp: executor_joinable_def background_def r)
  then show ?thesis
    using assms Some by (auto simp: ctx_inv_def hooks_inv_def objects_inv_def background_def r)
qed

text \<open>Everything R can do: call an entry point with any arguments, or a callback installed on
  a connection it was given; and between the calls the background thread goes on.\<close>

inductive lib_step :: "'w env \<Rightarrow> 'w conn_context \<Rightarrow> 'w conn_context \<Rightarrow> bool" for env where
  io_start: "asyncRODBCIOStart env host port protocol x = (r, x') \<Longrightarrow> continues r \<Longrightarrow> lib_step env x x'"
| query_start: "asyncRODBCQueryStart env rodbc q writer x = (r, x') \<Longrightarrow> continues r \<Longrightarrow> lib_step env x x'"
| query_finish: "asyncRODBCQueryFinish env chk x = (r, x') \<Longrightarrow> continues r \<Longrightarrow> lib_step env x x'"
| cb_read: "has_conn ReaderConn con x \<Longrightarrow> rcon_pipe_read env sz nitems con x = (r, x') \<Longrightarrow>
    continues r \<Longrightarrow> lib_step env x x'"
| cb_fgetc: "has_conn ReaderConn con x \<Longrightarrow> file_fgetc_internal env con x = (i, x') \<Longrightarrow>
    continues i \<Longrightarrow> lib_step env x x'"
| cb_write: "has_conn WriterConn con x \<Longrightarrow> length src = size_mul sz nitems \<Longrightarrow>
    rcon_pipe_write env src sz nitems con x = (n, x') \<Longrightarrow> continues n \<Longrightarrow> lib_step env x x'"
| cb_fflush: "has_conn WriterConn con x \<Longrightarrow> rcon_pipe_fflush env con x = (i, x') \<Longrightarrow>
    continues i \<Longrightarrow> lib_step env x x'"
| background: "lib_step env x (background env n x)"

inductive lib_reachable :: "'w env \<Rightarrow> 'w \<Rightarrow> 'w conn_context \<Rightarrow> bool" for env w where
  start: "lib_reachable env w (ConnectionContext_new Certificate_new Chunk_new w)"
| step: "lib_reachable env w x \<Longrightarrow> lib_step env x x' \<Longrightarrow> lib_reachable env w x'"

lemma continues_map [simp]: "continues (map_outcome f r) = continues r"
  by (cases r) simp_all

lemma asyncRODBCQueryStart_inv:
  assumes "ctx_inv x" and "asyncRODBCQueryStart env rodbc q writer x = (r, x')" and "continues r"
  shows "ctx_inv x'"
  using assms reading.create_connection_inv [OF assms(1)] writing.create_connection_inv [OF assms(1)]
  by (auto simp: asyncRODBCQueryStart_def Let_def createReadConnection_def createWriteConnection_def
      ctx_inv_def hooks_inv_def objects_inv_def executor_joinable_def split: option.splits prod.splits if_splits)

lemma lib_step_inv:
  assumes "env_ok env ni no si so" and "lib_step env x x'" and "ctx_inv x"
  shows "ctx_inv x'"
  using assms(2)
proof cases
  case (io_start host port protocol r)
  then show ?thesis
    using initConnection_inv [OF assms(3)] by (auto simp: asyncRODBCIOStart_def split: prod.splits)
next
  case (query_start rodbc q writer r)
  then show ?thesis using asyncRODBCQueryStart_inv [OF assms(3)] by blast
next
  case (query_finish chk r)
  then show ?thesis
    using destroyConnection_inv [OF assms(3)] by (auto simp: asyncRODBCQueryFinish_def split: prod.splits)
next
  case (cb_read con sz nitems r)
  then show ?thesis using rcon_pipe_read_safe [OF assms(1,3) cb_read(1), of sz nitems] by auto
next
  case (cb_fgetc con i)
  then show ?thesis using file_fgetc_internal_safe [OF assms(1,3) cb_fgetc(1)] by auto
next
  case (cb_write con src sz nitems n)
  then show ?thesis using rcon_pipe_write_safe [OF assms(1,3) cb_write(1,2)] by auto
next
  case (cb_fflush con i)
  then show ?thesis using rcon_pipe_fflush_safe [OF assms(1,3) cb_fflush(1)] by auto
next
  case (background n)
  then show ?thesis using background_inv [OF assms(3)] by simp
qed

lemma lib_reachable_inv: "env_ok env ni no si so \<Longrightarrow> lib_reachable env w x \<Longrightarrow> ctx_inv x"
  by (rotate_tac, induction rule: lib_reachable.induct) (auto dest: lib_step_inv)

end
