(* ===== verification/Http_Writer_Complete.thy ===== *)
theory Http_Writer_Complete
  imports Connection_Establisher
begin

text \<open>
  The writer over a connection that carries every buffer it is given: no operation reports a
  failure.  Together with \<open>Http_Writer_Stream\<close>, which says what was sent when all calls
  report success, this makes the transfer of a sequence of writes total.
\<close>

context reliable_socket
begin

lemma send_all_complete:
  assumes "valid s" and "0 < length bs" and "length bs < 2 ^ 31"
  obtains s' where "send_all sock bs s = (True, s')" and "valid s'"
  using send_complete [OF assms] send_valid [OF assms(1)] that
  by (cases "sk_send sock bs s") (auto simp: send_all_def)

lemma write_next_chunk_complete:
  assumes v: "valid s" and c: "writer_wf c" and l: "0 < chunk_len c"
  shows "\<exists>c' s'. write_next_chunk sock c (Some s) = Some (int (chunk_len c), c', Some s') \<and> valid s' \<and>
    writer_wf c' \<and> chunk_len c' = 0"
proof -
  have m: "chunk_len c \<le> MAX_HTTP_CHUNK_SIZE" "chunk_len c < 2 ^ 31" "length (chunk_buf c) = MAX_HTTP_CHUNK_SIZE"
    using c by (auto simp: writer_wf_def chunk_wf_def MAX_HTTP_CHUNK_SIZE_def)
  have h: "0 < length writer_ok_answer" "length writer_ok_answer < 2 ^ 31" by (simp_all add: writer_ok_answer_def)
  obtain s1 where 1: "(if chunk_num c = 0 then send_all sock writer_ok_answer s else (True, s)) = (True, s1)" "valid s1"
  proof (cases "chunk_num c = 0")
    case True
    obtain s' where "send_all sock writer_ok_answer s = (True, s')" "valid s'" by (rule send_all_complete [OF v h])
    with True that show thesis by simp
  qed (use v that in simp)
  have bs: "buf_read (chunk_buf c) 0 (chunk_len c) = Some (take (chunk_len c) (chunk_buf c))"
    using m by (simp add: buf_read_def)
  obtain s2 where 2: "send_all sock (take (chunk_len c) (chunk_buf c)) s1 = (True, s2)" "valid s2"
    using send_all_complete [OF 1(2), of "take (chunk_len c) (chunk_buf c)"] l m by auto
  have "ssize_t_of (chunk_len c) = int (chunk_len c)" using m(2) by (simp add: ssize_t_of_def)
  then show ?thesis
    using 1 2 l c m by (auto simp: write_next_chunk_def Let_def bs writer_wf_def chunk_wf_def)
qed

lemma pipe_write_loop_complete:
  assumes "valid s" and "writer_wf c" and "length src = len" and "rest = MAX_HTTP_CHUNK_SIZE - chunk_len c"
  shows "\<exists>r c' s'. pipe_write_loop sock c (Some s) src len rest = Some (r, c', Some s') \<and> r \<le> MAX_HTTP_CHUNK_SIZE \<and>
    valid s' \<and> writer_wf c'"
  using assms
proof (induction "2 * len + (if rest = 0 then 1 else 0)" arbitrary: c s src len rest rule: less_induct)
  case less
  have le: "chunk_len c \<le> MAX_HTTP_CHUNK_SIZE" using less.prems(2) by (simp add: writer_wf_def chunk_wf_def)
  show ?case
  proof (cases "len \<le> rest")
    case True
    then have "chunk_len c + length src \<le> MAX_HTTP_CHUNK_SIZE" using less.prems(3,4) le by simp
    then obtain b where "buf_write (chunk_buf c) (chunk_len c) src = Some b"
        "writer_wf (c\<lparr>chunk_buf := b, chunk_len := chunk_len c + length src\<rparr>)"
      using chunk_append [OF less.prems(2)] by blast
    then show ?thesis using True less.prems by (subst pipe_write_loop.simps) (simp add: buf_read_def)
  next
    case False
    have len: "chunk_len c + length (take rest src) \<le> MAX_HTTP_CHUNK_SIZE" "length (take rest src) = rest"
      using less.prems(3,4) le False by simp_all
    obtain b where b: "buf_write (chunk_buf c) (chunk_len c) (take rest src) = Some b"
        "writer_wf (c\<lparr>chunk_buf := b, chunk_len := chunk_len c + rest\<rparr>)"
      using chunk_append [OF less.prems(2) len(1)] len(2) by metis
    define c1 where "c1 = (if 0 < rest then c\<lparr>chunk_buf := b, chunk_len := chunk_len c + rest\<rparr> else c)"
    have wf1: "writer_wf c1" "chunk_len c1 = MAX_HTTP_CHUNK_SIZE" using b(2) less.prems(2,4) le by (auto simp: c1_def)
    then obtain c2 s2 where w: "write_next_chunk sock c1 (Some s) = Some (int (chunk_len c1), c2, Some s2)" "valid s2"
        "writer_wf c2" "chunk_len c2 = 0"
      using write_next_chunk_complete [OF less.prems(1), of c1] by (auto simp: MAX_HTTP_CHUNK_SIZE_def)
    have room: "size_sub MAX_HTTP_CHUNK_SIZE (chunk_len c2) = MAX_HTTP_CHUNK_SIZE - chunk_len c2"
      using w(3) by (intro size_sub_room) (simp add: writer_wf_def)
    have unf: "pipe_write_loop sock c (Some s) src len rest =
        pipe_write_loop sock c2 (Some s2) (drop rest src) (len - rest) (MAX_HTTP_CHUNK_SIZE - chunk_len c2)"
      using False less.prems(3) b(1) w(1) by (subst pipe_write_loop.simps)
        (auto simp: buf_read_def c1_def room [symmetric])
    have "2 * (len - rest) + (if MAX_HTTP_CHUNK_SIZE - chunk_len c2 = 0 then 1 else 0)
        < 2 * len + (if rest = 0 then 1 else 0)"
      using False by (auto simp: w(4) MAX_HTTP_CHUNK_SIZE_def)
    from less.hyps [OF this w(2,3), of "drop rest src"] less.prems(3) unf show ?thesis by simp
  qed
qed

lemma writer_pipe_write_complete:
  assumes "valid s" and "writer_wf c" and "length src = size_mul sz nitems"
  shows "\<exists>r c' s'. writer_pipe_write sock c (Some s) src sz nitems = Some (r, c', Some s') \<and> r \<noteq> size_t_of (- 1) \<and>
    valid s' \<and> writer_wf c'"
proof -
  obtain r c' s' where w: "pipe_write_loop sock c (Some s) src (size_mul sz nitems) (MAX_HTTP_CHUNK_SIZE - chunk_len c) =
      Some (r, c', Some s')" "r \<le> MAX_HTTP_CHUNK_SIZE" "valid s'" "writer_wf c'"
    using pipe_write_loop_complete [OF assms refl] by blast
  have "r \<noteq> size_t_of (- 1)" using w(2) by (simp add: size_t_of_def MAX_HTTP_CHUNK_SIZE_def)
  moreover have "chunk_wf c" using assms(2) by (simp add: writer_wf_def)
  ultimately show ?thesis using w by (simp add: writer_pipe_write_def size_sub_room)
qed

lemma writer_pipe_fflush_complete:
  assumes "valid s" and "writer_wf c"
  shows "\<exists>c' s'. writer_pipe_fflush sock c (Some s) = Some (0, c', Some s') \<and> valid s'"
  using write_next_chunk_complete [OF assms] assms(1) by (fastforce simp: writer_pipe_fflush_def)

end

section \<open>The library's sockets\<close>

text \<open>Sends that carry the whole buffer, on every descriptor and on the TLS session.\<close>

definition sends_complete :: "'w env \<Rightarrow> bool" where
  "sends_complete env \<longleftrightarrow>
     (\<forall>fd bs w. 0 < length bs \<longrightarrow> length bs < 2 ^ 31 \<longrightarrow>
        fst (posix_send (env_posix env) fd bs w) = int (length bs)) \<and>
     (\<forall>bs w. 0 < length bs \<longrightarrow> length bs < 2 ^ 31 \<longrightarrow>
        fst (api_SSL_write (env_ssl env) (int (length bs)) bs w) = int (length bs))"

lemma obj_send_complete:
  assumes "sends_complete env" and "0 < length bs" and "length bs < 2 ^ 31"
  shows "fst (obj_send env bs s) = int (length bs)"
proof -
  obtain o' w where s: "s = (o', w)" by fastforce
  have "c_int (int (length bs)) = int (length bs)" using assms(3) by (simp add: c_int_id)
  moreover have "fst (posix_send (env_posix env) fd bs w) = int (length bs)" for fd
    using assms unfolding sends_complete_def by blast
  moreover have "fst (api_SSL_write (env_ssl env) (int (length bs)) bs w) = int (length bs)"
    using assms unfolding sends_complete_def by blast
  ultimately show ?thesis
    by (cases o') (simp_all add: s SocketImpl_send_def SSLSocketImpl_send_def case_prod_unfold)
qed

interpretation sending: reliable_socket "obj_socket env" "\<lambda>_. env_ok env ni no si so \<and> sends_complete env"
  "obj_bytes ni si" "obj_bytes no so" for env :: "'w env" and ni no si so
proof unfold_locales
  fix n :: nat and s :: "sock_obj \<times> 'w"
  assume "env_ok env ni no si so \<and> sends_complete env" "n < 2 ^ 31"
  then show "sk_recv (obj_socket env) n s \<noteq> None" using obj.recv_defined by blast
next
  fix n :: nat and s :: "sock_obj \<times> 'w" and r bs s'
  assume "env_ok env ni no si so \<and> sends_complete env" "n < 2 ^ 31"
    "sk_recv (obj_socket env) n s = Some ((r, bs), s')"
  then show "- 1 \<le> r \<and> r \<le> int n \<and> length bs \<le> n \<and> (0 \<le> r \<longrightarrow> length bs = nat r)"
    using obj.recv_range by blast
next
  fix n :: nat and s :: "sock_obj \<times> 'w"
  assume "env_ok env ni no si so \<and> sends_complete env" "0 < n" "n < 2 ^ 31" "n \<le> length (obj_bytes ni si s)"
  then show "\<exists>s'. sk_recv (obj_socket env) n s = Some ((int n, take n (obj_bytes ni si s)), s') \<and>
      obj_bytes ni si s' = drop n (obj_bytes ni si s) \<and> obj_bytes no so s' = obj_bytes no so s"
    using obj.recv_stream by blast
next
  fix n :: nat and s :: "sock_obj \<times> 'w" and r bs s'
  assume "env_ok env ni no si so \<and> sends_complete env" "obj_bytes ni si s = []" "0 < n" "n < 2 ^ 31"
    "sk_recv (obj_socket env) n s = Some ((r, bs), s')"
  then show "r \<le> 0" using obj.recv_empty by blast
next
  fix s :: "sock_obj \<times> 'w" and bs r s'
  assume "env_ok env ni no si so \<and> sends_complete env" "sk_send (obj_socket env) bs s = (r, s')" "r = int (length bs)"
  then show "obj_bytes ni si s' = obj_bytes ni si s \<and> obj_bytes no so s' = obj_bytes no so s @ bs"
    using obj.send_stream by blast
next
  fix s :: "sock_obj \<times> 'w" and bs :: "char list"
  assume "env_ok env ni no si so \<and> sends_complete env" "0 < length bs" "length bs < 2 ^ 31"
  then show "fst (sk_send (obj_socket env) bs s) = int (length bs)" by (simp add: obj_send_complete)
qed

end
