(* ===== verification/Loopback.thy ===== *)
theory Loopback
  imports Shutdown_Race Context_Safety Debug_Log Http_Writer_Complete
begin

text \<open>
  A concrete outside world, on which the theorems are applied: a peer whose bytes lie ready
  to be read and which keeps the bytes sent to it, a TLS session that delivers at most three
  bytes per read, an OpenSSL and an ODBC driver whose calls succeed or fail as a flag says,
  and a file store.
\<close>

section \<open>The peer\<close>

record loopback =
  lb_in :: "char list"
  lb_out :: "char list"
  lb_shut :: "(int \<times> shut_how) list"
  lb_msgs :: "string list"

definition lb_new :: "char list \<Rightarrow> loopback" where
  "lb_new bs = \<lparr>lb_in = bs, lb_out = [], lb_shut = [], lb_msgs = []\<rparr>"

definition lb_recv :: "int \<Rightarrow> size_t \<Rightarrow> loopback \<Rightarrow> (ssize_t \<times> char list) \<times> loopback" where
  "lb_recv fd n w =
     ((int (length (take n (lb_in w))), take n (lb_in w)), w\<lparr>lb_in := drop n (lb_in w)\<rparr>)"

definition lb_send :: "int \<Rightarrow> char list \<Rightarrow> loopback \<Rightarrow> ssize_t \<times> loopback" where
  "lb_send fd bs w = (int (length bs), w\<lparr>lb_out := lb_out w @ bs\<rparr>)"

definition lb_shutdown :: "int \<Rightarrow> shut_how \<Rightarrow> loopback \<Rightarrow> loopback" where
  "lb_shutdown fd how w = w\<lparr>lb_shut := (fd, how) # lb_shut w\<rparr>"

definition lb_posix :: "bool \<Rightarrow> loopback posix_api" where
  "lb_posix up =
     \<lparr>posix_recv = lb_recv, posix_send = lb_send, posix_shutdown = lb_shutdown,
      posix_socket = (\<lambda>w. (3, w)), posix_gethostbyname = (\<lambda>h w. (Some h, w)),
      posix_connect = (\<lambda>fd a w. (if up then 0 else - 1, w)), posix_errno = (\<lambda>w. 111)\<rparr>"

definition lb_SSL_read :: "int \<Rightarrow> loopback \<Rightarrow> (int \<times> char list) \<times> loopback" where
  "lb_SSL_read k w =
     (let bs = take (min 3 (nat k)) (lb_in w)
      in ((int (length bs), bs), w\<lparr>lb_in := drop (length bs) (lb_in w)\<rparr>))"

definition lb_SSL_write :: "int \<Rightarrow> char list \<Rightarrow> loopback \<Rightarrow> int \<times> loopback" where
  "lb_SSL_write n bs w =
     (if n = int (length bs) then (n, w\<lparr>lb_out := lb_out w @ bs\<rparr>) else (- 1, w))"

definition lb_ssl :: "loopback ssl_api" where
  "lb_ssl =
     \<lparr>api_SSL_read = lb_SSL_read, api_SSL_write = lb_SSL_write, api_SSL_shutdown = (\<lambda>w. (1, w)),
      api_SSL_get_fd = (\<lambda>w. 3), api_SSL_free = (\<lambda>w. w), api_SSL_CTX_free = (\<lambda>w. w),
      api_ERR_free_strings = (\<lambda>w. w), api_shutdown = lb_shutdown\<rparr>"

definition lb_odbc :: "bool \<Rightarrow> loopback odbc_api" where
  "lb_odbc sql =
     \<lparr>api_SQLAllocHandle = (\<lambda>h w. ((0, Some 1), w)),
      api_SQLExecDirect = (\<lambda>h q w. (if sql then 0 else - 1, w)),
      api_SQLGetDiagRec = (\<lambda>h w. ((0, ''42000'', 7, ''syntax error''), w)),
      api_SQLFreeHandle = (\<lambda>h w. w)\<rparr>"

definition lb_env :: "bool \<Rightarrow> bool \<Rightarrow> loopback env" where
  "lb_env up sql =
     \<lparr>env_posix = lb_posix up, env_ssl = lb_ssl, env_ossl = (\<lambda>c w. (1, w)), env_odbc = lb_odbc sql,
      env_sched = (\<lambda>p. case p of AfterExecute \<Rightarrow> 1 | BeforeReset \<Rightarrow> 2),
      env_R_error = (\<lambda>m w. w\<lparr>lb_msgs := m # lb_msgs w\<rparr>),
      env_R_warning = (\<lambda>m w. w\<lparr>lb_msgs := m # lb_msgs w\<rparr>)\<rparr>"

lemma lb_posix_ok: "posix_ok (lb_posix up) (\<lambda>fd. lb_in) (\<lambda>fd. lb_out)"
  unfolding posix_ok_def by (auto simp: lb_posix_def lb_recv_def lb_send_def)

lemma lb_ssl_ok: "ssl_ok lb_ssl lb_in lb_out"
proof -
  have "prefix_filler lb_SSL_read (\<lambda>w. lb_out w = o0) lb_in" for o0
    unfolding prefix_filler_def lb_SSL_read_def by (auto simp: Let_def min_def)
  moreover have "lb_SSL_write n bs w = (r, w') \<Longrightarrow> r \<le> max 0 n \<and>
      (r = n \<longrightarrow> n = int (length bs) \<longrightarrow> lb_in w' = lb_in w \<and> lb_out w' = lb_out w @ bs)" for n bs w r w'
    by (auto simp: lb_SSL_write_def split: if_splits)
  ultimately show ?thesis unfolding ssl_ok_def by (simp add: lb_ssl_def)
qed

lemma lb_env_ok: "env_ok (lb_env up sql) (\<lambda>fd. lb_in) (\<lambda>fd. lb_out) lb_in lb_out"
  using lb_posix_ok lb_ssl_ok by (simp add: env_ok_def lb_env_def)

lemma lb_sends_complete: "sends_complete (lb_env up sql)"
  by (simp add: sends_complete_def lb_env_def lb_posix_def lb_send_def lb_ssl_def lb_SSL_write_def)

section \<open>The file store\<close>

definition fs_api :: "(string \<Rightarrow> string) file_api" where
  "fs_api = \<lparr>api_open = (\<lambda>f w. (True, w(f := []))), api_write = (\<lambda>f s w. (True, w(f := w f @ s)))\<rparr>"

lemma fs_api_ok: "file_ok fs_api (\<lambda>w. w)" "file_total fs_api"
  by (simp_all add: file_ok_def file_total_def fs_api_def)

section \<open>A message in two chunks\<close>

definition demo_chunks :: "http_chunk list" where
  "demo_chunks = [(''5'', ''a;b;c''), (''03'', ''d;e'')]"

definition demo_lines :: "char list list" where
  "demo_lines = [''PUT /data.csv HTTP/1.1'', ''Host: db'']"

definition demo_stream :: "char list" where
  "demo_stream = http_header demo_lines @ encode_body demo_chunks ''0''"

lemma isxdigit_0_9: "isxdigit (CHR ''0'')" "isxdigit (CHR ''3'')" "isxdigit (CHR ''5'')"
  by (simp_all add: isxdigit_def xdigit_val_def)

lemma demo_chunks_ok: "list_all http_chunk_ok demo_chunks" "size_line_ok ''0'' 0"
  by (simp_all add: demo_chunks_def http_chunk_ok_def size_line_ok_def isxdigit_0_9 hex_val_def xdigit_val_def
      MAX_HTTP_CHUNK_SIZE_def)

lemma crlf_freeI: "CR \<notin> set l \<Longrightarrow> crlf_free l"
  unfolding crlf_free_def by (metis Suc_lessD nth_mem)

lemma demo_header_ok: "list_all header_line_ok demo_lines"
  by (auto simp: demo_lines_def header_line_ok_def CR_def intro!: crlf_freeI)

lemma obj_bytes_lb [simp]: "obj_bytes (\<lambda>fd. f) f (sk, w) = f w"
  by (cases sk) simp_all

abbreviation obj_in :: "sock_obj \<times> loopback \<Rightarrow> char list" where
  "obj_in \<equiv> obj_bytes (\<lambda>fd. lb_in) lb_in"

abbreviation obj_out :: "sock_obj \<times> loopback \<Rightarrow> char list" where
  "obj_out \<equiv> obj_bytes (\<lambda>fd. lb_out) lb_out"

lemma demo_delivers:
  "delivers obj_in Chunk_new (sk, lb_new (encode_body demo_chunks ''0'')) ''a;b;cd;e''"
proof -
  have "pending Chunk_new = []" by (simp add: Chunk_new_def)
  then show ?thesis
    unfolding delivers_def
    using demo_chunks_ok by (intro conjI exI [of _ demo_chunks] exI [of _ "''0''"] exI [of _ "[]"])
      (simp_all add: lb_new_def demo_chunks_def)
qed

end
