(* ===== verification/Transfer_Properties.thy ===== *)
theory Transfer_Properties
  imports Loopback
begin

text \<open>
  The properties of a data transfer, stated over the socket object of the library with either
  of its two classes behind it: reading the chunked body of a request, writing a response,
  the request header, the proxy handshake and the receive loop of the TLS socket.
\<close>

section \<open>Reading\<close>

text \<open>A client that reads with requests of the sizes \<open>ns\<close>, collecting what it gets.\<close>

fun read_seq ::
  "'s Socket \<Rightarrow> Chunk \<Rightarrow> 's option \<Rightarrow> size_t list \<Rightarrow> (char list list \<times> Chunk \<times> 's option) option" where
  "read_seq sock c so [] = Some ([], c, so)"
| "read_seq sock c so (n # ns) =
     (case read_next sock c so n of
        None \<Rightarrow> None
      | Some (r, bs, c', so') \<Rightarrow>
          if r \<noteq> int n then None
          else (case read_seq sock c' so' ns of None \<Rightarrow> None | Some (bss, c'', so'') \<Rightarrow> Some (bs # bss, c'', so'')))"

lemma read_seq_delivers:
  assumes "env_ok env ni no si so" and "delivers (obj_bytes ni si) c s avail" and "sum_list ns \<le> length avail"
  shows "\<exists>bss c' s'. read_seq (obj_socket env) c (Some s) ns = Some (bss, c', Some s') \<and> map length bss = ns \<and>
    concat bss = take (sum_list ns) avail \<and> delivers (obj_bytes ni si) c' s' (drop (sum_list ns) avail)"
  using assms(2,3)
proof (induction ns arbitrary: c s avail)
  case (Cons n ns)
  then have "n \<le> length avail" by simp
  then obtain c1 s1 where r: "read_next (obj_socket env) c (Some s) n = Some (int n, take n avail, c1, Some s1)"
    and d: "delivers (obj_bytes ni si) c1 s1 (drop n avail)"
    using obj.read_next_delivers [OF assms(1) Cons(2), of n] by blast
  have "sum_list ns \<le> length (drop n avail)" using Cons(3) by simp
  from Cons(1) [OF d this] obtain bss c' s' where
    "read_seq (obj_socket env) c1 (Some s1) ns = Some (bss, c', Some s')" "map length bss = ns"
    "concat bss = take (sum_list ns) (drop n avail)" "delivers (obj_bytes ni si) c' s' (drop (sum_list ns) (drop n avail))"
    by blast
  with r \<open>n \<le> length avail\<close> show ?case
    by (auto simp: take_add [of n] add.commute)
qed auto

text \<open>A client that starts a reader on a request with a chunked body and reads the
  body with requests of any sizes gets the data of the chunks, in order and with nothing lost or
  repeated at the chunk boundaries, over the plain socket as over TLS.\<close>

theorem read_session:
  assumes "env_ok env ni no si so"
    and "obj_bytes ni si s = http_header ls @ encode_body cs h0 @ rest"
    and "list_all header_line_ok ls" and "list_all http_chunk_ok cs" and "size_line_ok h0 0"
    and "sum_list ns \<le> length (concat (map snd cs))"
  shows "\<exists>s1 bss c' s'. reader_start (obj_socket env) (Some s) = Some (Inr (), Some s1) \<and>
    read_seq (obj_socket env) (HttpChunkReader_new c) (Some s1) ns = Some (bss, c', Some s') \<and>
    map length bss = ns \<and> concat bss = take (sum_list ns) (concat (map snd cs))"
proof -
  obtain s1 where s1: "readHttpHeader (obj_socket env) s = Some (Inr (), s1)"
      "obj_bytes ni si s1 = encode_body cs h0 @ rest"
    using obj.readHttpHeader_consumes [OF assms(1-3)] by blast
  have "pending (HttpChunkReader_new c) = []" by (simp add: HttpChunkReader_new_def)
  then have "delivers (obj_bytes ni si) (HttpChunkReader_new c) s1 (concat (map snd cs))"
    using s1(2) assms(4,5) unfolding delivers_def by (auto simp: HttpChunkReader_new_def)
  from read_seq_delivers [OF assms(1) this assms(6)] s1(1) show ?thesis
    by (auto simp: reader_start_def)
qed

theorem read_session_witness:
  "\<exists>s1 bss c' s'. reader_start (obj_socket (lb_env True True)) (Some (TlsObj False, lb_new demo_stream)) =
      Some (Inr (), Some s1) \<and>
    read_seq (obj_socket (lb_env True True)) (HttpChunkReader_new Chunk_new) (Some s1) [2, 5] = Some (bss, c', Some s') \<and>
    map length bss = [2, 5] \<and> concat bss = ''a;b;cd;''"
  using read_session [OF lb_env_ok, of "(TlsObj False, lb_new demo_stream)" demo_lines demo_chunks "''0''" "[]" "[2, 5]"
      True True Chunk_new, OF _ demo_header_ok demo_chunks_ok]
  by (simp add: demo_stream_def lb_new_def) (simp add: demo_chunks_def)

text \<open>A read that asks for more than the body still holds returns exactly the rest
  of the body and its length, which is 0 at the end.\<close>

theorem read_at_end:
  assumes "env_ok env ni no si so" and "delivers (obj_bytes ni si) c s avail" and "length avail < n"
  shows "\<exists>c' s'. read_next (obj_socket env) c (Some s) n = Some (int (length avail), avail, c', Some s')"
  using obj.read_next_at_end [OF assms] by blast

theorem read_at_end_witness:
  "\<exists>c' s'. read_next (obj_socket (lb_env True True)) Chunk_new
      (Some (PlainObj 3, lb_new (encode_body demo_chunks ''0''))) 4096 = Some (8, ''a;b;cd;e'', c', Some s')"
  using read_at_end [OF lb_env_ok demo_delivers, of 4096] by simp

text \<open>Reading byte by byte with \<^verbatim>\<open>fgetc\<close> gives the next byte of the body, converted
  as a signed \<^verbatim>\<open>char\<close>, and leaves the rest of the body to be read; at the end it gives -1.\<close>

theorem fgetc_delivers:
  assumes "env_ok env ni no si so" and "delivers (obj_bytes ni si) c s avail"
  shows "\<exists>c' s'. reader_fgetc (obj_socket env) c (Some s) =
      Some (case avail of [] \<Rightarrow> - 1 | b # bs \<Rightarrow> int_of_char b, c', Some s') \<and>
    (avail \<noteq> [] \<longrightarrow> delivers (obj_bytes ni si) c' s' (tl avail))"
  using obj.reader_fgetc_delivers [OF assms(1)] obj.reader_fgetc_at_end [OF assms(1)] assms(2)
  by (cases avail) (simp_all, blast+)

theorem fgetc_delivers_witness:
  "\<exists>c' s'. reader_fgetc (obj_socket (lb_env True True)) Chunk_new
      (Some (PlainObj 3, lb_new (encode_body demo_chunks ''0''))) = Some (97, c', Some s') \<and>
    delivers obj_in c' s' '';b;cd;e''"
  using fgetc_delivers [OF lb_env_ok demo_delivers] by (simp add: int_of_char_ascii)

text \<open>Property C12: whatever the peer sends, a read neither overruns the chunk buffer nor the
  caller's, keeps the buffer well formed, and returns either -1 or the number of bytes it stored.\<close>

theorem read_safe:
  assumes "env_ok env ni no si so" and "chunk_wf c"
  shows "\<exists>r bs c' so'. read_next (obj_socket env) c s n = Some (r, bs, c', so') \<and> chunk_wf c' \<and>
    length bs \<le> n \<and> (r = - 1 \<or> r = int (length bs))"
  using obj.read_next_safe [of s env ni no si so c n] assms by blast

theorem read_safe_witness:
  "\<exists>r bs c' so'. read_next (obj_socket (lb_env True True)) Chunk_new (Some (PlainObj 3, lb_new ''zz'')) 10 =
      Some (r, bs, c', so') \<and> chunk_wf c' \<and> length bs \<le> 10 \<and> (r = - 1 \<or> r = int (length bs))"
  by (rule read_safe [OF lb_env_ok chunk_wf_new])

text \<open>Property C23: after a read has met the end of the body with bytes of the last chunk
  outstanding, the bytes it returned stay unread in the buffer: the next read of no more than
  that many bytes succeeds, returns bytes although none are left, and does not touch the
  socket.\<close>

theorem read_again_after_end:
  assumes "env_ok env ni no si so" and "delivers (obj_bytes ni si) c s (pending c)"
    and "length (pending c) < n" and "m \<le> length (pending c)"
  shows "\<exists>c' s' bs c''. read_next (obj_socket env) c (Some s) n =
      Some (int (length (pending c)), pending c, c', Some s') \<and>
    read_next (obj_socket env) c' (Some s') m = Some (int m, bs, c'', Some s') \<and> length bs = m"
  using obj.read_next_stale [OF assms] .

lemma demo_tail:
  assumes "chunk_wf c" and "pending c = ''xy''"
  shows "delivers obj_in c (PlainObj 3, lb_new (encode_body [] ''0'')) (pending c)"
  unfolding delivers_def using assms demo_chunks_ok(2)
  by (intro conjI exI [of _ "[]"] exI [of _ "''0''"]) (simp_all add: lb_new_def)

definition demo_chunk :: Chunk where
  "demo_chunk = \<lparr>chunk_len = 2, chunk_pos = 0,
     chunk_buf = ''xy'' @ replicate (MAX_HTTP_CHUNK_SIZE - 2) NUL, chunk_num = 1\<rparr>"

lemma demo_chunk_wf: "chunk_wf demo_chunk" "pending demo_chunk = ''xy''"
  by (simp_all add: demo_chunk_def chunk_wf_def pending_def MAX_HTTP_CHUNK_SIZE_def)

theorem read_again_after_end_witness:
  "\<exists>c' s' bs c''. read_next (obj_socket (lb_env True True)) demo_chunk
      (Some (PlainObj 3, lb_new (encode_body [] ''0''))) 100 = Some (2, ''xy'', c', Some s') \<and>
    read_next (obj_socket (lb_env True True)) c' (Some s') 2 = Some (2, bs, c'', Some s') \<and> length bs = 2"
  using read_again_after_end [OF lb_env_ok demo_tail [OF demo_chunk_wf], of 100 2] demo_chunk_wf(2) by simp

text \<open>A data byte \<^verbatim>\<open>0xFF\<close> is returned by \<^verbatim>\<open>fgetc\<close> as -1, the value that
  stands for the end of the data, although the rest of the body is still to be delivered.\<close>

theorem fgetc_confuses_FF:
  assumes "env_ok env ni no si so" and "delivers (obj_bytes ni si) c s (CHR 0xFF # bs)"
  shows "\<exists>c' s'. reader_fgetc (obj_socket env) c (Some s) = Some (- 1, c', Some s') \<and>
    delivers (obj_bytes ni si) c' s' bs"
proof -
  have "int_of_char (CHR 0xFF) = - 1" by (simp add: int_of_char_def)
  then show ?thesis using obj.reader_fgetc_delivers [OF assms] by auto
qed

theorem fgetc_confuses_FF_witness:
  "\<exists>c' s'. reader_fgetc (obj_socket (lb_env True True)) Chunk_new
      (Some (PlainObj 3, lb_new (encode_body [(''2'', [CHR 0xFF, CHR ''a''])] ''0''))) = Some (- 1, c', Some s') \<and>
    delivers obj_in c' s' ''a''"
proof -
  have "pending Chunk_new = []" by (simp add: Chunk_new_def)
  then have "delivers obj_in Chunk_new (PlainObj 3, lb_new (encode_body [(''2'', [CHR 0xFF, CHR ''a''])] ''0''))
      (CHR 0xFF # ''a'')"
    unfolding delivers_def using demo_chunks_ok(2)
    by (intro conjI exI [of _ "[(''2'', [CHR 0xFF, CHR ''a''])]"] exI [of _ "''0''"] exI [of _ "[]"])
      (simp_all add: lb_new_def http_chunk_ok_def size_line_ok_def isxdigit_def xdigit_val_def hex_val_def
        MAX_HTTP_CHUNK_SIZE_def)
  from fgetc_confuses_FF [OF lb_env_ok this] show ?thesis .
qed

section \<open>The header\<close>

text \<open>Property C16: reading the header always ends, with or without an exception, whatever finite sequence of bytes the
  peer has sent, over either socket, and never writes outside the line buffer.\<close>

theorem header_ends:
  assumes "env_ok env ni no si so"
  shows "\<exists>r s'. readHttpHeader (obj_socket env) s = Some (r, s')"
  using obj.readHttpHeader_ends [OF assms, of s] by fast

theorem header_ends_witness:
  "\<exists>r s'. readHttpHeader (obj_socket (lb_env True True)) (PlainObj 3, lb_new [CR, CR, LF, LF, NUL]) = Some (r, s')"
  by (rule header_ends [OF lb_env_ok])


text \<open>Property C17: wherever in the header it stands, after any number of good lines, a line that does not fit the
  line buffer, and a stream that ends inside a line, are reported as the two exceptions of the source; what follows
  the first 4095 characters of a line that is too long is left unread.\<close>

theorem header_errors:
  assumes "env_ok env ni no si so" and "obj_bytes ni si s = concat (map (\<lambda>l. l @ [CR, LF]) ls) @ l @ rest"
    and "list_all header_line_ok ls" and "crlf_free l"
    and "length l = 4095 \<or> length l \<le> 4094 \<and> rest = []"
  shows "\<exists>s'. readHttpHeader (obj_socket env) s =
      Some (Inl (ConnectionException (if length l = 4095 then ''Could not read header, line too long.''
        else ''Could not receive header'')), s') \<and>
    (length l = 4095 \<longrightarrow> obj_bytes ni si s' = rest)"
proof (cases "length l = 4095")
  case True
  then show ?thesis using obj.readHttpHeader_line_too_long [OF assms(1-3) True assms(4)] by auto
next
  case False
  then show ?thesis using obj.readHttpHeader_eof [OF assms(1) _ assms(3) _ assms(4), of s] assms(2,5) by auto
qed

theorem header_errors_witness:
  "\<exists>s'. readHttpHeader (obj_socket (lb_env True True)) (PlainObj 3, lb_new (''PUT /'' @ [CR, LF] @ ''Host'')) =
    Some (Inl (ConnectionException ''Could not receive header''), s')"
  using header_errors [OF lb_env_ok, of "(PlainObj 3, lb_new (''PUT /'' @ [CR, LF] @ ''Host''))" "[''PUT /'']" "''Host''" "[]" True True]
  by (simp add: lb_new_def crlf_freeI CR_def header_line_ok_def)

section \<open>Writing\<close>

text \<open>A client that writes the byte strings \<open>srcs\<close> and looks for failure only.\<close>

fun write_seq :: "'s Socket \<Rightarrow> Chunk \<Rightarrow> 's option \<Rightarrow> char list list \<Rightarrow> (Chunk \<times> 's option) option" where
  "write_seq sock c so [] = Some (c, so)"
| "write_seq sock c so (src # srcs) =
     (case writer_pipe_write sock c so src 1 (length src) of
        None \<Rightarrow> None
      | Some (r, c', so') \<Rightarrow> if r = size_t_of (- 1) then None else write_seq sock c' so' srcs)"

lemma write_seq_at:
  assumes "env_ok env ni no si so" and "writer_at (obj_bytes no so) pre c s data"
    and "length data + length (concat srcs) < 2 ^ 64"
    and "write_seq (obj_socket env) c (Some s) srcs = Some (c', so')"
  shows "\<exists>s'. so' = Some s' \<and> writer_at (obj_bytes no so) pre c' s' (data @ concat srcs)"
  using assms(2-4)
proof (induction srcs arbitrary: c s data)
  case (Cons src srcs)
  have len: "length src = size_mul 1 (length src)" using Cons(3) by (simp add: size_mul_def)
  obtain r c1 so1 where w: "writer_pipe_write (obj_socket env) c (Some s) src 1 (length src) = Some (r, c1, so1)"
      and r: "r \<noteq> size_t_of (- 1)" and rest: "write_seq (obj_socket env) c1 so1 srcs = Some (c', so')"
    using Cons(4) by (auto split: option.splits if_splits)
  obtain s1 where s1: "so1 = Some s1" "writer_at (obj_bytes no so) pre c1 s1 (data @ src)"
    using obj.writer_pipe_write_at [OF assms(1) Cons(2) len _ w r] Cons(3) by auto
  show ?case using Cons(1) [OF s1(2)] Cons(3) rest s1(1) by simp
qed auto

text \<open>A client that writes any sequence of byte strings and then flushes, each call
  reporting success, has sent one response header followed by the bytes, in order and complete;
  nothing at all when there were none.\<close>

theorem write_session:
  assumes "env_ok env ni no si so" and "length (concat srcs) < 2 ^ 64"
    and "write_seq (obj_socket env) (HttpChunkWriter_new c) (Some s) srcs = Some (c1, so1)"
    and "writer_pipe_fflush (obj_socket env) c1 so1 = Some (0, c2, so2)"
  shows "\<exists>s2. so2 = Some s2 \<and> obj_bytes no so s2 =
    obj_bytes no so s @ (if concat srcs = [] then [] else writer_ok_answer @ concat srcs)"
proof -
  obtain s1 where s1: "so1 = Some s1" "writer_at (obj_bytes no so) (obj_bytes no so s) c1 s1 (concat srcs)"
    using write_seq_at [OF assms(1) writer_at_new _ assms(3)] assms(2) by auto
  then show ?thesis
    using obj.writer_pipe_fflush_at [OF assms(1) s1(2) assms(2)] assms(4) by fastforce
qed

lemma demo_write:
  "\<exists>c2 w2. write_seq (obj_socket (lb_env True True)) (HttpChunkWriter_new Chunk_new) (Some (PlainObj 3, lb_new []))
      [''a;b'', ''c''] = Some (c2, Some (PlainObj 3, w2)) \<and> chunk_wf c2 \<and> chunk_len c2 = 4 \<and> chunk_num c2 = 0"
  by (simp add: writer_pipe_write_def pipe_write_loop.simps size_mul_def size_sub_def MAX_HTTP_CHUNK_SIZE_def
      HttpChunkWriter_new_def Chunk_reset_def Chunk_new_def buf_read_def buf_write_def size_t_of_def chunk_wf_def)

lemma lb_flush:
  assumes "chunk_wf c" "chunk_len c = 4" "chunk_num c = 0"
  shows "\<exists>c' so'. writer_pipe_fflush (obj_socket (lb_env True True)) c (Some (PlainObj 3, w)) = Some (0, c', so')"
  using assms by (simp add: writer_pipe_fflush_def write_next_chunk_def send_all_def lb_env_def lb_posix_def
      SocketImpl_send_def lb_send_def buf_read_def chunk_wf_def MAX_HTTP_CHUNK_SIZE_def ssize_t_of_def)

theorem write_session_witness:
  "\<exists>c1 so1 c2 s2. write_seq (obj_socket (lb_env True True)) (HttpChunkWriter_new Chunk_new) (Some (PlainObj 3, lb_new []))
      [''a;b'', ''c''] = Some (c1, so1) \<and>
    writer_pipe_fflush (obj_socket (lb_env True True)) c1 so1 = Some (0, c2, Some s2) \<and>
    obj_out s2 = writer_ok_answer @ ''a;bc''"
proof -
  obtain c1 w1 where 1: "write_seq (obj_socket (lb_env True True)) (HttpChunkWriter_new Chunk_new)
      (Some (PlainObj 3, lb_new [])) [''a;b'', ''c''] = Some (c1, Some (PlainObj 3, w1))"
      and c1: "chunk_wf c1" "chunk_len c1 = 4" "chunk_num c1 = 0"
    using demo_write by blast
  obtain c2 so2 where 2: "writer_pipe_fflush (obj_socket (lb_env True True)) c1 (Some (PlainObj 3, w1)) = Some (0, c2, so2)"
    using lb_flush [OF c1] by blast
  from write_session [OF lb_env_ok _ 1 2] show ?thesis using 1 2 by (auto simp: lb_new_def)
qed

text \<open>Property C22: a write that crosses the end of the chunk buffer and succeeds has accepted every
  byte, yet it reports only those after the last chunk boundary: with \<open>rest\<close> bytes of room before, and a full
  buffer being sent whenever there is more, that is the remainder of what is left, from 1 up to the size of the
  buffer.\<close>

theorem write_reports_short:
  assumes "env_ok env ni no si so" and "writer_at (obj_bytes no so) pre c s data"
    and "length src = size_mul sz nitems" and "length data + length src < 2 ^ 64"
    and "writer_pipe_write (obj_socket env) c (Some s) src sz nitems = Some (r, c', so')" and "r \<noteq> size_t_of (- 1)"
    and "rest = MAX_HTTP_CHUNK_SIZE - chunk_len c" and "rest < length src"
  shows "(\<exists>s'. so' = Some s' \<and> writer_at (obj_bytes no so) pre c' s' (data @ src)) \<and>
    r = (length src - rest - 1) mod MAX_HTTP_CHUNK_SIZE + 1 \<and> (0 < rest \<longrightarrow> r < length src)"
proof -
  have r: "r = (length src - rest - 1) mod MAX_HTTP_CHUNK_SIZE + 1" and "\<exists>s'. so' = Some s' \<and> writer_at (obj_bytes no so) pre c' s' (data @ src)"
    using obj.writer_pipe_write_at [OF assms(1-6)] assms(7,8) by (auto simp: write_reported_def)
  moreover have "0 < rest \<Longrightarrow> r < length src"
    using mod_less_eq_dividend [of "length src - rest - 1" MAX_HTTP_CHUNK_SIZE] assms(8) unfolding r by linarith
  ultimately show ?thesis using r by blast
qed

definition full_chunk :: Chunk where
  "full_chunk = \<lparr>chunk_len = MAX_HTTP_CHUNK_SIZE - 1, chunk_pos = 0,
     chunk_buf = replicate MAX_HTTP_CHUNK_SIZE (CHR ''a''), chunk_num = 0\<rparr>"

lemma full_chunk_at: "writer_at obj_out [] full_chunk (PlainObj 3, lb_new []) (replicate (MAX_HTTP_CHUNK_SIZE - 1) (CHR ''a''))"
  unfolding writer_at_def
  by (intro conjI exI [of _ "[]"])
    (simp_all add: full_chunk_def writer_wf_def chunk_wf_def lb_new_def MAX_HTTP_CHUNK_SIZE_def min_def)

lemma full_chunk_write:
  "\<exists>c' so'. writer_pipe_write (obj_socket (lb_env True True)) full_chunk (Some (PlainObj 3, lb_new [])) ''xy'' 1 2 =
    Some (1, c', so')"
  by (simp add: writer_pipe_write_def pipe_write_loop.simps size_mul_def size_sub_def MAX_HTTP_CHUNK_SIZE_def
      full_chunk_def buf_read_def buf_write_def write_next_chunk_def send_all_def lb_env_def lb_posix_def
      SocketImpl_send_def lb_send_def ssize_t_of_def size_t_of_def)

theorem write_reports_short_witness:
  "\<exists>c' s'. writer_pipe_write (obj_socket (lb_env True True)) full_chunk (Some (PlainObj 3, lb_new [])) ''xy'' 1 2 =
      Some (1, c', Some s') \<and>
    writer_at obj_out [] c' s' (replicate (MAX_HTTP_CHUNK_SIZE - 1) (CHR ''a'') @ ''xy'')"
proof -
  obtain c' so' where w: "writer_pipe_write (obj_socket (lb_env True True)) full_chunk (Some (PlainObj 3, lb_new []))
      ''xy'' 1 2 = Some (1, c', so')" using full_chunk_write by blast
  from write_reports_short [OF lb_env_ok full_chunk_at _ _ w] w show ?thesis
    by (auto simp: size_mul_def size_t_of_def full_chunk_def MAX_HTTP_CHUNK_SIZE_def)
qed

text \<open>A write of any bytes in any state of the buffer stays inside it and keeps it
  well formed, whatever the socket answers.\<close>

theorem write_safe:
  assumes "env_ok env ni no si so" and "writer_wf c" and "length src = size_mul sz nitems"
  shows "\<exists>r c' so'. writer_pipe_write (obj_socket env) c s src sz nitems = Some (r, c', so') \<and> writer_wf c'"
  using obj.writer_pipe_write_safe [of s env ni no si so c src sz nitems] assms by blast

theorem write_safe_witness:
  "\<exists>r c' so'. writer_pipe_write (obj_socket (lb_env True True)) full_chunk None ''xyz'' 3 1 = Some (r, c', so') \<and> writer_wf c'"
  using write_safe [OF lb_env_ok, of full_chunk "''xyz''" 3 1 True True None] full_chunk_at
  by (simp add: size_mul_def writer_at_def)

section \<open>The sockets\<close>

text \<open>Property C15: \<^verbatim>\<open>SSL_read\<close> may deliver in pieces of any size, yet a receive of the TLS
  socket returns exactly the requested bytes of the session when there are that many, and leaves
  the rest.\<close>

theorem ssl_recv_full:
  assumes "ssl_ok api si so" and "0 < n" and "n < 2 ^ 31" and "n \<le> length (si (tls s))"
  shows "\<exists>s'. SSLSocketImpl_recv api n s = Some ((int n, take n (si (tls s))), s') \<and>
    si (tls s') = drop n (si (tls s)) \<and> so (tls s') = so (tls s)"
  by (rule SSLSocketImpl_recv_full [OF assms])

theorem ssl_recv_full_witness:
  "\<exists>s'. SSLSocketImpl_recv lb_ssl 7 \<lparr>mSocketClosed = False, tls = lb_new ''0123456789''\<rparr> =
      Some ((7, ''0123456''), s') \<and> lb_in (tls s') = ''789'' \<and> lb_out (tls s') = []"
  using ssl_recv_full [OF lb_ssl_ok, of 7 "\<lparr>mSocketClosed = False, tls = lb_new ''0123456789''\<rparr>"]
  by (simp add: lb_new_def)

text \<open>Property C13: the proxy handshake sends the header and returns the host and the port that the
  proxy's answer encodes, the port reduced to sixteen bits.\<close>

theorem handshake_round_trip:
  assumes "env_ok env ni no si so"
    and "fst (sk_send (obj_socket env) proxyHeader s) = int (length proxyHeader)"
    and "obj_bytes ni si s = encode_answer ver port host @ rest"
    and "- (2 ^ 31) \<le> ver" "ver < 2 ^ 31" "- (2 ^ 31) \<le> port" "port < 2 ^ 31"
    and "length host \<le> 15" "NUL \<notin> set host"
  shows "\<exists>s'. metaInfo_read (obj_socket env) errno h0 p0 s = Some (Inr (host, of_int port), s') \<and>
    obj_bytes ni si s' = rest \<and> obj_bytes no so s' = obj_bytes no so s @ proxyHeader"
  using obj.metaInfo_read_ok [OF assms] by blast

theorem handshake_round_trip_witness:
  "\<exists>s'. metaInfo_read (obj_socket (lb_env True True)) (\<lambda>s. 0) ''exa'' 8563
      (PlainObj 3, lb_new (encode_answer 1 20000 ''10.0.0.1'')) = Some (Inr (''10.0.0.1'', 20000), s') \<and>
    obj_in s' = [] \<and> obj_out s' = proxyHeader"
  using handshake_round_trip [OF lb_env_ok, of True True "(PlainObj 3, lb_new (encode_answer 1 20000 ''10.0.0.1''))"
      1 20000 "''10.0.0.1''" "[]" "\<lambda>s. 0" "''exa''" 8563]
  by (simp add: lb_new_def lb_env_def lb_posix_def SocketImpl_send_def lb_send_def NUL_def)

text \<open>Property C14: whatever the proxy answers, the handshake ends with a \<^verbatim>\<open>ConnectionException\<close> or
  with a host name of at most fifteen characters, read inside the answer.\<close>

theorem handshake_safe:
  assumes "env_ok env ni no si so"
  shows "\<exists>res s'. metaInfo_read (obj_socket env) errno host port s = Some (res, s') \<and>
    (case res of Inl e \<Rightarrow> \<exists>m. e = ConnectionException m | Inr (h, p) \<Rightarrow> length h \<le> 15 \<and> NUL \<notin> set h)"
proof -
  obtain res s' where "metaInfo_read (obj_socket env) errno host port s = Some (res, s')"
    "\<forall>e. res = Inl e \<longrightarrow> (\<exists>m. e = ConnectionException m)"
    "\<forall>h p. res = Inr (h, p) \<longrightarrow> length h \<le> 15 \<and> NUL \<notin> set h"
    using obj.metaInfo_read_errors [OF assms, of errno host port s] by blast
  then show ?thesis by (cases res) auto
qed

theorem handshake_safe_witness:
  "\<exists>res s'. metaInfo_read (obj_socket (lb_env True True)) (\<lambda>s. 0) ''exa'' 8563 (TlsObj False, lb_new ''short'') = Some (res, s') \<and>
    (case res of Inl e \<Rightarrow> \<exists>m. e = ConnectionException m | Inr (h, p) \<Rightarrow> length h \<le> 15 \<and> NUL \<notin> set h)"
  by (rule handshake_safe [OF lb_env_ok])

end
