(* ===== verification/Session_Run.thy ===== *)
theory Session_Run
  imports Loopback
begin

text \<open>
  A whole reading session through the entry points that R calls, over a peer that behaves:
  connect, ask for the proxy's address, start the statement and the reader, read, finish.
  \<open>reading_peer\<close> says what the peer and the driver do; the lemmas follow the session
  through the establisher, the controller and the connection object.
\<close>

text \<open>The peer accepts the connection on descriptor \<open>fd\<close>, the proxy header can be sent, and the
  peer's bytes are the proxy's answer followed by \<open>stream\<close>.\<close>

definition reading_peer ::
  "'w env \<Rightarrow> (int \<Rightarrow> 'w \<Rightarrow> char list) \<Rightarrow> string \<Rightarrow> u16 \<Rightarrow> 'w \<Rightarrow> int \<Rightarrow> char list \<Rightarrow> char list \<Rightarrow> bool" where
  "reading_peer env ni host port w fd answer stream \<longleftrightarrow>
     (\<exists>w1 a w2 w3 c. posix_socket (env_posix env) w = (fd, w1) \<and> 0 \<le> fd \<and>
        posix_gethostbyname (env_posix env) host w1 = (Some a, w2) \<and>
        posix_connect (env_posix env) fd \<lparr>sin_port = port, sin_addr = a\<rparr> w2 = (c, w3) \<and> 0 \<le> c \<and>
        ni fd w3 = answer @ stream) \<and>
     (\<forall>w. fst (posix_send (env_posix env) fd proxyHeader w) = int (length proxyHeader))"

lemma reading_peer_connect:
  assumes "reading_peer env ni host port w fd answer stream"
  obtains w3 where "SocketImpl_connect (env_posix env) host port (SocketImpl_new w) =
      (Inr (), \<lparr>mSocket = fd, os = w3\<rparr>)" and "ni fd w3 = answer @ stream"
  using assms that unfolding reading_peer_def
  by (auto simp: SocketImpl_connect_def SocketImpl_new_def Let_def not_less)

lemma http_connect_peer:
  assumes e: "env_ok env ni no si so"
    and p: "reading_peer env ni host port w fd (encode_answer ver pport phost) stream"
    and r: "- (2 ^ 31) \<le> ver" "ver < 2 ^ 31" "- (2 ^ 31) \<le> pport" "pport < 2 ^ 31"
    and h: "length phost \<le> 15" "NUL \<notin> set phost"
  obtains w4 where "HttpConnectionEstablisher_connect env host port w =
      Some (Inr \<lparr>proxyHost = phost, proxyPort = Some (of_int pport), ci_socket = Some (PlainObj fd)\<rparr>, w4)"
    and "ni fd w4 = stream"
proof -
  obtain w3 where c: "SocketImpl_connect (env_posix env) host port (SocketImpl_new w) = (Inr (), \<lparr>mSocket = fd, os = w3\<rparr>)"
      and i: "ni fd w3 = encode_answer ver pport phost @ stream"
    using reading_peer_connect [OF p] by blast
  let ?s = "\<lparr>mSocket = fd, os = w3\<rparr>"
  have s: "fst (sk_send (SocketImpl_socket (env_posix env)) proxyHeader ?s) = int (length proxyHeader)"
    using p by (auto simp: reading_peer_def SocketImpl_send_def split: prod.splits dest!: spec [of _ w3])
  have po: "posix_ok (env_posix env) ni no" using e by (simp add: env_ok_def)
  obtain s' where m: "read_meta_info env host port ?s = Some (Inr (phost, of_int pport), s')"
      and i': "plain_in ni s' = stream"
    using plain.metaInfo_read_ok [OF po s _ r h, where rest = stream
        and errno = "\<lambda>s. posix_errno (env_posix env) (os s)" and ?h0.0 = host and ?p0.0 = port] i
    unfolding read_meta_info_def plain_in_def by auto
  have "mSocket s' = fd" using metaInfo_read_fd m by (fastforce simp: read_meta_info_def)
  with c m i' that [of "os s'"] show thesis
    by (simp add: HttpConnectionEstablisher_connect_def plain_in_def)
qed

definition session_start :: "'w \<Rightarrow> 'w conn_context" where
  "session_start w = ConnectionContext_new Certificate_new Chunk_new w"

definition session_connected :: "string \<Rightarrow> u16 \<Rightarrow> int \<Rightarrow> 'w \<Rightarrow> 'w conn_context" where
  "session_connected phost pport fd w =
     (session_start w)\<lparr>mConnectionController := Some (ConnectionController_new
        \<lparr>mConnectionInfo := \<lparr>proxyHost = phost, proxyPort = Some pport, ci_socket = Some (PlainObj fd)\<rparr>\<rparr>)\<rparr>"

lemma session_connects:
  assumes "HttpConnectionEstablisher_connect env host (of_int port) w =
      Some (Inr \<lparr>proxyHost = phost, proxyPort = Some pport, ci_socket = Some (PlainObj fd)\<rparr>, w4)"
  shows "asyncRODBCIOStart env host port ''http'' (session_start w) =
    (Returned (ScalarInteger 0), session_connected phost pport fd w4)"
  using assms
  by (simp add: asyncRODBCIOStart_def initConnection_def destroyConnection_def session_start_def
      ConnectionContext_new_def convertProtocol_def controller_connect_def isValidProtocol_def
      createConnectionEstablisher_def ConnectionController_new_def ConnectionInfo_new_def session_connected_def)

section \<open>A statement beside the transfer\<close>

text \<open>The statement \<open>q\<close> succeeds whenever it is executed, and executing it leaves the streams of the transfer
  alone: the driver speaks to the database over connections of its own.\<close>

definition statement_quiet ::
  "'w env \<Rightarrow> (int \<Rightarrow> 'w \<Rightarrow> char list) \<Rightarrow> (int \<Rightarrow> 'w \<Rightarrow> char list) \<Rightarrow> ('w \<Rightarrow> char list) \<Rightarrow> ('w \<Rightarrow> char list) \<Rightarrow>
     string \<Rightarrow> bool" where
  "statement_quiet env ni no si so q \<longleftrightarrow>
     (\<forall>h w. case api_SQLExecDirect (env_odbc env) h q w of
        (r, w') \<Rightarrow> sql_ok r \<and> (\<forall>fd. ni fd w' = ni fd w \<and> no fd w' = no fd w) \<and> si w' = si w \<and> so w' = so w)"

definition running_quietly :: "'w env \<Rightarrow> string \<Rightarrow> async_executor \<Rightarrow> bool" where
  "running_quietly env q a \<longleftrightarrow>
     bg_inv a \<and> stmt_ok (env_odbc env) a \<and> mQuery (mOdbcSessionInfo (mQueryExecutor a)) = q"

lemma statement_quietD:
  assumes "statement_quiet env ni no si so q"
  shows "sql_ok (fst (api_SQLExecDirect (env_odbc env) h q w))"
    and "obj_bytes ni si (sk, snd (api_SQLExecDirect (env_odbc env) h q w)) = obj_bytes ni si (sk, w)"
    and "obj_bytes no so (sk, snd (api_SQLExecDirect (env_odbc env) h q w)) = obj_bytes no so (sk, w)"
  using assms unfolding statement_quiet_def case_prod_beta by (cases sk; simp)+

text \<open>However far the thread comes, the executor is all that changes and the streams stay as they are.\<close>

lemma background_run_quiet:
  assumes t: "statement_quiet env ni no si so q" and "mOdbcAsyncExecutor k = Some a" and "running_quietly env q a"
  shows "\<exists>a' w'. background_run env n k w = (k\<lparr>mOdbcAsyncExecutor := Some a'\<rparr>, w') \<and> running_quietly env q a' \<and>
    (\<forall>sk. obj_bytes ni si (sk, w') = obj_bytes ni si (sk, w) \<and> obj_bytes no so (sk, w') = obj_bytes no so (sk, w))"
  using assms(2,3)
proof (induction n arbitrary: k a w)
  case 0
  then have "k\<lparr>mOdbcAsyncExecutor := Some a\<rparr> = k" by simp
  then show ?case using 0 by (intro exI [of _ a] exI [of _ w]) simp
next
  case (Suc n)
  show ?case
  proof (cases "background_step env k w")
    case None
    moreover have "k\<lparr>mOdbcAsyncExecutor := Some a\<rparr> = k" using Suc.prems(1) by simp
    ultimately show ?thesis using Suc.prems by (intro exI [of _ a] exI [of _ w]) simp
  next
    case (Some x)
    then obtain k1 w1 where s: "background_step env k w = Some (k1, w1)" by (cases x) auto
    have r: "bg_inv a" "stmt_ok (env_odbc env) a" "mQuery (mOdbcSessionInfo (mQueryExecutor a)) = q"
      using Suc.prems(2) by (simp_all add: running_quietly_def)
    obtain a1 where a1: "k1 = k\<lparr>mOdbcAsyncExecutor := Some a1\<rparr>" "running_quietly env q a1"
      and w1: "w1 = w \<or> w1 = snd (api_SQLExecDirect (env_odbc env) (mStmt (mQueryExecutor a)) q w)"
      using background_step_succeeds [OF Suc.prems(1) r(1,2) s] r(3) unfolding running_quietly_def by metis
    have e: "obj_bytes ni si (sk, w1) = obj_bytes ni si (sk, w)" "obj_bytes no so (sk, w1) = obj_bytes no so (sk, w)" for sk
      using w1 statement_quietD(2,3) [OF t] by metis+
    have "mOdbcAsyncExecutor k1 = Some a1" using a1(1) by simp
    from Suc.IH [OF this a1(2), of w1] s a1(1) e show ?thesis by simp
  qed
qed

text \<open>Allocating a statement succeeds and leaves the streams alone.\<close>

definition alloc_quiet ::
  "'w env \<Rightarrow> (int \<Rightarrow> 'w \<Rightarrow> char list) \<Rightarrow> (int \<Rightarrow> 'w \<Rightarrow> char list) \<Rightarrow> int \<Rightarrow> bool" where
  "alloc_quiet env ni no fd \<longleftrightarrow>
     (\<forall>h w. sql_ok (fst (fst (api_SQLAllocHandle (env_odbc env) h w))) \<and>
        ni fd (snd (api_SQLAllocHandle (env_odbc env) h w)) = ni fd w \<and>
        no fd (snd (api_SQLAllocHandle (env_odbc env) h w)) = no fd w)"

text \<open>The thread after a start and what it did meanwhile.\<close>

lemma start_executor_quiet:
  assumes t: "statement_quiet env ni no si so (mQuery sess)" and al: "alloc_quiet env ni no fd"
    and k: "mOdbcAsyncExecutor k = None"
  shows "\<exists>k0 g0 a w. start_executor env eh sess k g = Inr (k0, g0) \<and>
    background_run env n k0 (sys_w g0) = (k\<lparr>mOdbcAsyncExecutor := Some a\<rparr>, w) \<and> running_quietly env (mQuery sess) a \<and>
    g0\<lparr>sys_w := w\<rparr> = g\<lparr>sys_w := w\<rparr> \<and> ni fd w = ni fd (sys_w g) \<and> no fd w = no fd (sys_w g)"
proof -
  obtain res stmt w1 where s: "api_SQLAllocHandle (env_odbc env) (mHandle sess) (sys_w g) = ((res, stmt), w1)"
    by (metis surj_pair)
  have w1: "sql_ok res" "ni fd w1 = ni fd (sys_w g)" "no fd w1 = no fd (sys_w g)"
    using al s unfolding alloc_quiet_def by (metis fst_conv snd_conv)+
  define a0 where "a0 = \<lparr>mDone = False, mThread = Joinable BgQuery,
      mQueryExecutor = \<lparr>mOdbcSessionInfo = sess, mStmt = stmt, mRes = None\<rparr>\<rparr>"
  have st: "start_executor env eh sess k g = Inr (k\<lparr>mOdbcAsyncExecutor := Some a0\<rparr>, g\<lparr>sys_w := w1\<rparr>)"
    using s w1(1) k by (simp add: start_executor_def replace_executor_def async_execute_def AsyncExecutorImpl_new_def
        OdbcQueryExecutor_new_def initializeQueryExecutor_def a0_def Let_def)
  have "running_quietly env (mQuery sess) a0"
    by (simp add: running_quietly_def a0_def stmt_ok.simps statement_quietD(1) [OF t])
  from background_run_quiet [OF t _ this, of "k\<lparr>mOdbcAsyncExecutor := Some a0\<rparr>" n w1]
  obtain a w where b: "background_run env n (k\<lparr>mOdbcAsyncExecutor := Some a0\<rparr>) w1 = (k\<lparr>mOdbcAsyncExecutor := Some a\<rparr>, w)"
      "running_quietly env (mQuery sess) a"
      "\<forall>sk. obj_bytes ni si (sk, w) = obj_bytes ni si (sk, w1) \<and> obj_bytes no so (sk, w) = obj_bytes no so (sk, w1)"
    by auto
  have "ni fd w = ni fd (sys_w g)" "no fd w = no fd (sys_w g)"
    using spec [OF b(3), of "PlainObj fd"] w1 by simp_all
  with st b(1,2) show ?thesis by auto
qed

section \<open>The session\<close>

text \<open>The session after the statement was started, wherever its thread is: the reader or the writer on the buffer
  \<open>c\<close>, the R connection hooked to its object.\<close>

definition session_at ::
  "'w env \<Rightarrow> conn_kind \<Rightarrow> string \<Rightarrow> sock_obj \<Rightarrow> 'w \<Rightarrow> Chunk \<Rightarrow> 'w conn_context \<Rightarrow> bool" where
  "session_at env kind q sk w c x \<longleftrightarrow>
     (\<exists>k a ro rc. mConnectionController x = Some k \<and> mConnection x = Some ro \<and>
        (case kind of ReaderConn \<Rightarrow> mReader k | WriterConn \<Rightarrow> mWriter k) = Some 0 \<and>
        mOdbcAsyncExecutor k = Some a \<and> running_quietly env q a \<and> ci_socket (mConnectionInfo k) = Some sk \<and>
        ro = \<lparr>ro_id = 1, ro_kind = kind, ro_target = 0, ro_mConn = Some 2\<rparr> \<and>
        cx_rconns x 2 = Some rc \<and> rc_priv rc = Some 1 \<and> rc_kind rc = kind \<and>
        sys_w (cx_sys x) = w \<and> sys_chunk (cx_sys x) = c)"

lemma session_starts_reading:
  assumes e: "env_ok env ni no si so" and t: "statement_quiet env ni no si so q" and al: "alloc_quiet env ni no fd"
    and i: "ni fd w = http_header ls @ rest" and l: "list_all header_line_ok ls"
  shows "\<exists>sk w' c x. asyncRODBCQueryStart env (Some h) (Some q) 0 (session_connected phost pport fd w) =
      (Returned (CustomConnection 2), x) \<and> obj_bytes ni si (sk, w') = rest \<and>
    session_at env ReaderConn q sk w' (HttpChunkReader_new c) x"
proof -
  let ?x = "session_connected phost pport fd w" and ?sess = "\<lparr>mHandle = h, mQuery = q\<rparr>"
  obtain k where k: "mConnectionController ?x = Some k" "mOdbcAsyncExecutor k = None" "ci_socket (mConnectionInfo k) = Some (PlainObj fd)"
    and sys: "sys_w (cx_sys ?x) = w" "sys_fresh (cx_sys ?x) = 0"
    by (auto simp: session_connected_def session_start_def ConnectionContext_new_def ConnectionController_new_def)
  obtain k0 g0 a w1 where st: "start_executor env (exa_onError env) ?sess k (cx_sys ?x) = Inr (k0, g0)"
      "background_run env (env_sched env AfterExecute) k0 (sys_w g0) = (k\<lparr>mOdbcAsyncExecutor := Some a\<rparr>, w1)"
      "running_quietly env q a" "g0\<lparr>sys_w := w1\<rparr> = (cx_sys ?x)\<lparr>sys_w := w1\<rparr>" "ni fd w1 = http_header ls @ rest"
    using start_executor_quiet [of env ni no si so ?sess fd k "exa_onError env" "cx_sys ?x" "env_sched env AfterExecute"]
      t al k(2) sys i by auto
  obtain sk w' where r: "readHttpHeader (obj_socket env) (PlainObj fd, w1) = Some (Inr (), (sk, w'))"
      and b: "obj_bytes ni si (sk, w') = rest"
    using obj.readHttpHeader_consumes [OF e, of "(PlainObj fd, w1)" ls rest] st(5) l by auto
  have fr: "sys_fresh g0 = 0" using arg_cong [OF st(4), of sys_fresh] sys(2) by simp
  have "\<exists>c x. asyncRODBCQueryStart env (Some h) (Some q) 0 ?x = (Returned (CustomConnection 2), x) \<and>
      session_at env ReaderConn q sk w' (HttpChunkReader_new c) x"
    using st k sys r fr
    by (simp add: asyncRODBCQueryStart_def createReadConnection_def create_connection_def startReading_def
        createHttpReader_def reader_start_def ctl_socket_def set_socket_def install_connection_def
        RReaderConnection_create_def RConnection_new_def storeConnectionHook_def sexp_of_connection_def
        session_at_def Let_def) blast
  with b show ?thesis by blast
qed

lemma session_hook:
  assumes "session_at env kind q sk w c x"
  obtains k where "mConnectionController x = Some k" and "lock_hook kind 2 x = Some (Some k)"
    and "ctl_socket k (cx_sys x) = Some (sk, w)" and "sys_chunk (cx_sys x) = c"
    and "\<And>c' sk' w'. session_at env kind q sk' w' c' (put_transfer k c' (Some (sk', w')) x)"
proof -
  obtain k where "mConnectionController x = Some k" "lock_hook kind 2 x = Some (Some k)"
      "ctl_socket k (cx_sys x) = Some (sk, w)" "sys_chunk (cx_sys x) = c"
    using assms by (auto simp: session_at_def lock_hook_def getConnectionHook_def ctl_socket_def)
  moreover from this(1) have "session_at env kind q sk' w' c' (put_transfer k c' (Some (sk', w')) x)" for c' sk' w'
    using assms by (cases kind) (auto simp: session_at_def put_transfer_def set_socket_def)
  ultimately show thesis by (rule that)
qed

text \<open>The thread goes on between two calls from R: the session stays what it is.\<close>

lemma session_background:
  assumes t: "statement_quiet env ni no si so q" and x: "session_at env kind q sk w c x"
  shows "\<exists>w'. session_at env kind q sk w' c (background env n x) \<and>
    obj_bytes ni si (sk, w') = obj_bytes ni si (sk, w) \<and> obj_bytes no so (sk, w') = obj_bytes no so (sk, w)"
proof -
  obtain k a where k: "mConnectionController x = Some k" "mOdbcAsyncExecutor k = Some a" "running_quietly env q a"
      "sys_w (cx_sys x) = w"
    using x by (auto simp: session_at_def)
  obtain a' w' where b: "background_run env n k w = (k\<lparr>mOdbcAsyncExecutor := Some a'\<rparr>, w')" "running_quietly env q a'"
      "obj_bytes ni si (sk, w') = obj_bytes ni si (sk, w)" "obj_bytes no so (sk, w') = obj_bytes no so (sk, w)"
    using background_run_quiet [OF t k(2,3), of n w] by blast
  have "session_at env kind q sk w' c (background env n x)"
    using x b(1,2) k by (cases kind) (auto simp: session_at_def background_def)
  with b(3,4) show ?thesis by blast
qed

text \<open>Finishing such a session returns 0 and releases the R connection.\<close>

lemma session_finishes:
  assumes "session_at env kind q sk w c x"
  shows "\<exists>x'. asyncRODBCQueryFinish env chk x = (Returned (ScalarInteger 0), x') \<and>
    (\<exists>rc. cx_rconns x' 2 = Some rc \<and> rc_priv rc = None)"
proof -
  obtain k ro rc where x: "mConnectionController x = Some k" "mConnection x = Some ro" "ro_mConn ro = Some 2"
      "cx_rconns x 2 = Some rc" and a: "ctl_succeeds env k"
    using assms by (auto simp: session_at_def ctl_succeeds_def running_quietly_def simp del: bg_inv.simps)
  obtain r k' g' where sd: "shutDown env (exa_onError env) k (cx_sys x) = (r, k', g')" by (metis prod_cases3)
  from shutDown_succeeds [OF a sd] have "r = Returned True" by simp
  then show ?thesis
    using x sd
    by (simp add: asyncRODBCQueryFinish_def destroyConnection_def RConnection_release_def storeConnectionHook_def Let_def)
qed

section \<open>Reading\<close>

text \<open>R reads from the connection \<open>con\<close>: before each call the background thread makes some steps, then so many bytes
  are asked for; \<^const>\<open>None\<close> when a call gives fewer bytes or does not return.\<close>

fun rcon_read_seq ::
  "'w env \<Rightarrow> nat \<Rightarrow> (nat \<times> size_t) list \<Rightarrow> 'w conn_context \<Rightarrow> char list list option \<times> 'w conn_context" where
  "rcon_read_seq env con [] x = (Some [], x)"
| "rcon_read_seq env con ((steps, n) # rs) x =
     (case rcon_pipe_read env 1 n con (background env steps x) of
        (Returned (r, bs), x') \<Rightarrow>
          if r = n then (case rcon_read_seq env con rs x' of (bss, x'') \<Rightarrow> (map_option (Cons bs) bss, x''))
          else (None, x')
      | (_, x') \<Rightarrow> (None, x'))"

text \<open>A new reader is to deliver the whole body.\<close>

lemma delivers_new:
  assumes "inb s = encode_body cs h0 @ rest" and "list_all http_chunk_ok cs" and "size_line_ok h0 0"
  shows "delivers inb (HttpChunkReader_new c) s (concat (map snd cs))"
proof -
  have "pending (HttpChunkReader_new c) = []" by (simp add: HttpChunkReader_new_def)
  then show ?thesis using assms unfolding delivers_def by (auto simp: HttpChunkReader_new_def)
qed

lemma session_reads:
  assumes e: "env_ok env ni no si so" and t: "statement_quiet env ni no si so q"
    and "session_at env ReaderConn q sk w c x" and "delivers (obj_bytes ni si) c (sk, w) avail"
    and "sum_list (map snd rs) \<le> length avail" and "sum_list (map snd rs) < 2 ^ 63"
  shows "\<exists>bss x' sk' w' c'. rcon_read_seq env 2 rs x = (Some bss, x') \<and> map length bss = map snd rs \<and>
    concat bss = take (sum_list (map snd rs)) avail \<and> session_at env ReaderConn q sk' w' c' x'"
  using assms(3-6)
proof (induction rs arbitrary: sk w c x avail)
  case (Cons sn rs)
  obtain steps n where sn: "sn = (steps, n)" by fastforce
  obtain w0 where x0: "session_at env ReaderConn q sk w0 c (background env steps x)"
      and b0: "obj_bytes ni si (sk, w0) = obj_bytes ni si (sk, w)"
    using session_background [OF t Cons.prems(1), of steps] by blast
  obtain k where k: "lock_hook ReaderConn 2 (background env steps x) = Some (Some k)"
      "ctl_socket k (cx_sys (background env steps x)) = Some (sk, w0)" "sys_chunk (cx_sys (background env steps x)) = c"
    and put: "\<And>c' sk' w'. session_at env ReaderConn q sk' w' c' (put_transfer k c' (Some (sk', w')) (background env steps x))"
    using session_hook [OF x0] by metis
  have d: "delivers (obj_bytes ni si) c (sk, w0) avail" using Cons.prems(2) b0 by (simp add: delivers_def)
  have n: "n \<le> length avail" "n < 2 ^ 63" using Cons.prems(3,4) by (simp_all add: sn)
  obtain c1 sk1 w1 where r: "read_next (obj_socket env) c (Some (sk, w0)) n = Some (int n, take n avail, c1, Some (sk1, w1))"
      and d1: "delivers (obj_bytes ni si) c1 (sk1, w1) (drop n avail)"
    using obj.read_next_delivers [OF e d n(1)] by (metis surj_pair)
  have m: "size_mul 1 n = n" "size_t_of (int n) = n" "size_t_of 0 = 0" using n(2) by (simp_all add: size_mul_def size_t_of_def)
  have rd: "rcon_pipe_read env 1 n 2 (background env steps x) =
      (Returned (n, take n avail), put_transfer k c1 (Some (sk1, w1)) (background env steps x))"
    using r m by (simp add: rcon_pipe_read_def k reader_pipe_read_def)
  have l: "sum_list (map snd rs) \<le> length (drop n avail)" "sum_list (map snd rs) < 2 ^ 63"
    using Cons.prems(3,4) by (simp_all add: sn)
  obtain bss x' sk' w' c' where "rcon_read_seq env 2 rs (put_transfer k c1 (Some (sk1, w1)) (background env steps x)) = (Some bss, x')"
      "map length bss = map snd rs" "concat bss = take (sum_list (map snd rs)) (drop n avail)"
      "session_at env ReaderConn q sk' w' c' x'"
    using Cons.IH [OF put d1 l] by blast
  with rd n(1) show ?case
    by (intro exI [of _ "take n avail # bss"] exI [of _ x']) (auto simp: sn take_add min_def)
qed auto

end
