(* ===== verification/Session_Write.thy ===== *)
theory Session_Write
  imports Session_Run Http_Writer_Complete
begin

text \<open>
  A whole writing session through the entry points that R calls, over a peer that behaves:
  connect, start the statement and the writer, write, flush, finish.
\<close>

text \<open>The peer accepts the connection on descriptor \<open>fd\<close>, on which nothing was sent before, and its bytes are
  the proxy's answer followed by \<open>stream\<close>.\<close>

definition writing_peer ::
  "'w env \<Rightarrow> (int \<Rightarrow> 'w \<Rightarrow> char list) \<Rightarrow> (int \<Rightarrow> 'w \<Rightarrow> char list) \<Rightarrow> string \<Rightarrow> u16 \<Rightarrow> 'w \<Rightarrow> int \<Rightarrow>
     char list \<Rightarrow> char list \<Rightarrow> bool" where
  "writing_peer env ni no host port w fd answer stream \<longleftrightarrow>
     (\<exists>w1 a w2 w3 c. posix_socket (env_posix env) w = (fd, w1) \<and> 0 \<le> fd \<and>
        posix_gethostbyname (env_posix env) host w1 = (Some a, w2) \<and>
        posix_connect (env_posix env) fd \<lparr>sin_port = port, sin_addr = a\<rparr> w2 = (c, w3) \<and> 0 \<le> c \<and>
        ni fd w3 = answer @ stream \<and> no fd w3 = [])"

lemma writing_connect_peer:
  assumes e: "env_ok env ni no si so" and f: "sends_complete env"
    and p: "writing_peer env ni no host port w fd (encode_answer ver pport phost) stream"
    and r: "- (2 ^ 31) \<le> ver" "ver < 2 ^ 31" "- (2 ^ 31) \<le> pport" "pport < 2 ^ 31"
    and h: "length phost \<le> 15" "NUL \<notin> set phost"
  obtains w4 where "HttpConnectionEstablisher_connect env host port w =
      Some (Inr \<lparr>proxyHost = phost, proxyPort = Some (of_int pport), ci_socket = Some (PlainObj fd)\<rparr>, w4)"
    and "ni fd w4 = stream" and "no fd w4 = proxyHeader"
proof -
  obtain w3 where c: "SocketImpl_connect (env_posix env) host port (SocketImpl_new w) = (Inr (), \<lparr>mSocket = fd, os = w3\<rparr>)"
      and i: "ni fd w3 = encode_answer ver pport phost @ stream" "no fd w3 = []"
    using p unfolding writing_peer_def by (auto simp: SocketImpl_connect_def SocketImpl_new_def Let_def not_less)
  let ?s = "\<lparr>mSocket = fd, os = w3\<rparr>"
  have "fst (posix_send (env_posix env) fd proxyHeader w3) = int (length proxyHeader)"
    using f unfolding sends_complete_def by (simp add: proxyHeader_size_def del: length_greater_0_conv)
  then have s: "fst (sk_send (SocketImpl_socket (env_posix env)) proxyHeader ?s) = int (length proxyHeader)"
    by (simp add: SocketImpl_send_def case_prod_unfold)
  have po: "posix_ok (env_posix env) ni no" using e by (simp add: env_ok_def)
  obtain s' where m: "read_meta_info env host port ?s = Some (Inr (phost, of_int pport), s')"
      and i': "plain_in ni s' = stream" "plain_in no s' = proxyHeader"
    using plain.metaInfo_read_ok [OF po s _ r h, where rest = stream
        and errno = "\<lambda>s. posix_errno (env_posix env) (os s)" and ?h0.0 = host and ?p0.0 = port] i
    unfolding read_meta_info_def plain_in_def by auto
  have "mSocket s' = fd" using metaInfo_read_fd m by (fastforce simp: read_meta_info_def)
  with c m i' that [of "os s'"] show thesis
    by (simp add: HttpConnectionEstablisher_connect_def plain_in_def)
qed

section \<open>The writing connection\<close>

lemma session_starts_writing:
  assumes e: "env_ok env ni no si so" and t: "statement_quiet env ni no si so q" and al: "alloc_quiet env ni no fd"
    and i: "ni fd w = http_header ls @ rest" and l: "list_all header_line_ok ls"
  shows "\<exists>sk w' c x. asyncRODBCQueryStart env (Some h) (Some q) 1 (session_connected phost pport fd w) =
      (Returned (CustomConnection 2), x) \<and> obj_bytes no so (sk, w') = no fd w \<and>
    session_at env WriterConn q sk w' (HttpChunkWriter_new c) x"
proof -
  let ?x = "session_connected phost pport fd w" and ?sess = "\<lparr>mHandle = h, mQuery = q\<rparr>"
  obtain k where k: "mConnectionController ?x = Some k" "mOdbcAsyncExecutor k = None" "ci_socket (mConnectionInfo k) = Some (PlainObj fd)"
    and sys: "sys_w (cx_sys ?x) = w" "sys_fresh (cx_sys ?x) = 0"
    by (auto simp: session_connected_def session_start_def ConnectionContext_new_def ConnectionController_new_def)
  obtain k0 g0 a w1 where st: "start_executor env (exa_onError env) ?sess k (cx_sys ?x) = Inr (k0, g0)"
      "background_run env (env_sched env AfterExecute) k0 (sys_w g0) = (k\<lparr>mOdbcAsyncExecutor := Some a\<rparr>, w1)"
      "running_quietly env q a" "g0\<lparr>sys_w := w1\<rparr> = (cx_sys ?x)\<lparr>sys_w := w1\<rparr>" "ni fd w1 = http_header ls @ rest"
      "no fd w1 = no fd w"
    using start_executor_quiet [of env ni no si so ?sess fd k "exa_onError env" "cx_sys ?x" "env_sched env AfterExecute"]
      t al k(2) sys i by auto
  obtain sk w' where r: "readHttpHeader (obj_socket env) (PlainObj fd, w1) = Some (Inr (), (sk, w'))"
      and b: "obj_bytes no so (sk, w') = no fd w"
    using obj.readHttpHeader_consumes [OF e, of "(PlainObj fd, w1)" ls rest] st(5,6) l by auto
  have fr: "sys_fresh g0 = 0" using arg_cong [OF st(4), of sys_fresh] sys(2) by simp
  have "\<exists>c x. asyncRODBCQueryStart env (Some h) (Some q) 1 ?x = (Returned (CustomConnection 2), x) \<and>
      session_at env WriterConn q sk w' (HttpChunkWriter_new c) x"
    using st k sys r fr
    by (simp add: asyncRODBCQueryStart_def createWriteConnection_def create_connection_def startWriting_def
        createHttpWriter_def writer_start_def ctl_socket_def set_socket_def install_connection_def
        RWriterConnection_create_def RConnection_new_def storeConnectionHook_def sexp_of_connection_def
        session_at_def Let_def) blast
  with b show ?thesis by blast
qed

text \<open>R writes the byte strings \<open>srcs\<close> to the connection and looks for failure only; before each call the background
  thread makes some steps.\<close>

fun rcon_write_seq :: "'w env \<Rightarrow> nat \<Rightarrow> (nat \<times> char list) list \<Rightarrow> 'w conn_context \<Rightarrow> bool \<times> 'w conn_context" where
  "rcon_write_seq env con [] x = (True, x)"
| "rcon_write_seq env con ((steps, src) # srcs) x =
     (case rcon_pipe_write env src 1 (length src) con (background env steps x) of
        (Returned r, x') \<Rightarrow> if r = size_t_of (- 1) then (False, x') else rcon_write_seq env con srcs x'
      | (_, x') \<Rightarrow> (False, x'))"

lemma session_writes:
  assumes e: "env_ok env ni no si so" and f: "sends_complete env" and t: "statement_quiet env ni no si so q"
    and "session_at env WriterConn q sk w c x" and "writer_at (obj_bytes no so) pre c (sk, w) data"
    and "length data + length (concat (map snd srcs)) < 2 ^ 64"
  shows "\<exists>sk' w' c' x'. rcon_write_seq env 2 srcs x = (True, x') \<and> session_at env WriterConn q sk' w' c' x' \<and>
    writer_at (obj_bytes no so) pre c' (sk', w') (data @ concat (map snd srcs))"
  using assms(4-6)
proof (induction srcs arbitrary: sk w c x data)
  case (Cons ss srcs)
  obtain steps src where ss: "ss = (steps, src)" by fastforce
  obtain w0 where x0: "session_at env WriterConn q sk w0 c (background env steps x)"
      and b0: "obj_bytes no so (sk, w0) = obj_bytes no so (sk, w)"
    using session_background [OF t Cons.prems(1), of steps] by blast
  obtain k where k: "lock_hook WriterConn 2 (background env steps x) = Some (Some k)"
      "ctl_socket k (cx_sys (background env steps x)) = Some (sk, w0)" "sys_chunk (cx_sys (background env steps x)) = c"
    and put: "\<And>c' sk' w'. session_at env WriterConn q sk' w' c' (put_transfer k c' (Some (sk', w')) (background env steps x))"
    using session_hook [OF x0] by metis
  have a0: "writer_at (obj_bytes no so) pre c (sk, w0) data" using Cons.prems(2) unfolding writer_at_def b0 .
  have l: "length src < 2 ^ 64" "length data + length src < 2 ^ 64" using Cons.prems(3) by (simp_all add: ss)
  have len: "length src = size_mul 1 (length src)" using l(1) by (simp add: size_mul_def)
  obtain r c1 sk1 w1 where wr: "writer_pipe_write (obj_socket env) c (Some (sk, w0)) src 1 (length src) =
      Some (r, c1, Some (sk1, w1))" "r \<noteq> size_t_of (- 1)"
    using sending.writer_pipe_write_complete [OF conjI [OF e f] writer_at_wf [OF a0] len] by (metis surj_pair)
  have at: "writer_at (obj_bytes no so) pre c1 (sk1, w1) (data @ src)"
    using obj.writer_pipe_write_at [OF e a0 len _ wr] l(2) by auto
  from Cons.IH [OF put [of sk1 w1 c1] at] Cons.prems(3) k wr show ?case
    by (simp add: rcon_pipe_write_def ss)
qed auto

lemma session_flushes:
  assumes e: "env_ok env ni no si so" and f: "sends_complete env"
    and x: "session_at env WriterConn q sk w c x" and a: "writer_at (obj_bytes no so) pre c (sk, w) data"
    and l: "length data < 2 ^ 64"
  shows "\<exists>sk' w' c' x'. rcon_pipe_fflush env 2 x = (Returned 0, x') \<and> session_at env WriterConn q sk' w' c' x' \<and>
    obj_bytes no so (sk', w') = (if data = [] then pre else pre @ writer_ok_answer @ data)"
proof -
  obtain k where k: "lock_hook WriterConn 2 x = Some (Some k)" "ctl_socket k (cx_sys x) = Some (sk, w)"
      "sys_chunk (cx_sys x) = c" and put: "\<And>c' sk' w'. session_at env WriterConn q sk' w' c' (put_transfer k c' (Some (sk', w')) x)"
    using session_hook [OF x] by metis
  obtain c1 sk1 w1 where fl: "writer_pipe_fflush (obj_socket env) c (Some (sk, w)) = Some (0, c1, Some (sk1, w1))"
    using sending.writer_pipe_fflush_complete [OF conjI [OF e f] writer_at_wf [OF a]] by (metis surj_pair)
  have "obj_bytes no so (sk1, w1) = (if data = [] then pre else pre @ writer_ok_answer @ data)"
    using obj.writer_pipe_fflush_at [OF e a l fl] by auto
  moreover have "rcon_pipe_fflush env 2 x = (Returned 0, put_transfer k c1 (Some (sk1, w1)) x)"
    using k fl by (simp add: rcon_pipe_fflush_def)
  ultimately show ?thesis using put [of sk1 w1 c1] by blast
qed

end
