(* ===== verification/Session_Properties.thy ===== *)
theory Session_Properties
  imports Session_Write Transfer_Properties
begin

text \<open>
  The properties of connections and sessions: memory safety of every history of calls, the
  reading session from R's entry points, connecting and failing to connect, the background
  statement, shutting down, and the race between the two.
\<close>

section \<open>Every history of calls\<close>

text \<open>Property C5: after any history of calls from R, whatever the network answers, the read
  callback on any connection that R holds, current or released long ago, runs to its end without
  touching freed memory or writing past the caller's buffer, and preserves the library's
  invariant.\<close>

theorem read_callback_safe:
  assumes "env_ok env ni no si so" and "lib_reachable env w x" and "has_conn ReaderConn con x"
  shows "\<exists>v bs x'. rcon_pipe_read env sz nitems con x = (Returned (v, bs), x') \<and>
    length bs \<le> size_mul sz nitems \<and> ctx_inv x'"
  using rcon_pipe_read_safe [OF assms(1) lib_reachable_inv [OF assms(1,2)] assms(3)] by blast

definition demo_session :: loopback where
  "demo_session = lb_new (encode_answer 1 20000 ''10.0.0.1'' @ demo_stream)"

lemma demo_reading_peer:
  "reading_peer (lb_env True True) (\<lambda>fd. lb_in) ''exa'' 8563 demo_session 3 (encode_answer 1 20000 ''10.0.0.1'') demo_stream"
  by (simp add: reading_peer_def lb_env_def lb_posix_def lb_odbc_def lb_send_def sql_ok_def demo_session_def lb_new_def)

lemma demo_quiet:
  "statement_quiet (lb_env True True) (\<lambda>fd. lb_in) (\<lambda>fd. lb_out) lb_in lb_out q"
  "alloc_quiet (lb_env True True) (\<lambda>fd. lb_in) (\<lambda>fd. lb_out) 3"
  by (simp_all add: statement_quiet_def alloc_quiet_def lb_env_def lb_odbc_def sql_ok_def)

text \<open>The connected session on the loopback, and the same with a reader or a writer.\<close>

lemma demo_connects:
  "\<exists>w4. asyncRODBCIOStart (lb_env True True) ''exa'' 8563 ''http'' (session_start demo_session) =
      (Returned (ScalarInteger 0), session_connected ''10.0.0.1'' 20000 3 w4) \<and> lb_in w4 = demo_stream"
proof -
  obtain w4 where c: "HttpConnectionEstablisher_connect (lb_env True True) ''exa'' 8563 demo_session =
      Some (Inr \<lparr>proxyHost = ''10.0.0.1'', proxyPort = Some 20000, ci_socket = Some (PlainObj 3)\<rparr>, w4)"
      and i: "lb_in w4 = demo_stream"
    using http_connect_peer [OF lb_env_ok demo_reading_peer, where thesis = thesis] by (simp add: NUL_def)
  have "asyncRODBCIOStart (lb_env True True) ''exa'' 8563 ''http'' (session_start demo_session) =
      (Returned (ScalarInteger 0), session_connected ''10.0.0.1'' 20000 3 w4)"
    using session_connects [of "lb_env True True" "''exa''" 8563] c by simp
  with i show ?thesis by blast
qed

lemma demo_step_reachable:
  assumes "asyncRODBCIOStart (lb_env True True) ''exa'' 8563 ''http'' (session_start demo_session) =
      (Returned (ScalarInteger 0), x1)"
    and "asyncRODBCQueryStart (lb_env True True) h q wr x1 = (Returned v, x)"
  shows "lib_reachable (lb_env True True) demo_session x"
  using lib_reachable.start [of "lb_env True True" demo_session]
  by (intro lib_reachable.step [OF lib_reachable.step [OF _ lib_step.io_start [OF assms(1)]] lib_step.query_start [OF assms(2)]])
    (simp_all add: session_start_def)

lemma demo_session_reachable:
  "\<exists>x sk w c. lib_reachable (lb_env True True) demo_session x \<and> has_conn ReaderConn 2 x \<and>
    session_at (lb_env True True) ReaderConn ''EXPORT t'' sk w c x"
proof -
  obtain w4 where io: "asyncRODBCIOStart (lb_env True True) ''exa'' 8563 ''http'' (session_start demo_session) =
      (Returned (ScalarInteger 0), session_connected ''10.0.0.1'' 20000 3 w4)" and i: "lb_in w4 = demo_stream"
    using demo_connects by blast
  obtain sk w' c x where qs: "asyncRODBCQueryStart (lb_env True True) (Some 1) (Some ''EXPORT t'') 0
        (session_connected ''10.0.0.1'' 20000 3 w4) = (Returned (CustomConnection 2), x)"
      and x: "session_at (lb_env True True) ReaderConn ''EXPORT t'' sk w' (HttpChunkReader_new c) x"
    using session_starts_reading [OF lb_env_ok demo_quiet, of w4 demo_lines "encode_body demo_chunks ''0''" 1 "''EXPORT t''"
        "''10.0.0.1''" 20000] demo_header_ok i by (auto simp: demo_stream_def)
  have "has_conn ReaderConn 2 x" using x by (auto simp: session_at_def has_conn_def)
  with demo_step_reachable [OF io qs] x show ?thesis by blast
qed

theorem read_callback_safe_witness:
  "\<exists>x v bs x'. lib_reachable (lb_env True True) demo_session x \<and>
    rcon_pipe_read (lb_env True True) 1 4096 2 x = (Returned (v, bs), x') \<and> length bs \<le> 4096 \<and> ctx_inv x'"
proof -
  obtain x where x: "lib_reachable (lb_env True True) demo_session x" "has_conn ReaderConn 2 x"
    using demo_session_reachable by blast
  from read_callback_safe [OF lb_env_ok x, of 1 4096] x(1) show ?thesis by (auto simp: size_mul_def)
qed

text \<open>Property C6: the same for the write and the flush callbacks of a writing connection.\<close>

theorem write_callback_safe:
  assumes "env_ok env ni no si so" and "lib_reachable env w x" and "has_conn WriterConn con x"
    and "length src = size_mul sz nitems"
  shows "(\<exists>v x'. rcon_pipe_write env src sz nitems con x = (Returned v, x') \<and> ctx_inv x') \<and>
    (\<exists>v x'. rcon_pipe_fflush env con x = (Returned v, x') \<and> ctx_inv x')"
  using rcon_pipe_write_safe [OF assms(1) lib_reachable_inv [OF assms(1,2)] assms(3,4)]
    rcon_pipe_fflush_safe [OF assms(1) lib_reachable_inv [OF assms(1,2)] assms(3)] by blast

lemma demo_writing_reachable:
  "\<exists>x. lib_reachable (lb_env True True) demo_session x \<and> has_conn WriterConn 2 x"
proof -
  obtain w4 where io: "asyncRODBCIOStart (lb_env True True) ''exa'' 8563 ''http'' (session_start demo_session) =
      (Returned (ScalarInteger 0), session_connected ''10.0.0.1'' 20000 3 w4)" and i: "lb_in w4 = demo_stream"
    using demo_connects by blast
  obtain sk w' c x where qs: "asyncRODBCQueryStart (lb_env True True) (Some 1) (Some ''IMPORT t'') 1
        (session_connected ''10.0.0.1'' 20000 3 w4) = (Returned (CustomConnection 2), x)"
      and x: "session_at (lb_env True True) WriterConn ''IMPORT t'' sk w' (HttpChunkWriter_new c) x"
    using session_starts_writing [OF lb_env_ok demo_quiet, of w4 demo_lines "encode_body demo_chunks ''0''" 1 "''IMPORT t''"
        "''10.0.0.1''" 20000] demo_header_ok i by (auto simp: demo_stream_def)
  have "has_conn WriterConn 2 x" using x by (auto simp: session_at_def has_conn_def)
  with demo_step_reachable [OF io qs] show ?thesis by blast
qed

theorem write_callback_safe_witness:
  "\<exists>x v x'. lib_reachable (lb_env True True) demo_session x \<and>
    rcon_pipe_write (lb_env True True) ''a;b'' 1 3 2 x = (Returned v, x') \<and> ctx_inv x'"
proof -
  obtain x where x: "lib_reachable (lb_env True True) demo_session x" "has_conn WriterConn 2 x"
    using demo_writing_reachable by blast
  from write_callback_safe [OF lb_env_ok x, of "''a;b''" 1 3] x(1) show ?thesis by (auto simp: size_mul_def)
qed






section \<open>Connecting\<close>

text \<open>Property C8: an attempt to connect that fails, at whichever step, over http or https, raises a
  \<^verbatim>\<open>ConnectionException\<close>, and a descriptor that was opened is shut down in both directions
  before; only an https attempt without a valid certificate opens none.\<close>

theorem connect_failure_shuts:
  assumes "establisher_connect env est host port w = Some (Inl e, w')"
  shows "(\<exists>m. e = ConnectionException m) \<and>
    (fst (posix_socket (env_posix env) w) < 0 \<or>
     (\<exists>w1. w' = posix_shutdown (env_posix env) (fst (posix_socket (env_posix env) w)) SHUT_RDWR w1) \<or>
     (\<exists>c. est = HttpsEstablisher c \<and> \<not> Certificate_isValid c \<and> w' = w))"
  using establisher_connect_exn [OF assms] by (auto simp: shut_before_exit_def Let_def)

lemma lb_connect_refused:
  "\<exists>e w'. establisher_connect (lb_env False True) HttpEstablisher ''exa'' 8563 (lb_new []) = Some (Inl e, w') \<and>
    lb_shut w' = [(3, SHUT_RDWR)]"
  by (simp add: HttpConnectionEstablisher_connect_def SocketImpl_connect_def SocketImpl_new_def SocketImpl_destroy_def
      lb_env_def lb_posix_def lb_shutdown_def lb_new_def Let_def)

theorem connect_failure_shuts_witness:
  "\<exists>m w' w1. establisher_connect (lb_env False True) HttpEstablisher ''exa'' 8563 (lb_new []) =
      Some (Inl (ConnectionException m), w') \<and> w' = posix_shutdown (lb_posix False) 3 SHUT_RDWR w1"
proof -
  obtain e w' where c: "establisher_connect (lb_env False True) HttpEstablisher ''exa'' 8563 (lb_new []) = Some (Inl e, w')"
    using lb_connect_refused by blast
  from connect_failure_shuts [OF c] c show ?thesis by (auto simp: lb_env_def lb_posix_def)
qed

text \<open>Property C9: \<^verbatim>\<open>connect\<close> on a controller without a socket always ends; it returns true exactly
  with a socket and the proxy's port in place, leaves the controller as it was in every other case,
  and lets only a \<^verbatim>\<open>CertificateException\<close> of an https connection escape.\<close>

theorem connect_outcome:
  assumes "posix_ok (env_posix env) ni no" and "ci_socket (mConnectionInfo k) = None"
    and "controller_connect env eh p host port k g = (r, k', g')"
  shows "r \<noteq> NoResult \<and> r \<noteq> Terminated \<and>
    (r = Returned True \<longrightarrow> ci_socket (mConnectionInfo k') \<noteq> None \<and> getProxyPort k' \<noteq> None \<and> isValidProtocol p) \<and>
    (r \<noteq> Returned True \<longrightarrow> k' = k) \<and>
    (\<forall>e. r = Uncaught e \<longrightarrow> p = https \<and> (\<exists>m. e = CertificateException m))"
proof -
  have n: "r \<noteq> NoResult" using controller_connect_defined [OF assms(1,2), of eh p host port g] assms(3) by simp
  have "connect_post r p k k'" by (rule controller_connect_post [OF assms(3,2)])
  then show ?thesis using n by (cases "(r, p, k, k')" rule: connect_post.cases) auto
qed

theorem connect_outcome_witness:
  "\<exists>k' g'. controller_connect (lb_env False True) (\<lambda>m w. (True, w)) http ''exa'' 8563 ConnectionController_new
      (cx_sys (session_start (lb_new []))) = (Returned False, k', g') \<and> k' = ConnectionController_new"
proof -
  obtain r k' g' where c: "controller_connect (lb_env False True) (\<lambda>m w. (True, w)) http ''exa'' 8563 ConnectionController_new
      (cx_sys (session_start (lb_new []))) = (r, k', g')" by (metis prod_cases3)
  moreover from c have "r = Returned False"
    by (simp add: controller_connect_def isValidProtocol_def createConnectionEstablisher_def call_handler_def
        HttpConnectionEstablisher_connect_def SocketImpl_connect_def SocketImpl_new_def lb_env_def lb_posix_def
        Let_def close_socket_none ConnectionController_new_def ConnectionInfo_new_def)
  moreover have "posix_ok (env_posix (lb_env False True)) (\<lambda>fd. lb_in) (\<lambda>fd. lb_out)"
    using lb_env_ok by (simp add: env_ok_def)
  ultimately show ?thesis
    using connect_outcome [OF _ _ c, of "\<lambda>fd. lb_in" "\<lambda>fd. lb_out"]
    by (simp add: ConnectionController_new_def ConnectionInfo_new_def)
qed

text \<open>Property C21: when making the certificate fails, its exception leaves \<^verbatim>\<open>connect\<close>: the
  controller catches exceptions of the connection only.\<close>

theorem certificate_exception_escapes:
  assumes "mkcert (env_ossl env) 2048 0 365 (sys_cert g) (sys_w g) = (Inl e, w)" and "\<not> Certificate_isValid (sys_cert g)"
  shows "controller_connect env eh https host port k g = (Uncaught e, k, g\<lparr>sys_w := w\<rparr>)"
  using assms
  by (simp add: controller_connect_def isValidProtocol_def createConnectionEstablisher_def getCertificate_def)

definition ossl_down :: "loopback ossl" where
  "ossl_down c w = (case c of RSA_generate_key_ex b \<Rightarrow> 0 | _ \<Rightarrow> 1, w)"

theorem certificate_exception_escapes_witness:
  "controller_connect ((lb_env True True)\<lparr>env_ossl := ossl_down\<rparr>) (\<lambda>m w. (True, w)) https ''exa'' 8563 ConnectionController_new
      (cx_sys (session_start (lb_new []))) =
    (Uncaught (CertificateException ''Error generating RSA key.''), ConnectionController_new, cx_sys (session_start (lb_new [])))"
  using certificate_exception_escapes [of "(lb_env True True)\<lparr>env_ossl := ossl_down\<rparr>" "cx_sys (session_start (lb_new []))"
      "CertificateException ''Error generating RSA key.''" "lb_new []" "\<lambda>m w. (True, w)" "''exa''" 8563 ConnectionController_new]
  by (simp add: mkcert_def ossl_down_def Let_def session_start_def ConnectionContext_new_def Certificate_new_def
      Certificate_isValid_def)

section \<open>The background statement and the shutdown\<close>




text \<open>Property C20: when the driver cannot allocate a statement handle, \<^verbatim>\<open>startReading\<close> leaves an
  executor behind whose result was never set, and the next shutdown reads that indeterminate
  value.\<close>

theorem failed_start_then_shutDown:
  assumes "ci_socket (mConnectionInfo k) = Some sk" and "mOdbcAsyncExecutor k = None"
    and "\<not> sql_ok (fst (fst (api_SQLAllocHandle (env_odbc env) (mHandle si) (sys_w g))))"
    and "startReading env eh si k g = (r, k', g')"
  shows "fst (shutDown env eh' k' g'') = NoResult"
proof -
  obtain res stmt w1 where al: "api_SQLAllocHandle (env_odbc env) (mHandle si) (sys_w g) = ((res, stmt), w1)"
    by (metis surj_pair)
  obtain a where "mOdbcAsyncExecutor k' = Some a" "mThread a = NotJoinable" "mRes (mQueryExecutor a) = None"
    using assms al
    by (auto simp: startReading_def start_executor_def replace_executor_def async_execute_def AsyncExecutorImpl_new_def
        OdbcQueryExecutor_new_def initializeQueryExecutor_def handle_start_exn_def call_handler_def Let_def
        split: prod.splits bool.splits)
  then show ?thesis by (rule shutDown_unstarted)
qed

definition odbc_down :: "loopback env" where
  "odbc_down = (lb_env True True)\<lparr>env_odbc := (lb_odbc True)\<lparr>api_SQLAllocHandle := (\<lambda>h w. ((- 1, None), w))\<rparr>\<rparr>"

theorem failed_start_then_shutDown_witness:
  "fst (shutDown odbc_down (\<lambda>m w. (True, w))
      (fst (snd (startReading odbc_down (\<lambda>m w. (True, w)) \<lparr>mHandle = 1, mQuery = ''q''\<rparr>
         (set_socket (Some (PlainObj 3)) ConnectionController_new) (cx_sys (session_start (lb_new []))))))
      (cx_sys (session_start (lb_new [])))) = NoResult"
proof -
  obtain r k' g' where s: "startReading odbc_down (\<lambda>m w. (True, w)) \<lparr>mHandle = 1, mQuery = ''q''\<rparr>
      (set_socket (Some (PlainObj 3)) ConnectionController_new) (cx_sys (session_start (lb_new []))) = (r, k', g')"
    by (metis prod_cases3)
  show ?thesis
    using failed_start_then_shutDown [OF _ _ _ s, of "PlainObj 3"] s
    by (simp add: ConnectionController_new_def odbc_down_def sql_ok_def)
qed

section \<open>The race between the threads\<close>

text \<open>Property C7: the shutdown and the background thread never wait for each other forever, also when the statement
  cannot end before the connection is closed: every state of every interleaving can go on until both have ended,
  unless the process has crashed; then the socket is gone and the statement's result is known; and no
  interleaving goes on forever.\<close>

theorem shutdown_race_ends:
  "(race_reachable env waits stmt query sk w s \<longrightarrow>
      rs_crashed s \<or>
      (rs_main s = MEnd \<and> rs_bg s = EEnd \<and> rs_sock s = None \<and> rs_done s \<and> rs_res s \<noteq> None) \<or>
      (\<exists>s'. race_step env waits stmt query s s')) \<and>
   \<not> (\<forall>i. race_step env waits stmt query (f i) (f (Suc i)))"
proof -
  have m: "(if rs_crashed s' then 0 else Suc (main_rank (rs_main s') + err_rank (rs_bg s'))) <
      (if rs_crashed s then 0 else Suc (main_rank (rs_main s) + err_rank (rs_bg s)))"
    if "race_step env waits stmt query s s'" for s s' :: "'a race_state"
    using that race_step_rank [OF that] by (auto elim: race_stepE)
  have "\<not> (\<forall>i. race_step env waits stmt query (f i) (f (Suc i)))"
  proof
    assume "\<forall>i. race_step env waits stmt query (f i) (f (Suc i))"
    then have "\<forall>i. (f (Suc i), f i) \<in> measure (\<lambda>s. if rs_crashed s then 0 else Suc (main_rank (rs_main s) + err_rank (rs_bg s)))"
      using m by simp
    then show False using wf_measure wf_iff_no_infinite_down_chain by metis
  qed
  moreover have "rs_crashed s \<or>
      (rs_main s = MEnd \<and> rs_bg s = EEnd \<and> rs_sock s = None \<and> rs_done s \<and> rs_res s \<noteq> None) \<or>
      (\<exists>s'. race_step env waits stmt query s s')" if "race_reachable env waits stmt query sk w s"
  proof -
    have i: "race_inv s" by (rule race_reachable_inv [OF that])
    then have "rs_main s = MEnd \<and> rs_bg s = EEnd \<Longrightarrow> rs_sock s = None \<and> rs_done s \<and> rs_res s \<noteq> None"
      by (auto simp: race_inv_def)
    then show ?thesis using race_progress [OF i, of env waits stmt query] by blast
  qed
  ultimately show ?thesis by blast
qed

theorem shutdown_race_ends_witness:
  "\<exists>s'. race_step (lb_env True True) True None ''q'' (race_init (PlainObj 3) (lb_new [])) s'"
  using shutdown_race_ends [of "lb_env True True" True None "''q''" "PlainObj 3" "lb_new []" "race_init (PlainObj 3) (lb_new [])"]
    race_reachable.init [of "lb_env True True" True None "''q''" "PlainObj 3" "lb_new []"]
  by (simp add: race_init_def)

text \<open>Property C19: when the statement fails there is an interleaving in which the error callback has
  tested the socket pointer, the shutdown resets it, and the callback dereferences it.  (A statement that ends only
  with the closed connection fails after the shutdown of the socket, any other may fail before.)\<close>

theorem shutdown_race_crashes:
  assumes "\<not> sql_ok (fst (api_SQLExecDirect (env_odbc env) stmt query
      (if waits then snd (obj_shutdownRdWr env (sk, w)) else w)))"
  shows "\<exists>s. race_reachable env waits stmt query sk w s \<and> rs_crashed s"
  by (rule race_crash_reachable [OF assms])

theorem shutdown_race_crashes_witness:
  "\<exists>s. race_reachable (lb_env True False) True (Some 1) ''q'' (PlainObj 3) (lb_new []) s \<and> rs_crashed s"
  by (rule shutdown_race_crashes) (simp add: lb_env_def lb_odbc_def sql_ok_def)

text \<open>Property C18: such a crash needs a statement that failed; with a statement that succeeds every
  interleaving is safe.\<close>

theorem shutdown_race_safe:
  assumes "race_reachable env waits stmt query sk w s" and "\<forall>w. sql_ok (fst (api_SQLExecDirect (env_odbc env) stmt query w))"
  shows "\<not> rs_crashed s"
proof -
  have ok: "sql_ok r" if "api_SQLExecDirect (env_odbc env) stmt query w' = (r, w'')" for r w' w''
    using spec [OF assms(2), of w'] that by simp
  have "\<forall>r. rs_res s = Some r \<longrightarrow> sql_ok r"
    using assms(1)
  proof (induction rule: race_reachable.induct)
    case (step s s')
    from step(2) show ?case
    proof (cases rule: race_step.cases)
      case main
      then have "rs_res s' = rs_res s"
        by (auto simp: main_next_def split: main_pc.splits option.splits prod.splits if_splits)
      then show ?thesis using step(3) by simp
    next
      case bg
      then show ?thesis using step(3)
        by (auto simp: bg_next_def dest: ok split: err_pc.splits option.splits prod.splits if_splits)
    qed
  qed (simp add: race_init_def)
  then show ?thesis using race_crash_failed [OF assms(1)] by blast
qed

text \<open>An interleaving of a writer's statement: the connection is closed, the statement ends, the thread is
  joined.\<close>

lemma demo_race:
  "\<exists>s. race_reachable (lb_env True True) True None ''q'' (PlainObj 3) (lb_new []) s \<and> rs_main s = MEnd"
proof -
  let ?R = "race_reachable (lb_env True True) True None ''q'' (PlainObj 3) (lb_new [])"
  note st = race_reachable.step and mn = race_step.main and bs = race_step.bg
  obtain w1 where s2: "obj_shutdownRdWr (lb_env True True) (PlainObj 3, lb_new []) = (PlainObj (- 1), w1)"
    by (simp add: SocketImpl_shutdownRdWr_def)
  obtain w2 where d: "obj_destroy (lb_env True True) (PlainObj (- 1), w1) = Some w2" by simp
  have q: "api_SQLExecDirect (env_odbc (lb_env True True)) h q w = (0, w)" for h q w
    by (simp add: lb_env_def lb_odbc_def)
  define a where "a = race_init (PlainObj 3) (lb_new [])"
  note a = a_def race_init_def
  have "?R a" unfolding a_def by (rule race_reachable.init)
  then have "?R (a\<lparr>rs_main := MCheck\<rparr>)" by (rule st) (rule mn, simp_all add: a main_next_def)
  then have "?R (a\<lparr>rs_main := MShut\<rparr>)" by (rule st) (rule mn, simp_all add: a main_next_def)
  then have "?R (a\<lparr>rs_main := MReset, rs_sock := Some (PlainObj (- 1)), rs_w := w1, rs_closed := True\<rparr>)"
    by (rule st) (rule mn, simp_all add: a main_next_def s2 del: obj_shutdownRdWr.simps)
  then have "?R (a\<lparr>rs_main := MJoin, rs_sock := None, rs_w := w2, rs_closed := True\<rparr>)"
    by (rule st) (rule mn, simp_all add: a main_next_def d del: obj_destroy.simps)
  then have "?R (a\<lparr>rs_main := MJoin, rs_sock := None, rs_w := w2, rs_closed := True, rs_res := Some 0, rs_bg := ESetDone True\<rparr>)"
    by (rule st) (rule bs, simp_all add: a bg_next_def q sql_ok_def)
  then have "?R (a\<lparr>rs_main := MJoin, rs_sock := None, rs_w := w2, rs_closed := True, rs_res := Some 0, rs_bg := EEnd, rs_done := True\<rparr>)"
    by (rule st) (rule bs, simp_all add: a bg_next_def)
  then have "?R (a\<lparr>rs_main := MEnd, rs_sock := None, rs_w := w2, rs_closed := True, rs_res := Some 0, rs_bg := EEnd, rs_done := True\<rparr>)"
    by (rule st) (rule mn, simp_all add: a main_next_def)
  then show ?thesis by (intro exI conjI) auto
qed

theorem shutdown_race_safe_witness:
  "\<exists>s. race_reachable (lb_env True True) True None ''q'' (PlainObj 3) (lb_new []) s \<and> rs_main s = MEnd \<and> \<not> rs_crashed s"
proof -
  obtain s where s: "race_reachable (lb_env True True) True None ''q'' (PlainObj 3) (lb_new []) s" "rs_main s = MEnd"
    using demo_race by blast
  have "\<not> rs_crashed s" by (rule shutdown_race_safe [OF s(1)]) (simp add: lb_env_def lb_odbc_def sql_ok_def)
  with s show ?thesis by blast
qed

end
