(* ===== verification/Date_Order.thy ===== *)
theory Date_Order
  imports Date_Roundtrip
begin

text \<open>
  \<^verbatim>\<open>to_days\<close> as a count of days: a closed form, one more day for the next date, and the
  order of dates.
\<close>

section \<open>A closed form\<close>

text \<open>Days before the first of March of year \<open>y\<close>, from the first of March of year 0.\<close>

definition march_first :: "int \<Rightarrow> int" where
  "march_first y = 365 * y + y div 4 - y div 100 + y div 400"

lemma march_first_era: "march_first y = y div 400 * 146097 + era_doe (y mod 400) 0"
proof -
  define e r where "e = y div 400" and "r = y mod 400"
  have y: "y = r + e * 400" by (simp add: e_def r_def)
  have "y div 4 = 100 * e + r div 4"
  proof -
    have "y = r + (100 * e) * 4" using y by simp
    then show ?thesis using div_mult_self1 [of 4 r "100 * e"] by simp
  qed
  moreover have "y div 100 = 4 * e + r div 100"
  proof -
    have "y = r + (4 * e) * 100" using y by simp
    then show ?thesis using div_mult_self1 [of 100 r "4 * e"] by simp
  qed
  ultimately show ?thesis
    unfolding march_first_def era_doe_def e_def [symmetric] r_def [symmetric] using y by linarith
qed

lemma div_Suc_int:
  fixes y k :: int
  assumes "0 < k"
  shows "(y + 1) div k = y div k + (if k dvd y + 1 then 1 else 0)"
proof (cases "k dvd y + 1")
  case True
  then obtain q where q: "y + 1 = k * q" by (auto elim: dvdE)
  then have "y = k * (q - 1) + (k - 1)" by (simp add: algebra_simps)
  then have "y div k = q - 1"
    using assms by (intro int_div_pos_eq [of _ _ _ "k - 1"]) auto
  then show ?thesis using True q assms by simp
next
  case False
  have "y + 1 = k * (y div k) + (y mod k + 1)" by simp
  moreover have "y mod k + 1 < k"
  proof (rule ccontr)
    assume "\<not> y mod k + 1 < k"
    then have "y mod k + 1 = k" using assms pos_mod_bound [of k y] by linarith
    moreover have "k * (y div k + 1) = k * (y div k) + k" by (simp add: distrib_left)
    ultimately have "y + 1 = k * (y div k + 1)"
      using mult_div_mod_eq [of k y] by linarith
    then show False using False by simp
  qed
  ultimately have "(y + 1) div k = y div k"
    using assms by (intro int_div_pos_eq [of _ _ _ "y mod k + 1"]) auto
  then show ?thesis using False by simp
qed

text \<open>A year that starts in March has 366 days when the calendar year it ends in is a leap year.\<close>

lemma march_first_Suc:
  "march_first (y + 1) = march_first y + 365 +
     (if 4 dvd y + 1 \<and> (\<not> 100 dvd y + 1 \<or> 400 dvd y + 1) then 1 else 0)"
proof -
  define A B C where "A \<longleftrightarrow> 4 dvd y + 1" and "B \<longleftrightarrow> 100 dvd y + 1" and "C \<longleftrightarrow> 400 dvd y + 1"
  have "C \<Longrightarrow> B" unfolding B_def C_def by (rule dvd_trans [of 100 400]) simp
  moreover have "B \<Longrightarrow> A" unfolding A_def B_def by (rule dvd_trans [of 4 100]) simp
  moreover define p q r where "p = y div 4" and "q = y div 100" and "r = y div 400"
  have d: "(y + 1) div 4 = p + (if A then 1 else 0)" "(y + 1) div 100 = q + (if B then 1 else 0)"
    "(y + 1) div 400 = r + (if C then 1 else 0)"
    unfolding A_def B_def C_def p_def q_def r_def by (rule div_Suc_int; simp)+
  have "march_first (y + 1) = march_first y + 365 + (if A then 1 else 0) - (if B then 1 else 0) + (if C then 1 else 0)"
    unfolding march_first_def d p_def [symmetric] q_def [symmetric] r_def [symmetric] by simp
  ultimately show ?thesis
    unfolding A_def [symmetric] B_def [symmetric] C_def [symmetric] by (cases A; cases B; cases C) simp_all
qed

lemma march_first_Suc_ge: "march_first y + 365 \<le> march_first (y + 1)"
  unfolding march_first_Suc by (simp only: split: if_splits) linarith

lemma march_first_leap: "era_leap (y mod 400) \<Longrightarrow> march_first (y + 1) = march_first y + 366"
  unfolding march_first_Suc era_leap_year by simp

lemma march_first_mono: "y < y' \<Longrightarrow> march_first y + 365 \<le> march_first y'"
proof (induction "nat (y' - y)" arbitrary: y')
  case (Suc n)
  show ?case
  proof (cases "y' = y + 1")
    case True
    then show ?thesis using march_first_Suc_ge by simp
  next
    case False
    then have "march_first y + 365 \<le> march_first (y' - 1)"
      using Suc by (intro Suc.hyps(1)) auto
    moreover have "march_first (y' - 1) \<le> march_first y'"
      using march_first_Suc_ge [of "y' - 1"] by simp
    ultimately show ?thesis by linarith
  qed
qed simp

text \<open>Month and day of a date as the year and the day of a year that starts in March.\<close>

definition march_year :: "year_month_day \<Rightarrow> int" where
  "march_year x = year_int (ymd_year x) - (if uint (month_m (ymd_month x)) \<le> 2 then 1 else 0)"

definition march_doy :: "year_month_day \<Rightarrow> int" where
  "march_doy x = month_start (march_of (uint (month_m (ymd_month x)))) + uint (day_d (ymd_day x)) - 1"

lemma to_days_closed:
  assumes "ymd_ok x"
  shows "to_days x = march_first (march_year x) + march_doy x - 719468"
proof -
  have e: "era_doe a (march_doy x) = era_doe a 0 + march_doy x" for a by (simp add: era_doe_def)
  have "to_days x + 719468 = march_first (march_year x) + march_doy x"
    by (simp only: to_days_parts(3) [OF assms, folded march_year_def march_doy_def] march_first_era e add.assoc)
  then show ?thesis by simp
qed

lemma march_doy_bounds:
  assumes "ymd_ok x"
  shows "0 \<le> march_doy x" and "march_first (march_year x) + march_doy x < march_first (march_year x + 1)"
proof -
  have "era_day_ok (march_year x mod 400) (march_doy x)"
    using to_days_parts(2) [OF assms] by (simp add: march_year_def march_doy_def)
  then have d: "0 \<le> march_doy x" "march_doy x \<le> 364 \<or> march_doy x = 365 \<and> era_leap (march_year x mod 400)"
    by (simp_all only: era_day_ok_def)
  from d(2) show "march_first (march_year x) + march_doy x < march_first (march_year x + 1)"
  proof
    assume "march_doy x \<le> 364"
    then show ?thesis using march_first_Suc_ge [of "march_year x"] by linarith
  next
    assume "march_doy x = 365 \<and> era_leap (march_year x mod 400)"
    then show ?thesis using march_first_leap [of "march_year x"] by force
  qed
  show "0 \<le> march_doy x" by (fact d(1))
qed

section \<open>Order\<close>

lemma march_doy_january:
  assumes "ymd_ok x"
  shows "306 \<le> march_doy x \<longleftrightarrow> uint (month_m (ymd_month x)) \<le> 2"
proof -
  have "1 \<le> uint (month_m (ymd_month x))" "uint (month_m (ymd_month x)) \<le> 12"
    using assms by (auto simp: ymd_ok_iff month_ok_uint)
  then have "10 \<le> march_of (uint (month_m (ymd_month x))) \<longleftrightarrow> uint (month_m (ymd_month x)) \<le> 2"
    by (auto simp: march_of_def)
  then show ?thesis
    using march_start_306 [OF to_days_parts(1) [OF assms]] by (simp add: march_doy_def)
qed

lemma month_start_less:
  assumes "march_month_ok mp d" and "march_month_ok mp' d'" and "mp < mp'"
  shows "month_start mp + d \<le> month_start mp'"
proof -
  have mp: "0 \<le> mp" "mp \<le> 11" "mp \<noteq> 11" using assms by (auto simp: march_month_ok_def)
  have "month_start mp + d \<le> month_start (mp + 1)"
    using march_month_cases [OF mp(1,2)] mp(3) assms(1)
    by (elim disjE) (simp_all add: march_month_ok_def month_start_def)
  also have "\<dots> \<le> month_start mp'"
    using assms(3) unfolding month_start_def by (intro zdiv_mono1) auto
  finally show ?thesis .
qed

lemma to_days_less:
  assumes ox: "ymd_ok x" and oy: "ymd_ok y" and l: "ymd_less x y"
  shows "to_days x < to_days y"
proof -
  let ?mx = "uint (month_m (ymd_month x))" and ?my = "uint (month_m (ymd_month y))"
  note bx = march_doy_bounds [OF ox] and b2 = march_doy_bounds [OF oy]
  have m: "1 \<le> ?mx" "?mx \<le> 12" "1 \<le> ?my" "?my \<le> 12"
    using ox oy by (auto simp: ymd_ok_iff month_ok_uint)
  have lex: "march_year x < march_year y \<or> march_year x = march_year y \<and> march_doy x < march_doy y"
  proof (cases "year_int (ymd_year x) < year_int (ymd_year y)")
    case True
    show ?thesis
    proof (cases "march_year x < march_year y")
      case False
      then have "march_year x = march_year y" "\<not> ?mx \<le> 2" "?my \<le> 2"
        using True by (auto simp: march_year_def split: if_splits)
      then show ?thesis
        using march_doy_january [OF ox] march_doy_january [OF oy] by auto
    qed simp
  next
    case False
    then have yr: "ymd_year x = ymd_year y"
      using l by (auto simp: ymd_less_def year_less_int year_int_inject [symmetric] split: if_splits)
    show ?thesis
    proof (cases "?mx < ?my")
      case True
      then consider "?mx \<le> 2" "2 < ?my" | "march_of ?mx < march_of ?my" "?mx \<le> 2 \<longleftrightarrow> ?my \<le> 2"
        using m by (cases "?mx \<le> 2"; cases "?my \<le> 2") (auto simp: march_of_def)
      then show ?thesis
      proof cases
        case 1
        then show ?thesis using yr by (simp add: march_year_def)
      next
        case 2
        have "march_doy x < march_doy y"
          using month_start_less [OF to_days_parts(1) [OF ox] to_days_parts(1) [OF oy] 2(1)]
            to_days_parts(1) [OF oy]
          by (auto simp: march_doy_def march_month_ok_def)
        then show ?thesis using 2(2) yr by (simp add: march_year_def)
      qed
    next
      case False
      then have "?mx = ?my \<and> uint (day_d (ymd_day x)) < uint (day_d (ymd_day y))"
        using l yr by (auto simp: ymd_less_def month_less_uint day_less_uint split: if_splits)
      then show ?thesis using yr by (simp add: march_year_def march_doy_def)
    qed
  qed
  have "march_first (march_year x + 1) \<le> march_first (march_year y)" if "march_year x < march_year y"
    using march_first_mono [of "march_year x + 1" "march_year y"] that
    by (cases "march_year x + 1 = march_year y") auto
  then show ?thesis
    using lex bx b2 by (auto simp: to_days_closed [OF ox] to_days_closed [OF oy])
qed

lemma ymd_less_total: "ymd_less x y \<or> x = y \<or> ymd_less y x"
  by (auto simp: ymd_less_def)

lemma ymd_less_asym: "ymd_less x y \<Longrightarrow> \<not> ymd_less y x"
  by (auto simp: ymd_less_def split: if_splits)

lemma ymd_less_iff_to_days:
  assumes "ymd_ok x" and "ymd_ok y"
  shows "ymd_less x y \<longleftrightarrow> to_days x < to_days y"
  using to_days_less [OF assms] to_days_less [OF assms(2,1)] ymd_less_total [of x y] by auto

section \<open>The next date\<close>

text \<open>The date after a given one, by the rules of the calendar.\<close>

definition next_date :: "year_month_day \<Rightarrow> year_month_day" where
  "next_date x =
     (let y = ymd_year x; m = uint (month_m (ymd_month x)); d = uint (day_d (ymd_day x)) in
      if d < month_length y m then x\<lparr>ymd_day := day_new (of_int (d + 1))\<rparr>
      else if m < 12 then \<lparr>ymd_year = y, ymd_month = month_new (of_int (m + 1)), ymd_day = day_new 1\<rparr>
      else \<lparr>ymd_year = year_plus y 1, ymd_month = month_new 1, ymd_day = day_new 1\<rparr>)"

lemma month_length_bounds: "1 \<le> m \<Longrightarrow> m \<le> 12 \<Longrightarrow> 28 \<le> month_length y m \<and> month_length y m \<le> 31"
  using month_cases [of m] by (auto simp: month_length_def)

lemma month_start_Suc:
  assumes "1 \<le> m" "m \<le> 11" "m \<noteq> 2"
  shows "march_of (m + 1) = march_of m + 1"
    and "month_start (march_of (m + 1)) = month_start (march_of m) + month_length y m"
  using month_cases [of m] assms by (auto simp: march_of_def month_start_def month_length_def)

lemma next_date_day:
  assumes ok: "ymd_ok x" and d: "uint (day_d (ymd_day x)) < month_length (ymd_year x) (uint (month_m (ymd_month x)))"
  shows "ymd_ok (next_date x) \<and> to_days (next_date x) = to_days x + 1"
proof -
  let ?d = "uint (day_d (ymd_day x))" and ?m = "uint (month_m (ymd_month x))"
  have m: "1 \<le> ?m" "?m \<le> 12" and d1: "1 \<le> ?d" using ok by (auto simp: ymd_ok_iff month_ok_uint)
  have u: "uint (day_d (day_new (of_int (?d + 1)))) = ?d + 1"
    using d d1 month_length_bounds [OF m, of "ymd_year x"] by (intro day_new_uint) auto
  have n: "next_date x = x\<lparr>ymd_day := day_new (of_int (?d + 1))\<rparr>"
    using d unfolding next_date_def Let_def by (rule if_P)
  have "ymd_ok (next_date x)"
    using ok d d1 unfolding n ymd_ok_iff by (simp add: u del: of_int_add)
  then show ?thesis
    using ok by (simp add: to_days_closed n march_year_def march_doy_def u del: of_int_add)
qed

lemma next_date_month:
  assumes ok: "ymd_ok x" and d: "uint (day_d (ymd_day x)) = month_length (ymd_year x) (uint (month_m (ymd_month x)))"
    and m12: "uint (month_m (ymd_month x)) < 12"
  shows "ymd_ok (next_date x) \<and> to_days (next_date x) = to_days x + 1"
proof -
  define d m y where "d = uint (day_d (ymd_day x))" and "m = uint (month_m (ymd_month x))" and "y = ymd_year x"
  have m: "1 \<le> m" "m < 12" using ok m12 by (auto simp: ymd_ok_iff month_ok_uint m_def)
  have n: "next_date x = \<lparr>ymd_year = y, ymd_month = month_new (of_int (m + 1)), ymd_day = day_new 1\<rparr>"
    using d m12 by (simp add: next_date_def Let_def m_def y_def)
  have u: "uint (month_m (month_new (of_int (m + 1)))) = m + 1" "uint (day_d (day_new 1)) = 1"
    using m by (intro month_new_uint) (auto simp: day_new_def)
  have okn: "ymd_ok (next_date x)"
    using ok m month_length_bounds [of "m + 1" y]
    by (simp add: n ymd_ok_iff u month_ok_uint y_def del: of_int_add)
  have sx: "to_days x = march_first (year_int y - (if m \<le> 2 then 1 else 0)) + month_start (march_of m) + d - 1 - 719468"
    using to_days_closed [OF ok] by (simp add: march_year_def march_doy_def y_def m_def d_def)
  have sn: "to_days (next_date x) =
      march_first (year_int y - (if m + 1 \<le> 2 then 1 else 0)) + month_start (march_of (m + 1)) - 719468"
    using to_days_closed [OF okn] by (simp add: n march_year_def march_doy_def u del: of_int_add)
  have dl: "d = month_length y m" using d by (simp add: d_def y_def m_def)
  have "to_days (next_date x) = to_days x + 1"
  proof (cases "m = 2")
    case True
    have "march_first (year_int y) = march_first (year_int y - 1) + 365 + (if is_leap y then 1 else 0)"
      using march_first_Suc [of "year_int y - 1"] by (simp add: is_leap_dvd)
    then show ?thesis
      unfolding sx sn dl using True by (simp add: march_of_def month_start_def month_length_def)
  next
    case False
    then have "m \<le> 2 \<longleftrightarrow> m + 1 \<le> 2" using m by auto
    then show ?thesis
      unfolding sx sn dl using month_start_Suc(2) [of m y] m False by simp
  qed
  with okn show ?thesis ..
qed

lemma next_date_year:
  assumes ok: "ymd_ok x" and d: "uint (day_d (ymd_day x)) = month_length (ymd_year x) (uint (month_m (ymd_month x)))"
    and m12: "uint (month_m (ymd_month x)) = 12" and y: "year_int (ymd_year x) < 32767"
  shows "ymd_ok (next_date x) \<and> to_days (next_date x) = to_days x + 1"
proof -
  have n: "next_date x = \<lparr>ymd_year = year_plus (ymd_year x) 1, ymd_month = month_new 1, ymd_day = day_new 1\<rparr>"
    using d m12 by (simp add: next_date_def Let_def)
  have u: "uint (month_m (month_new 1)) = 1" "uint (day_d (day_new 1)) = 1"
    by (simp_all add: month_new_def day_new_def)
  have yp: "year_int (year_plus (ymd_year x) 1) = year_int (ymd_year x) + 1"
    using y year_int_bound [of "ymd_year x"] by (intro year_plus_int) auto
  have okn: "ymd_ok (next_date x)"
    using ok year_int_bound [of "ymd_year x"]
    by (simp add: n ymd_ok_iff u month_ok_uint year_ok_def yp month_length_def)
  have "uint (day_d (ymd_day x)) = 31" using d m12 by (simp add: month_length_def)
  then show ?thesis
    using okn to_days_closed [OF ok] to_days_closed [OF okn] m12
    by (simp add: n march_year_def march_doy_def u yp march_of_def month_start_def)
qed

lemma to_days_next:
  assumes ok: "ymd_ok x" and y: "year_int (ymd_year x) < 32767"
  shows "ymd_ok (next_date x) \<and> to_days (next_date x) = to_days x + 1"
proof -
  let ?d = "uint (day_d (ymd_day x))" and ?m = "uint (month_m (ymd_month x))"
  have "?d \<le> month_length (ymd_year x) ?m" "?m \<le> 12"
    using ok by (auto simp: ymd_ok_iff month_ok_uint)
  then consider "?d < month_length (ymd_year x) ?m" | "?d = month_length (ymd_year x) ?m" "?m < 12"
    | "?d = month_length (ymd_year x) ?m" "?m = 12"
    by linarith
  then show ?thesis
    using next_date_day [OF ok] next_date_month [OF ok] next_date_year [OF ok _ _ y] by cases blast+
qed

end
