(* ===== verification/Date_Weekday.thy ===== *)
theory Date_Weekday
  imports Date_Order
begin

text \<open>
  Dates given by a weekday in a month, \<^verbatim>\<open>year_month_weekday\<close> (the second Tuesday of a month)
  and \<^verbatim>\<open>year_month_weekday_last\<close> (its last Tuesday), of \<^verbatim>\<open>debug_print/date.h\<close>, with their
  conversions to and from day counts.
\<close>

section \<open>\<^verbatim>\<open>year_month_weekday\<close>\<close>

record year_month_weekday =
  ymw_year :: year
  ymw_month :: month
  ymw_wdi :: weekday_indexed

definition year_month_weekday_new :: "year \<Rightarrow> month \<Rightarrow> weekday_indexed \<Rightarrow> year_month_weekday" where
  "year_month_weekday_new y m wdi = \<lparr>ymw_year = y, ymw_month = m, ymw_wdi = wdi\<rparr>"

definition ymw_weekday :: "year_month_weekday \<Rightarrow> weekday" where
  "ymw_weekday x = wi_weekday (ymw_wdi x)"

definition ymw_index :: "year_month_weekday \<Rightarrow> u32" where
  "ymw_index x = wi_index (ymw_wdi x)"

text \<open>The first day of a month, \<^verbatim>\<open>y/m/1\<close>.\<close>

definition first_of :: "year \<Rightarrow> month \<Rightarrow> year_month_day" where
  "first_of y m = year_month_day_new y m (day_new 1)"

definition ymw_ok :: "year_month_weekday \<Rightarrow> bool" where
  "ymw_ok x \<longleftrightarrow>
     (if \<not> year_ok (ymw_year x) \<or> \<not> month_ok (ymw_month x) \<or> \<not> weekday_ok (ymw_weekday x) \<or> ymw_index x < 1
      then False
      else if ymw_index x \<le> 4 then True
      else (let d2 = weekday_diff (ymw_weekday x) (weekday_of_days (to_days (first_of (ymw_year x) (ymw_month x)))) +
                     sint ((ymw_index x - 1) * 7 + 1)
            in (of_int d2 :: u32) \<le>
               day_unsigned (ymdl_day (ym_last (year_month_new (ymw_year x) (ymw_month x))))))"

definition ymw_from_days :: "days \<Rightarrow> year_month_weekday" where
  "ymw_from_days d =
     (let wd = weekday_of_days d; ymd = from_days d
      in year_month_weekday_new (ymd_year ymd) (ymd_month ymd)
           (weekday_indexed_new wd ((day_unsigned (ymd_day ymd) - 1) div 7 + 1)))"

definition ymw_to_days :: "year_month_weekday \<Rightarrow> days" where
  "ymw_to_days x =
     (let d = to_days (first_of (ymw_year x) (ymw_month x))
      in d + (weekday_diff (ymw_weekday x) (weekday_of_days d) + sint ((ymw_index x - 1) * 7)))"

definition ymw_plus_months :: "year_month_weekday \<Rightarrow> months \<Rightarrow> year_month_weekday" where
  "ymw_plus_months x dm =
     (let ym = ym_plus_months (year_month_new (ymw_year x) (ymw_month x)) dm
      in year_month_weekday_new (ym_year ym) (ym_month ym) (ymw_wdi x))"

definition ymw_plus_years :: "year_month_weekday \<Rightarrow> years \<Rightarrow> year_month_weekday" where
  "ymw_plus_years x dy = year_month_weekday_new (year_plus (ymw_year x) dy) (ymw_month x) (ymw_wdi x)"

section \<open>\<^verbatim>\<open>year_month_weekday_last\<close>\<close>

record year_month_weekday_last =
  ymwl_year :: year
  ymwl_month :: month
  ymwl_wdl :: weekday_last

definition year_month_weekday_last_new :: "year \<Rightarrow> month \<Rightarrow> weekday_last \<Rightarrow> year_month_weekday_last" where
  "year_month_weekday_last_new y m wdl = \<lparr>ymwl_year = y, ymwl_month = m, ymwl_wdl = wdl\<rparr>"

definition ymwl_ok :: "year_month_weekday_last \<Rightarrow> bool" where
  "ymwl_ok x \<longleftrightarrow> year_ok (ymwl_year x) \<and> month_ok (ymwl_month x) \<and> wl_ok (ymwl_wdl x)"

definition ymwl_to_days :: "year_month_weekday_last \<Rightarrow> days" where
  "ymwl_to_days x =
     (let d = to_days (ymd_of_last (ym_last (year_month_new (ymwl_year x) (ymwl_month x))))
      in d - weekday_diff (weekday_of_days d) (wl_weekday (ymwl_wdl x)))"

definition ymwl_plus_months :: "year_month_weekday_last \<Rightarrow> months \<Rightarrow> year_month_weekday_last" where
  "ymwl_plus_months x dm =
     (let ym = ym_plus_months (year_month_new (ymwl_year x) (ymwl_month x)) dm
      in year_month_weekday_last_new (ym_year ym) (ym_month ym) (ymwl_wdl x))"

definition ymwl_plus_years :: "year_month_weekday_last \<Rightarrow> years \<Rightarrow> year_month_weekday_last" where
  "ymwl_plus_years x dy = year_month_weekday_last_new (year_plus (ymwl_year x) dy) (ymwl_month x) (ymwl_wdl x)"

section \<open>Days of one month\<close>

text \<open>The date \<open>n\<close> days after the first of a month, inside the month.\<close>

definition nth_of :: "year \<Rightarrow> month \<Rightarrow> int \<Rightarrow> year_month_day" where
  "nth_of y m d = year_month_day_new y m (day_new (of_int d))"

lemma nth_of_ok:
  assumes "year_ok y" and "month_ok m" and "1 \<le> d" and "d \<le> month_length y (uint (month_m m))"
  shows "ymd_ok (nth_of y m d)" and "uint (day_d (ymd_day (nth_of y m d))) = d"
proof -
  have "d \<le> 31" using assms month_length_bounds [of "uint (month_m m)" y] by (auto simp: month_ok_uint)
  then show u: "uint (day_d (ymd_day (nth_of y m d))) = d"
    using assms(3) by (simp add: nth_of_def year_month_day_new_def day_new_uint)
  then show "ymd_ok (nth_of y m d)"
    using assms by (simp add: ymd_ok_iff nth_of_def year_month_day_new_def)
qed

lemma nth_of_1: "nth_of y m 1 = first_of y m"
  by (simp add: nth_of_def first_of_def)

lemma first_of_ok:
  assumes "year_ok y" and "month_ok m"
  shows "ymd_ok (first_of y m)"
proof -
  have "1 \<le> month_length y (uint (month_m m))"
    using month_length_bounds [of "uint (month_m m)" y] assms by (auto simp: month_ok_uint)
  then show ?thesis using nth_of_ok(1) [OF assms, of 1] by (simp add: nth_of_1)
qed

lemma to_days_nth_of:
  assumes "year_ok y" and "month_ok m" and "1 \<le> d" and "d \<le> month_length y (uint (month_m m))"
  shows "to_days (nth_of y m d) = to_days (first_of y m) + d - 1"
    and "from_days (to_days (first_of y m) + d - 1) = nth_of y m d"
proof -
  note n = nth_of_ok [OF assms]
  show e: "to_days (nth_of y m d) = to_days (first_of y m) + d - 1"
    using to_days_closed [OF n(1)] to_days_closed [OF first_of_ok [OF assms(1,2)]] n(2)
    by (simp add: march_year_def march_doy_def nth_of_def first_of_def year_month_day_new_def day_new_def)
  show "from_days (to_days (first_of y m) + d - 1) = nth_of y m d"
    using from_days_to_days_ok [OF n(1)] by (simp add: e)
qed

lemma to_days_range:
  assumes "ymd_ok x"
  shows "min_day \<le> to_days x" and "to_days x \<le> max_day"
proof -
  define lo hi where "lo = year_month_day_new year_min (month_new 1) (day_new 1)"
    and "hi = year_month_day_new year_max (month_new 12) (day_new 31)"
  have u: "uint (month_m (month_new 1)) = 1" "uint (month_m (month_new 12)) = 12"
    "uint (day_d (day_new 1)) = 1" "uint (day_d (day_new 31)) = 31"
    "year_int year_min = - 32767" "year_int year_max = 32767"
    by (simp_all add: month_new_def day_new_def year_min_def year_max_def year_int_new)
  have ok: "ymd_ok lo" "ymd_ok hi"
    by (simp_all add: ymd_ok_iff lo_def hi_def year_month_day_new_def month_ok_uint u year_ok_def month_length_def)
  have td: "to_days lo = min_day" "to_days hi = max_day"
    unfolding to_days_closed [OF ok(1)] to_days_closed [OF ok(2)] march_year_def march_doy_def march_first_def
    by (simp_all add: lo_def hi_def year_month_day_new_def u march_of_def month_start_def min_day_def max_day_def)
  have x: "- 32767 \<le> year_int (ymd_year x)" "year_int (ymd_year x) \<le> 32767"
    "1 \<le> uint (month_m (ymd_month x))" "uint (month_m (ymd_month x)) \<le> 12"
    "1 \<le> uint (day_d (ymd_day x))"
    using assms year_int_bound [of "ymd_year x"] by (auto simp: ymd_ok_iff month_ok_uint year_ok_def)
  have d31: "uint (day_d (ymd_day x)) \<le> 31"
    using assms month_length_bounds [OF x(3,4), of "ymd_year x"] by (auto simp: ymd_ok_iff)
  have "\<not> ymd_less x lo" "\<not> ymd_less hi x"
    using x d31 by (auto simp: ymd_less_def lo_def hi_def year_month_day_new_def year_less_int month_less_uint
        day_less_uint u)
  then show "min_day \<le> to_days x" "to_days x \<le> max_day"
    using ymd_less_iff_to_days [OF assms ok(1)] ymd_less_iff_to_days [OF ok(2) assms] td by auto
qed

section \<open>The weekday dates and the day count\<close>

lemma weekday_diff_days:
  assumes "min_day \<le> a" "a \<le> max_day" "min_day \<le> b" "b \<le> max_day"
  shows "weekday_diff (weekday_of_days b) (weekday_of_days a) = (b - a) mod 7"
proof -
  have "uint (weekday_from_days a) = (a + 4) mod 7" "uint (weekday_from_days b) = (b + 4) mod 7"
    using assms by (intro weekday_from_days_mod; simp add: min_day_def max_day_def)+
  then show ?thesis
    by (simp add: weekday_diff_mod weekday_of_days_def mod_diff_eq)
qed

lemma weekday_diff_shift:
  assumes "min_day \<le> a" "a \<le> max_day" "weekday_ok wd" "0 \<le> n" "n \<le> 40"
  shows "weekday_of_days (a + weekday_diff wd (weekday_of_days a) + n * 7) = wd"
proof -
  let ?k = "weekday_diff wd (weekday_of_days a)"
  note d = weekday_plus_diff [OF assms(3), of "weekday_of_days a"]
  have "weekday_of_days (a + (?k + n * 7)) = weekday_plus (weekday_of_days a) (?k + n * 7)"
    using assms d by (intro weekday_of_days_plus) (auto simp: min_day_def max_day_def)
  also have "\<dots> = weekday_plus (weekday_of_days a) ?k"
    by (intro weekday.expand) (simp add: word_uint_eq_iff weekday_plus_uint flip: add.assoc)
  finally show ?thesis using d by (simp add: add.assoc)
qed

lemma week_index_uint:
  assumes "1 \<le> uint d" and "uint d \<le> 31"
  shows "uint ((d - 1) div 7 + 1 :: u32) = (uint d - 1) div 7 + 1"
    and "(uint d - 1) div 7 \<le> 4"
proof -
  have m: "uint (d - 1) = uint d - 1" using assms by (subst u32_sub) simp_all
  show le: "(uint d - 1) div 7 \<le> 4" using assms by linarith
  have "uint ((d - 1) div 7) = (uint d - 1) div 7" by (simp add: u32_div m)
  then show "uint ((d - 1) div 7 + 1) = (uint d - 1) div 7 + 1"
    using le by (subst u32_add) simp_all
qed

lemma ymd_nth_of:
  assumes "ymd_ok x"
  shows "nth_of (ymd_year x) (ymd_month x) (uint (day_d (ymd_day x))) = x"
proof -
  have "0 \<le> uint (day_d (ymd_day x))" "uint (day_d (ymd_day x)) < 256"
    using uint_ge_0 [of "day_d (ymd_day x)"] uint_lt2p [of "day_d (ymd_day x)"] by simp_all
  then have "day_new (of_int (uint (day_d (ymd_day x)))) = ymd_day x"
    by (intro day.expand) (simp add: word_uint_eq_iff day_new_uint del: of_int_uint)
  then show ?thesis by (simp add: nth_of_def year_month_day_new_def del: of_int_uint)
qed

lemma ymw_index_less: "uint (ymw_index x) < 16"
  using nibble_bound [of "wi_idx (ymw_wdi x)"] by (simp add: ymw_index_def wi_index_def)

text \<open>The offset of a weekday date from the first of its month.\<close>

definition ymw_offset :: "year_month_weekday \<Rightarrow> int" where
  "ymw_offset x =
     weekday_diff (ymw_weekday x) (weekday_of_days (to_days (first_of (ymw_year x) (ymw_month x)))) +
     (uint (ymw_index x) - 1) * 7"

lemma ymw_sint:
  assumes "1 \<le> ymw_index x"
  shows "sint ((ymw_index x - 1) * 7) = (uint (ymw_index x) - 1) * 7"
    and "sint ((ymw_index x - 1) * 7 + 1) = (uint (ymw_index x) - 1) * 7 + 1"
proof -
  define k where "k = ymw_index x - 1"
  have m: "uint k = uint (ymw_index x) - 1"
    using assms unfolding k_def by (subst u32_sub) (simp_all add: word_le_def)
  then have k: "uint k < 15" using ymw_index_less [of x] by simp
  have u: "uint (k * 7) = uint k * 7" using k by (subst u32_mult) simp_all
  have v: "uint (k * 7 + 1) = uint k * 7 + 1" using k by (subst u32_add) (simp_all add: u)
  show "sint ((ymw_index x - 1) * 7) = (uint (ymw_index x) - 1) * 7"
    unfolding k_def [symmetric] m [symmetric] using k by (subst sint_u32) (simp_all add: u)
  show "sint ((ymw_index x - 1) * 7 + 1) = (uint (ymw_index x) - 1) * 7 + 1"
    unfolding k_def [symmetric] m [symmetric] using k by (subst sint_u32) (simp_all add: v)
qed

lemma ymw_to_days_offset:
  assumes "1 \<le> ymw_index x"
  shows "ymw_to_days x = to_days (first_of (ymw_year x) (ymw_month x)) + ymw_offset x"
  unfolding ymw_to_days_def Let_def ymw_offset_def ymw_sint(1) [OF assms] by (rule refl)

lemma ymw_ok_offset:
  assumes "ymw_ok x"
  shows "year_ok (ymw_year x)" "month_ok (ymw_month x)" "weekday_ok (ymw_weekday x)" "1 \<le> ymw_index x"
    "0 \<le> ymw_offset x" "ymw_offset x < month_length (ymw_year x) (uint (month_m (ymw_month x)))"
    "ymw_offset x div 7 + 1 = uint (ymw_index x)"
proof -
  show ok: "year_ok (ymw_year x)" "month_ok (ymw_month x)" "weekday_ok (ymw_weekday x)" "1 \<le> ymw_index x"
    using assms unfolding ymw_ok_def by (simp_all add: not_less split: if_splits del: word_less_1)
  define i k where "i = uint (ymw_index x)"
    and "k = weekday_diff (ymw_weekday x) (weekday_of_days (to_days (first_of (ymw_year x) (ymw_month x))))"
  have i: "1 \<le> i" "i < 16" using ok(4) ymw_index_less [of x] by (simp_all add: i_def word_le_def)
  have k: "0 \<le> k" "k \<le> 6" using weekday_plus_diff [OF ok(3)] by (auto simp: k_def)
  have o: "ymw_offset x = k + (i - 1) * 7" by (simp add: ymw_offset_def i_def k_def)
  show "0 \<le> ymw_offset x" using i k by (simp add: o)
  show "ymw_offset x div 7 + 1 = uint (ymw_index x)" using k by (simp add: o flip: i_def)
  show "ymw_offset x < month_length (ymw_year x) (uint (month_m (ymw_month x)))"
  proof (cases "i \<le> 4")
    case True
    have "28 \<le> month_length (ymw_year x) (uint (month_m (ymw_month x)))"
      using month_length_bounds ok(2) by (auto simp: month_ok_uint)
    with True k show ?thesis by (simp add: o)
  next
    case False
    then have "\<not> ymw_index x \<le> 4" by (simp add: i_def word_le_def)
    then have "(of_int (k + ((i - 1) * 7 + 1)) :: u32) \<le>
        day_unsigned (ymdl_day (ym_last (year_month_new (ymw_year x) (ymw_month x))))"
      using assms ok unfolding ymw_ok_def Let_def ymw_sint(2) [OF ok(4)] i_def k_def
      by (simp only: not_less if_False if_True simp_thms split: if_split_asm)
    then have "uint (of_int (k + ((i - 1) * 7 + 1)) :: u32) \<le>
        month_length (ymw_year x) (uint (month_m (ymw_month x)))"
      using ymdl_day_length [OF ok(2)] by (simp add: word_le_def day_unsigned_def del: of_int_add of_int_mult)
    moreover have "uint (of_int (k + ((i - 1) * 7 + 1)) :: u32) = k + ((i - 1) * 7 + 1)"
      using i k by (intro uint_of_int_u32) simp_all
    ultimately show ?thesis by (simp add: o)
  qed
qed

text \<open>A valid weekday date falls in its month, on its weekday, and is the one of its index.\<close>

lemma ymw_round_trip:
  assumes "ymw_ok x"
  defines "z \<equiv> ymw_to_days x"
  shows "from_days z = nth_of (ymw_year x) (ymw_month x) (ymw_offset x + 1)"
    and "weekday_of_days z = ymw_weekday x"
    and "ymw_year (ymw_from_days z) = ymw_year x" and "ymw_month (ymw_from_days z) = ymw_month x"
    and "ymw_weekday (ymw_from_days z) = ymw_weekday x" and "ymw_index (ymw_from_days z) = ymw_index x"
proof -
  note o = ymw_ok_offset [OF assms(1)]
  define f where "f = to_days (first_of (ymw_year x) (ymw_month x))"
  have z: "z = f + (ymw_offset x + 1) - 1" by (simp add: z_def f_def ymw_to_days_offset o)
  have f: "min_day \<le> f" "f \<le> max_day" using to_days_range first_of_ok o(1,2) by (auto simp: f_def)
  have d: "1 \<le> ymw_offset x + 1" "ymw_offset x + 1 \<le> month_length (ymw_year x) (uint (month_m (ymw_month x)))"
    using o by simp_all
  show fd: "from_days z = nth_of (ymw_year x) (ymw_month x) (ymw_offset x + 1)"
    using to_days_nth_of(2) [OF o(1,2) d] by (simp add: z f_def)
  have i: "1 \<le> uint (ymw_index x)" "uint (ymw_index x) < 16"
    using o(4) ymw_index_less [of x] by (simp_all add: word_le_def)
  show wd: "weekday_of_days z = ymw_weekday x"
    using weekday_diff_shift [OF f o(3), of "uint (ymw_index x) - 1"] i
    by (simp add: z ymw_offset_def f_def algebra_simps)
  note n = nth_of_ok [OF o(1,2) d]
  have l31: "ymw_offset x + 1 \<le> 31"
    using d month_length_bounds [of "uint (month_m (ymw_month x))" "ymw_year x"] o(2) by (auto simp: month_ok_uint)
  let ?u = "day_unsigned (ymd_day (from_days z))"
  have u: "uint ?u = ymw_offset x + 1" using n(2) by (simp add: fd day_unsigned_def)
  have iu: "uint ((?u - 1) div 7 + 1) = uint (ymw_index x)"
    using week_index_uint(1) [of ?u] u l31 o(5,7) by simp
  then have ix: "(?u - 1) div 7 + 1 = ymw_index x" by (simp add: word_uint_eq_iff)
  have rt: "wi_weekday (weekday_indexed_new (ymw_weekday x) (ymw_index x)) = ymw_weekday x"
    "wi_index (weekday_indexed_new (ymw_weekday x) (ymw_index x)) = ymw_index x"
    using wi_round_trip o(3) i by blast+
  have fz: "ymw_from_days z =
      year_month_weekday_new (ymw_year x) (ymw_month x) (weekday_indexed_new (ymw_weekday x) (ymw_index x))"
    unfolding ymw_from_days_def Let_def wd ix unfolding fd by (simp add: nth_of_def year_month_day_new_def)
  show "ymw_year (ymw_from_days z) = ymw_year x" "ymw_month (ymw_from_days z) = ymw_month x"
    "ymw_weekday (ymw_from_days z) = ymw_weekday x" "ymw_index (ymw_from_days z) = ymw_index x"
    using rt by (simp_all add: fz year_month_weekday_new_def ymw_weekday_def ymw_index_def)
qed

text \<open>Every day of the calendar is the day of the weekday date it is converted to.\<close>

lemma ymw_to_days_from_days:
  assumes z: "min_day \<le> z" "z \<le> max_day"
  shows "ymw_to_days (ymw_from_days z) = z"
proof -
  define x where "x = from_days z"
  define d where "d = uint (day_d (ymd_day x))"
  define f where "f = to_days (first_of (ymd_year x) (ymd_month x))"
  have x: "ymd_ok x" "to_days x = z" using to_days_from_days_range [OF z] by (simp_all add: x_def)
  then have ok: "year_ok (ymd_year x)" "month_ok (ymd_month x)" "1 \<le> d"
    "d \<le> month_length (ymd_year x) (uint (month_m (ymd_month x)))"
    by (simp_all add: ymd_ok_iff d_def)
  have d31: "d \<le> 31"
    using ok(4) month_length_bounds [of "uint (month_m (ymd_month x))" "ymd_year x"] ok(2)
    by (auto simp: month_ok_uint)
  have zf: "z = f + d - 1"
    using to_days_nth_of(1) [OF ok] ymd_nth_of [OF x(1)] x(2) by (simp add: d_def f_def)
  have f: "min_day \<le> f" "f \<le> max_day" using to_days_range first_of_ok ok(1,2) by (auto simp: f_def)
  let ?w = "weekday_of_days z" and ?i = "(day_unsigned (ymd_day x) - 1) div 7 + 1"
  have u: "uint (day_unsigned (ymd_day x)) = d" by (simp add: d_def day_unsigned_def)
  have i: "uint ?i = (d - 1) div 7 + 1" "(d - 1) div 7 \<le> 4"
    using week_index_uint [of "day_unsigned (ymd_day x)"] u ok(3) d31 by simp_all
  have w: "weekday_ok ?w" using z by (intro weekday_of_days_ok) (simp_all add: min_day_def max_day_def)
  define y where "y = ymw_from_days z"
  have y: "ymw_year y = ymd_year x" "ymw_month y = ymd_month x"
    by (simp_all add: y_def ymw_from_days_def Let_def x_def year_month_weekday_new_def)
  have "ymw_weekday y = ?w" "ymw_index y = ?i"
    using wi_round_trip [OF w, of ?i] i
    by (simp_all add: y_def ymw_from_days_def Let_def x_def year_month_weekday_new_def ymw_weekday_def ymw_index_def)
  note yw = this
  have y1: "1 \<le> ymw_index y" using i(1) ok(3) unfolding yw word_le_def by simp
  have "ymw_offset y = (z - f) mod 7 + (d - 1) div 7 * 7"
    unfolding ymw_offset_def y yw f_def [symmetric] i(1) weekday_diff_days [OF f z] by simp
  also have "\<dots> = d - 1" by (simp add: zf)
  finally show ?thesis using ymw_to_days_offset [OF y1] by (simp add: y f_def [symmetric] flip: y_def) (simp add: zf)
qed

text \<open>Going back from a day to a weekday.\<close>

lemma weekday_diff_back:
  assumes r: "min_day \<le> a" "a \<le> max_day" and ok: "weekday_ok wd"
  defines "k \<equiv> weekday_diff (weekday_of_days a) wd"
  shows "weekday_of_days (a - k) = wd" and "0 \<le> k" and "k \<le> 6"
proof -
  have "weekday_ok (weekday_of_days a)"
    using r by (intro weekday_of_days_ok) (simp_all add: min_day_def max_day_def)
  then show k: "0 \<le> k" "k \<le> 6" using weekday_plus_diff by (auto simp: k_def)
  have uz: "uint (weekday_from_days (a - k)) = (a - k + 4) mod 7"
    using r k by (intro weekday_from_days_mod) (simp_all add: min_day_def max_day_def)
  have ul: "uint (weekday_from_days a) = (a + 4) mod 7"
    using r by (intro weekday_from_days_mod) (simp_all add: min_day_def max_day_def)
  have km: "k = ((a + 4) - uint (weekday_wd wd)) mod 7"
    by (simp add: k_def weekday_diff_mod weekday_of_days_def ul mod_diff_left_eq)
  have "(a - k + 4) mod 7 = ((a + 4) - k) mod 7" by (simp add: algebra_simps)
  also have "\<dots> = uint (weekday_wd wd) mod 7" unfolding km by (simp add: mod_diff_right_eq)
  also have "\<dots> = uint (weekday_wd wd)" using ok by (simp add: weekday_ok_uint)
  finally show "weekday_of_days (a - k) = wd"
    by (intro weekday.expand) (simp add: word_uint_eq_iff weekday_of_days_def uz)
qed

lemma last_of_month:
  assumes "year_ok y" and "month_ok m"
  shows "ymd_of_last (ym_last (year_month_new y m)) = nth_of y m (month_length y (uint (month_m m)))"
proof -
  define l where "l = ymd_of_last (ym_last (year_month_new y m))"
  have "uint (day_d (ymd_day l)) = month_length y (uint (month_m m))"
    using ymdl_day_length [OF assms(2)] by (simp add: l_def ymd_of_last_def year_month_day_new_def)
  moreover have "ymd_year l = y" "ymd_month l = m"
    by (simp_all add: l_def ymd_of_last_def year_month_day_new_def ym_last_def year_month_day_last_new_def
        ymdl_month_def month_day_last_new_def year_month_new_def)
  moreover have "28 \<le> month_length y (uint (month_m m))"
    using month_length_bounds [of "uint (month_m m)"] assms(2) by (auto simp: month_ok_uint)
  ultimately show ?thesis
    using assms ymd_nth_of [of l] unfolding l_def [symmetric] by (simp add: ymd_ok_iff)
qed

text \<open>The last such weekday of a month: in the month, on the weekday, less than a week from its end.\<close>

lemma ymwl_to_days_last:
  assumes "ymwl_ok x"
  defines "z \<equiv> ymwl_to_days x"
    and "n \<equiv> month_length (ymwl_year x) (uint (month_m (ymwl_month x)))"
  shows "weekday_of_days z = wl_weekday (ymwl_wdl x)"
    and "ymd_year (from_days z) = ymwl_year x" and "ymd_month (from_days z) = ymwl_month x"
    and "n - 7 < uint (day_d (ymd_day (from_days z)))" and "uint (day_d (ymd_day (from_days z))) \<le> n"
proof -
  have ok: "year_ok (ymwl_year x)" "month_ok (ymwl_month x)" "weekday_ok (wl_weekday (ymwl_wdl x))"
    using assms(1) by (simp_all add: ymwl_ok_def wl_ok_def wl_weekday_def)
  have n: "28 \<le> n" "n \<le> 31"
    using month_length_bounds [of "uint (month_m (ymwl_month x))"] ok(2) by (auto simp: n_def month_ok_uint)
  define t where "t = to_days (nth_of (ymwl_year x) (ymwl_month x) n)"
  have t: "t = to_days (first_of (ymwl_year x) (ymwl_month x)) + n - 1"
    using to_days_nth_of(1) [OF ok(1,2), of n] n by (simp add: t_def n_def)
  have r: "min_day \<le> t" "t \<le> max_day"
    using to_days_range nth_of_ok(1) [OF ok(1,2), of n] n by (simp_all add: t_def n_def)
  define k where "k = weekday_diff (weekday_of_days t) (wl_weekday (ymwl_wdl x))"
  have z: "z = t - k" by (simp add: z_def ymwl_to_days_def Let_def last_of_month [OF ok(1,2)] t_def k_def n_def)
  note k = weekday_diff_back [OF r ok(3), folded k_def]
  show "weekday_of_days z = wl_weekday (ymwl_wdl x)" using k(1) by (simp add: z)
  have fz: "from_days z = nth_of (ymwl_year x) (ymwl_month x) (n - k)"
    using to_days_nth_of(2) [OF ok(1,2), of "n - k"] n k by (simp add: z t n_def algebra_simps)
  have d: "uint (day_d (ymd_day (from_days z))) = n - k"
    using nth_of_ok(2) [OF ok(1,2), of "n - k"] n k by (simp add: fz n_def)
  show "ymd_year (from_days z) = ymwl_year x" "ymd_month (from_days z) = ymwl_month x"
    by (simp_all add: fz nth_of_def year_month_day_new_def)
  show "n - 7 < uint (day_d (ymd_day (from_days z)))" "uint (day_d (ymd_day (from_days z))) \<le> n"
    using k by (simp_all add: d)
qed

end
