(* ===== verification/Date_Units.thy ===== *)
theory Date_Units
  imports Date_Clock
begin

text \<open>
  The unit of a duration as text, \<^verbatim>\<open>detail::get_units\<close> of \<^verbatim>\<open>debug_print/date.h\<close>, which the format
  directive \<^verbatim>\<open>%q\<close> prints: the decimal digits of a compile-time number (\<^verbatim>\<open>to_string_len\<close>, \<^verbatim>\<open>msl\<close>), the
  prefixes of the SI units and the names of the larger periods.
\<close>

section \<open>Compile-time decimal digits\<close>

fun to_string_len :: "nat \<Rightarrow> nat" where
  "to_string_len i = (let q = i div 10 in if 0 < q then to_string_len q + 1 else 1)"

declare to_string_len.simps [simp del]

fun msl_nat :: "nat \<Rightarrow> string" where
  "msl_nat n = (if n < 10 then [digit_char n] else msl_nat (n div 10) @ [digit_char (n mod 10)])"

declare msl_nat.simps [simp del]

lemma msl_nat_show: "msl_nat n = show_nat n"
  by (induction n rule: msl_nat.induct) (subst msl_nat.simps, subst show_nat.simps, simp)

text \<open>The array that holds the digits has exactly their length.\<close>

lemma to_string_len_digits: "to_string_len n = length (msl_nat n)"
proof (induction n rule: to_string_len.induct)
  case (1 i)
  then show ?case
    by (subst to_string_len.simps, subst msl_nat.simps) (auto simp: Let_def div_greater_zero_iff)
qed

section \<open>Prefixes and units\<close>

definition msl_ratio :: "ratio \<Rightarrow> string" where
  "msl_ratio p =
     (if rden p \<noteq> 1 then ''['' @ msl_nat (nat (rnum p)) @ ''/'' @ msl_nat (nat (rden p)) @ '']''
      else ''['' @ msl_nat (nat (rnum p)) @ '']'')"

text \<open>The overloads for the ratios \<^verbatim>\<open>std::atto\<close> to \<^verbatim>\<open>std::exa\<close>; micro is the two bytes of the UTF-8 sign.\<close>

definition si_prefixes :: "(ratio \<times> string) list" where
  "si_prefixes =
     [(\<lparr>rnum = 1, rden = 10 ^ 18\<rparr>, ''a''), (\<lparr>rnum = 1, rden = 10 ^ 15\<rparr>, ''f''), (\<lparr>rnum = 1, rden = 10 ^ 12\<rparr>, ''p''),
      (\<lparr>rnum = 1, rden = 10 ^ 9\<rparr>, ''n''), (\<lparr>rnum = 1, rden = 10 ^ 6\<rparr>, [CHR 0xC2, CHR 0xB5]),
      (\<lparr>rnum = 1, rden = 1000\<rparr>, ''m''), (\<lparr>rnum = 1, rden = 100\<rparr>, ''c''), (\<lparr>rnum = 10, rden = 1\<rparr>, ''da''),
      (\<lparr>rnum = 1, rden = 10\<rparr>, ''d''), (\<lparr>rnum = 100, rden = 1\<rparr>, ''h''), (\<lparr>rnum = 1000, rden = 1\<rparr>, ''k''),
      (\<lparr>rnum = 10 ^ 6, rden = 1\<rparr>, ''M''), (\<lparr>rnum = 10 ^ 9, rden = 1\<rparr>, ''G''), (\<lparr>rnum = 10 ^ 12, rden = 1\<rparr>, ''T''),
      (\<lparr>rnum = 10 ^ 15, rden = 1\<rparr>, ''P''), (\<lparr>rnum = 10 ^ 18, rden = 1\<rparr>, ''E'')]"

definition msl :: "ratio \<Rightarrow> string" where
  "msl p = (case map_of si_prefixes p of Some s \<Rightarrow> s | None \<Rightarrow> msl_ratio p)"

definition get_units :: "ratio \<Rightarrow> string" where
  "get_units p =
     (if p = \<lparr>rnum = 1, rden = 1\<rparr> then ''s''
      else if p = \<lparr>rnum = 3600, rden = 1\<rparr> then ''h''
      else if p = \<lparr>rnum = 60, rden = 1\<rparr> then ''min''
      else if p = \<lparr>rnum = 86400, rden = 1\<rparr> then ''d''
      else msl p @ ''s'')"

text \<open>\<^verbatim>\<open>operator<<\<close> of a duration.\<close>

definition duration_print :: "ratio \<Rightarrow> int \<Rightarrow> string" where
  "duration_print p d = show_int d @ get_units p"

end
