(* ===== verification/Date_Format.thy ===== *)
theory Date_Format
  imports Date_Units Date_Weekday
begin

text \<open>
  \<^verbatim>\<open>to_stream\<close> and \<^verbatim>\<open>format\<close> of \<^verbatim>\<open>debug_print/date.h\<close>: the interpreter of format strings behind the time
  stamps of the trace log.  The state of the loop is the text written so far and the failure bit of the
  stream, the \<^verbatim>\<open>std::tm\<close> that is handed to the locale, and the pending command and modifier.  The facet
  \<^verbatim>\<open>std::time_put\<close> of the stream's locale is the parameter \<open>facet\<close>, a function of a format and a
  \<^verbatim>\<open>std::tm\<close>; it writes to the stream's buffer past the failure bit.  The library is built without
  \<^verbatim>\<open>ONLY_C_LOCALE\<close>; durations have a period of \<open>1/den\<close> seconds, as the common type with \<^verbatim>\<open>seconds\<close> has.
\<close>

section \<open>The state\<close>

record tm =
  tm_sec :: int
  tm_min :: int
  tm_hour :: int
  tm_mday :: int
  tm_mon :: int
  tm_year :: int
  tm_wday :: int
  tm_yday :: int

definition tm_zero :: tm where
  "tm_zero = \<lparr>tm_sec = 0, tm_min = 0, tm_hour = 0, tm_mday = 0, tm_mon = 0, tm_year = 0, tm_wday = 0, tm_yday = 0\<rparr>"

type_synonym time_facet = "string \<Rightarrow> tm \<Rightarrow> string"

definition nanyear :: year where
  "nanyear = year_new (- 32768)"

record fields =
  fd_ymd :: year_month_day
  fd_wd :: weekday
  fd_tod :: hh_mm_ss
  fd_has_tod :: bool

text \<open>The constructors, one for each combination of the three parts.\<close>

definition fields_new :: "int \<Rightarrow> year_month_day option \<Rightarrow> weekday option \<Rightarrow> hh_mm_ss option \<Rightarrow> fields" where
  "fields_new den ymd wd tod =
     \<lparr>fd_ymd = (case ymd of None \<Rightarrow> year_month_day_new nanyear (month_new 0) (day_new 0) | Some x \<Rightarrow> x),
      fd_wd = (case wd of None \<Rightarrow> weekday_new 8 | Some x \<Rightarrow> x),
      fd_tod = (case tod of None \<Rightarrow> hh_mm_ss_new \<lparr>rnum = 1, rden = den\<rparr> 0 | Some x \<Rightarrow> x),
      fd_has_tod = (tod \<noteq> None)\<rparr>"

record fmt_state =
  fs_buf :: string
  fs_fail :: bool
  fs_tm :: tm
  fs_cmd :: bool
  fs_mod :: char    \<comment> \<open>\<^const>\<open>NUL\<close> without a modifier\<close>
  fs_neg :: bool

text \<open>Inserting into a stream that has failed writes nothing; the facet writes to the buffer.\<close>

definition put :: "string \<Rightarrow> fmt_state \<Rightarrow> fmt_state" where
  "put s st = (if fs_fail st then st else st\<lparr>fs_buf := fs_buf st @ s\<rparr>)"

definition put_facet :: "time_facet \<Rightarrow> string \<Rightarrow> fmt_state \<Rightarrow> fmt_state" where
  "put_facet facet f st = st\<lparr>fs_buf := fs_buf st @ facet f (fs_tm st)\<rparr>"

definition fail_if :: "bool \<Rightarrow> fmt_state \<Rightarrow> fmt_state" where
  "fail_if b st = (if b then st\<lparr>fs_fail := True\<rparr> else st)"

definition set_tm :: "(tm \<Rightarrow> tm) \<Rightarrow> fmt_state \<Rightarrow> fmt_state" where
  "set_tm f st = st\<lparr>fs_tm := f (fs_tm st)\<rparr>"

definition echo :: "char \<Rightarrow> fmt_state \<Rightarrow> fmt_state" where
  "echo c st = put [CHR ''%'', fs_mod st, c] st"

definition fin :: "fmt_state \<Rightarrow> fmt_state" where
  "fin st = st\<lparr>fs_cmd := False, fs_mod := NUL\<rparr>"

text \<open>\<^verbatim>\<open>os.width(w)\<close>, right-adjusted with a fill character.\<close>

definition setw :: "char \<Rightarrow> nat \<Rightarrow> string \<Rightarrow> string" where
  "setw fill w s = replicate (w - length s) fill @ s"

definition lead0 :: "int \<Rightarrow> string" where
  "lead0 n = (if n < 10 then ''0'' else []) @ show_int n"

text \<open>\<^verbatim>\<open>operator<<\<close> of a year: at least four digits behind the sign.\<close>

definition year_low_level :: "year \<Rightarrow> string" where
  "year_low_level y =
     (if year_int y < 0 then ''-'' @ setw0 4 (show_int (- year_int y)) else setw0 4 (show_int (year_int y)))"

definition year_print :: "year \<Rightarrow> string" where
  "year_print y = year_low_level y @ (if year_ok y then [] else '' is not a valid year'')"

definition month_int :: "fields \<Rightarrow> int" where
  "month_int fds = uint (month_unsigned (ymd_month (fd_ymd fds)))"

definition day_int :: "fields \<Rightarrow> int" where
  "day_int fds = uint (day_unsigned (ymd_day (fd_ymd fds)))"

definition year_of :: "fields \<Rightarrow> int" where
  "year_of fds = year_int (ymd_year (fd_ymd fds))"

definition extract_weekday :: "fields \<Rightarrow> fmt_state \<Rightarrow> int \<times> fmt_state" where
  "extract_weekday fds st =
     (if \<not> ymd_ok (fd_ymd fds) \<and> \<not> weekday_ok (fd_wd fds) then (8, fail_if True st)
      else if ymd_ok (fd_ymd fds)
      then (let wd = weekday_of_days (to_days (fd_ymd fds))
            in if weekday_ok (fd_wd fds) \<and> wd \<noteq> fd_wd fds then (8, fail_if True st)
               else (weekday_diff wd Sunday, st))
      else (weekday_diff (fd_wd fds) Sunday, st))"

definition extract_month :: "fields \<Rightarrow> fmt_state \<Rightarrow> int \<times> fmt_state" where
  "extract_month fds st =
     (if \<not> month_ok (ymd_month (fd_ymd fds)) then (0, fail_if True st) else (month_int fds, st))"

text \<open>The day of the year counted from 0, and the start of a year.\<close>

definition year_day :: "fields \<Rightarrow> int" where
  "year_day fds = to_days (fd_ymd fds) - to_days (first_of (ymd_year (fd_ymd fds)) January)"

section \<open>The directives\<close>

text \<open>Each is one case of the switch, entered with a pending command; \<^const>\<open>Inl\<close> is the early return.\<close>

type_synonym fmt_result = "fmt_state + fmt_state"

definition dir_a :: "time_facet \<Rightarrow> fields \<Rightarrow> char \<Rightarrow> fmt_state \<Rightarrow> fmt_result" where
  "dir_a facet fds c st =
     (if fs_mod st = NUL
      then (case extract_weekday fds st of (wd, st1) \<Rightarrow>
              (let st2 = set_tm (\<lambda>t. t\<lparr>tm_wday := wd\<rparr>) st1
               in if fs_fail st2 then Inl st2 else Inr (fin (put_facet facet [CHR ''%'', c] st2))))
      else Inr (fin (echo c st)))"

definition dir_b :: "time_facet \<Rightarrow> fields \<Rightarrow> char \<Rightarrow> fmt_state \<Rightarrow> fmt_result" where
  "dir_b facet fds c st =
     (if fs_mod st = NUL
      then (case extract_month fds st of (m, st1) \<Rightarrow>
              Inr (fin (put_facet facet [CHR ''%'', c] (set_tm (\<lambda>t. t\<lparr>tm_mon := m - 1\<rparr>) st1))))
      else Inr (fin (echo c st)))"

definition dir_c :: "time_facet \<Rightarrow> fields \<Rightarrow> char \<Rightarrow> fmt_state \<Rightarrow> fmt_result" where
  "dir_c facet fds c st =
     (if fs_mod st = CHR ''O'' then Inr (fin (echo c st))
      else
        (let st1 = fail_if (c = CHR ''c'' \<and> \<not> fd_has_tod fds) (fail_if (\<not> ymd_ok (fd_ymd fds)) st);
             t0 = (if c = CHR ''c''
                   then tm_zero\<lparr>tm_sec := dfs_s (hms_s (fd_tod fds)), tm_min := hms_m (fd_tod fds), tm_hour := hms_h (fd_tod fds)\<rparr>
                   else tm_zero)
         in case extract_month fds st1 of (m, st2) \<Rightarrow>
            (case extract_weekday fds st2 of (wd, st3) \<Rightarrow>
               (let st4 = set_tm (\<lambda>_. t0\<lparr>tm_mday := day_int fds, tm_mon := m - 1, tm_year := year_of fds - 1900,
                                          tm_wday := wd\<rparr>) st3
                in if fs_fail st4 then Inl st4
                   else Inr (fin (put_facet facet
                          (CHR ''%'' # (if fs_mod st = CHR ''E'' then [fs_mod st] else []) @ [c])
                          (set_tm (\<lambda>t. t\<lparr>tm_yday := year_day fds\<rparr>) st4)))))))"

definition dir_C :: "time_facet \<Rightarrow> fields \<Rightarrow> char \<Rightarrow> fmt_state \<Rightarrow> fmt_result" where
  "dir_C facet fds c st =
     (if fs_mod st = CHR ''O'' then Inr (fin (echo c st))
      else
        (let st1 = fail_if (\<not> year_ok (ymd_year (fd_ymd fds))) st; y = year_of fds
         in if fs_mod st = NUL
            then Inr (fin (put (if 0 \<le> y then setw0 2 (show_int (y sdiv 100))
                                else ''-'' @ setw0 2 (show_int ((- (y - 99)) sdiv 100))) st1))
            else Inr (fin (if fs_mod st = CHR ''E''
                           then put_facet facet ''%EC'' (set_tm (\<lambda>t. t\<lparr>tm_year := y - 1900\<rparr>) st1) else st1))))"

definition dir_d :: "time_facet \<Rightarrow> fields \<Rightarrow> char \<Rightarrow> fmt_state \<Rightarrow> fmt_result" where
  "dir_d facet fds c st =
     (if fs_mod st = CHR ''E'' then Inr (fin (echo c st))
      else
        (let st1 = fail_if (\<not> day_ok (ymd_day (fd_ymd fds))) st; d = day_int fds
         in if fs_mod st = NUL
            then Inr (fin (put (setw (if c = CHR ''d'' then CHR ''0'' else CHR '' '') 2 (show_int d)) st1))
            else Inr (fin (if fs_mod st = CHR ''O''
                           then put_facet facet [CHR ''%'', CHR ''O'', c] (set_tm (\<lambda>t. t\<lparr>tm_mday := d\<rparr>) st1) else st1))))"

definition dir_D :: "fields \<Rightarrow> char \<Rightarrow> fmt_state \<Rightarrow> fmt_result" where
  "dir_D fds c st =
     (if fs_mod st = NUL
      then Inr (fin (put (setw0 2 (show_int (month_int fds)) @ ''/'' @ setw0 2 (show_int (day_int fds)) @ ''/'' @
                          setw0 2 (show_int (year_of fds smod 100)))
                     (fail_if (\<not> ymd_ok (fd_ymd fds)) st)))
      else Inr (fin (echo c st)))"

definition dir_F :: "fields \<Rightarrow> char \<Rightarrow> fmt_state \<Rightarrow> fmt_result" where
  "dir_F fds c st =
     (if fs_mod st = NUL
      then Inr (fin (put (setw0 4 (show_int (year_of fds)) @ ''-'' @ setw0 2 (show_int (month_int fds)) @ ''-'' @
                          setw0 2 (show_int (day_int fds)))
                     (fail_if (\<not> ymd_ok (fd_ymd fds)) st)))
      else Inr (fin (echo c st)))"

text \<open>The Monday after the last Thursday of the year before: the start of the weeks of year \<open>y\<close>.\<close>

definition iso_start :: "year \<Rightarrow> days" where
  "iso_start y =
     ymwl_to_days (year_month_weekday_last_new (year_minus y 1) (month_new 12) (weekday_last_new Thursday)) +
     weekday_diff Monday Thursday"

definition iso_year :: "days \<Rightarrow> year" where
  "iso_year ld = (let y = ymd_year (from_days (ld + 3)) in if ld < iso_start y then year_dec y else y)"

definition dir_g :: "fields \<Rightarrow> char \<Rightarrow> fmt_state \<Rightarrow> fmt_result" where
  "dir_g fds c st =
     (if fs_mod st = NUL
      then (let y = iso_year (to_days (fd_ymd fds))
            in Inr (fin (put (if c = CHR ''G'' then year_print y else setw0 2 (show_int (\<bar>year_int y\<bar> smod 100)))
                         (fail_if (\<not> ymd_ok (fd_ymd fds)) st))))
      else Inr (fin (echo c st)))"

text \<open>The sign of a negative time of day is written once, before its first field.\<close>

definition put_sign :: "fmt_state \<Rightarrow> fmt_state" where
  "put_sign st = (if fs_neg st then (put ''-'' st)\<lparr>fs_neg := False\<rparr> else st)"

definition dir_H :: "time_facet \<Rightarrow> fields \<Rightarrow> char \<Rightarrow> fmt_state \<Rightarrow> fmt_result" where
  "dir_H facet fds c st =
     (if fs_mod st = CHR ''E'' then Inr (fin (echo c st))
      else
        (let st1 = put_sign (fail_if (\<not> fd_has_tod fds) st); h = hms_h (fd_tod fds)
         in if fs_mod st = NUL
            then Inr (fin (put (lead0 (if c = CHR ''I'' then make12 h else h)) st1))
            else Inr (fin (if fs_mod st = CHR ''O''
                           then put_facet facet [CHR ''%'', fs_mod st, c] (set_tm (\<lambda>t. t\<lparr>tm_hour := h\<rparr>) st1) else st1))))"

definition dir_j :: "int \<Rightarrow> fields \<Rightarrow> char \<Rightarrow> fmt_state \<Rightarrow> fmt_result" where
  "dir_j den fds c st =
     (if fs_mod st = NUL
      then (if ymd_ok (fd_ymd fds) \<or> fd_has_tod fds
            then (let doy = (if ymd_ok (fd_ymd fds) then year_day fds + 1
                             else duration_cast days_period (dfs_precision den)
                                    (hms_to_duration \<lparr>rnum = 1, rden = den\<rparr> (fd_tod fds)))
                  in Inr (fin (put (setw0 3 (show_int doy)) st)))
            else Inr (fin (fail_if True st)))
      else Inr (fin (echo c st)))"

definition dir_m :: "time_facet \<Rightarrow> fields \<Rightarrow> char \<Rightarrow> fmt_state \<Rightarrow> fmt_result" where
  "dir_m facet fds c st =
     (if fs_mod st = CHR ''E'' then Inr (fin (echo c st))
      else
        (let st1 = fail_if (\<not> month_ok (ymd_month (fd_ymd fds))) st; m = month_int fds
         in if fs_mod st = NUL then Inr (fin (put (lead0 m) st1))
            else Inr (fin (if fs_mod st = CHR ''O''
                           then put_facet facet [CHR ''%'', fs_mod st, c] (set_tm (\<lambda>t. t\<lparr>tm_mon := m - 1\<rparr>) st1) else st1))))"

definition dir_M :: "time_facet \<Rightarrow> fields \<Rightarrow> char \<Rightarrow> fmt_state \<Rightarrow> fmt_result" where
  "dir_M facet fds c st =
     (if fs_mod st = CHR ''E'' then Inr (fin (echo c st))
      else
        (let st1 = put_sign (fail_if (\<not> fd_has_tod fds) st); m = hms_m (fd_tod fds)
         in if fs_mod st = NUL then Inr (fin (put (lead0 m) st1))
            else Inr (fin (if fs_mod st = CHR ''O''
                           then put_facet facet [CHR ''%'', fs_mod st, c] (set_tm (\<lambda>t. t\<lparr>tm_min := m\<rparr>) st1) else st1))))"

definition dir_n :: "char \<Rightarrow> fmt_state \<Rightarrow> fmt_result" where
  "dir_n c st = Inr (fin (if fs_mod st = NUL then put [LF] st else echo c st))"

definition dir_p :: "time_facet \<Rightarrow> fields \<Rightarrow> char \<Rightarrow> fmt_state \<Rightarrow> fmt_result" where
  "dir_p facet fds c st =
     Inr (fin (if fs_mod st = NUL
               then put_facet facet [CHR ''%'', c]
                      (set_tm (\<lambda>t. t\<lparr>tm_hour := hms_h (fd_tod fds)\<rparr>) (fail_if (\<not> fd_has_tod fds) st))
               else echo c st))"

definition dir_Q :: "int \<Rightarrow> fields \<Rightarrow> char \<Rightarrow> fmt_state \<Rightarrow> fmt_result" where
  "dir_Q den fds c st =
     Inr (fin (if fs_mod st = NUL
               then put (if c = CHR ''q'' then get_units (dfs_precision den)
                         else show_int (hms_to_duration \<lparr>rnum = 1, rden = den\<rparr> (fd_tod fds)))
                      (fail_if (\<not> fd_has_tod fds) st)
               else echo c st))"

definition set_clock :: "fields \<Rightarrow> tm \<Rightarrow> tm" where
  "set_clock fds t =
     t\<lparr>tm_hour := hms_h (fd_tod fds), tm_min := hms_m (fd_tod fds), tm_sec := dfs_s (hms_s (fd_tod fds))\<rparr>"

definition dir_r :: "time_facet \<Rightarrow> fields \<Rightarrow> char \<Rightarrow> fmt_state \<Rightarrow> fmt_result" where
  "dir_r facet fds c st =
     Inr (fin (if fs_mod st = NUL
               then put_facet facet [CHR ''%'', c] (set_tm (set_clock fds) (fail_if (\<not> fd_has_tod fds) st))
               else echo c st))"

definition dir_R :: "fields \<Rightarrow> char \<Rightarrow> fmt_state \<Rightarrow> fmt_result" where
  "dir_R fds c st =
     Inr (fin (if fs_mod st = NUL
               then put (lead0 (hms_h (fd_tod fds)) @ '':'' @ lead0 (hms_m (fd_tod fds)))
                      (fail_if (\<not> fd_has_tod fds) st)
               else echo c st))"

definition dir_S :: "time_facet \<Rightarrow> char \<Rightarrow> int \<Rightarrow> fields \<Rightarrow> char \<Rightarrow> fmt_state \<Rightarrow> fmt_result" where
  "dir_S facet point den fds c st =
     (if fs_mod st = CHR ''E'' then Inr (fin (echo c st))
      else
        (let st1 = put_sign (fail_if (\<not> fd_has_tod fds) st); s = hms_s (fd_tod fds)
         in if fs_mod st = NUL then Inr (fin (put (dfs_print point den s) st1))
            else Inr (fin (if fs_mod st = CHR ''O''
                           then put_facet facet [CHR ''%'', fs_mod st, c] (set_tm (\<lambda>t. t\<lparr>tm_sec := dfs_s s\<rparr>) st1) else st1))))"

definition dir_t :: "char \<Rightarrow> fmt_state \<Rightarrow> fmt_result" where
  "dir_t c st = Inr (fin (if fs_mod st = NUL then put [CHR 0x09] st else echo c st))"

definition dir_T :: "char \<Rightarrow> int \<Rightarrow> fields \<Rightarrow> char \<Rightarrow> fmt_state \<Rightarrow> fmt_result" where
  "dir_T point den fds c st =
     Inr (fin (if fs_mod st = NUL
               then put (hms_print point \<lparr>rnum = 1, rden = den\<rparr> (fd_tod fds)) (fail_if (\<not> fd_has_tod fds) st)
               else echo c st))"

definition dir_u :: "time_facet \<Rightarrow> fields \<Rightarrow> char \<Rightarrow> fmt_state \<Rightarrow> fmt_result" where
  "dir_u facet fds c st =
     (if fs_mod st = CHR ''E'' then Inr (fin (echo c st))
      else
        (case extract_weekday fds st of (wd, st1) \<Rightarrow>
           Inr (fin (if fs_mod st = NUL then put (show_int (if wd \<noteq> 0 then wd else 7)) st1
                     else if fs_mod st = CHR ''O''
                     then put_facet facet [CHR ''%'', fs_mod st, c] (set_tm (\<lambda>t. t\<lparr>tm_wday := wd\<rparr>) st1) else st1))))"

text \<open>What the locale is given for a week number, \<^verbatim>\<open>%OU\<close>, \<^verbatim>\<open>%OV\<close> and \<^verbatim>\<open>%OW\<close>.\<close>

definition put_week_facet :: "time_facet \<Rightarrow> fields \<Rightarrow> char \<Rightarrow> fmt_state \<Rightarrow> fmt_result" where
  "put_week_facet facet fds c st =
     (let st1 = set_tm (\<lambda>t. t\<lparr>tm_year := year_of fds - 1900\<rparr>) st
      in case extract_weekday fds st1 of (wd, st2) \<Rightarrow>
         (let st3 = set_tm (\<lambda>t. t\<lparr>tm_wday := wd\<rparr>) st2
          in if fs_fail st3 then Inl st3
             else Inr (fin (put_facet facet [CHR ''%'', fs_mod st, c] (set_tm (\<lambda>t. t\<lparr>tm_yday := year_day fds\<rparr>) st3)))))"

text \<open>The number of the week of a day, in weeks that start on the weekday \<open>wd\<close>; \<^verbatim>\<open>wd[1]/January/y\<close> is the
  start of week 1.\<close>

definition week_of_year :: "weekday \<Rightarrow> fields \<Rightarrow> string" where
  "week_of_year wd fds =
     (let ld = to_days (fd_ymd fds);
          st = ymw_to_days (year_month_weekday_new (ymd_year (fd_ymd fds)) January (weekday_indexed_new wd 1))
      in if ld < st then ''00'' else lead0 ((ld - st) sdiv 7 + 1))"

definition dir_U :: "time_facet \<Rightarrow> fields \<Rightarrow> char \<Rightarrow> fmt_state \<Rightarrow> fmt_result" where
  "dir_U facet fds c st =
     (if fs_mod st = CHR ''E'' then Inr (fin (echo c st))
      else
        (let st1 = fail_if (\<not> ymd_ok (fd_ymd fds)) st
         in if fs_mod st = NUL then Inr (fin (put (week_of_year Sunday fds) st1))
            else if fs_mod st = CHR ''O'' then put_week_facet facet fds c st1 else Inr (fin st1)))"

definition iso_week :: "days \<Rightarrow> int" where
  "iso_week ld =
     (let y = ymd_year (from_days (ld + 3)); st = iso_start y;
          st = (if ld < st then iso_start (year_dec y) else st)
      in (ld - st) sdiv 7 + 1)"

definition dir_V :: "time_facet \<Rightarrow> fields \<Rightarrow> char \<Rightarrow> fmt_state \<Rightarrow> fmt_result" where
  "dir_V facet fds c st =
     (if fs_mod st = CHR ''E'' then Inr (fin (echo c st))
      else
        (let st1 = fail_if (\<not> ymd_ok (fd_ymd fds)) st
         in if fs_mod st = NUL then Inr (fin (put (lead0 (iso_week (to_days (fd_ymd fds)))) st1))
            else if fs_mod st = CHR ''O'' then put_week_facet facet fds c st1 else Inr (fin st1)))"

definition dir_w :: "time_facet \<Rightarrow> fields \<Rightarrow> char \<Rightarrow> fmt_state \<Rightarrow> fmt_result" where
  "dir_w facet fds c st =
     (case extract_weekday fds st of (wd, st1) \<Rightarrow>
        if fs_fail st1 then Inl st1
        else Inr (fin (if fs_mod st = NUL then put (show_int wd) st1
                       else if fs_mod st = CHR ''O''
                       then put_facet facet [CHR ''%'', fs_mod st, c] (set_tm (\<lambda>t. t\<lparr>tm_wday := wd\<rparr>) st1)
                       else echo c st1)))"

definition dir_W :: "time_facet \<Rightarrow> fields \<Rightarrow> char \<Rightarrow> fmt_state \<Rightarrow> fmt_result" where
  "dir_W facet fds c st =
     (if fs_mod st = CHR ''E'' then Inr (fin (echo c st))
      else
        (let st1 = fail_if (\<not> ymd_ok (fd_ymd fds)) st
         in if fs_mod st = NUL then Inr (fin (put (week_of_year Monday fds) st1))
            else if fs_mod st = CHR ''O'' then put_week_facet facet fds c st1 else Inr (fin st1)))"

definition dir_X :: "time_facet \<Rightarrow> fields \<Rightarrow> char \<Rightarrow> fmt_state \<Rightarrow> fmt_result" where
  "dir_X facet fds c st =
     Inr (fin (if fs_mod st = CHR ''O'' then echo c st
               else put_facet facet (CHR ''%'' # (if fs_mod st = CHR ''E'' then [fs_mod st] else []) @ [c])
                      (set_tm (\<lambda>_. set_clock fds tm_zero) (fail_if (\<not> fd_has_tod fds) st))))"

definition dir_y :: "time_facet \<Rightarrow> fields \<Rightarrow> char \<Rightarrow> fmt_state \<Rightarrow> fmt_result" where
  "dir_y facet fds c st =
     (let st1 = fail_if (\<not> year_ok (ymd_year (fd_ymd fds))) st; y = year_of fds
      in Inr (fin (if fs_mod st = NUL then put (lead0 (\<bar>y\<bar> smod 100)) st1
                   else put_facet facet [CHR ''%'', fs_mod st, c] (set_tm (\<lambda>t. t\<lparr>tm_year := y - 1900\<rparr>) st1))))"

definition dir_Y :: "time_facet \<Rightarrow> fields \<Rightarrow> char \<Rightarrow> fmt_state \<Rightarrow> fmt_result" where
  "dir_Y facet fds c st =
     (if fs_mod st = CHR ''O'' then Inr (fin (echo c st))
      else
        (let st1 = fail_if (\<not> year_ok (ymd_year (fd_ymd fds))) st
         in Inr (fin (if fs_mod st = NUL then put (year_print (ymd_year (fd_ymd fds))) st1
                      else if fs_mod st = CHR ''E''
                      then put_facet facet [CHR ''%'', fs_mod st, c] (set_tm (\<lambda>t. t\<lparr>tm_year := year_of fds - 1900\<rparr>) st1)
                      else st1))))"

definition dir_z :: "int option \<Rightarrow> fmt_state \<Rightarrow> fmt_result" where
  "dir_z offset_sec st =
     (case offset_sec of
        None \<Rightarrow> Inl (fail_if True st)
      | Some off \<Rightarrow>
          (let m = duration_cast minutes_period seconds_period off;
               neg = m < 0;
               m = dur_abs m;
               h = duration_cast hours_period minutes_period m;
               m = m - h * 60
           in Inr (fin (put ((if neg then ''-'' else ''+'') @ lead0 h @ (if fs_mod st \<noteq> NUL then '':'' else []) @ lead0 m) st))))"

definition dir_Z :: "string option \<Rightarrow> char \<Rightarrow> fmt_state \<Rightarrow> fmt_result" where
  "dir_Z abbrev c st =
     (if fs_mod st = NUL
      then (case abbrev of None \<Rightarrow> Inl (fail_if True st) | Some a \<Rightarrow> Inr (fin (put a st)))
      else Inr (fin (echo c st)))"

definition dir_EO :: "char \<Rightarrow> fmt_state \<Rightarrow> fmt_result" where
  "dir_EO c st = (if fs_mod st = NUL then Inr (st\<lparr>fs_mod := c\<rparr>) else Inr (fin (echo c st)))"

definition dir_percent :: "fmt_state \<Rightarrow> fmt_result" where
  "dir_percent st = Inr (fin (if fs_mod st = NUL then put ''%'' st else echo (CHR ''%'') st))"

definition dir_default :: "char \<Rightarrow> fmt_state \<Rightarrow> fmt_result" where
  "dir_default c st =
     (let st1 = (if fs_cmd st then (put ''%'' st)\<lparr>fs_cmd := False\<rparr> else st);
          st2 = (if fs_mod st1 \<noteq> NUL then (put [fs_mod st1] st1)\<lparr>fs_mod := NUL\<rparr> else st1)
      in Inr (put [c] st2))"

section \<open>The loop\<close>

record fmt_env =
  fe_facet :: time_facet
  fe_point :: char
  fe_den :: int
  fe_abbrev :: "string option"
  fe_offset :: "int option"

definition directive :: "fmt_env \<Rightarrow> fields \<Rightarrow> char \<Rightarrow> (fmt_state \<Rightarrow> fmt_result) option" where
  "directive e fds c =
     (let f = fe_facet e in
      map_of
       [(CHR ''a'', dir_a f fds c), (CHR ''A'', dir_a f fds c), (CHR ''b'', dir_b f fds c), (CHR ''B'', dir_b f fds c),
        (CHR ''h'', dir_b f fds c), (CHR ''c'', dir_c f fds c), (CHR ''x'', dir_c f fds c), (CHR ''C'', dir_C f fds c),
        (CHR ''d'', dir_d f fds c), (CHR ''e'', dir_d f fds c), (CHR ''D'', dir_D fds c), (CHR ''F'', dir_F fds c),
        (CHR ''g'', dir_g fds c), (CHR ''G'', dir_g fds c), (CHR ''H'', dir_H f fds c), (CHR ''I'', dir_H f fds c),
        (CHR ''j'', dir_j (fe_den e) fds c), (CHR ''m'', dir_m f fds c), (CHR ''M'', dir_M f fds c), (CHR ''n'', dir_n c),
        (CHR ''p'', dir_p f fds c), (CHR ''Q'', dir_Q (fe_den e) fds c), (CHR ''q'', dir_Q (fe_den e) fds c),
        (CHR ''r'', dir_r f fds c), (CHR ''R'', dir_R fds c), (CHR ''S'', dir_S f (fe_point e) (fe_den e) fds c),
        (CHR ''t'', dir_t c), (CHR ''T'', dir_T (fe_point e) (fe_den e) fds c), (CHR ''u'', dir_u f fds c),
        (CHR ''U'', dir_U f fds c), (CHR ''V'', dir_V f fds c), (CHR ''w'', dir_w f fds c), (CHR ''W'', dir_W f fds c),
        (CHR ''X'', dir_X f fds c), (CHR ''y'', dir_y f fds c), (CHR ''Y'', dir_Y f fds c), (CHR ''z'', dir_z (fe_offset e)),
        (CHR ''Z'', dir_Z (fe_abbrev e) c), (CHR ''E'', dir_EO c), (CHR ''O'', dir_EO c), (CHR ''%'', dir_percent)] c)"

definition to_stream_step :: "fmt_env \<Rightarrow> fields \<Rightarrow> char \<Rightarrow> fmt_state \<Rightarrow> fmt_result" where
  "to_stream_step e fds c st =
     (case directive e fds c of
        None \<Rightarrow> dir_default c st
      | Some d \<Rightarrow> if fs_cmd st then d st
                  else if c = CHR ''%'' then Inr (st\<lparr>fs_cmd := True\<rparr>) else Inr (put [c] st))"

fun to_stream_loop :: "fmt_env \<Rightarrow> fields \<Rightarrow> string \<Rightarrow> fmt_state \<Rightarrow> fmt_result" where
  "to_stream_loop e fds [] st = Inr st"
| "to_stream_loop e fds (c # cs) st =
     (case to_stream_step e fds c st of Inl st' \<Rightarrow> Inl st' | Inr st' \<Rightarrow> to_stream_loop e fds cs st')"

definition to_stream_begin :: "int \<Rightarrow> fields \<Rightarrow> string \<times> bool \<Rightarrow> fmt_state" where
  "to_stream_begin den fds os =
     \<lparr>fs_buf = fst os, fs_fail = snd os, fs_tm = tm_zero, fs_cmd = False, fs_mod = NUL,
      fs_neg = (fd_has_tod fds \<and> hms_to_duration \<lparr>rnum = 1, rden = den\<rparr> (fd_tod fds) < 0)\<rparr>"

definition to_stream_end :: "fmt_state \<Rightarrow> fmt_state" where
  "to_stream_end st =
     (let st1 = (if fs_cmd st then put ''%'' st else st)
      in if fs_mod st1 \<noteq> NUL then put [fs_mod st1] st1 else st1)"

text \<open>The text of the stream and its failure bit, before and after.\<close>

definition to_stream :: "fmt_env \<Rightarrow> string \<Rightarrow> fields \<Rightarrow> string \<times> bool \<Rightarrow> string \<times> bool" where
  "to_stream e fmt fds os =
     (let st = (case to_stream_loop e fds fmt (to_stream_begin (fe_den e) fds os) of Inl st \<Rightarrow> st | Inr st \<Rightarrow> to_stream_end st)
      in (fs_buf st, fs_fail st))"

text \<open>\<^verbatim>\<open>format\<close>: the stream throws when its failure bit is set, \<^const>\<open>None\<close>.\<close>

definition format_fields :: "fmt_env \<Rightarrow> string \<Rightarrow> fields \<Rightarrow> string option" where
  "format_fields e fmt fds = (case to_stream e fmt fds ([], False) of (s, fl) \<Rightarrow> if fl then None else Some s)"

end
