(* ===== verification/Date_Print.thy ===== *)
theory Date_Print
  imports Date_Format
begin

text \<open>
  The overloads of \<^verbatim>\<open>to_stream\<close> and \<^verbatim>\<open>format\<close> for the types of the calendar, and their insertion
  operators.  Names of months and weekdays come from the locale, through the directives \<^verbatim>\<open>%b\<close> and \<^verbatim>\<open>%a\<close>.
\<close>

section \<open>What the overloads put into the fields\<close>

definition fields_of_year :: "year \<Rightarrow> fields" where
  "fields_of_year y = fields_new 1 (Some (year_month_day_new y (month_new 0) (day_new 0))) None None"

definition fields_of_month :: "month \<Rightarrow> fields" where
  "fields_of_month m = fields_new 1 (Some (year_month_day_new nanyear m (day_new 0))) None None"

definition fields_of_day :: "day \<Rightarrow> fields" where
  "fields_of_day d = fields_new 1 (Some (year_month_day_new nanyear (month_new 0) d)) None None"

definition fields_of_weekday :: "weekday \<Rightarrow> fields" where
  "fields_of_weekday wd = fields_new 1 None (Some wd) None"

definition fields_of_year_month :: "year_month \<Rightarrow> fields" where
  "fields_of_year_month ym = fields_new 1 (Some (year_month_day_new (ym_year ym) (ym_month ym) (day_new 0))) None None"

definition fields_of_month_day :: "month_day \<Rightarrow> fields" where
  "fields_of_month_day md = fields_new 1 (Some (year_month_day_new nanyear (md_month md) (md_day md))) None None"

definition fields_of_ymd :: "year_month_day \<Rightarrow> fields" where
  "fields_of_ymd ymd = fields_new 1 (Some ymd) None None"

text \<open>A duration of the period \<open>p\<close>, in the common type with \<^verbatim>\<open>seconds\<close>, whose period is \<open>1/rden p\<close>.\<close>

definition fields_of_duration :: "ratio \<Rightarrow> int \<Rightarrow> fields" where
  "fields_of_duration p d =
     fields_new (rden p) None None (Some (hh_mm_ss_new \<lparr>rnum = 1, rden = rden p\<rparr> (d * rnum p)))"

text \<open>A time point of the period \<open>1/den\<close>: its date and its time of day.\<close>

definition fields_of_time :: "int \<Rightarrow> int \<Rightarrow> fields" where
  "fields_of_time den tp =
     fields_new den (Some (from_days (day_of \<lparr>rnum = 1, rden = den\<rparr> tp))) None (Some (time_of_day den tp))"

definition plain_env :: "time_facet \<Rightarrow> char \<Rightarrow> int \<Rightarrow> fmt_env" where
  "plain_env facet point den =
     \<lparr>fe_facet = facet, fe_point = point, fe_den = den, fe_abbrev = None, fe_offset = None\<rparr>"

definition format_year :: "time_facet \<Rightarrow> char \<Rightarrow> string \<Rightarrow> year \<Rightarrow> string option" where
  "format_year facet point fmt y = format_fields (plain_env facet point 1) fmt (fields_of_year y)"

definition format_month :: "time_facet \<Rightarrow> char \<Rightarrow> string \<Rightarrow> month \<Rightarrow> string option" where
  "format_month facet point fmt m = format_fields (plain_env facet point 1) fmt (fields_of_month m)"

definition format_day :: "time_facet \<Rightarrow> char \<Rightarrow> string \<Rightarrow> day \<Rightarrow> string option" where
  "format_day facet point fmt d = format_fields (plain_env facet point 1) fmt (fields_of_day d)"

definition format_weekday :: "time_facet \<Rightarrow> char \<Rightarrow> string \<Rightarrow> weekday \<Rightarrow> string option" where
  "format_weekday facet point fmt wd = format_fields (plain_env facet point 1) fmt (fields_of_weekday wd)"

definition format_ymd :: "time_facet \<Rightarrow> char \<Rightarrow> string \<Rightarrow> year_month_day \<Rightarrow> string option" where
  "format_ymd facet point fmt x = format_fields (plain_env facet point 1) fmt (fields_of_ymd x)"

definition format_duration :: "time_facet \<Rightarrow> char \<Rightarrow> ratio \<Rightarrow> string \<Rightarrow> int \<Rightarrow> string option" where
  "format_duration facet point p fmt d = format_fields (plain_env facet point (rden p)) fmt (fields_of_duration p d)"

definition format_local_time ::
  "time_facet \<Rightarrow> char \<Rightarrow> int \<Rightarrow> string option \<Rightarrow> int option \<Rightarrow> string \<Rightarrow> int \<Rightarrow> string option" where
  "format_local_time facet point den abbrev offset_sec fmt tp =
     format_fields \<lparr>fe_facet = facet, fe_point = point, fe_den = den, fe_abbrev = abbrev, fe_offset = offset_sec\<rparr>
       fmt (fields_of_time den tp)"

definition format_sys_time :: "time_facet \<Rightarrow> char \<Rightarrow> int \<Rightarrow> string \<Rightarrow> int \<Rightarrow> string option" where
  "format_sys_time facet point den fmt tp =
     format_fields \<lparr>fe_facet = facet, fe_point = point, fe_den = den, fe_abbrev = Some ''UTC'', fe_offset = Some 0\<rparr>
       fmt (fields_of_time den tp)"

section \<open>Insertion operators\<close>

text \<open>\<^const>\<open>None\<close> when the inner \<^verbatim>\<open>format\<close> throws.\<close>

definition invalid_note :: "bool \<Rightarrow> string \<Rightarrow> string \<Rightarrow> string" where
  "invalid_note ok what s = s @ (if ok then [] else '' is not a valid '' @ what)"

definition day_low_level :: "day \<Rightarrow> string" where
  "day_low_level d = setw0 2 (show_int (uint (day_unsigned d)))"

definition day_print :: "day \<Rightarrow> string" where
  "day_print d = invalid_note (day_ok d) ''day'' (day_low_level d)"

definition month_low_level :: "time_facet \<Rightarrow> char \<Rightarrow> month \<Rightarrow> string option" where
  "month_low_level facet point m =
     (if month_ok m then format_month facet point ''%b'' m else Some (show_int (uint (month_unsigned m))))"

definition month_print :: "time_facet \<Rightarrow> char \<Rightarrow> month \<Rightarrow> string option" where
  "month_print facet point m = map_option (invalid_note (month_ok m) ''month'') (month_low_level facet point m)"

definition weekday_low_level :: "time_facet \<Rightarrow> char \<Rightarrow> weekday \<Rightarrow> string option" where
  "weekday_low_level facet point wd =
     (if weekday_ok wd then format_weekday facet point ''%a'' wd else Some (show_int (uint (c_encoding wd))))"

definition weekday_print :: "time_facet \<Rightarrow> char \<Rightarrow> weekday \<Rightarrow> string option" where
  "weekday_print facet point wd =
     map_option (invalid_note (weekday_ok wd) ''weekday'') (weekday_low_level facet point wd)"

definition wi_low_level :: "time_facet \<Rightarrow> char \<Rightarrow> weekday_indexed \<Rightarrow> string option" where
  "wi_low_level facet point x =
     map_option (\<lambda>s. s @ ''['' @ show_int (uint (wi_index x)) @ '']'') (weekday_low_level facet point (wi_weekday x))"

definition wi_print :: "time_facet \<Rightarrow> char \<Rightarrow> weekday_indexed \<Rightarrow> string option" where
  "wi_print facet point x = map_option (invalid_note (wi_ok x) ''weekday_indexed'') (wi_low_level facet point x)"

definition wl_low_level :: "time_facet \<Rightarrow> char \<Rightarrow> weekday_last \<Rightarrow> string option" where
  "wl_low_level facet point x = map_option (\<lambda>s. s @ ''[last]'') (weekday_low_level facet point (wl_weekday x))"

definition wl_print :: "time_facet \<Rightarrow> char \<Rightarrow> weekday_last \<Rightarrow> string option" where
  "wl_print facet point x = map_option (invalid_note (wl_ok x) ''weekday_last'') (wl_low_level facet point x)"

definition ym_print :: "time_facet \<Rightarrow> char \<Rightarrow> year_month \<Rightarrow> string option" where
  "ym_print facet point x =
     map_option (\<lambda>s. invalid_note (ym_ok x) ''year_month'' (year_low_level (ym_year x) @ ''/'' @ s))
       (month_low_level facet point (ym_month x))"

definition md_print :: "time_facet \<Rightarrow> char \<Rightarrow> month_day \<Rightarrow> string option" where
  "md_print facet point x =
     map_option (\<lambda>s. invalid_note (md_ok x) ''month_day'' (s @ ''/'' @ day_low_level (md_day x)))
       (month_low_level facet point (md_month x))"

definition mdl_low_level :: "time_facet \<Rightarrow> char \<Rightarrow> month_day_last \<Rightarrow> string option" where
  "mdl_low_level facet point x = map_option (\<lambda>s. s @ ''/last'') (month_low_level facet point (mdl_month x))"

definition mdl_print :: "time_facet \<Rightarrow> char \<Rightarrow> month_day_last \<Rightarrow> string option" where
  "mdl_print facet point x = map_option (invalid_note (mdl_ok x) ''month_day_last'') (mdl_low_level facet point x)"

definition mw_print :: "time_facet \<Rightarrow> char \<Rightarrow> month_weekday \<Rightarrow> string option" where
  "mw_print facet point x =
     (case (month_low_level facet point (mw_month x), wi_low_level facet point (mw_wdi x)) of
        (Some s, Some t) \<Rightarrow> Some (invalid_note (mw_ok x) ''month_weekday'' (s @ ''/'' @ t))
      | _ \<Rightarrow> None)"

definition mwl_print :: "time_facet \<Rightarrow> char \<Rightarrow> month_weekday_last \<Rightarrow> string option" where
  "mwl_print facet point x =
     (case (month_low_level facet point (mwl_month x), wl_low_level facet point (mwl_wdl x)) of
        (Some s, Some t) \<Rightarrow> Some (invalid_note (mwl_ok x) ''month_weekday_last'' (s @ ''/'' @ t))
      | _ \<Rightarrow> None)"

definition ymdl_print :: "time_facet \<Rightarrow> char \<Rightarrow> year_month_day_last \<Rightarrow> string option" where
  "ymdl_print facet point x =
     map_option (\<lambda>s. invalid_note (ymdl_ok x) ''year_month_day_last'' (year_low_level (ymdl_year x) @ ''/'' @ s))
       (mdl_low_level facet point (ymdl_mdl x))"

definition ymw_print :: "time_facet \<Rightarrow> char \<Rightarrow> year_month_weekday \<Rightarrow> string option" where
  "ymw_print facet point x =
     (case (month_low_level facet point (ymw_month x), wi_low_level facet point (ymw_wdi x)) of
        (Some s, Some t) \<Rightarrow>
          Some (invalid_note (ymw_ok x) ''year_month_weekday'' (year_low_level (ymw_year x) @ ''/'' @ s @ ''/'' @ t))
      | _ \<Rightarrow> None)"

definition ymwl_print :: "time_facet \<Rightarrow> char \<Rightarrow> year_month_weekday_last \<Rightarrow> string option" where
  "ymwl_print facet point x =
     (case (month_low_level facet point (ymwl_month x), wl_low_level facet point (ymwl_wdl x)) of
        (Some s, Some t) \<Rightarrow>
          Some (invalid_note (ymwl_ok x) ''year_month_weekday_last'' (year_low_level (ymwl_year x) @ ''/'' @ s @ ''/'' @ t))
      | _ \<Rightarrow> None)"

end
