(* ===== verification/Date_Week.thy ===== *)
theory Date_Week
  imports Date_Print
begin

text \<open>
  Week numbers of the format directives against their definitions: the week of ISO 8601 (\<^verbatim>\<open>%G\<close>, \<^verbatim>\<open>%V\<close>), which
  belongs to the year of its Thursday, and the weeks of the year that start on Sunday or Monday (\<^verbatim>\<open>%U\<close>,
  \<^verbatim>\<open>%W\<close>), as \<^verbatim>\<open>strftime\<close> defines them.
\<close>

section \<open>The first day of a year\<close>

definition jan1 :: "year \<Rightarrow> days" where
  "jan1 y = to_days (first_of y January)"

lemma January_uint: "uint (month_m January) = 1" and January_ok: "month_ok January"
  by (simp_all add: January_def month_new_def month_ok_uint)

lemma jan1_ok: "year_ok y \<Longrightarrow> ymd_ok (first_of y January)"
  by (rule first_of_ok [OF _ January_ok])

lemma year_dec_int: "- 32768 < year_int x \<Longrightarrow> year_int (year_dec x) = year_int x - 1"
  using year_int_new [of "year_int x - 1"] year_int_bound [of x] by (simp add: year_dec_def year_new_def year_int_def)

lemmas year_eqI = year_int_inject [THEN iffD1]

lemma before_year:
  assumes "ymd_ok x" and "year_ok y"
  shows "to_days x < jan1 y \<longleftrightarrow> year_int (ymd_year x) < year_int y"
proof -
  have "ymd_less x (first_of y January) \<longleftrightarrow> year_int (ymd_year x) < year_int y"
    using assms(1) by (auto simp: ymd_less_def first_of_def year_month_day_new_def year_less_int month_less_uint
        day_less_uint January_uint ymd_ok_iff month_ok_uint day_new_def)
  then show ?thesis using ymd_less_iff_to_days [OF assms(1) jan1_ok [OF assms(2)]] by (simp add: jan1_def)
qed

lemma day_before_year:
  assumes "min_day \<le> z" and "z \<le> max_day" and "year_ok y"
  shows "z < jan1 y \<longleftrightarrow> year_int (ymd_year (from_days z)) < year_int y"
  using before_year [of "from_days z" y] to_days_from_days_range [OF assms(1,2)] assms(3) by simp

lemma jan1_closed:
  assumes "year_ok y"
  shows "jan1 y = march_first (year_int y - 1) + 306 - 719468"
  using to_days_closed [OF jan1_ok [OF assms]]
  by (simp add: jan1_def first_of_def year_month_day_new_def march_year_def march_doy_def January_uint day_new_def
      march_of_def month_start_def)

lemma jan1_Suc:
  assumes "year_ok y" and "year_ok y'" and "year_int y' = year_int y + 1"
  shows "jan1 y + 365 \<le> jan1 y'"
  using march_first_Suc_ge [of "year_int y - 1"] assms by (simp add: jan1_closed)

lemma year_end:
  assumes "ymd_ok x"
  shows "to_days x < jan1 (ymd_year x) + 366"
proof -
  define y where "y = ymd_year x"
  let ?e = "nth_of y (month_new 12) 31"
  have y: "year_ok y" and m: "month_ok (month_new 12)" "uint (month_m (month_new 12)) = 12"
    using assms by (simp_all add: ymd_ok_iff y_def month_new_def month_ok_uint)
  have l: "month_length y 12 = 31" by (simp add: month_length_def)
  have e: "ymd_ok ?e" "uint (day_d (ymd_day ?e)) = 31" using nth_of_ok [OF y m(1), of 31] m(2) l by simp_all
  have x: "uint (month_m (ymd_month x)) \<le> 12" "uint (day_d (ymd_day x)) \<le> 31"
    using assms month_length_bounds [of "uint (month_m (ymd_month x))" y] by (auto simp: ymd_ok_iff month_ok_uint y_def)
  have "\<not> ymd_less ?e x"
    using x e(2) m(2) by (auto simp: ymd_less_def nth_of_def year_month_day_new_def y_def year_less_int month_less_uint day_less_uint)
  then have "to_days x \<le> to_days ?e" using ymd_less_iff_to_days [OF e(1) assms] by simp
  moreover have "to_days ?e < jan1 y + 366"
    using to_days_closed [OF e(1)] e(2) march_first_Suc [of "year_int y - 1"]
    by (simp add: jan1_closed [OF y] march_year_def march_doy_def nth_of_def year_month_day_new_def m(2) march_of_def
        month_start_def)
  ultimately show ?thesis by (simp add: y_def)
qed

lemma jan1_dec31:
  assumes "year_ok y" and "year_ok y'" and "year_int y' = year_int y + 1"
  shows "to_days (nth_of y (month_new 12) 31) = jan1 y' - 1"
proof -
  let ?x = "nth_of y (month_new 12) 31"
  have m: "month_ok (month_new 12)" "uint (month_m (month_new 12)) = 12" by (simp_all add: month_new_def month_ok_uint)
  have l: "month_length y 12 = 31" by (simp add: month_length_def)
  have x: "ymd_ok ?x" "uint (day_d (ymd_day ?x)) = 31"
    using nth_of_ok [OF assms(1) m(1), of 31] m(2) l by simp_all
  have parts: "ymd_year ?x = y" "ymd_month ?x = month_new 12" by (simp_all add: nth_of_def year_month_day_new_def)
  have y: "year_int y < 32767" using assms(3) year_int_bound [of y'] by simp
  have "year_int (year_plus y 1) = year_int y + 1"
    using y year_int_bound [of y] by (intro year_plus_int) auto
  then have "year_plus y 1 = y'" using assms(3) by (intro year_eqI) simp
  then have "next_date ?x = first_of y' January"
    using x(2) m(2) l parts by (simp add: next_date_def Let_def first_of_def year_month_day_new_def January_def)
  then show ?thesis using to_days_next [OF x(1)] parts y by (simp add: jan1_def)
qed

section \<open>The week of ISO 8601\<close>

lemma monday_thursday: "weekday_diff Monday Thursday = 4" "weekday_ok Thursday" "uint (weekday_wd Thursday) = 4"
  by (simp_all add: weekday_diff_mod Monday_def Thursday_def weekday_new_def weekday_ok_uint)

text \<open>\<open>iso_start y\<close> is the Monday before the first Thursday of \<open>y\<close>.\<close>

lemma iso_start_first_thursday:
  assumes y: "year_ok y" and lo: "- 32766 \<le> year_int y"
  obtains q where "iso_start y + 3 = 7 * q" and "jan1 y \<le> 7 * q" and "7 * q \<le> jan1 y + 6"
proof -
  define p where "p = year_minus y 1"
  have p: "year_int p = year_int y - 1"
    using lo year_int_bound [of y] unfolding p_def year_minus_def by (intro year_int_new) auto
  then have okp: "year_ok p" using lo by (simp add: year_ok_def)
  have m: "month_ok (month_new 12)" "uint (month_m (month_new 12)) = 12" by (simp_all add: month_new_def month_ok_uint)
  have l: "month_length p 12 = 31" by (simp add: month_length_def)
  define e where "e = to_days (nth_of p (month_new 12) 31)"
  have e: "e = jan1 y - 1" using jan1_dec31 [OF okp y] p by (simp add: e_def)
  have r: "min_day \<le> e" "e \<le> max_day"
    using to_days_range nth_of_ok(1) [OF okp m(1), of 31] m(2) l by (simp_all add: e_def)
  define k where "k = weekday_diff (weekday_of_days e) Thursday"
  note k = weekday_diff_back [OF r monday_thursday(2), folded k_def]
  have s: "iso_start y = e - k + 4"
    unfolding iso_start_def ymwl_to_days_def year_month_weekday_last_new_def Let_def p_def [symmetric]
    by (simp add: last_of_month [OF okp m(1)] m(2) l monday_thursday e_def k_def weekday_last_new_def wl_weekday_def)
  have "uint (weekday_from_days (e - k)) = (e - k + 4) mod 7"
    using r k by (intro weekday_from_days_mod) (simp_all add: min_day_def max_day_def)
  then have "(e - k + 4) mod 7 = 4" using k(1) monday_thursday(3) by (simp add: weekday_of_days_def) (metis weekday.sel)
  then have "7 dvd e - k + 7" by presburger
  then obtain q where q: "e - k + 7 = 7 * q" by (rule dvdE)
  show thesis by (rule that [of q]) (use s q e k in auto)
qed

text \<open>The Thursday of the week of a day, and the number of weeks between it and the year's start.\<close>

definition week_thursday :: "days \<Rightarrow> days" where
  "week_thursday ld = ld - (ld + 3) mod 7 + 3"

lemma week_thursday_7: "week_thursday ld = 7 * ((ld + 3) div 7)"
  using div_mult_mod_eq [of "ld + 3" 7] unfolding week_thursday_def by linarith

lemma weeks_between:
  fixes ld J q :: int
  assumes "J \<le> 7 * q" "7 * q \<le> J + 6"
  shows "ld + 3 < 7 * q \<longleftrightarrow> week_thursday ld < J"
    and "7 * q \<le> ld + 3 \<Longrightarrow> (ld + 3 - 7 * q) sdiv 7 = (week_thursday ld - J) div 7"
proof -
  define a b where "a = (ld + 3) div 7" and "b = (ld + 3) mod 7"
  have ab: "ld + 3 = 7 * a + b" "0 \<le> b" "b \<le> 6" using div_mult_mod_eq [of "ld + 3" 7] by (simp_all add: a_def b_def)
  have th: "week_thursday ld = 7 * a" by (simp add: week_thursday_7 a_def)
  show "ld + 3 < 7 * q \<longleftrightarrow> week_thursday ld < J" using ab assms unfolding th by presburger
  show "(ld + 3 - 7 * q) sdiv 7 = (week_thursday ld - J) div 7" if "7 * q \<le> ld + 3"
  proof -
    have "(ld + 3 - 7 * q) div 7 = a - q" by (rule div_unique_bounds) (use ab in auto)
    moreover have "(7 * a - J) div 7 = a - q" by (rule div_unique_bounds) (use assms in auto)
    ultimately show ?thesis using that by (simp add: sdiv_pos th)
  qed
qed

lemma iso_low_year: "jan1 (year_new (- 32765)) \<le> min_day + 800"
proof -
  have "year_int (year_new (- 32765)) = - 32765" by (simp add: year_int_new)
  moreover from this have "year_ok (year_new (- 32765))" by (simp add: year_ok_def)
  ultimately show ?thesis by (simp add: jan1_closed march_first_def min_day_def)
qed

lemma iso_week_spec:
  fixes ld :: int
  assumes lo: "min_day + 806 \<le> ld" and hi: "ld \<le> max_day - 3"
  defines "g \<equiv> ymd_year (from_days (week_thursday ld))"
  shows "iso_year ld = g" and "iso_week ld = (week_thursday ld - jan1 g) div 7 + 1"
    and "jan1 g \<le> week_thursday ld" and "week_thursday ld < jan1 g + 366"
proof -
  let ?y = "\<lambda>z. ymd_year (from_days z)"
  define th where "th = week_thursday ld"
  define y0 where "y0 = ?y (ld + 3)"
  have th: "ld - 3 \<le> th" "th \<le> ld + 3" by (simp_all add: th_def week_thursday_def)
  have rng: "min_day \<le> ld + 3" "ld + 3 \<le> max_day" "min_day \<le> th" "th \<le> max_day" using lo hi th by auto
  have ok: "year_ok (?y z)" if "min_day \<le> z" "z \<le> max_day" for z
    using to_days_from_days_range [OF that] by (simp add: ymd_ok_iff)
  have low: "- 32765 \<le> year_int (?y z)" if "min_day + 800 \<le> z" "z \<le> max_day" for z
  proof -
    have "year_ok (year_new (- 32765))" "year_int (year_new (- 32765)) = - 32765" by (simp_all add: year_ok_def year_int_new)
    then show ?thesis using day_before_year [of z "year_new (- 32765)"] iso_low_year that by auto
  qed
  have okg: "year_ok g" "- 32765 \<le> year_int g" and ok0: "year_ok y0" "- 32765 \<le> year_int y0"
    using ok rng low [of th] low [of "ld + 3"] lo th by (simp_all add: g_def y0_def th_def)
  have jg: "jan1 g \<le> th" using day_before_year [OF rng(3,4) okg(1)] by (simp add: g_def th_def not_less)
  have j0: "jan1 y0 \<le> ld + 3" using day_before_year [OF rng(1,2) ok0(1)] by (simp add: y0_def not_less)
  have gle: "year_int g \<le> year_int y0"
    using day_before_year [OF rng(1,2) okg(1)] jg th by (simp add: y0_def)
  have lt0: "th < jan1 y0 \<longleftrightarrow> year_int g < year_int y0" using day_before_year [OF rng(3,4) ok0(1)] by (simp add: g_def th_def)
  define y1 where "y1 = year_dec y0"
  have y1: "year_int y1 = year_int y0 - 1" using ok0(2) by (simp add: y1_def year_dec_int)
  have ok1: "year_ok y1" "- 32766 \<le> year_int y1" using y1 ok0(2) by (simp_all add: year_ok_def)
  obtain q0 where q0: "iso_start y0 + 3 = 7 * q0" "jan1 y0 \<le> 7 * q0" "7 * q0 \<le> jan1 y0 + 6"
    using iso_start_first_thursday [OF ok0(1)] ok0(2) by auto
  obtain q1 where q1: "iso_start y1 + 3 = 7 * q1" "jan1 y1 \<le> 7 * q1" "7 * q1 \<le> jan1 y1 + 6"
    using iso_start_first_thursday [OF ok1] by auto
  note w0 = weeks_between [OF q0(2,3), of ld, folded th_def]
  note w1 = weeks_between [OF q1(2,3), of ld, folded th_def]
  have lts: "ld < iso_start y0 \<longleftrightarrow> year_int g < year_int y0" using q0(1) w0(1) lt0 by linarith
  have step: "jan1 y1 + 365 \<le> jan1 y0" using jan1_Suc [OF ok1(1) ok0(1)] y1 by simp
  have g1: "g = y1" if "year_int g < year_int y0"
  proof -
    have "jan1 y1 \<le> th" using step j0 th by simp
    then have "\<not> year_int g < year_int y1" using day_before_year [OF rng(3,4) ok1(1)] by (simp add: g_def th_def)
    then show ?thesis using that y1 by (intro year_eqI) simp
  qed
  have g0: "g = y0" if "\<not> year_int g < year_int y0" using that gle by (intro year_eqI) simp
  show "iso_year ld = g"
    using lts g0 g1 unfolding iso_year_def y0_def [symmetric] Let_def y1_def by auto
  show "iso_week ld = (week_thursday ld - jan1 g) div 7 + 1"
  proof (cases "year_int g < year_int y0")
    case True
    have e: "ld - iso_start y1 = ld + 3 - 7 * q1" "7 * q1 \<le> ld + 3"
      using q1(1) w1(1) g1 [OF True] jg by auto
    have "iso_week ld = (ld - iso_start y1) sdiv 7 + 1"
      using True lts unfolding iso_week_def y0_def [symmetric] Let_def y1_def by simp
    then show ?thesis unfolding e(1) w1(2) [OF e(2)] g1 [OF True] th_def .
  next
    case False
    have e: "ld - iso_start y0 = ld + 3 - 7 * q0" "7 * q0 \<le> ld + 3"
      using q0(1) w0(1) lt0 False by auto
    have "iso_week ld = (ld - iso_start y0) sdiv 7 + 1"
      using False lts unfolding iso_week_def y0_def [symmetric] Let_def by simp
    then show ?thesis unfolding e(1) w0(2) [OF e(2)] g0 [OF False] th_def .
  qed
  show "jan1 g \<le> week_thursday ld" using jg by (simp add: th_def)
  show "week_thursday ld < jan1 g + 366"
    using year_end [of "from_days th"] to_days_from_days_range [OF rng(3,4)] by (simp add: g_def th_def)
qed

section \<open>The weeks of \<^verbatim>\<open>strftime\<close>\<close>

lemma week_count:
  fixes ld J k w :: int
  assumes "J \<le> ld"
  defines "k \<equiv> (w - (J + 4)) mod 7" and "o' \<equiv> (ld + 4 - w) mod 7"
  shows "(if ld < J + k then 0 else (ld - (J + k)) div 7 + 1) = (ld - J + 7 - o') div 7"
proof -
  have k: "0 \<le> k" "k \<le> 6" and o: "0 \<le> o'" "o' \<le> 6" by (simp_all add: k_def o'_def)
  define c where "c = (ld + 4 - w) div 7 + (w - (J + 4)) div 7"
  have "o' = ld + 4 - w - 7 * ((ld + 4 - w) div 7)" "k = w - (J + 4) - 7 * ((w - (J + 4)) div 7)"
    unfolding k_def o'_def by (rule minus_mult_div_eq_mod [symmetric])+
  then have c: "ld - o' - (J + k) = 7 * c" by (simp add: c_def distrib_left)
  have r: "(ld - J + 7 - o') div 7 = c + 1" by (rule div_unique_bounds) (use c k in auto)
  show ?thesis
  proof (cases "ld < J + k")
    case True
    then have "c = - 1" using c k o assms(1) by presburger
    with True r show ?thesis by simp
  next
    case False
    have "(ld - (J + k)) div 7 = c" by (rule div_unique_bounds) (use c o in auto)
    with False r show ?thesis by simp
  qed
qed

lemma week_of_year_spec:
  assumes ok: "ymd_ok (fd_ymd fds)" and wd: "weekday_ok wd"
  shows "week_of_year wd fds = lead0 ((year_day fds + 7 - (to_days (fd_ymd fds) + 4 - uint (weekday_wd wd)) mod 7) div 7)"
proof -
  define y ld where "y = ymd_year (fd_ymd fds)" and "ld = to_days (fd_ymd fds)"
  have y: "year_ok y" using ok by (simp add: ymd_ok_iff y_def)
  define w where "w = year_month_weekday_new y January (weekday_indexed_new wd 1)"
  have wi: "ymw_weekday w = wd" "ymw_index w = 1" "ymw_year w = y" "ymw_month w = January"
    using wi_round_trip [of wd 1] wd by (simp_all add: w_def year_month_weekday_new_def ymw_weekday_def ymw_index_def)
  have "uint (weekday_from_days (jan1 y)) = (jan1 y + 4) mod 7"
    using to_days_range [OF jan1_ok [OF y]] unfolding jan1_def
    by (intro weekday_from_days_mod) (simp_all add: min_day_def max_day_def)
  then have st: "ymw_to_days w = jan1 y + (uint (weekday_wd wd) - (jan1 y + 4)) mod 7"
    by (simp add: ymw_to_days_def wi Let_def weekday_diff_mod weekday_of_days_def mod_diff_right_eq flip: jan1_def)
  have j: "jan1 y \<le> ld" using before_year [OF ok y] by (simp add: ld_def y_def)
  note c = week_count [OF j, of "uint (weekday_wd wd)"]
  have yd: "year_day fds = ld - jan1 y" by (simp add: year_day_def ld_def y_def jan1_def)
  show ?thesis
  proof (cases "ld < ymw_to_days w")
    case True
    then have "(ld - jan1 y + 7 - (ld + 4 - uint (weekday_wd wd)) mod 7) div 7 = 0" using c unfolding st by simp
    moreover have "lead0 0 = ''00''" by (simp add: lead0_def show_int_def show_nat.simps digit_char_def char_of_def bit_0)
    ultimately show ?thesis using True
      by (simp add: week_of_year_def Let_def yd w_def flip: ld_def y_def)
  next
    case False
    then have "(ld - ymw_to_days w) div 7 + 1 = (ld - jan1 y + 7 - (ld + 4 - uint (weekday_wd wd)) mod 7) div 7"
      using c unfolding st by simp
    with False show ?thesis
      by (simp add: week_of_year_def Let_def yd sdiv_pos w_def flip: ld_def y_def)
  qed
qed

end
