(* ===== verification/Date_Format_Run.thy ===== *)
theory Date_Format_Run
  imports Date_Week
begin

text \<open>
  Runs of the format interpreter: plain text is copied, a format is processed piece by piece, a failed
  stream stays failed, and what the formats used for dates, times and weeks produce.
\<close>

section \<open>Pieces of a format\<close>

lemma to_stream_loop_append:
  "to_stream_loop e fds (f1 @ f2) st =
     (case to_stream_loop e fds f1 st of Inl st' \<Rightarrow> Inl st' | Inr st' \<Rightarrow> to_stream_loop e fds f2 st')"
  by (induction f1 arbitrary: st) (auto split: sum.splits)

definition idle :: "fmt_state \<Rightarrow> bool" where
  "idle st \<longleftrightarrow> \<not> fs_cmd st \<and> fs_mod st = NUL"

lemma put_append: "put (s @ t) st = put t (put s st)"
  by (simp add: put_def)

lemma put_idle [simp]: "idle (put s st) = idle st"
  by (simp add: idle_def put_def)

lemma fin_idle [simp]: "idle (fin st)"
  by (simp add: idle_def fin_def)

lemma step_text: "idle st \<Longrightarrow> c \<noteq> CHR ''%'' \<Longrightarrow> to_stream_step e fds c st = Inr (put [c] st)"
  by (auto simp: to_stream_step_def dir_default_def idle_def split: option.splits)

lemma loop_text:
  assumes "idle st" and "CHR ''%'' \<notin> set t"
  shows "to_stream_loop e fds t st = Inr (put t st)"
  using assms
proof (induction t arbitrary: st)
  case (Cons c t)
  then have "c \<noteq> CHR ''%''" "CHR ''%'' \<notin> set t" by auto
  then show ?case using Cons(1) [of "put [c] st"] Cons(2) step_text [of st c e fds] put_append [of "[c]" t st] by simp
qed (simp add: put_def)

text \<open>A directive without modifier, run from an idle state.\<close>

definition run_dir :: "(fmt_state \<Rightarrow> fmt_result) \<Rightarrow> fmt_state \<Rightarrow> fmt_result" where
  "run_dir d st = d (st\<lparr>fs_cmd := True\<rparr>)"

lemma loop_directive:
  assumes "idle st" and "directive e fds c = Some d"
  shows "to_stream_loop e fds (CHR ''%'' # c # f) st =
    (case run_dir d st of Inl st' \<Rightarrow> Inl st' | Inr st' \<Rightarrow> to_stream_loop e fds f st')"
proof -
  have "directive e fds (CHR ''%'') \<noteq> None" by (simp add: directive_def Let_def)
  then show ?thesis using assms by (auto simp: to_stream_step_def idle_def run_dir_def split: option.splits)
qed

lemma to_stream_end_idle: "idle st \<Longrightarrow> to_stream_end st = st"
  by (simp add: to_stream_end_def idle_def)

lemma to_stream_begin_idle [simp]: "idle (to_stream_begin den fds os)"
  by (simp add: to_stream_begin_def idle_def)

section \<open>A failed stream\<close>

lemma fail_simps [simp]:
  "fs_fail (put s st) = fs_fail st" "fs_fail (put_facet f g st) = fs_fail st" "fs_fail (set_tm u st) = fs_fail st"
  "fs_fail (fail_if b st) = (b \<or> fs_fail st)" "fs_fail (echo c st) = fs_fail st" "fs_fail (fin st) = fs_fail st"
  "fs_fail (put_sign st) = fs_fail st"
  by (simp_all add: put_def put_facet_def set_tm_def fail_if_def echo_def fin_def put_sign_def)

lemma extract_fail:
  "fs_fail st \<Longrightarrow> fs_fail (snd (extract_weekday fds st))" "fs_fail st \<Longrightarrow> fs_fail (snd (extract_month fds st))"
  by (simp_all add: extract_weekday_def extract_month_def Let_def)

fun result_state :: "fmt_result \<Rightarrow> fmt_state" where
  "result_state (Inl st) = st"
| "result_state (Inr st) = st"

lemmas dir_defs = dir_a_def dir_b_def dir_c_def dir_C_def dir_d_def dir_D_def dir_F_def dir_g_def dir_H_def dir_j_def
  dir_m_def dir_M_def dir_n_def dir_p_def dir_Q_def dir_r_def dir_R_def dir_S_def dir_t_def dir_T_def dir_u_def
  dir_U_def dir_V_def dir_w_def dir_W_def dir_X_def dir_y_def dir_Y_def dir_z_def dir_Z_def dir_EO_def dir_percent_def

lemma put_week_facet_fail: "fs_fail st \<Longrightarrow> fs_fail (result_state (put_week_facet f fds c st))"
  using extract_fail(1) by (simp add: put_week_facet_def Let_def case_prod_unfold)

lemma directive_fail:
  assumes "directive e fds c = Some d" and "fs_fail st"
  shows "fs_fail (result_state (d st))"
proof -
  have x: "fs_fail (snd (extract_weekday fds st))" "fs_fail (snd (extract_month fds st))"
    using extract_fail assms(2) by blast+
  show ?thesis
    using assms extract_fail put_week_facet_fail
    by (auto simp: directive_def Let_def dir_defs x case_prod_unfold split: if_splits option.splits)
qed

lemma step_fail: "fs_fail st \<Longrightarrow> fs_fail (result_state (to_stream_step e fds c st))"
  using directive_fail [of e fds c _ st]
  by (auto simp: to_stream_step_def dir_default_def Let_def split: option.splits)

lemma loop_fail: "fs_fail st \<Longrightarrow> fs_fail (result_state (to_stream_loop e fds f st))"
proof (induction f arbitrary: st)
  case (Cons c f)
  then show ?case using step_fail [OF Cons(2), of e fds c] by (auto split: sum.splits)
qed simp

section \<open>Results of directives\<close>

lemma directive_table:
  "directive e fds (CHR ''F'') = Some (dir_F fds (CHR ''F''))"
  "directive e fds (CHR ''G'') = Some (dir_g fds (CHR ''G''))"
  "directive e fds (CHR ''T'') = Some (dir_T (fe_point e) (fe_den e) fds (CHR ''T''))"
  "directive e fds (CHR ''u'') = Some (dir_u (fe_facet e) fds (CHR ''u''))"
  "directive e fds (CHR ''U'') = Some (dir_U (fe_facet e) fds (CHR ''U''))"
  "directive e fds (CHR ''V'') = Some (dir_V (fe_facet e) fds (CHR ''V''))"
  "directive e fds (CHR ''W'') = Some (dir_W (fe_facet e) fds (CHR ''W''))"
  "directive e fds (CHR ''H'') = Some (dir_H (fe_facet e) fds (CHR ''H''))"
  "directive e fds (CHR ''I'') = Some (dir_H (fe_facet e) fds (CHR ''I''))"
  by (simp_all add: directive_def Let_def)

lemma step_percent: "idle st \<Longrightarrow> to_stream_step e fds (CHR ''%'') st = Inr (st\<lparr>fs_cmd := True\<rparr>)"
  by (simp add: to_stream_step_def directive_def Let_def idle_def)

lemma step_command:
  "fs_cmd st \<Longrightarrow> directive e fds c \<noteq> None \<Longrightarrow> to_stream_step e fds c st = the (directive e fds c) st"
  by (auto simp: to_stream_step_def)

lemma fin_put: "idle st \<Longrightarrow> fin (put s (st\<lparr>fs_cmd := True\<rparr>)) = put s st"
  by (simp add: idle_def fin_def put_def)

lemma idle_mod: "idle st \<Longrightarrow> fs_mod (st\<lparr>fs_cmd := b\<rparr>) = NUL"
  by (simp add: idle_def)

lemma fail_if_False [simp]: "fail_if False st = st"
  by (simp add: fail_if_def)

lemma run_directives:
  assumes "idle st"
  shows "fd_has_tod fds \<Longrightarrow> dir_T point den fds c (st\<lparr>fs_cmd := True\<rparr>) =
      Inr (put (hms_print point \<lparr>rnum = 1, rden = den\<rparr> (fd_tod fds)) st)"
    and "ymd_ok (fd_ymd fds) \<Longrightarrow> dir_F fds c (st\<lparr>fs_cmd := True\<rparr>) =
      Inr (put (setw0 4 (show_int (year_of fds)) @ ''-'' @ setw0 2 (show_int (month_int fds)) @ ''-'' @
        setw0 2 (show_int (day_int fds))) st)"
    and "ymd_ok (fd_ymd fds) \<Longrightarrow> dir_g fds (CHR ''G'') (st\<lparr>fs_cmd := True\<rparr>) =
      Inr (put (year_print (iso_year (to_days (fd_ymd fds)))) st)"
    and "ymd_ok (fd_ymd fds) \<Longrightarrow> dir_V facet fds c (st\<lparr>fs_cmd := True\<rparr>) =
      Inr (put (lead0 (iso_week (to_days (fd_ymd fds)))) st)"
    and "ymd_ok (fd_ymd fds) \<Longrightarrow> dir_U facet fds c (st\<lparr>fs_cmd := True\<rparr>) = Inr (put (week_of_year Sunday fds) st)"
    and "ymd_ok (fd_ymd fds) \<Longrightarrow> dir_W facet fds c (st\<lparr>fs_cmd := True\<rparr>) = Inr (put (week_of_year Monday fds) st)"
  using assms
  by (simp_all add: dir_T_def dir_F_def dir_g_def dir_V_def dir_U_def dir_W_def Let_def fin_put idle_mod NUL_def)

text \<open>The weekday of a date without an explicit weekday.\<close>

lemma extract_weekday_date:
  assumes "ymd_ok (fd_ymd fds)" and "fd_wd fds = weekday_new 8"
  shows "extract_weekday fds st = ((to_days (fd_ymd fds) + 4) mod 7, st)"
proof -
  have "\<not> weekday_ok (weekday_new 8)" by (simp add: weekday_ok_uint weekday_new_def)
  moreover have "uint (weekday_wd Sunday) = 0" by (simp add: Sunday_def weekday_new_def)
  moreover have "uint (weekday_from_days (to_days (fd_ymd fds))) = (to_days (fd_ymd fds) + 4) mod 7"
    using to_days_range [OF assms(1)] by (intro weekday_from_days_mod) (simp_all add: min_day_def max_day_def)
  ultimately show ?thesis
    using assms by (simp add: extract_weekday_def Let_def weekday_diff_mod weekday_of_days_def)
qed

lemma run_u:
  assumes "idle st" and "ymd_ok (fd_ymd fds)" and "fd_wd fds = weekday_new 8"
  shows "dir_u facet fds c (st\<lparr>fs_cmd := True\<rparr>) = Inr (put (show_int ((to_days (fd_ymd fds) + 3) mod 7 + 1)) st)"
proof -
  have "(if (z + 4) mod 7 \<noteq> 0 then (z + 4) mod 7 else 7) = (z + 3) mod 7 + (1 :: int)" for z
  proof -
    define m where "m = (z + 3) mod 7"
    have "(z + 4) mod 7 = (m + 1) mod 7" using mod_add_left_eq [of "z + 3" 7 1] by (simp add: m_def add.assoc)
    moreover have "0 \<le> m" "m \<le> 6" by (simp_all add: m_def)
    ultimately show ?thesis by (cases "m = 6") (simp_all flip: m_def)
  qed
  then show ?thesis using assms
    by (simp add: dir_u_def extract_weekday_date fin_put idle_mod NUL_def)
qed

lemma format_fields_put:
  assumes "to_stream_loop e fds fmt (to_stream_begin (fe_den e) fds ([], False)) =
      Inr (put s (to_stream_begin (fe_den e) fds ([], False)))"
  shows "format_fields e fmt fds = Some s"
  using assms by (simp add: format_fields_def to_stream_def to_stream_end_idle Let_def) (simp add: put_def to_stream_begin_def)

lemmas format_steps = step_percent step_command step_text directive_table run_directives run_u put_append [symmetric]

lemma format_T_stream:
  assumes "fd_has_tod fds"
  shows "format_fields e ''%T'' fds = Some (hms_print (fe_point e) \<lparr>rnum = 1, rden = fe_den e\<rparr> (fd_tod fds))"
  by (rule format_fields_put) (simp add: format_steps assms)

lemma format_FT:
  assumes "fd_has_tod fds" and "ymd_ok (fd_ymd fds)"
  shows "format_fields e ''%F %T'' fds = Some (setw0 4 (show_int (year_of fds)) @ ''-'' @ setw0 2 (show_int (month_int fds)) @
    ''-'' @ setw0 2 (show_int (day_int fds)) @ '' '' @ hms_print (fe_point e) \<lparr>rnum = 1, rden = fe_den e\<rparr> (fd_tod fds))"
  by (rule format_fields_put) (simp add: format_steps assms)

lemma format_GVu:
  assumes "ymd_ok (fd_ymd fds)" and "fd_wd fds = weekday_new 8"
  shows "format_fields e ''%G-W%V-%u'' fds = Some (year_print (iso_year (to_days (fd_ymd fds))) @ ''-W'' @
    lead0 (iso_week (to_days (fd_ymd fds))) @ ''-'' @ show_int ((to_days (fd_ymd fds) + 3) mod 7 + 1))"
  by (rule format_fields_put) (simp add: format_steps assms)

lemma format_HI:
  assumes "fd_has_tod fds" and "0 \<le> hms_to_duration \<lparr>rnum = 1, rden = fe_den e\<rparr> (fd_tod fds)"
  shows "format_fields e ''%H %I'' fds = Some (lead0 (hms_h (fd_tod fds)) @ '' '' @ lead0 (make12 (hms_h (fd_tod fds))))"
proof (rule format_fields_put)
  have n: "\<not> fs_neg (to_stream_begin (fe_den e) fds ([], False))" using assms by (simp add: to_stream_begin_def)
  have H: "dir_H f fds c (st\<lparr>fs_cmd := True\<rparr>) = Inr (put (lead0 (if c = CHR ''I'' then make12 (hms_h (fd_tod fds)) else hms_h (fd_tod fds))) st)"
    if "idle st" "\<not> fs_neg st" for f c st
    using assms(1) that by (simp add: dir_H_def Let_def fin_put idle_mod NUL_def put_sign_def)
  have [simp]: "fs_neg (put s st) = fs_neg st" for s st by (simp add: put_def)
  show "to_stream_loop e fds ''%H %I'' (to_stream_begin (fe_den e) fds ([], False)) =
      Inr (put (lead0 (hms_h (fd_tod fds)) @ '' '' @ lead0 (make12 (hms_h (fd_tod fds)))) (to_stream_begin (fe_den e) fds ([], False)))"
    using n by (simp add: step_percent step_command step_text directive_table H put_append [symmetric])
qed

lemma format_UW:
  assumes "ymd_ok (fd_ymd fds)"
  shows "format_fields e ''%U %W'' fds = Some (week_of_year Sunday fds @ '' '' @ week_of_year Monday fds)"
  by (rule format_fields_put) (simp add: format_steps assms)

section \<open>Directives that need a time of day\<close>

lemma time_directive_fails:
  assumes "c \<in> set ''HIMpQqrRSTX''" and "\<not> fd_has_tod fds" and "idle st"
  obtains d st' where "directive e fds c = Some d" and "d (st\<lparr>fs_cmd := True\<rparr>) = Inr st'" and "fs_fail st'"
  using assms by (auto simp: directive_def Let_def dir_defs idle_mod NUL_def)

lemma format_without_time:
  assumes c: "c \<in> set ''HIMpQqrRSTX''" and "\<not> fd_has_tod fds" and t: "CHR ''%'' \<notin> set t"
  shows "format_fields e (t @ CHR ''%'' # c # f) fds = None"
proof -
  define st0 where "st0 = put t (to_stream_begin (fe_den e) fds ([], False))"
  have i: "idle st0" by (simp add: st0_def)
  obtain d st' where d: "directive e fds c = Some d" "d (st0\<lparr>fs_cmd := True\<rparr>) = Inr st'" "fs_fail st'"
    using time_directive_fails [OF c assms(2) i, of e] by blast
  have "to_stream_loop e fds (t @ CHR ''%'' # c # f) (to_stream_begin (fe_den e) fds ([], False)) = to_stream_loop e fds f st'"
    using i d by (simp add: to_stream_loop_append loop_text [OF _ t] step_percent step_command flip: st0_def)
  moreover have "fs_fail (result_state (to_stream_loop e fds f st'))" by (rule loop_fail [OF d(3)])
  ultimately show ?thesis
    by (cases "to_stream_loop e fds f st'")
      (simp_all add: format_fields_def to_stream_def Let_def to_stream_end_def)
qed

section \<open>The text of a time stamp\<close>

lemma dfs_width_milli: "dfs_width 1000 = 3"
  by (simp add: dfs_width_def width_from.simps)

text \<open>The time stamp of a millisecond clock and its fields.\<close>

lemma format_T_parts:
  fixes t :: int
  obtains h m sc ms where "format_T point 1000 t = setw0 2 (show_nat h) @ '':'' @ setw0 2 (show_nat m) @ '':'' @ setw0 2 (show_nat sc) @ [point] @
      setw0 3 (show_nat ms)"
    and "h < 24" and "m < 60" and "sc < 60" and "ms < 1000"
    and "t = ((t div 86400000 * 24 + int h) * 60 + int m) * 60000 + int sc * 1000 + int ms"
proof -
  define p where "p = \<lparr>rnum = 1, rden = (1000 :: int)\<rparr>"
  define x where "x = time_of_day 1000 t"
  have ok: "ratio_ok p" by (simp add: ratio_ok_def p_def)
  have x: "x = hh_mm_ss_new p (t mod 86400000)" using time_of_day_split(2) [of 1000 t] by (simp add: x_def p_def)
  note b = hms_range [OF ok, of "t mod 86400000", folded x, unfolded p_def, simplified dfs_width_milli ratio.simps]
  have h24: "hms_h x < 24" and cr: "hms_in_conventional_range p x"
    using time_of_day_range [of 1000 t] by (simp_all add: x_def p_def)
  define h m sc ms where "h = nat (hms_h x)" and "m = nat (hms_m x)" and "sc = nat (dfs_s (hms_s x))"
    and "ms = nat (dfs_sub_s (hms_s x))"
  have r: "h < 24" "m < 60" "sc < 60" "ms < 1000" using b h24 by (simp_all add: h_def m_def sc_def ms_def)
  have i: "int h = hms_h x" "int m = hms_m x" "int sc = dfs_s (hms_s x)" "int ms = dfs_sub_s (hms_s x)"
    using b by (simp_all add: h_def m_def sc_def ms_def)
  have s: "format_T point 1000 t = setw0 2 (show_nat h) @ '':'' @ setw0 2 (show_nat m) @ '':'' @ setw0 2 (show_nat sc) @ [point] @
      setw0 3 (show_nat ms)"
    using format_T_text [of 1000 point t] by (simp add: dfs_width_milli x_def h_def m_def sc_def ms_def)
  have sum: "t = ((t div 86400000 * 24 + int h) * 60 + int m) * 60000 + int sc * 1000 + int ms"
  proof -
    have "hms_to_duration p x * 1000 = t mod 86400000 * 1000"
      using hms_to_duration_new [OF ok, of "t mod 86400000"] by (simp add: p_def dfs_width_milli x)
    moreover have "hms_to_duration p x = hms_h x * 3600000 + hms_m x * 60000 + dfs_s (hms_s x) * 1000 + dfs_sub_s (hms_s x)"
      using cr by (simp add: hms_to_duration_def dfs_to_duration_def dfs_precision_power p_def dfs_width_milli
          hms_in_conventional_range_def)
    ultimately have "t mod 86400000 = int h * 3600000 + int m * 60000 + int sc * 1000 + int ms" by (simp add: i)
    then show ?thesis using div_mult_mod_eq [of t 86400000] by (simp add: algebra_simps)
  qed
  show thesis by (rule that [OF s r sum])
qed

text \<open>The fields of the time stamp of a millisecond clock, read back from its text.\<close>

lemma format_T_fields:
  fixes t :: int
  shows "let s = format_T point 1000 t; h = nat_of_digits (take 2 s); m = nat_of_digits (take 2 (drop 3 s));
      sec = nat_of_digits (take 2 (drop 6 s)); ms = nat_of_digits (drop 9 s)
    in length s = 12 \<and> s ! 2 = CHR '':'' \<and> s ! 5 = CHR '':'' \<and> s ! 8 = point \<and>
       h < 24 \<and> m < 60 \<and> sec < 60 \<and> ms < 1000 \<and>
       t = ((t div 86400000 * 24 + int h) * 60 + int m) * 60000 + int sec * 1000 + int ms"
proof -
  obtain h m sc ms where s: "format_T point 1000 t = setw0 2 (show_nat h) @ '':'' @ setw0 2 (show_nat m) @ '':'' @ setw0 2 (show_nat sc) @ [point] @
      setw0 3 (show_nat ms)"
      and r: "h < 24" "m < 60" "sc < 60" "ms < 1000"
      and sum: "t = ((t div 86400000 * 24 + int h) * 60 + int m) * 60000 + int sc * 1000 + int ms"
    by (rule format_T_parts)
  have l: "length (setw0 2 (show_nat h)) = 2" "length (setw0 2 (show_nat m)) = 2" "length (setw0 2 (show_nat sc)) = 2"
    "length (setw0 3 (show_nat ms)) = 3"
    using r by (simp_all add: setw0_length)
  show ?thesis
    using r sum l unfolding s Let_def
    by (simp add: nth_append nat_of_digits_setw0 numeral_eq_Suc)
qed

section \<open>The text of a time point\<close>

lemma year_in_centuries:
  assumes "- 719528 \<le> z" and "z < 2932897"
  shows "0 \<le> year_int (ymd_year (from_days z))" and "year_int (ymd_year (from_days z)) < 10000"
    and "ymd_ok (from_days z)" and "to_days (from_days z) = z"
proof -
  have r: "min_day \<le> z" "z \<le> max_day" using assms by (simp_all add: min_day_def max_day_def)
  show "ymd_ok (from_days z)" "to_days (from_days z) = z" using to_days_from_days_range [OF r] by simp_all
  have y: "year_int (year_new 0) = 0" "year_int (year_new 10000) = 10000" by (simp_all add: year_int_new)
  then have ok: "year_ok (year_new 0)" "year_ok (year_new 10000)" by (simp_all add: year_ok_def)
  have "jan1 (year_new 0) = - 719528" "jan1 (year_new 10000) = 2932897"
    by (simp_all add: jan1_closed ok y march_first_def)
  then show "0 \<le> year_int (ymd_year (from_days z))" "year_int (ymd_year (from_days z)) < 10000"
    using day_before_year [OF r ok(1)] day_before_year [OF r ok(2)] assms y by auto
qed

text \<open>\<^verbatim>\<open>format("%F %T", t)\<close> from the year 0 to the year 9999: the numbers of the date and of the time.\<close>

lemma sys_time_text:
  fixes t :: int
  assumes t: "- 719528 * 86400000 \<le> t" "t < 2932897 * 86400000"
  defines "x \<equiv> from_days (t div 86400000)"
  obtains y mo d h m sc ms where
    "format_sys_time facet point 1000 ''%F %T'' t =
      Some (setw0 4 (show_nat y) @ CHR ''-'' # setw0 2 (show_nat mo) @ CHR ''-'' # setw0 2 (show_nat d) @ CHR '' '' #
        setw0 2 (show_nat h) @ CHR '':'' # setw0 2 (show_nat m) @ CHR '':'' # setw0 2 (show_nat sc) @ point # setw0 3 (show_nat ms))"
    and "int y = year_int (ymd_year x)" and "int mo = uint (month_m (ymd_month x))" and "int d = uint (day_d (ymd_day x))"
    and "y < 10000" and "mo < 100" and "d < 100" and "h < 24" and "m < 60" and "sc < 60" and "ms < 1000"
    and "t = ((t div 86400000 * 24 + int h) * 60 + int m) * 60000 + int sc * 1000 + int ms"
    and "ymd_ok x" and "to_days x = t div 86400000"
proof -
  have z: "- 719528 \<le> t div 86400000" "t div 86400000 < 2932897" using t by simp_all
  note c = year_in_centuries [OF z, folded x_def]
  have b: "uint (month_m (ymd_month x)) \<le> 12" "uint (day_d (ymd_day x)) \<le> 31"
    using c(3) month_length_bounds [of "uint (month_m (ymd_month x))" "ymd_year x"]
    by (auto simp: ymd_ok_iff month_ok_uint)
  define y mo d where "y = nat (year_int (ymd_year x))" and "mo = nat (uint (month_m (ymd_month x)))"
    and "d = nat (uint (day_d (ymd_day x)))"
  have n: "int y = year_int (ymd_year x)" "int mo = uint (month_m (ymd_month x))" "int d = uint (day_d (ymd_day x))"
    using c(1) by (simp_all add: y_def mo_def d_def del: nat_uint_eq)
  then have r: "y < 10000" "mo < 100" "d < 100" using c b by linarith+
  have day: "day_of \<lparr>rnum = 1, rden = 1000\<rparr> t = t div 86400000" using time_of_day_split(1) [of 1000 t] by simp
  obtain h m sc ms where T: "format_T point 1000 t = setw0 2 (show_nat h) @ '':'' @ setw0 2 (show_nat m) @ '':'' @ setw0 2 (show_nat sc) @ [point] @
      setw0 3 (show_nat ms)"
      and hr: "h < 24" "m < 60" "sc < 60" "ms < 1000"
      and sum: "t = ((t div 86400000 * 24 + int h) * 60 + int m) * 60000 + int sc * 1000 + int ms"
    by (rule format_T_parts)
  have "format_sys_time facet point 1000 ''%F %T'' t =
      Some (setw0 4 (show_nat y) @ ''-'' @ setw0 2 (show_nat mo) @ ''-'' @ setw0 2 (show_nat d) @ '' '' @ format_T point 1000 t)"
    using c by (simp add: format_sys_time_def format_FT fields_of_time_def fields_new_def day format_T_def y_def mo_def d_def
          year_of_def month_int_def day_int_def month_unsigned_def day_unsigned_def show_int_def flip: x_def)
  with T have "format_sys_time facet point 1000 ''%F %T'' t =
      Some (setw0 4 (show_nat y) @ CHR ''-'' # setw0 2 (show_nat mo) @ CHR ''-'' # setw0 2 (show_nat d) @ CHR '' '' #
        setw0 2 (show_nat h) @ CHR '':'' # setw0 2 (show_nat m) @ CHR '':'' # setw0 2 (show_nat sc) @ point # setw0 3 (show_nat ms))"
    by simp
  from that [OF this n r hr sum c(3,4)] show thesis .
qed

end
