(* ===== verification/Trace_Properties.thy ===== *)
theory Trace_Properties
  imports Loopback Date_Weekday Date_Format_Run
begin

text \<open>
  The properties of the trace log and of the calendar library behind its time stamps.
\<close>

section \<open>The trace log\<close>

text \<open>What a line of the trace looks like, written down character by character: the class in brackets, the time of
  day of a count of milliseconds since the epoch, and the message.\<close>

definition decimal :: "nat \<Rightarrow> char" where
  "decimal n = char_of (48 + n)"

definition clock_text :: "char \<Rightarrow> int \<Rightarrow> string" where
  "clock_text point now =
     (let n = nat (now mod 86400000) in
      [decimal (n div 36000000), decimal (n div 3600000 mod 10), CHR '':'',
       decimal (n div 600000 mod 6), decimal (n div 60000 mod 10), CHR '':'',
       decimal (n div 10000 mod 6), decimal (n div 1000 mod 10), point,
       decimal (n div 100 mod 10), decimal (n div 10 mod 10), decimal (n mod 10)])"

fun trace_line :: "char \<Rightarrow> trace_entry \<Rightarrow> string" where
  "trace_line point (now, class_name, msg, args) =
     ''(['' @ class_name @ ''] '' @ clock_text point now @ ''): '' @ msg @ concat args"

text \<open>Entries without line breaks and NULs.\<close>

definition plain_text :: "string \<Rightarrow> bool" where
  "plain_text t \<longleftrightarrow> LF \<notin> set t \<and> NUL \<notin> set t"

fun entry_plain :: "trace_entry \<Rightarrow> bool" where
  "entry_plain (now, class_name, msg, args) \<longleftrightarrow> plain_text class_name \<and> plain_text msg \<and> list_all plain_text args"

lemma decimal_digits:
  shows "decimal 0 = CHR ''0''" and "decimal (Suc 0) = CHR ''1''" and "decimal 2 = CHR ''2''" and "decimal 3 = CHR ''3''"
    and "decimal 4 = CHR ''4''" and "decimal 5 = CHR ''5''" and "decimal 6 = CHR ''6''" and "decimal 7 = CHR ''7''"
    and "decimal 8 = CHR ''8''" and "decimal 9 = CHR ''9''"
  by code_simp+

lemma decimal_plain:
  assumes "k < 10"
  shows "decimal k \<noteq> LF" and "decimal k \<noteq> NUL"
proof -
  have "of_char (decimal k) = 48 + k" using assms by (simp add: decimal_def)
  moreover have "of_char LF = (10 :: nat)" "of_char NUL = (0 :: nat)" by (simp_all add: LF_def NUL_def)
  ultimately show "decimal k \<noteq> LF" "decimal k \<noteq> NUL" by auto
qed

lemma setw0_decimal2: "n < 100 \<Longrightarrow> setw0 2 (show_nat n) = [decimal (n div 10), decimal (n mod 10)]"
  by (cases "n < 10")
    (simp_all add: setw0_def show_nat.simps [of n] show_nat.simps [of "n div 10"] digit_char_def decimal_digits flip: decimal_def)

lemma setw0_decimal3:
  assumes "n < 1000"
  shows "setw0 3 (show_nat n) = [decimal (n div 100), decimal (n div 10 mod 10), decimal (n mod 10)]"
proof (cases "n < 100")
  case True
  then have "length (show_nat n) \<le> 2"
    by (cases "n < 10") (simp_all add: show_nat.simps [of n] show_nat.simps [of "n div 10"])
  then have "3 - length (show_nat n) = Suc (2 - length (show_nat n))" by simp
  then have "setw0 3 (show_nat n) = CHR ''0'' # setw0 2 (show_nat n)" by (simp add: setw0_def)
  then show ?thesis using setw0_decimal2 [OF True] True by (simp add: decimal_digits)
next
  case False
  have dc: "digit_char k = decimal k" for k by (simp add: digit_char_def decimal_def)
  have "n div 10 div 10 = n div 100" by (simp add: div_mult2_eq [symmetric])
  then have "show_nat (n div 10) = show_nat (n div 100) @ [decimal (n div 10 mod 10)]"
    using False by (subst show_nat.simps) (simp add: dc)
  moreover have "show_nat (n div 100) = [decimal (n div 100)]"
    using assms by (subst show_nat.simps) (simp add: dc)
  moreover have "show_nat n = show_nat (n div 10) @ [decimal (n mod 10)]"
    using False by (subst show_nat.simps) (simp add: dc)
  ultimately show ?thesis by (simp add: setw0_def)
qed

lemma div_mod_swap: "0 < a \<Longrightarrow> (n :: nat) div a mod b = n mod (a * b) div a"
  by (simp add: mod_mult2_eq)

text \<open>The digits of a count of milliseconds, from its hours, minutes, seconds and the rest.\<close>

lemma clock_digits:
  fixes h m sc ms n :: nat
  assumes "m < 60" and "sc < 60" and "ms < 1000" and n: "n = ((h * 60 + m) * 60 + sc) * 1000 + ms"
  shows "n div 36000000 = h div 10" and "n div 3600000 mod 10 = h mod 10"
    and "n div 600000 mod 6 = m div 10" and "n div 60000 mod 10 = m mod 10"
    and "n div 10000 mod 6 = sc div 10" and "n div 1000 mod 10 = sc mod 10"
    and "n div 100 mod 10 = ms div 100" and "n div 10 mod 10 = ms div 10 mod 10" and "n mod 10 = ms mod 10"
proof -
  have d1: "n mod 1000 = ms" using assms(3) by (simp only: n mod_mult_self3 mod_less)
  have "n div 1000 = (h * 60 + m) * 60 + sc" using assms(3) by (simp add: n)
  note d = this d1
  have "n div 60000 = n div 1000 div 60" "n div 3600000 = n div 1000 div 60 div 60" by (simp_all add: div_mult2_eq [symmetric])
  then have e: "n div 60000 = h * 60 + m" "n div 3600000 = h" using d(1) assms(1,2) by simp_all
  have "n div 36000000 = n div 3600000 div 10" by (simp add: div_mult2_eq [symmetric])
  then show "n div 36000000 = h div 10" by (simp add: e)
  show "n div 3600000 mod 10 = h mod 10" by (simp add: e)
  have "n div 600000 = n div 60000 div 10" by (simp add: div_mult2_eq [symmetric])
  then have "n div 600000 = m div 10 + h * 6" unfolding e by (simp add: div_mult_self1 [of 10 m "h * 6", symmetric] ac_simps)
  then show "n div 600000 mod 6 = m div 10" using assms(1) by simp
  have "(h * 60 + m) mod 10 = m mod 10" using mod_mult_self1 [of m "h * 6" 10] by (simp add: ac_simps)
  then show "n div 60000 mod 10 = m mod 10" unfolding e .
  have "n div 10000 = n div 1000 div 10" by (simp add: div_mult2_eq [symmetric])
  then have "n div 10000 = sc div 10 + (h * 60 + m) * 6"
    unfolding d using div_mult_self1 [of 10 sc "(h * 60 + m) * 6"] by (simp add: algebra_simps)
  then show "n div 10000 mod 6 = sc div 10" using assms(2) by (simp only: mod_mult_self1) simp
  have "((h * 60 + m) * 60 + sc) mod 10 = sc mod 10"
    using mod_mult_self1 [of sc "(h * 60 + m) * 6" 10] by (simp add: algebra_simps)
  then show "n div 1000 mod 10 = sc mod 10" unfolding d .
  show "n div 100 mod 10 = ms div 100" using div_mod_swap [of 100 n 10] d(2) by simp
  have "n mod 100 = ms mod 100" using mod_mod_cancel [of 100 1000 n] d(2) by simp
  then show "n div 10 mod 10 = ms div 10 mod 10" using div_mod_swap [of 10 n 10] div_mod_swap [of 10 ms 10] by simp
  show "n mod 10 = ms mod 10" using mod_mod_cancel [of 10 1000 n] d(2) by simp
qed

lemma format_T_clock: "format_T point 1000 now = clock_text point now"
proof -
  obtain h m sc ms where s: "format_T point 1000 now = setw0 2 (show_nat h) @ '':'' @ setw0 2 (show_nat m) @ '':'' @
        setw0 2 (show_nat sc) @ [point] @ setw0 3 (show_nat ms)"
      and r: "h < 24" "m < 60" "sc < 60" "ms < 1000"
      and t: "now = ((now div 86400000 * 24 + int h) * 60 + int m) * 60000 + int sc * 1000 + int ms"
    by (rule format_T_parts)
  define q d where "q = now div 86400000" and "d = now mod 86400000"
  have "q * 86400000 + d = now" by (simp add: q_def d_def)
  moreover have "now = q * 86400000 + ((int h * 60 + int m) * 60000 + int sc * 1000 + int ms)"
    using t [folded q_def] by (simp add: algebra_simps)
  ultimately have "d = (int h * 60 + int m) * 60000 + int sc * 1000 + int ms" by simp
  then have n: "nat d = ((h * 60 + m) * 60 + sc) * 1000 + ms" by simp
  show ?thesis
    using r by (simp add: s clock_text_def Let_def setw0_decimal2 setw0_decimal3 clock_digits [OF r(2-4) n, unfolded d_def])
qed

lemma entry_text_line:
  assumes "entry_plain e" and "plain_text [point]"
  shows "entry_text point e = trace_line point e @ [LF]" and "LF \<notin> set (trace_line point e)"
proof -
  obtain now cls msg args where e: "e = (now, cls, msg, args)" by (cases e)
  have "nat (now mod 86400000) div 36000000 < 10" by (intro less_mult_imp_div_less) simp
  moreover have "k mod 6 < 10" for k :: nat using mod_less_divisor [of 6 k] by linarith
  ultimately have "plain_text (clock_text point now)"
    using assms(2) by (simp add: plain_text_def clock_text_def Let_def decimal_plain [THEN not_sym]) (simp add: LF_def NUL_def)
  moreover have "list_all plain_text args \<Longrightarrow> plain_text (concat args)" by (induction args) (auto simp: plain_text_def)
  ultimately have p: "plain_text (trace_line point e)"
    using assms(1) by (auto simp: e plain_text_def LF_def NUL_def)
  then show "LF \<notin> set (trace_line point e)" by (simp add: plain_text_def)
  have "c_str (trace_line point e @ [LF]) = trace_line point e @ [LF]"
    using p by (auto simp: c_str_def plain_text_def takeWhile_eq_all_conv LF_def NUL_def)
  then show "entry_text point e = trace_line point e @ [LF]"
    by (simp add: entry_text_def log_line_def e format_T_clock)
qed

text \<open>Property C40: once the trace is enabled on a file that can be opened, the file holds exactly the
  messages printed since, in the order of the calls, each as one line of the layout above: the class in brackets,
  the time of day to the millisecond, the message, and the line break at the end and nowhere else.  Class names
  and messages are free of line breaks and NULs.\<close>

theorem trace_complete:
  assumes "file_ok api contents" and "file_total api" and "os_file (outStream s) = None" and "fst (api_open api f w)"
    and "list_all entry_plain es" and "plain_text [point]"
  shows "\<exists>s' w'. enableTracing api f s w = (0, s', w') \<and>
    contents (snd (print_all api point es s' w')) f = concat (map (\<lambda>e. trace_line point e @ [LF]) es) \<and>
    list_all (\<lambda>e. LF \<notin> set (trace_line point e)) es"
proof -
  obtain r s' w' where e: "enableTracing api f s w = (r, s', w')" by (metis prod_cases3)
  have 1: "r = 0" "tracing_to f s'" "w' = snd (api_open api f w)"
    using enableTracing_fresh [OF assms(3,4)] e by simp_all
  have "contents w' f = []" using assms(1,4) by (simp add: 1 file_ok_def)
  moreover have "map (entry_text point) es = map (\<lambda>e. trace_line point e @ [LF]) es"
    and "list_all (\<lambda>e. LF \<notin> set (trace_line point e)) es"
    using assms(5) entry_text_line [OF _ assms(6)] by (auto simp: list_all_iff)
  ultimately show ?thesis using e 1(1) print_all_tracing [OF assms(1,2) 1(2), of point es w'] by (simp del: map_eq_conv)
qed

theorem trace_complete_witness:
  "\<exists>s' w'. enableTracing fs_api ''trace.log'' log_init (\<lambda>f. ''old'') = (0, s', w') \<and>
    snd (print_all fs_api (CHR ''.'') [(45296789, ''Ctl'', ''x='', [''1''])] s' w') ''trace.log'' =
      ''([Ctl] 12:34:56.789): x=1'' @ [LF]"
  using trace_complete [OF fs_api_ok, of log_init "''trace.log''" "\<lambda>f. ''old''"
      "[(45296789, ''Ctl'', ''x='', [''1''])]" "CHR ''.''"]
  by (simp add: log_init_def ofstream_new_def fs_api_def plain_text_def LF_def NUL_def clock_text_def decimal_digits)

text \<open>Enabling the trace a second time reports success, opens nothing, and ends the
  trace: nothing printed afterwards reaches any file.\<close>

theorem trace_enabled_twice_stops:
  assumes "os_file (outStream s) = None" and "fst (api_open api f w)"
    and "enableTracing api f s w = (r1, s1, w1)" and "enableTracing api g s1 w2 = (r2, s2, w3)"
  shows "r1 = 0 \<and> r2 = 0 \<and> w3 = w2 \<and> print_all api point es s2 w4 = (s2, w4)"
proof -
  have 1: "r1 = 0" "tracing_to f s1" using enableTracing_fresh [OF assms(1,2)] assms(3) by simp_all
  have 2: "r2 = 0" "tracing_dead s2" "w3 = w2" using enableTracing_again [OF 1(2), of api g w2] assms(4) by simp_all
  from print_dead [OF 2(2)] 1 2 show ?thesis by simp
qed

theorem trace_enabled_twice_stops_witness:
  "\<exists>s2 w2. enableTracing fs_api ''b'' (fst (snd (enableTracing fs_api ''a'' log_init (\<lambda>f. [])))) (\<lambda>f. []) = (0, s2, w2) \<and>
    print_all fs_api (CHR ''.'') [(0, ''C'', ''m'', [])] s2 w2 = (s2, w2)"
proof -
  obtain r1 s1 w1 where 1: "enableTracing fs_api ''a'' log_init (\<lambda>f. []) = (r1, s1, w1)" by (metis prod_cases3)
  obtain r2 s2 w2 where 2: "enableTracing fs_api ''b'' s1 (\<lambda>f. []) = (r2, s2, w2)" by (metis prod_cases3)
  have "os_file (outStream log_init) = None" "fst (api_open fs_api ''a'' (\<lambda>f. []))"
    by (simp_all add: log_init_def ofstream_new_def fs_api_def)
  from trace_enabled_twice_stops [OF this 1 2] have
    "r2 = 0" "print_all fs_api (CHR ''.'') [(0, ''C'', ''m'', [])] s2 w2 = (s2, w2)" by blast+
  then show ?thesis using 1 2 by auto
qed

section \<open>The time of day\<close>

text \<open>Property C27: rounding a duration down, up or to nearest over counts of fixed width: a count that comes out
  without an overflow is the quotient rounded that way, ties going to the even count; and none of the three overflows
  when the count enlarged by one unit of the result fits the wider type and the result fits its own.\<close>

theorem duration_rounding:
  assumes "ratio_ok (dt_period to)" and "ratio_ok (dt_period from)"
    and "n = c * (rnum (dt_period from) * rden (dt_period to))" and "m = rnum (dt_period to) * rden (dt_period from)"
  shows "(floor_checked to from c = Some t \<longrightarrow> t = n div m) \<and>
    (ceil_checked to from c = Some t \<longrightarrow> t = - ((- n) div m)) \<and>
    (round_checked to from c = Some t \<longrightarrow> 2 * \<bar>n - t * m\<bar> \<le> m \<and> (2 * \<bar>n - t * m\<bar> = m \<longrightarrow> even t)) \<and>
    (rounding_fits to from c \<longrightarrow>
       floor_checked to from c \<noteq> None \<and> ceil_checked to from c \<noteq> None \<and> round_checked to from c \<noteq> None)"
proof (intro conjI impI)
  note ok = assms(1,2)
  show "floor_checked to from c = Some t \<Longrightarrow> t = n div m"
    using floor_checked_exact [OF ok] dur_floor_div [OF ok, of c] by (simp add: assms(3,4))
  show "ceil_checked to from c = Some t \<Longrightarrow> t = - ((- n) div m)"
    using ceil_checked_exact [OF ok] dur_ceil_div [OF ok, of c] by (simp add: assms(3,4))
  show "round_checked to from c = Some t \<Longrightarrow> 2 * \<bar>n - t * m\<bar> \<le> m"
    "round_checked to from c = Some t \<Longrightarrow> 2 * \<bar>n - t * m\<bar> = m \<Longrightarrow> even t"
    using round_checked_exact [OF ok] dur_round_nearest [OF ok, of c] by (simp_all add: assms(3,4))
  assume f: "rounding_fits to from c"
  have d: "0 < cast_den to from" using cast_ratio [OF ok] by blast
  show "floor_checked to from c \<noteq> None" "ceil_checked to from c \<noteq> None" "round_checked to from c \<noteq> None"
    using floor_checked_defined [OF f d] round_checked_defined [OF ok f] by blast+
qed

theorem duration_rounding_witness:
  "\<exists>t. floor_checked \<lparr>dt_period = seconds_period, dt_bits = 64\<rparr> \<lparr>dt_period = milli_period, dt_bits = 64\<rparr> (- 1500) = Some t \<and>
    t = - 2"
proof -
  let ?to = "\<lparr>dt_period = seconds_period, dt_bits = 64\<rparr>" and ?from = "\<lparr>dt_period = milli_period, dt_bits = 64\<rparr>"
  have ok: "ratio_ok (dt_period ?to)" "ratio_ok (dt_period ?from)"
    by (simp_all add: ratio_ok_def seconds_period_def milli_period_def)
  have f: "rounding_fits ?to ?from (- 1500)" by code_simp
  note r = duration_rounding [OF ok refl refl, of "- 1500"]
  obtain t where "floor_checked ?to ?from (- 1500) = Some t" using r f by blast
  with r [of t] show ?thesis by (simp add: seconds_period_def milli_period_def)
qed

section \<open>The calendar\<close>

definition leap_day :: year_month_day where
  "leap_day = year_month_day_new (year_new 2024) (month_new 2) (day_new 29)"

lemma leap_day_parts:
  "year_int (ymd_year leap_day) = 2024" "uint (month_m (ymd_month leap_day)) = 2" "uint (day_d (ymd_day leap_day)) = 29"
  by (simp_all add: leap_day_def year_month_day_new_def month_new_def day_new_def year_int_new)

lemma leap_day_ok: "ymd_ok leap_day"
  using leap_day_parts is_leap_dvd [of "ymd_year leap_day"]
  by (simp add: ymd_ok_iff month_ok_uint year_ok_def month_length_def)

text \<open>Property C24: converting a valid date to a day count and back gives the date, for every year the
  sixteen-bit field holds, and every day count of the calendar's range converts to a valid date and back
  to itself; the unsigned arithmetic never wraps in between.\<close>

theorem date_round_trip:
  "(ymd_ok x \<longrightarrow> from_days (to_days x) = x) \<and>
   (- 12687428 \<le> z \<and> z \<le> 11248737 \<longrightarrow> ymd_ok (from_days z) \<and> to_days (from_days z) = z)"
  using from_days_to_days_ok [of x] to_days_from_days_range [of z] by (simp add: min_day_def max_day_def)

theorem date_round_trip_witness:
  "from_days (to_days leap_day) = leap_day \<and> ymd_ok (from_days 0) \<and> to_days (from_days 0) = 0"
  using date_round_trip [of leap_day 0] leap_day_ok by simp

text \<open>Property C25: the day count of the date after a date, by the rules of the Gregorian calendar, is
  one more.\<close>

theorem next_date_count:
  assumes "ymd_ok x" and "year_int (ymd_year x) < 32767"
  shows "ymd_ok (next_date x) \<and> to_days (next_date x) = to_days x + 1"
  by (rule to_days_next [OF assms])

theorem next_date_count_witness:
  "to_days (next_date leap_day) = to_days leap_day + 1 \<and> uint (month_m (ymd_month (next_date leap_day))) = 3"
proof -
  have "uint (month_m (ymd_month (next_date leap_day))) = 3"
    using leap_day_parts is_leap_dvd [of "ymd_year leap_day"]
    by (simp add: next_date_def Let_def month_length_def month_new_def)
  then show ?thesis using next_date_count [OF leap_day_ok] leap_day_parts by simp
qed

text \<open>The order of dates is the order of their day counts.\<close>

theorem date_order:
  assumes "ymd_ok x" and "ymd_ok y"
  shows "ymd_less x y \<longleftrightarrow> to_days x < to_days y"
  by (rule ymd_less_iff_to_days [OF assms])

theorem date_order_witness: "ymd_less leap_day (next_date leap_day)"
  using date_order [OF leap_day_ok, of "next_date leap_day"] to_days_next [OF leap_day_ok] leap_day_parts by simp

text \<open>The weekday of a day count is the count plus four modulo seven, for every value of
  its 32-bit type, and it advances with the count.\<close>

theorem weekday_of_count:
  assumes "- (2 ^ 31) \<le> z" and "z < 2 ^ 31" and "- (2 ^ 31) \<le> z + n" and "z + n < 2 ^ 31"
  shows "uint (weekday_wd (weekday_of_days z)) = (z + 4) mod 7 \<and>
    weekday_of_days (z + n) = weekday_plus (weekday_of_days z) n"
  using weekday_from_days_mod [OF assms(1,2)] weekday_of_days_plus [OF assms] by (simp add: weekday_of_days_def)

theorem weekday_of_count_witness: "weekday_of_days (0 + 7) = weekday_plus (weekday_of_days 0) 7 \<and>
    uint (weekday_wd (weekday_of_days 0)) = 4"
  using weekday_of_count [of 0 7] by simp

text \<open>Property C26: a valid date given by a weekday and its number in a month falls on that weekday in that
  month, converts back to the same weekday and number, and every day is reached.\<close>

theorem weekday_date_round_trip:
  assumes "ymw_ok x" and "min_day \<le> z" and "z \<le> max_day"
  shows "weekday_of_days (ymw_to_days x) = ymw_weekday x \<and>
    ymd_year (from_days (ymw_to_days x)) = ymw_year x \<and> ymd_month (from_days (ymw_to_days x)) = ymw_month x \<and>
    ymw_weekday (ymw_from_days (ymw_to_days x)) = ymw_weekday x \<and> ymw_index (ymw_from_days (ymw_to_days x)) = ymw_index x \<and>
    ymw_to_days (ymw_from_days z) = z"
  using ymw_round_trip [OF assms(1)] ymw_to_days_from_days [OF assms(2,3)]
  by (simp add: nth_of_def year_month_day_new_def)

definition second_tuesday :: year_month_weekday where
  "second_tuesday = year_month_weekday_new (year_new 2024) (month_new 1) (weekday_indexed_new (weekday_new 2) 2)"

lemma second_tuesday_ok: "ymw_ok second_tuesday"
  using wi_round_trip [of "weekday_new 2" 2]
  by (simp add: ymw_ok_def second_tuesday_def year_month_weekday_new_def ymw_weekday_def ymw_index_def
      weekday_ok_uint weekday_new_def month_ok_uint month_new_def year_ok_def year_int_new)

theorem weekday_date_round_trip_witness:
  "weekday_of_days (ymw_to_days second_tuesday) = ymw_weekday second_tuesday \<and> ymw_to_days (ymw_from_days 0) = 0"
  using weekday_date_round_trip [OF second_tuesday_ok, of 0] by (simp add: min_day_def max_day_def)

text \<open>Months are counted across years: adding the difference of two months leads from one to
  the other, adding \<open>n\<close> months moves the count by \<open>n\<close>, and the order is that of the counts.\<close>

theorem year_month_arithmetic:
  assumes "ym_ok x" and "ym_ok y" and "- 32768 * 12 \<le> ym_index x + n" and "ym_index x + n < 32768 * 12"
  shows "ym_plus_months y (ym_diff x y) = x \<and> ym_index (ym_plus_months x n) = ym_index x + n \<and>
    (ym_less x y \<longleftrightarrow> ym_index x < ym_index y)"
  using ym_plus_diff [OF assms(1,2)] ym_plus_months_index [OF assms(3,4)] ym_less_index [of x y] assms(1,2)
  by (simp add: ym_ok_def)

theorem year_month_arithmetic_witness:
  "ym_index (ym_plus_months (year_month_new (year_new 2023) (month_new 11)) 3) = 2024 * 12 + 1"
  using year_month_arithmetic [of "year_month_new (year_new 2023) (month_new 11)" "year_month_new (year_new 2023) (month_new 11)" 3]
  by (simp add: ym_ok_def year_month_new_def month_ok_uint month_new_def year_ok_def year_int_new ym_index_def)

end
