(* ===== verification/Format_Properties.thy ===== *)
theory Format_Properties
  imports Date_Format_Run
begin

text \<open>
  The properties of the format strings of the calendar library: the time stamp that the trace log prints,
  the text of a time point, week numbers, and the directives that need a time of day.
\<close>

section \<open>Time stamps\<close>

text \<open>The time stamp \<^verbatim>\<open>format("%T", now)\<close> of a millisecond clock never throws; it is twelve
  characters, \<^verbatim>\<open>HH:MM:SS.mmm\<close>, whose fields are below 24, 60, 60 and 1000 and add up, with the days
  before, to the time it was printed from.\<close>

theorem time_stamp_round_trip:
  fixes t :: int
  shows "\<exists>s. format_sys_time facet point 1000 ''%T'' t = Some s \<and>
    (let h = nat_of_digits (take 2 s); m = nat_of_digits (take 2 (drop 3 s));
         sec = nat_of_digits (take 2 (drop 6 s)); ms = nat_of_digits (drop 9 s)
     in length s = 12 \<and> s ! 2 = CHR '':'' \<and> s ! 5 = CHR '':'' \<and> s ! 8 = point \<and>
        h < 24 \<and> m < 60 \<and> sec < 60 \<and> ms < 1000 \<and>
        t = ((t div 86400000 * 24 + int h) * 60 + int m) * 60000 + int sec * 1000 + int ms)"
proof -
  have "format_sys_time facet point 1000 ''%T'' t = Some (format_T point 1000 t)"
    by (simp add: format_sys_time_def format_T_stream fields_of_time_def fields_new_def format_T_def)
  then show ?thesis using format_T_fields [of point t] by (simp add: Let_def)
qed

section \<open>Week numbers\<close>

text \<open>Property C31: \<^verbatim>\<open>format("%G-W%V-%u", x)\<close> prints the week date of ISO 8601: the year is the year of the
  Thursday of the week of the date, the week is counted from the first week with a Thursday in that
  year and is at most 53, the weekday counts from Monday.\<close>

theorem iso_week_date:
  assumes "ymd_ok x" and "- 12686622 \<le> to_days x" and "to_days x \<le> 11248734"
  shows "let th = to_days x - (to_days x + 3) mod 7 + 3; g = ymd_year (from_days th);
      w = (th - to_days (first_of g January)) div 7 + 1
    in format_ymd facet point ''%G-W%V-%u'' x =
        Some (year_print g @ ''-W'' @ lead0 w @ ''-'' @ show_int ((to_days x + 3) mod 7 + 1)) \<and>
      1 \<le> w \<and> w \<le> 53"
proof -
  have r: "min_day + 806 \<le> to_days x" "to_days x \<le> max_day - 3"
    using assms(2,3) by (simp_all add: min_day_def max_day_def)
  note i = iso_week_spec [OF r]
  have "fd_wd (fields_of_ymd x) = weekday_new 8" "fd_ymd (fields_of_ymd x) = x"
    by (simp_all add: fields_of_ymd_def fields_new_def)
  then have f: "format_ymd facet point ''%G-W%V-%u'' x = Some (year_print (iso_year (to_days x)) @ ''-W'' @
      lead0 (iso_week (to_days x)) @ ''-'' @ show_int ((to_days x + 3) mod 7 + 1))"
    using format_GVu [of "fields_of_ymd x" "plain_env facet point 1"] assms(1) by (simp add: format_ymd_def)
  define n where "n = week_thursday (to_days x) - jan1 (ymd_year (from_days (week_thursday (to_days x))))"
  have n: "0 \<le> n" "n < 366" using i(3,4) by (simp_all add: n_def)
  then have "1 \<le> n div 7 + 1" "n div 7 + 1 \<le> 53" by linarith+
  then show ?thesis
    unfolding f i(1,2) Let_def week_thursday_def [symmetric] jan1_def [symmetric] n_def [symmetric] by simp
qed

theorem iso_week_date_witness:
  "format_ymd (\<lambda>f t. []) (CHR ''.'') ''%G-W%V-%u'' (from_days 0) =
    Some (year_print (ymd_year (from_days 0)) @ ''-W'' @
      lead0 ((0 - to_days (first_of (ymd_year (from_days 0)) January)) div 7 + 1) @ ''-'' @ show_int 4)"
proof -
  have "ymd_ok (from_days 0)" "to_days (from_days 0) = 0"
    using to_days_from_days_range [of 0] by (simp_all add: min_day_def max_day_def)
  then show ?thesis using iso_week_date [of "from_days 0" "\<lambda>f t. []" "CHR ''.''"] by (simp add: Let_def)
qed

text \<open>\<^verbatim>\<open>%U\<close> and \<^verbatim>\<open>%W\<close> print the week numbers of \<^verbatim>\<open>strftime\<close>: from the day of the year \<open>yd\<close> and
  the weekday \<open>wd\<close>, counted from 0, the numbers \<open>(yd + 7 - wd) div 7\<close> and
  \<open>(yd + 7 - (wd + 6) mod 7) div 7\<close>.\<close>

theorem week_numbers:
  assumes "ymd_ok x"
  shows "let yd = to_days x - to_days (first_of (ymd_year x) January); wd = (to_days x + 4) mod 7
    in format_ymd facet point ''%U %W'' x =
      Some (lead0 ((yd + 7 - wd) div 7) @ '' '' @ lead0 ((yd + 7 - (wd + 6) mod 7) div 7))"
proof -
  have fd: "fd_ymd (fields_of_ymd x) = x" by (simp add: fields_of_ymd_def fields_new_def)
  have w: "weekday_ok Sunday" "uint (weekday_wd Sunday) = 0" "weekday_ok Monday" "uint (weekday_wd Monday) = 1"
    by (simp_all add: Sunday_def Monday_def weekday_new_def weekday_ok_uint)
  have "((to_days x + 4) mod 7 + 6) mod 7 = (to_days x + 4 + 6) mod 7" by (rule mod_add_left_eq)
  also have "to_days x + 4 + 6 = to_days x + 4 - 1 + 7" by simp
  also have "(to_days x + 4 - 1 + 7) mod 7 = (to_days x + 4 - 1) mod 7" by (rule mod_add_self2)
  finally have m: "((to_days x + 4) mod 7 + 6) mod 7 = (to_days x + 4 - 1) mod 7" .
  show ?thesis
    using format_UW [of "fields_of_ymd x" "plain_env facet point 1"] assms
      week_of_year_spec [of "fields_of_ymd x" Sunday] week_of_year_spec [of "fields_of_ymd x" Monday] w
    unfolding Let_def m by (simp add: fd format_ymd_def year_day_def)
qed

theorem week_numbers_witness:
  "format_ymd (\<lambda>f t. []) (CHR ''.'') ''%U %W'' (from_days 0) =
    (let yd = to_days (from_days 0) - to_days (first_of (ymd_year (from_days 0)) January); wd = (to_days (from_days 0) + 4) mod 7
     in Some (lead0 ((yd + 7 - wd) div 7) @ '' '' @ lead0 ((yd + 7 - (wd + 6) mod 7) div 7)))"
proof -
  have "ymd_ok (from_days 0)" using to_days_from_days_range [of 0] by (simp add: min_day_def max_day_def)
  then show ?thesis using week_numbers [of "from_days 0" "\<lambda>f t. []" "CHR ''.''"] by (simp add: Let_def)
qed

section \<open>Errors\<close>

text \<open>Formatting a value without a time of day with a directive of the clock throws, wherever
  the directive stands after plain text and whatever follows it.\<close>

theorem format_needs_time:
  assumes "c \<in> set ''HIMpQqrRSTX''" and "\<not> fd_has_tod fds" and "CHR ''%'' \<notin> set t"
  shows "format_fields e (t @ CHR ''%'' # c # f) fds = None"
  by (rule format_without_time [OF assms])

theorem format_needs_time_witness:
  "format_fields (plain_env (\<lambda>f t. []) (CHR ''.'') 1) (''at '' @ CHR ''%'' # CHR ''H'' # '' h'') (fields_of_year (year_new 2024)) = None"
  by (rule format_needs_time) (simp_all add: fields_of_year_def fields_new_def)

end
