(* ===== verification/Date_Parse.thy ===== *)
theory Date_Parse
  imports Date_Format
begin

text \<open>
  The input primitives of \<^verbatim>\<open>debug_print/date.h\<close>: reading digits, signed numbers, decimal fractions and
  literal text from a stream, and \<^verbatim>\<open>checked_set\<close>.  A stream is the text still to be read with its failure and
  end bits; an operation on a stream with a bit set fails, as the sentry of \<^verbatim>\<open>std::istream\<close> makes it.
  \<^verbatim>\<open>unsigned\<close> and \<^verbatim>\<open>unsigned long long\<close> are words.
\<close>

section \<open>Streams\<close>

record istream =
  is_buf :: string
  is_fail :: bool
  is_eof :: bool

definition is_good :: "istream \<Rightarrow> bool" where
  "is_good i \<longleftrightarrow> \<not> is_fail i \<and> \<not> is_eof i"

definition istream_new :: "string \<Rightarrow> istream" where
  "istream_new s = \<lparr>is_buf = s, is_fail = False, is_eof = False\<rparr>"

definition set_fail :: "istream \<Rightarrow> istream" where
  "set_fail i = i\<lparr>is_fail := True\<rparr>"

definition is_peek :: "istream \<Rightarrow> char option \<times> istream" where
  "is_peek i =
     (if \<not> is_good i then (None, set_fail i)
      else case is_buf i of [] \<Rightarrow> (None, i\<lparr>is_eof := True\<rparr>) | c # _ \<Rightarrow> (Some c, i))"

definition is_get :: "istream \<Rightarrow> istream" where
  "is_get i =
     (if \<not> is_good i then set_fail i
      else case is_buf i of [] \<Rightarrow> set_fail (i\<lparr>is_eof := True\<rparr>) | _ # cs \<Rightarrow> i\<lparr>is_buf := cs\<rparr>)"

definition is_digit :: "char \<Rightarrow> bool" where
  "is_digit c \<longleftrightarrow> 48 \<le> (of_char c :: nat) \<and> (of_char c :: nat) \<le> 57"

definition is_space :: "char \<Rightarrow> bool" where
  "is_space c \<longleftrightarrow> c \<in> set [CHR '' '', CHR 0x09, CHR 0x0A, CHR 0x0B, CHR 0x0C, CHR 0x0D]"

text \<open>The manipulator \<^verbatim>\<open>std::ws\<close>.\<close>

definition is_ws :: "istream \<Rightarrow> istream" where
  "is_ws i = (let r = dropWhile is_space (is_buf i) in i\<lparr>is_buf := r, is_eof := is_eof i \<or> r = []\<rparr>)"

text \<open>A character of the format has to follow; the flag is the result.\<close>

definition read_char :: "char \<Rightarrow> istream \<Rightarrow> bool \<times> istream" where
  "read_char c i =
     (case is_peek i of
        (None, i1) \<Rightarrow> (False, set_fail i1)
      | (Some a, i1) \<Rightarrow> if a \<noteq> c then (False, set_fail (is_get i1)) else (True, is_get i1))"

section \<open>Numbers\<close>

text \<open>The loop of \<^verbatim>\<open>read_unsigned\<close>: value, number of digits, whether it met the end of the text, rest.\<close>

fun read_digits :: "u32 \<Rightarrow> u32 \<Rightarrow> u32 \<Rightarrow> string \<Rightarrow> u32 \<times> u32 \<times> bool \<times> string" where
  "read_digits M x count [] = (x, count, True, [])"
| "read_digits M x count (c # cs) =
     (if \<not> is_digit c then (x, count, False, c # cs)
      else
        (let count = count + 1; x = 10 * x + of_nat (digit_val c)
         in if count = M then (x, count, False, cs) else read_digits M x count cs))"

definition read_unsigned :: "u32 \<Rightarrow> u32 \<Rightarrow> istream \<Rightarrow> u32 \<times> istream" where
  "read_unsigned m M i =
     (if \<not> is_good i then (0, set_fail i)
      else
        (case read_digits M 0 0 (is_buf i) of (x, count, at_end, r) \<Rightarrow>
           (let i' = i\<lparr>is_buf := r, is_eof := at_end\<rparr> in (x, if count < m then set_fail i' else i'))))"

definition read_signed :: "u32 \<Rightarrow> u32 \<Rightarrow> istream \<Rightarrow> int \<times> istream" where
  "read_signed m M i =
     (case is_peek i of
        (None, i1) \<Rightarrow> (0, if 0 < m then set_fail i1 else i1)
      | (Some c, i1) \<Rightarrow>
          if is_digit c \<or> c = CHR ''-'' \<or> c = CHR ''+''
          then (case read_unsigned (max m 1) M (if c = CHR ''-'' \<or> c = CHR ''+'' then is_get i1 else i1) of (u, i2) \<Rightarrow>
                  if \<not> is_fail i2 then (if c = CHR ''-'' then - sint u else sint u, i2)
                  else (0, if 0 < m then set_fail i2 else i2))
          else (0, if 0 < m then set_fail i1 else i1))"

text \<open>\<^verbatim>\<open>read_long_double\<close>: the digits before and after the decimal point and how many there are after it.  The
  \<^verbatim>\<open>long double\<close> made of them is not formed here: its only use is to be rounded to a duration.\<close>

record decimal =
  dec_i :: "64 word"
  dec_f :: "64 word"
  dec_fcount :: u32

definition decimal_zero :: decimal where
  "decimal_zero = \<lparr>dec_i = 0, dec_f = 0, dec_fcount = 0\<rparr>"

fun read_decimal :: "char \<Rightarrow> u32 \<Rightarrow> bool \<Rightarrow> decimal \<Rightarrow> u32 \<Rightarrow> string \<Rightarrow> decimal \<times> u32 \<times> bool \<times> string" where
  "read_decimal point M frac x count [] = (x, count, True, [])"
| "read_decimal point M frac x count (c # cs) =
     (if c = point \<and> \<not> frac
      then (let count = count + 1
            in if count = M then (x, count, False, cs) else read_decimal point M True x count cs)
      else if \<not> is_digit c then (x, count, False, c # cs)
      else
        (let x = (if \<not> frac then x\<lparr>dec_i := 10 * dec_i x + of_nat (digit_val c)\<rparr>
                  else x\<lparr>dec_f := 10 * dec_f x + of_nat (digit_val c), dec_fcount := dec_fcount x + 1\<rparr>);
             count = count + 1
         in if count = M then (x, count, False, cs) else read_decimal point M frac x count cs))"

definition read_long_double :: "char \<Rightarrow> u32 \<Rightarrow> u32 \<Rightarrow> istream \<Rightarrow> decimal \<times> istream" where
  "read_long_double point m M i =
     (if \<not> is_good i then (decimal_zero, set_fail i)
      else
        (case read_decimal point M False decimal_zero 0 (is_buf i) of (x, count, at_end, r) \<Rightarrow>
           (let i' = i\<lparr>is_buf := r, is_eof := at_end\<rparr>
            in if count < m then (decimal_zero, set_fail i') else (x, i'))))"

section \<open>\<^verbatim>\<open>read\<close>\<close>

text \<open>The arguments of the variadic function, and the values stored through its references; a list
  that is too short leaves the remaining variables as they were.\<close>

datatype read_arg = RChar char | RSigned u32 u32 | RUnsigned u32 u32 | RInt int | RLong_double u32 u32

datatype read_val = VInt int | VDec decimal

definition read_literal :: "char \<Rightarrow> istream \<Rightarrow> istream" where
  "read_literal a i =
     (if a = NUL then i
      else case is_peek i of
        (None, i1) \<Rightarrow> set_fail (i1\<lparr>is_eof := True\<rparr>)
      | (Some c, i1) \<Rightarrow> if c \<noteq> a then set_fail i1 else is_get i1)"

fun read_number :: "string \<Rightarrow> istream \<Rightarrow> istream" where
  "read_number [] i = i"
| "read_number (p # ps) i = (if is_good i then read_number ps (read_literal p i) else i)"

fun read_args :: "char \<Rightarrow> read_arg list \<Rightarrow> istream \<Rightarrow> read_val list \<times> istream" where
  "read_args point [] i = ([], i)"
| "read_args point (RChar a # as) i =
     (let i1 = read_literal a i in if a \<noteq> NUL \<and> is_fail i1 then ([], i1) else read_args point as i1)"
| "read_args point (RSigned m M # as) i =
     (case read_signed m M i of (x, i1) \<Rightarrow>
        if is_fail i1 then ([], i1) else (case read_args point as i1 of (vs, i2) \<Rightarrow> (VInt x # vs, i2)))"
| "read_args point (RUnsigned m M # as) i =
     (case read_unsigned m M i of (x, i1) \<Rightarrow>
        if is_fail i1 then ([], i1) else (case read_args point as i1 of (vs, i2) \<Rightarrow> (VInt (sint x) # vs, i2)))"
| "read_args point (RInt a # as) i =
     (let i1 = (if a \<noteq> - 1 then read_number (show_nat (unat (of_int a :: u32))) i else i)
      in if is_good i1 then read_args point as i1 else ([], i1))"
| "read_args point (RLong_double m M # as) i =
     (case read_long_double point m M i of (x, i1) \<Rightarrow>
        if is_fail i1 then ([], i1) else (case read_args point as i1 of (vs, i2) \<Rightarrow> (VDec x # vs, i2)))"

definition val_int :: "read_val list \<Rightarrow> nat \<Rightarrow> int \<Rightarrow> int" where
  "val_int vs k x = (if k < length vs then case vs ! k of VInt v \<Rightarrow> v | VDec _ \<Rightarrow> x else x)"

definition val_dec :: "read_val list \<Rightarrow> nat \<Rightarrow> decimal" where
  "val_dec vs k = (if k < length vs then case vs ! k of VDec v \<Rightarrow> v | VInt _ \<Rightarrow> decimal_zero else decimal_zero)"

section \<open>Numbers that were printed\<close>

lemma is_digit_digit_char [simp]: "d < 10 \<Longrightarrow> is_digit (digit_char d)"
  by (simp add: is_digit_def digit_char_def)

end
