(* ===== verification/Date_From_Stream.thy ===== *)
theory Date_From_Stream
  imports Date_Parse "HOL-Library.Monad_Syntax"
begin

text \<open>
  \<^verbatim>\<open>from_stream\<close> of \<^verbatim>\<open>debug_print/date.h\<close>: the interpreter of format strings for input, the inverse of
  \<^verbatim>\<open>to_stream\<close>.  The loop collects numbers and names in the variables \<^verbatim>\<open>Y\<close>, \<^verbatim>\<open>m\<close>, \<^verbatim>\<open>d\<close>, \<^verbatim>\<open>H\<close> and so on; the second
  half of the function makes a date and a time of them, or rejects them as inconsistent
  (\<^verbatim>\<open>goto broken\<close>, \<^const>\<open>None\<close>).

  The facet \<^verbatim>\<open>std::time_get\<close> is the parameter \<open>pe_get\<close>: from a format, the text and a \<^verbatim>\<open>std::tm\<close>, the failure
  and the end bit, the rest of the text and the new \<^verbatim>\<open>std::tm\<close>.  The arithmetic of \<^verbatim>\<open>long double\<close> is the
  parameter \<open>pe_round\<close>, the count to which \<^verbatim>\<open>round_i<Duration>\<close> takes a number of seconds given by its digits.
  \<^verbatim>\<open>int\<close> is unbounded here: no number of at most nine digits leads out of its range.
\<close>

section \<open>The state\<close>

type_synonym time_get = "string \<Rightarrow> string \<Rightarrow> tm \<Rightarrow> (bool \<times> bool) \<times> string \<times> tm"

record parse_env =
  pe_get :: time_get
  pe_point :: char
  pe_den :: int
  pe_round :: "decimal \<Rightarrow> int"

text \<open>What is relied on of the floating-point arithmetic: a number of seconds below a hundred, given by at most
  nine decimals, that is a whole count of the period is rounded to that count.\<close>

definition rounds_exactly :: "parse_env \<Rightarrow> bool" where
  "rounds_exactly e \<longleftrightarrow>
     (\<forall>i f k n. i < 100 \<and> k \<le> 9 \<and> f < 10 ^ k \<and> (int i * 10 ^ k + int f) * pe_den e = n * 10 ^ k \<longrightarrow>
        pe_round e \<lparr>dec_i = of_nat i, dec_f = of_nat f, dec_fcount = of_nat k\<rparr> = n)"

definition not_a_year :: int where "not_a_year = - 32768"
definition not_a_2digit_year :: int where "not_a_2digit_year = 100"
definition not_a_century :: int where "not_a_century = not_a_year sdiv 100"
definition not_a_month :: int where "not_a_month = 0"
definition not_a_day :: int where "not_a_day = 0"
definition not_a_hour :: int where "not_a_hour = - (2 ^ 31)"
definition not_a_hour_12_value :: int where "not_a_hour_12_value = 0"
definition not_a_minute :: int where "not_a_minute = not_a_hour"
definition not_a_second :: int where "not_a_second = - (2 ^ 63)"
definition not_a_doy :: int where "not_a_doy = - 1"
definition not_a_weekday :: int where "not_a_weekday = 8"
definition not_a_week_num :: int where "not_a_week_num = 100"
definition not_a_ampm :: int where "not_a_ampm = - 1"
definition not_a_offset :: int where "not_a_offset = - (2 ^ 63)"

record parse_state =
  ps_is :: istream
  ps_tm :: tm
  ps_cmd :: "string option"    \<comment> \<open>the format from the pending \<^verbatim>\<open>%\<close>\<close>
  ps_mod :: char
  ps_width :: int
  ps_Y :: int
  ps_y :: int
  ps_g :: int
  ps_G :: int
  ps_C :: int
  ps_m :: int
  ps_d :: int
  ps_j :: int
  ps_wd :: int
  ps_H :: int
  ps_I :: int
  ps_p :: int
  ps_M :: int
  ps_s :: int
  ps_U :: int
  ps_V :: int
  ps_W :: int
  ps_abbrev :: string
  ps_offset :: int

definition from_stream_begin :: "istream \<Rightarrow> parse_state" where
  "from_stream_begin i =
     \<lparr>ps_is = i, ps_tm = tm_zero, ps_cmd = None, ps_mod = NUL, ps_width = - 1,
      ps_Y = not_a_year, ps_y = not_a_2digit_year, ps_g = not_a_2digit_year, ps_G = not_a_year, ps_C = not_a_century,
      ps_m = not_a_month, ps_d = not_a_day, ps_j = not_a_doy, ps_wd = not_a_weekday, ps_H = not_a_hour,
      ps_I = not_a_hour_12_value, ps_p = not_a_ampm, ps_M = not_a_minute, ps_s = not_a_second,
      ps_U = not_a_week_num, ps_V = not_a_week_num, ps_W = not_a_week_num, ps_abbrev = [], ps_offset = not_a_offset\<rparr>"

definition ps_failed :: "parse_state \<Rightarrow> bool" where
  "ps_failed st = is_fail (ps_is st)"

definition ps_fail :: "parse_state \<Rightarrow> parse_state" where
  "ps_fail st = st\<lparr>ps_is := set_fail (ps_is st)\<rparr>"

definition ps_reset :: "parse_state \<Rightarrow> parse_state" where
  "ps_reset st = st\<lparr>ps_cmd := None, ps_width := - 1, ps_mod := NUL\<rparr>"

text \<open>A command stays pending after the character \<open>c\<close>.\<close>

definition ps_pending :: "char \<Rightarrow> parse_state \<Rightarrow> parse_state" where
  "ps_pending c st = st\<lparr>ps_cmd := map_option (\<lambda>f. f @ [c]) (ps_cmd st)\<rparr>"

definition rd :: "parse_env \<Rightarrow> read_arg list \<Rightarrow> parse_state \<Rightarrow> read_val list \<times> parse_state" where
  "rd e as st = (case read_args (pe_point e) as (ps_is st) of (vs, i) \<Rightarrow> (vs, st\<lparr>ps_is := i\<rparr>))"

text \<open>A directive that is none with its modifier is literal text.\<close>

definition rd_literal :: "parse_env \<Rightarrow> char \<Rightarrow> parse_state \<Rightarrow> parse_state" where
  "rd_literal e c st = snd (rd e [RChar (CHR ''%''), RInt (ps_width st), RChar (ps_mod st), RChar c] st)"

definition width_or :: "u32 \<Rightarrow> parse_state \<Rightarrow> u32" where
  "width_or n st = (if ps_width st = - 1 then n else of_int (ps_width st))"

definition checked_set ::
  "(parse_state \<Rightarrow> 'v) \<Rightarrow> (('v \<Rightarrow> 'v) \<Rightarrow> parse_state \<Rightarrow> parse_state) \<Rightarrow> 'v \<Rightarrow> 'v \<Rightarrow> parse_state \<Rightarrow> parse_state" where
  "checked_set value update from not_a_value st =
     (if ps_failed st then st
      else if value st = not_a_value then update (\<lambda>_. from) st
      else if value st \<noteq> from then ps_fail st else st)"

text \<open>The common form of a numeric directive.\<close>

definition rd_field ::
  "parse_env \<Rightarrow> (parse_state \<Rightarrow> int) \<Rightarrow> ((int \<Rightarrow> int) \<Rightarrow> parse_state \<Rightarrow> parse_state) \<Rightarrow> int \<Rightarrow> read_arg \<Rightarrow> parse_state \<Rightarrow> parse_state"
  where
  "rd_field e value update na a st =
     (case rd e [a] st of (vs, st1) \<Rightarrow> checked_set value update (val_int vs 0 na) na st1)"

text \<open>Calling the facet: \<open>k\<close> is done when it reports no failure, before its bits are added to the stream's.\<close>

definition setstate :: "bool \<Rightarrow> bool \<Rightarrow> parse_state \<Rightarrow> parse_state" where
  "setstate fl eo st = st\<lparr>ps_is := (ps_is st)\<lparr>is_fail := is_fail (ps_is st) \<or> fl, is_eof := is_eof (ps_is st) \<or> eo\<rparr>\<rparr>"

definition rd_facet :: "parse_env \<Rightarrow> char \<Rightarrow> parse_state \<Rightarrow> (bool \<times> bool) \<times> parse_state" where
  "rd_facet e c st =
     (case pe_get e (the (ps_cmd st) @ [c]) (is_buf (ps_is st)) (ps_tm st) of (err, r, t) \<Rightarrow>
        (err, st\<lparr>ps_is := (ps_is st)\<lparr>is_buf := r\<rparr>, ps_tm := t\<rparr>))"

definition rd_locale :: "parse_env \<Rightarrow> char \<Rightarrow> (parse_state \<Rightarrow> parse_state) \<Rightarrow> parse_state \<Rightarrow> parse_state" where
  "rd_locale e c k st =
     (case rd_facet e c st of ((fl, eo), st1) \<Rightarrow> setstate fl eo (if fl then st1 else k st1))"

section \<open>The directives\<close>

text \<open>Each is one case of the switch, entered with a pending command.\<close>

definition scan_a :: "parse_env \<Rightarrow> char \<Rightarrow> parse_state \<Rightarrow> parse_state" where
  "scan_a e c st =
     ps_reset
       (let by_name = (case rd_facet e c st of ((fl, eo), st1) \<Rightarrow>
              (let st2 = setstate fl eo st1 in (if ps_failed st2 then not_a_weekday else tm_wday (ps_tm st2), st2)));
            (trial, st1) =
              (if c = CHR ''a'' \<or> c = CHR ''A''
               then (if ps_mod st = NUL then by_name else (not_a_weekday, rd_literal e c st))
               else if ps_mod st = NUL
               then (case rd e [RUnsigned 1 (width_or 1 st)] st of (vs, st1) \<Rightarrow>
                       (let t = val_int vs 0 not_a_weekday
                        in if ps_failed st1 then (t, st1)
                           else if c = CHR ''u''
                           then (if \<not> (1 \<le> t \<and> t \<le> 7) then (not_a_weekday, ps_fail st1) else (if t = 7 then 0 else t, st1))
                           else (if \<not> (0 \<le> t \<and> t \<le> 6) then (not_a_weekday, ps_fail st1) else (t, st1))))
               else if ps_mod st = CHR ''O'' then by_name
               else (not_a_weekday, rd_literal e c st))
        in if trial \<noteq> not_a_weekday then checked_set ps_wd ps_wd_update trial not_a_weekday st1 else st1)"

definition scan_b :: "parse_env \<Rightarrow> char \<Rightarrow> parse_state \<Rightarrow> parse_state" where
  "scan_b e c st =
     ps_reset
       (if ps_mod st = NUL
        then (case rd_facet e c st of ((fl, eo), st1) \<Rightarrow>
                checked_set ps_m ps_m_update (if fl then not_a_month else tm_mon (ps_tm st1) + 1) not_a_month
                  (setstate fl eo st1))
        else rd_literal e c st)"

definition set_date :: "parse_state \<Rightarrow> parse_state" where
  "set_date st =
     (let t = ps_tm st
      in checked_set ps_d ps_d_update (tm_mday t) not_a_day
           (checked_set ps_m ps_m_update (tm_mon t + 1) not_a_month
             (checked_set ps_Y ps_Y_update (tm_year t + 1900) not_a_year st)))"

definition set_time :: "parse_env \<Rightarrow> parse_state \<Rightarrow> parse_state" where
  "set_time e st =
     (let t = ps_tm st
      in checked_set ps_s ps_s_update (tm_sec t * pe_den e) not_a_second
           (checked_set ps_M ps_M_update (tm_min t) not_a_minute
             (checked_set ps_H ps_H_update (tm_hour t) not_a_hour st)))"

definition scan_c :: "parse_env \<Rightarrow> char \<Rightarrow> parse_state \<Rightarrow> parse_state" where
  "scan_c e c st =
     ps_reset (if ps_mod st \<noteq> CHR ''O'' then rd_locale e c (\<lambda>st. set_time e (set_date st)) st else rd_literal e c st)"

definition scan_x :: "parse_env \<Rightarrow> char \<Rightarrow> parse_state \<Rightarrow> parse_state" where
  "scan_x e c st = ps_reset (if ps_mod st \<noteq> CHR ''O'' then rd_locale e c set_date st else rd_literal e c st)"

definition scan_X :: "parse_env \<Rightarrow> char \<Rightarrow> parse_state \<Rightarrow> parse_state" where
  "scan_X e c st = ps_reset (if ps_mod st \<noteq> CHR ''O'' then rd_locale e c (set_time e) st else rd_literal e c st)"

definition scan_C :: "parse_env \<Rightarrow> char \<Rightarrow> parse_state \<Rightarrow> parse_state" where
  "scan_C e c st =
     ps_reset
       (if ps_mod st = NUL then rd_field e ps_C ps_C_update not_a_century (RSigned 1 (width_or 2 st)) st
        else (case rd_facet e c st of ((fl, eo), st1) \<Rightarrow>
                (let tY = tm_year (ps_tm st1) + 1900
                 in checked_set ps_C ps_C_update (if fl then not_a_century else (if 0 \<le> tY then tY else tY - 99) sdiv 100)
                      not_a_century (setstate fl eo st1))))"

definition scan_D :: "parse_env \<Rightarrow> char \<Rightarrow> parse_state \<Rightarrow> parse_state" where
  "scan_D e c st =
     ps_reset
       (if ps_mod st = NUL
        then (case rd e [RUnsigned 1 2, RChar NUL, RChar (CHR ''/''), RChar NUL, RUnsigned 1 2, RChar NUL, RChar (CHR ''/''),
                         RChar NUL, RSigned 1 2] st of (vs, st1) \<Rightarrow>
                checked_set ps_d ps_d_update (val_int vs 1 not_a_day) not_a_day
                  (checked_set ps_m ps_m_update (val_int vs 0 not_a_month) not_a_month
                    (checked_set ps_y ps_y_update (val_int vs 2 not_a_2digit_year) not_a_2digit_year st1)))
        else rd_literal e c st)"

definition scan_F :: "parse_env \<Rightarrow> char \<Rightarrow> parse_state \<Rightarrow> parse_state" where
  "scan_F e c st =
     ps_reset
       (if ps_mod st = NUL
        then (case rd e [RSigned 1 (width_or 4 st), RChar (CHR ''-''), RUnsigned 1 2, RChar (CHR ''-''), RUnsigned 1 2] st of
                (vs, st1) \<Rightarrow>
                checked_set ps_d ps_d_update (val_int vs 2 not_a_day) not_a_day
                  (checked_set ps_m ps_m_update (val_int vs 1 not_a_month) not_a_month
                    (checked_set ps_Y ps_Y_update (val_int vs 0 not_a_year) not_a_year st1)))
        else rd_literal e c st)"

definition scan_d :: "parse_env \<Rightarrow> char \<Rightarrow> parse_state \<Rightarrow> parse_state" where
  "scan_d e c st =
     ps_reset
       (if ps_mod st = NUL then rd_field e ps_d ps_d_update not_a_day (RSigned 1 (width_or 2 st)) st
        else if ps_mod st = CHR ''O''
        then rd_locale e c (\<lambda>st. checked_set ps_d ps_d_update (tm_mday (ps_tm st)) not_a_day st) st
        else rd_literal e c st)"

definition scan_H :: "parse_env \<Rightarrow> char \<Rightarrow> parse_state \<Rightarrow> parse_state" where
  "scan_H e c st =
     ps_reset
       (if ps_mod st = NUL then rd_field e ps_H ps_H_update not_a_hour (RUnsigned 1 (width_or 2 st)) st
        else if ps_mod st = CHR ''O''
        then rd_locale e c (\<lambda>st. checked_set ps_H ps_H_update (tm_hour (ps_tm st)) not_a_hour st) st
        else rd_literal e c st)"

definition scan_I :: "parse_env \<Rightarrow> char \<Rightarrow> parse_state \<Rightarrow> parse_state" where
  "scan_I e c st =
     ps_reset
       (if ps_mod st = NUL
        then (case rd e [RSigned 1 (width_or 2 st)] st of (vs, st1) \<Rightarrow>
                (let tI = val_int vs 0 not_a_hour_12_value
                 in checked_set ps_I ps_I_update tI not_a_hour_12_value
                      (if \<not> (1 \<le> tI \<and> tI \<le> 12) then ps_fail st1 else st1)))
        else rd_literal e c st)"

definition scan_j :: "parse_env \<Rightarrow> char \<Rightarrow> parse_state \<Rightarrow> parse_state" where
  "scan_j e c st =
     ps_reset (if ps_mod st = NUL then rd_field e ps_j ps_j_update not_a_doy (RUnsigned 1 (width_or 3 st)) st
               else rd_literal e c st)"

definition scan_M :: "parse_env \<Rightarrow> char \<Rightarrow> parse_state \<Rightarrow> parse_state" where
  "scan_M e c st =
     ps_reset
       (if ps_mod st = NUL then rd_field e ps_M ps_M_update not_a_minute (RUnsigned 1 (width_or 2 st)) st
        else if ps_mod st = CHR ''O''
        then rd_locale e c (\<lambda>st. checked_set ps_M ps_M_update (tm_min (ps_tm st)) not_a_minute st) st
        else rd_literal e c st)"

definition scan_m :: "parse_env \<Rightarrow> char \<Rightarrow> parse_state \<Rightarrow> parse_state" where
  "scan_m e c st =
     ps_reset
       (if ps_mod st = NUL then rd_field e ps_m ps_m_update not_a_month (RSigned 1 (width_or 2 st)) st
        else if ps_mod st = CHR ''O''
        then rd_locale e c (\<lambda>st. checked_set ps_m ps_m_update (tm_mon (ps_tm st) + 1) not_a_month st) st
        else rd_literal e c st)"

text \<open>At the end of the text the command stays pending: the source leaves the switch early.\<close>

definition scan_n :: "parse_env \<Rightarrow> char \<Rightarrow> parse_state \<Rightarrow> parse_state" where
  "scan_n e c st =
     (if ps_mod st = NUL
      then (case is_peek (ps_is st) of
              (None, i) \<Rightarrow> ps_pending c (setstate (c = CHR ''n'') True (st\<lparr>ps_is := i\<rparr>))
            | (Some a, i) \<Rightarrow>
                ps_reset (if is_space a then st\<lparr>ps_is := is_get i\<rparr>
                          else if c = CHR ''n'' then ps_fail (st\<lparr>ps_is := i\<rparr>) else st\<lparr>ps_is := i\<rparr>))
      else ps_reset (rd_literal e c st))"

definition scan_p :: "parse_env \<Rightarrow> char \<Rightarrow> parse_state \<Rightarrow> parse_state" where
  "scan_p e c st =
     ps_reset
       (if ps_mod st = NUL
        then (case rd_facet e c (st\<lparr>ps_tm := tm_zero\<lparr>tm_hour := 1\<rparr>\<rparr>) of ((fl, eo), st1) \<Rightarrow>
                (let h = tm_hour (ps_tm st1)
                 in checked_set ps_p ps_p_update (if h = 1 then 0 else if h = 13 then 1 else not_a_ampm) not_a_ampm
                      (setstate fl eo st1)))
        else rd_literal e c st)"

definition scan_r :: "parse_env \<Rightarrow> char \<Rightarrow> parse_state \<Rightarrow> parse_state" where
  "scan_r e c st = ps_reset (if ps_mod st = NUL then rd_locale e c (set_time e) st else rd_literal e c st)"

definition scan_R :: "parse_env \<Rightarrow> char \<Rightarrow> parse_state \<Rightarrow> parse_state" where
  "scan_R e c st =
     ps_reset
       (if ps_mod st = NUL
        then (case rd e [RUnsigned 1 2, RChar NUL, RChar (CHR '':''), RChar NUL, RUnsigned 1 2, RChar NUL] st of (vs, st1) \<Rightarrow>
                checked_set ps_M ps_M_update (val_int vs 1 not_a_minute) not_a_minute
                  (checked_set ps_H ps_H_update (val_int vs 0 not_a_hour) not_a_hour st1))
        else rd_literal e c st)"

text \<open>The width of the seconds with their fraction.\<close>

definition seconds_width :: "parse_env \<Rightarrow> u32" where
  "seconds_width e = (if pe_den e = 1 then 2 else 3 + of_nat (dfs_width (pe_den e)))"

definition scan_S :: "parse_env \<Rightarrow> char \<Rightarrow> parse_state \<Rightarrow> parse_state" where
  "scan_S e c st =
     ps_reset
       (if ps_mod st = NUL
        then (case rd e [RLong_double 1 (width_or (seconds_width e) st)] st of (vs, st1) \<Rightarrow>
                checked_set ps_s ps_s_update (pe_round e (val_dec vs 0)) not_a_second st1)
        else if ps_mod st = CHR ''O''
        then rd_locale e c (\<lambda>st. checked_set ps_s ps_s_update (tm_sec (ps_tm st) * pe_den e) not_a_second st) st
        else rd_literal e c st)"

definition scan_T :: "parse_env \<Rightarrow> char \<Rightarrow> parse_state \<Rightarrow> parse_state" where
  "scan_T e c st =
     ps_reset
       (if ps_mod st = NUL
        then (case rd e [RUnsigned 1 2, RChar (CHR '':''), RUnsigned 1 2, RChar (CHR '':''), RLong_double 1 (seconds_width e)] st
              of (vs, st1) \<Rightarrow>
                checked_set ps_s ps_s_update (pe_round e (val_dec vs 2)) not_a_second
                  (checked_set ps_M ps_M_update (val_int vs 1 not_a_minute) not_a_minute
                    (checked_set ps_H ps_H_update (val_int vs 0 not_a_hour) not_a_hour st1)))
        else rd_literal e c st)"

definition set_tm_year :: "parse_state \<Rightarrow> parse_state" where
  "set_tm_year st = checked_set ps_Y ps_Y_update (tm_year (ps_tm st) + 1900) not_a_year st"

definition scan_Y :: "parse_env \<Rightarrow> char \<Rightarrow> parse_state \<Rightarrow> parse_state" where
  "scan_Y e c st =
     ps_reset
       (if ps_mod st = NUL then rd_field e ps_Y ps_Y_update not_a_year (RSigned 1 (width_or 4 st)) st
        else if ps_mod st = CHR ''E'' then rd_locale e c set_tm_year st
        else rd_literal e c st)"

definition scan_y :: "parse_env \<Rightarrow> char \<Rightarrow> parse_state \<Rightarrow> parse_state" where
  "scan_y e c st =
     ps_reset
       (if ps_mod st = NUL then rd_field e ps_y ps_y_update not_a_2digit_year (RUnsigned 1 (width_or 2 st)) st
        else rd_locale e c set_tm_year st)"

definition scan_g :: "parse_env \<Rightarrow> char \<Rightarrow> parse_state \<Rightarrow> parse_state" where
  "scan_g e c st =
     ps_reset (if ps_mod st = NUL then rd_field e ps_g ps_g_update not_a_2digit_year (RUnsigned 1 (width_or 2 st)) st
               else rd_literal e c st)"

definition scan_G :: "parse_env \<Rightarrow> char \<Rightarrow> parse_state \<Rightarrow> parse_state" where
  "scan_G e c st =
     ps_reset (if ps_mod st = NUL then rd_field e ps_G ps_G_update not_a_year (RSigned 1 (width_or 4 st)) st
               else rd_literal e c st)"

definition scan_U :: "parse_env \<Rightarrow> char \<Rightarrow> parse_state \<Rightarrow> parse_state" where
  "scan_U e c st =
     ps_reset (if ps_mod st = NUL then rd_field e ps_U ps_U_update not_a_week_num (RUnsigned 1 (width_or 2 st)) st
               else rd_literal e c st)"

definition scan_V :: "parse_env \<Rightarrow> char \<Rightarrow> parse_state \<Rightarrow> parse_state" where
  "scan_V e c st =
     ps_reset (if ps_mod st = NUL then rd_field e ps_V ps_V_update not_a_week_num (RUnsigned 1 (width_or 2 st)) st
               else rd_literal e c st)"

definition scan_W :: "parse_env \<Rightarrow> char \<Rightarrow> parse_state \<Rightarrow> parse_state" where
  "scan_W e c st =
     ps_reset (if ps_mod st = NUL then rd_field e ps_W ps_W_update not_a_week_num (RUnsigned 1 (width_or 2 st)) st
               else rd_literal e c st)"

definition scan_EO :: "parse_env \<Rightarrow> char \<Rightarrow> parse_state \<Rightarrow> parse_state" where
  "scan_EO e c st =
     (if ps_mod st = NUL then ps_pending c (st\<lparr>ps_mod := c\<rparr>) else ps_reset (rd_literal e c st))"

definition scan_percent :: "parse_env \<Rightarrow> char \<Rightarrow> parse_state \<Rightarrow> parse_state" where
  "scan_percent e c st = ps_reset (if ps_mod st = NUL then snd (rd e [RChar c] st) else rd_literal e c st)"

text \<open>The second half of an offset: digits follow directly, or after a colon.\<close>

definition offset_minutes :: "parse_env \<Rightarrow> bool \<Rightarrow> int \<Rightarrow> parse_state \<Rightarrow> int \<times> parse_state" where
  "offset_minutes e colon toff st =
     (if \<not> is_good (ps_is st) then (toff, st)
      else
        (case is_peek (ps_is st) of
           (None, i) \<Rightarrow> (toff, st\<lparr>ps_is := i\<rparr>)
         | (Some a, i) \<Rightarrow>
             if (if colon then a = CHR '':'' else is_digit a)
             then (case rd e [RUnsigned 2 2] (st\<lparr>ps_is := if colon then is_get i else i\<rparr>) of (vs, st1) \<Rightarrow>
                     (if ps_failed st1 then toff else toff + val_int vs 0 0, st1))
             else (toff, st\<lparr>ps_is := i\<rparr>)))"

definition scan_z :: "parse_env \<Rightarrow> char \<Rightarrow> parse_state \<Rightarrow> parse_state" where
  "scan_z e c st =
     ps_reset
       (case is_peek (ps_is st) of (ic, i) \<Rightarrow>
          (let neg = (ic = Some (CHR ''-''));
               (vs, st1) = rd e [RSigned (if ps_mod st = NUL then 2 else 1) 2] (st\<lparr>ps_is := i\<rparr>);
               toff = (if ps_failed st1 then not_a_offset else \<bar>val_int vs 0 0\<bar> * 60);
               (toff, st2) = offset_minutes e (ps_mod st \<noteq> NUL) toff st1
           in checked_set ps_offset ps_offset_update (if neg then - toff else toff) not_a_offset st2))"

definition zone_char :: "char \<Rightarrow> bool" where
  "zone_char c \<longleftrightarrow>
     (let n = of_char c :: nat
      in 48 \<le> n \<and> n \<le> 57 \<or> 65 \<le> n \<and> n \<le> 90 \<or> 97 \<le> n \<and> n \<le> 122 \<or> c \<in> set ''_/-+'')"

definition scan_Z :: "parse_env \<Rightarrow> char \<Rightarrow> parse_state \<Rightarrow> parse_state" where
  "scan_Z e c st =
     ps_reset
       (if ps_mod st = NUL
        then (let i = ps_is st;
                  buf = (if is_good i then takeWhile zone_char (is_buf i) else []);
                  r = drop (length buf) (is_buf i);
                  st1 = setstate (buf = []) (is_good i \<and> r = []) (st\<lparr>ps_is := i\<lparr>is_buf := r\<rparr>\<rparr>)
              in checked_set ps_abbrev ps_abbrev_update buf [] st1)
        else rd_literal e c st)"

definition scan_default :: "parse_env \<Rightarrow> char \<Rightarrow> parse_state \<Rightarrow> parse_state" where
  "scan_default e c st =
     ps_reset (if ps_mod st = NUL then snd (rd e [RChar (CHR ''%''), RInt (ps_width st), RChar c] st) else rd_literal e c st)"

section \<open>The loop\<close>

definition scan :: "char \<Rightarrow> (parse_env \<Rightarrow> char \<Rightarrow> parse_state \<Rightarrow> parse_state) option" where
  "scan c =
     map_of
      [(CHR ''a'', scan_a), (CHR ''A'', scan_a), (CHR ''u'', scan_a), (CHR ''w'', scan_a), (CHR ''b'', scan_b), (CHR ''B'', scan_b),
       (CHR ''h'', scan_b), (CHR ''c'', scan_c), (CHR ''x'', scan_x), (CHR ''X'', scan_X), (CHR ''C'', scan_C), (CHR ''D'', scan_D),
       (CHR ''F'', scan_F), (CHR ''d'', scan_d), (CHR ''e'', scan_d), (CHR ''H'', scan_H), (CHR ''I'', scan_I), (CHR ''j'', scan_j),
       (CHR ''M'', scan_M), (CHR ''m'', scan_m), (CHR ''n'', scan_n), (CHR ''t'', scan_n), (CHR ''p'', scan_p), (CHR ''r'', scan_r),
       (CHR ''R'', scan_R), (CHR ''S'', scan_S), (CHR ''T'', scan_T), (CHR ''Y'', scan_Y), (CHR ''y'', scan_y), (CHR ''g'', scan_g),
       (CHR ''G'', scan_G), (CHR ''U'', scan_U), (CHR ''V'', scan_V), (CHR ''W'', scan_W), (CHR ''E'', scan_EO), (CHR ''O'', scan_EO),
       (CHR ''%'', scan_percent), (CHR ''z'', scan_z), (CHR ''Z'', scan_Z)] c"

definition scan_step :: "parse_env \<Rightarrow> char \<Rightarrow> parse_state \<Rightarrow> parse_state" where
  "scan_step e c st =
     (if ps_cmd st \<noteq> None then (case scan c of Some f \<Rightarrow> f e c st | None \<Rightarrow> scan_default e c st)
      else if c = CHR ''%'' then st\<lparr>ps_cmd := Some [c]\<rparr>
      else if scan c = None \<and> is_space c
      then (if is_good (ps_is st) then st\<lparr>ps_is := is_ws (ps_is st)\<rparr> else st)
      else snd (rd e [RChar c] st))"

text \<open>Digits after the percent sign are the width; the loop takes all of them in one round.\<close>

definition starts_width :: "char \<Rightarrow> parse_state \<Rightarrow> bool" where
  "starts_width c st \<longleftrightarrow> ps_cmd st \<noteq> None \<and> ps_width st = - 1 \<and> ps_mod st = NUL \<and> is_digit c"

definition take_width :: "string \<Rightarrow> parse_state \<Rightarrow> parse_state" where
  "take_width ds st =
     st\<lparr>ps_width := foldl (\<lambda>w c. 10 * w + int (digit_val c)) 0 ds, ps_cmd := map_option (\<lambda>f. f @ ds) (ps_cmd st)\<rparr>"

function from_stream_loop :: "parse_env \<Rightarrow> string \<Rightarrow> parse_state \<Rightarrow> parse_state" where
  "from_stream_loop e [] st = st"
| "from_stream_loop e (c # cs) st =
     (if ps_failed st then st
      else if starts_width c st then from_stream_loop e (dropWhile is_digit cs) (take_width (c # takeWhile is_digit cs) st)
      else from_stream_loop e cs (scan_step e c st))"
  by pat_completeness auto
termination
  by (relation "measure (\<lambda>(e, f, st). length f)") (auto simp: le_imp_less_Suc length_dropWhile_le)

declare from_stream_loop.simps(2) [simp del]

definition from_stream_tail :: "parse_env \<Rightarrow> parse_state \<Rightarrow> parse_state" where
  "from_stream_tail e st =
     (if is_good (ps_is st) \<and> ps_cmd st \<noteq> None
      then snd (rd e ([RChar (CHR ''%''), RInt (ps_width st)] @ (if ps_mod st = NUL then [] else [RChar (ps_mod st)])) st)
      else st)"

end
