(* ===== verification/Date_Resolve.thy ===== *)
theory Date_Resolve
  imports Date_From_Stream
begin

text \<open>
  The second half of \<^verbatim>\<open>from_stream\<close> of \<^verbatim>\<open>debug_print/date.h\<close>: a date and a time of day are made of what the
  directives have read, and the overloads of \<^verbatim>\<open>from_stream\<close> for the types of the calendar.  Information that
  is given twice has to agree, or the stream fails.
\<close>

section \<open>The date\<close>

text \<open>A year of two digits with an optional century; the same code serves \<^verbatim>\<open>y\<close>, \<^verbatim>\<open>Y\<close> and \<^verbatim>\<open>g\<close>, \<^verbatim>\<open>G\<close>.\<close>

definition resolve_2digit :: "int \<Rightarrow> int \<Rightarrow> int \<Rightarrow> (int \<times> int) option" where
  "resolve_2digit y C Y =
     (if y = not_a_2digit_year then Some (C, Y)
      else if \<not> (0 \<le> y \<and> y \<le> 99) then None
      else
        (let C = (if C = not_a_century
                  then (if Y = not_a_year then (if 69 \<le> y then 19 else 20) else (if 0 \<le> Y then Y else Y - 100) sdiv 100)
                  else C);
             tY = (if 0 \<le> C then 100 * C + y else 100 * (C + 1) - (if y = 0 then 100 else y))
         in if Y \<noteq> not_a_year \<and> Y \<noteq> tY then None else Some (C, tY)))"

definition match_month :: "year_month_day \<Rightarrow> int \<Rightarrow> int option" where
  "match_month trial m =
     (if m = not_a_month then Some (uint (month_unsigned (ymd_month trial)))
      else if month_new (of_int m) \<noteq> ymd_month trial then None else Some m)"

definition match_day :: "year_month_day \<Rightarrow> int \<Rightarrow> int option" where
  "match_day trial d =
     (if d = not_a_day then Some (uint (day_unsigned (ymd_day trial)))
      else if day_new (of_int d) \<noteq> ymd_day trial then None else Some d)"

definition match_year :: "year_month_day \<Rightarrow> int \<Rightarrow> int option" where
  "match_year trial Y =
     (if Y = not_a_year then Some (year_int (ymd_year trial))
      else if year_new Y \<noteq> ymd_year trial then None else Some Y)"

text \<open>Year, month, day and whether they were computed from a week.\<close>

type_synonym found_date = "int \<times> int \<times> int \<times> bool"

definition week_trial :: "bool \<Rightarrow> days \<Rightarrow> found_date \<Rightarrow> found_date option" where
  "week_trial given sd x =
     (if \<not> given then Some x
      else case x of (Y, m, d, computed) \<Rightarrow>
        do {
          let trial = from_days sd;
          Y \<leftarrow> match_year trial Y;
          m \<leftarrow> match_month trial m;
          d \<leftarrow> match_day trial d;
          Some (Y, m, d, True)
        })"

text \<open>The day of a week date of ISO 8601, and of a week that starts on \<open>wd1\<close>.\<close>

definition iso_week_day :: "int \<Rightarrow> int \<Rightarrow> int \<Rightarrow> days" where
  "iso_week_day G V wd =
     ymwl_to_days (year_month_weekday_last_new (year_new (G - 1)) (month_new 12) (weekday_last_new Thursday)) +
     weekday_diff Monday Thursday + (V - 1) * 7 + weekday_diff (weekday_new (of_int wd)) Monday"

definition week_start :: "weekday \<Rightarrow> year \<Rightarrow> days" where
  "week_start wd1 y = ymw_to_days (year_month_weekday_new y January (weekday_indexed_new wd1 1))"

definition year_week_day :: "weekday \<Rightarrow> int \<Rightarrow> int \<Rightarrow> int \<Rightarrow> days" where
  "year_week_day wd1 Y n wd =
     week_start wd1 (year_new Y) + (n - 1) * 7 + weekday_diff (weekday_new (of_int wd)) wd1"

text \<open>The day of the year, when the year is known, is used up.\<close>

definition day_of_year_trial :: "int \<Rightarrow> found_date \<Rightarrow> (found_date \<times> int) option" where
  "day_of_year_trial j x =
     (case x of (Y, m, d, computed) \<Rightarrow>
        if j \<noteq> not_a_doy \<and> Y \<noteq> not_a_year
        then do {
          let trial = from_days (to_days (first_of (year_new Y) January) + (j - 1));
          m \<leftarrow> match_month trial m;
          d \<leftarrow> match_day trial d;
          Some ((Y, m, d, computed), not_a_doy)
        }
        else Some (x, j))"

definition weekday_of_date :: "year_month_day \<Rightarrow> int" where
  "weekday_of_date ymd = weekday_diff (weekday_of_days (to_days ymd)) Sunday"

definition iso_agrees :: "int \<Rightarrow> int \<Rightarrow> year_month_day \<Rightarrow> bool" where
  "iso_agrees G V ymd \<longleftrightarrow>
     (if G \<noteq> not_a_year \<or> V \<noteq> not_a_week_num
      then
        (let sd = to_days ymd; G_trial = ymd_year (from_days (sd + 3)); start = iso_start G_trial;
             (G_trial, start) =
               (if sd < start
                then (year_dec G_trial, if V \<noteq> not_a_week_num then iso_start (year_dec G_trial) else start)
                else (G_trial, start))
         in (G \<noteq> not_a_year \<longrightarrow> G = year_int G_trial) \<and>
            (V \<noteq> not_a_week_num \<longrightarrow> V = (sd - start) sdiv 7 + 1))
      else True)"

definition week_agrees :: "weekday \<Rightarrow> int \<Rightarrow> year_month_day \<Rightarrow> bool" where
  "week_agrees wd1 n ymd \<longleftrightarrow>
     (n \<noteq> not_a_week_num \<longrightarrow> n = (to_days ymd - week_start wd1 (ymd_year ymd)) div 7 + 1)"

text \<open>The weekday is taken from a valid date or has to agree with it, and so have the weeks.\<close>

definition check_date :: "parse_state \<Rightarrow> int \<Rightarrow> bool \<Rightarrow> year_month_day \<Rightarrow> int option" where
  "check_date st G computed ymd =
     (if \<not> ymd_ok ymd then Some (ps_wd st)
      else if ps_wd st \<noteq> not_a_weekday \<and> ps_wd st \<noteq> weekday_of_date ymd then None
      else if computed \<or> iso_agrees G (ps_V st) ymd \<and> week_agrees Sunday (ps_U st) ymd \<and> week_agrees Monday (ps_W st) ymd
      then Some (if ps_wd st = not_a_weekday then weekday_of_date ymd else ps_wd st) else None)"

text \<open>The date, the weekday and the remaining day of the year.\<close>

definition resolve_date :: "parse_state \<Rightarrow> (year_month_day \<times> int \<times> int) option" where
  "resolve_date st =
     do {
       (C, Y) \<leftarrow> resolve_2digit (ps_y st) (ps_C st) (ps_Y st);
       (C, G) \<leftarrow> resolve_2digit (ps_g st) C (ps_G st);
       let Y = (if Y < year_int year_min \<or> year_int year_max < Y then not_a_year else Y);
       let has_wd = (ps_wd st \<noteq> not_a_weekday);
       x \<leftarrow> week_trial (G \<noteq> not_a_year \<and> ps_V st \<noteq> not_a_week_num \<and> has_wd) (iso_week_day G (ps_V st) (ps_wd st))
             (Y, ps_m st, ps_d st, False);
       x \<leftarrow> week_trial (fst x \<noteq> not_a_year \<and> ps_U st \<noteq> not_a_week_num \<and> has_wd)
             (year_week_day Sunday (fst x) (ps_U st) (ps_wd st)) x;
       x \<leftarrow> week_trial (fst x \<noteq> not_a_year \<and> ps_W st \<noteq> not_a_week_num \<and> has_wd)
             (year_week_day Monday (fst x) (ps_W st) (ps_wd st)) x;
       ((Y, m, d, computed), j) \<leftarrow> day_of_year_trial (ps_j st) x;
       let ymd = year_month_day_new (year_new Y) (month_new (of_int m)) (day_new (of_int d));
       wd \<leftarrow> check_date st G computed ymd;
       Some (ymd, wd, j)
     }"

section \<open>The time of day\<close>

text \<open>The hour of a clock of twelve hours, with or without AM and PM.\<close>

definition resolve_hour :: "int \<Rightarrow> int \<Rightarrow> int \<Rightarrow> int option" where
  "resolve_hour I p H =
     (if I = not_a_hour_12_value then Some H
      else if \<not> (1 \<le> I \<and> I \<le> 12) then None
      else if p \<noteq> not_a_ampm
      then (let p = (if I = 12 then p - 1 else p); I = I + p * 12
            in if H = not_a_hour then Some I else if I \<noteq> H then None else Some H)
      else if H \<noteq> not_a_hour
      then (if I = 12 then (if H \<noteq> 0 \<and> H \<noteq> 12 then None else Some H)
            else if \<not> (I = H \<or> I = H + 12) then None else Some H)
      else None)"

definition set_tod :: "parse_env \<Rightarrow> int \<Rightarrow> int \<Rightarrow> int \<Rightarrow> int \<Rightarrow> fields \<Rightarrow> fields" where
  "set_tod e H M s j fds =
     (let p = \<lparr>rnum = 1, rden = pe_den e\<rparr>;
          fds1 = (if H \<noteq> not_a_hour then fds\<lparr>fd_has_tod := True, fd_tod := hh_mm_ss_new p (H * 3600 * pe_den e)\<rparr> else fds);
          fds2 = (if M \<noteq> not_a_minute then fds1\<lparr>fd_has_tod := True, fd_tod := (fd_tod fds1)\<lparr>hms_m := M\<rparr>\<rparr> else fds1);
          fds3 = (if s \<noteq> not_a_second
                  then fds2\<lparr>fd_has_tod := True, fd_tod := (fd_tod fds2)\<lparr>hms_s := decimal_format_seconds_new (pe_den e) s\<rparr>\<rparr>
                  else fds2)
      in if j \<noteq> not_a_doy
         then fds3\<lparr>fd_has_tod := True, fd_tod := (fd_tod fds3)\<lparr>hms_h := hms_h (fd_tod fds3) + j * 24\<rparr>\<rparr> else fds3)"

section \<open>\<^verbatim>\<open>from_stream\<close>\<close>

text \<open>Stream, fields, and what the pointers \<^verbatim>\<open>abbrev\<close> and \<^verbatim>\<open>offset\<close> point to unless they are null.\<close>

type_synonym parsed = "istream \<times> fields \<times> string option \<times> int option"

definition from_stream_finish :: "parse_env \<Rightarrow> parse_state \<Rightarrow> fields \<Rightarrow> string option \<Rightarrow> int option \<Rightarrow> parsed" where
  "from_stream_finish e st fds abbrev offset =
     (if ps_failed st then (ps_is st, fds, abbrev, offset)
      else case resolve_date st of
        None \<Rightarrow> (set_fail (ps_is st), fds, abbrev, offset)
      | Some (ymd, wd, j) \<Rightarrow>
          (let fds1 = fds\<lparr>fd_ymd := ymd\<rparr>
           in case resolve_hour (ps_I st) (ps_p st) (ps_H st) of
                None \<Rightarrow> (set_fail (ps_is st), fds1, abbrev, offset)
              | Some H \<Rightarrow>
                  (let fds2 = set_tod e H (ps_M st) (ps_s st) j fds1
                   in (ps_is st,
                       if wd \<noteq> not_a_weekday then fds2\<lparr>fd_wd := weekday_new (of_int wd)\<rparr> else fds2,
                       map_option (\<lambda>_. ps_abbrev st) abbrev,
                       if ps_offset st \<noteq> not_a_offset then map_option (\<lambda>_. ps_offset st) offset else offset))))"

definition from_stream :: "parse_env \<Rightarrow> string \<Rightarrow> fields \<Rightarrow> string option \<Rightarrow> int option \<Rightarrow> istream \<Rightarrow> parsed" where
  "from_stream e fmt fds abbrev offset i =
     (if \<not> is_good i then (set_fail i, fds, abbrev, offset)
      else from_stream_finish e (from_stream_tail e (from_stream_loop e fmt (from_stream_begin i))) fds abbrev offset)"

section \<open>The overloads\<close>

text \<open>The value that is stored, if the stream has not failed, and the stream.\<close>

definition parse_checked ::
  "parse_env \<Rightarrow> string \<Rightarrow> (fields \<Rightarrow> bool) \<Rightarrow> (fields \<Rightarrow> 'v) \<Rightarrow> istream \<Rightarrow> 'v option \<times> istream" where
  "parse_checked e fmt ok f i =
     (case from_stream e fmt (fields_new (pe_den e) None None None) None None i of (i1, fds, _, _) \<Rightarrow>
        (let i2 = (if ok fds then i1 else set_fail i1) in (if is_fail i2 then None else Some (f fds), i2)))"

definition parse_year :: "parse_env \<Rightarrow> string \<Rightarrow> istream \<Rightarrow> year option \<times> istream" where
  "parse_year e fmt = parse_checked e fmt (\<lambda>fds. year_ok (ymd_year (fd_ymd fds))) (\<lambda>fds. ymd_year (fd_ymd fds))"

definition parse_month :: "parse_env \<Rightarrow> string \<Rightarrow> istream \<Rightarrow> month option \<times> istream" where
  "parse_month e fmt = parse_checked e fmt (\<lambda>fds. month_ok (ymd_month (fd_ymd fds))) (\<lambda>fds. ymd_month (fd_ymd fds))"

definition parse_day :: "parse_env \<Rightarrow> string \<Rightarrow> istream \<Rightarrow> day option \<times> istream" where
  "parse_day e fmt = parse_checked e fmt (\<lambda>fds. day_ok (ymd_day (fd_ymd fds))) (\<lambda>fds. ymd_day (fd_ymd fds))"

definition parse_weekday :: "parse_env \<Rightarrow> string \<Rightarrow> istream \<Rightarrow> weekday option \<times> istream" where
  "parse_weekday e fmt = parse_checked e fmt (\<lambda>fds. weekday_ok (fd_wd fds)) fd_wd"

definition parse_year_month :: "parse_env \<Rightarrow> string \<Rightarrow> istream \<Rightarrow> year_month option \<times> istream" where
  "parse_year_month e fmt =
     parse_checked e fmt (\<lambda>fds. month_ok (ymd_month (fd_ymd fds)))
       (\<lambda>fds. year_month_new (ymd_year (fd_ymd fds)) (ymd_month (fd_ymd fds)))"

definition parse_month_day :: "parse_env \<Rightarrow> string \<Rightarrow> istream \<Rightarrow> month_day option \<times> istream" where
  "parse_month_day e fmt =
     parse_checked e fmt (\<lambda>fds. month_ok (ymd_month (fd_ymd fds)) \<and> day_ok (ymd_day (fd_ymd fds)))
       (\<lambda>fds. month_day_new (ymd_month (fd_ymd fds)) (ymd_day (fd_ymd fds)))"

definition parse_ymd :: "parse_env \<Rightarrow> string \<Rightarrow> istream \<Rightarrow> year_month_day option \<times> istream" where
  "parse_ymd e fmt = parse_checked e fmt (\<lambda>fds. ymd_ok (fd_ymd fds)) fd_ymd"

text \<open>A time point counts the period \<open>to\<close>; the fields count its common period with seconds, \<open>1 / pe_den e\<close>.\<close>

definition parse_sys_time :: "parse_env \<Rightarrow> ratio \<Rightarrow> string \<Rightarrow> istream \<Rightarrow> int option \<times> istream" where
  "parse_sys_time e to fmt i =
     (let p = \<lparr>rnum = 1, rden = pe_den e\<rparr>; u = rden (dfs_precision (pe_den e))
      in case from_stream e fmt ((fields_new (pe_den e) None None None)\<lparr>fd_has_tod := True\<rparr>) None (Some 0) i of
           (i1, fds, _, offset) \<Rightarrow>
             (let i2 = (if \<not> ymd_ok (fd_ymd fds) \<or> \<not> hms_in_conventional_range p (fd_tod fds) then set_fail i1 else i1)
              in (if is_fail i2 then None
                  else Some (dur_round to (dfs_precision (pe_den e))
                         (to_days (fd_ymd fds) * 86400 * u - the offset * 60 * u + hms_to_duration p (fd_tod fds))), i2)))"

definition parse_local_time :: "parse_env \<Rightarrow> ratio \<Rightarrow> string \<Rightarrow> istream \<Rightarrow> int option \<times> istream" where
  "parse_local_time e to fmt i =
     (let p = \<lparr>rnum = 1, rden = pe_den e\<rparr>; u = rden (dfs_precision (pe_den e))
      in case from_stream e fmt ((fields_new (pe_den e) None None None)\<lparr>fd_has_tod := True\<rparr>) None None i of
           (i1, fds, _, _) \<Rightarrow>
             (let i2 = (if \<not> ymd_ok (fd_ymd fds) \<or> \<not> hms_in_conventional_range p (fd_tod fds) then set_fail i1 else i1)
              in (if is_fail i2 then None
                  else Some (dur_round to (dfs_precision (pe_den e))
                         (to_days (fd_ymd fds) * 86400 * u + hms_to_duration p (fd_tod fds))), i2)))"

definition parse_duration :: "parse_env \<Rightarrow> ratio \<Rightarrow> string \<Rightarrow> istream \<Rightarrow> int option \<times> istream" where
  "parse_duration e to fmt =
     parse_checked e fmt fd_has_tod
       (\<lambda>fds. dur_round to (dfs_precision (pe_den e)) (hms_to_duration \<lparr>rnum = 1, rden = pe_den e\<rparr> (fd_tod fds)))"

section \<open>The manipulator\<close>

text \<open>\<^verbatim>\<open>is >> parse(format, tp, abbrev, offset)\<close>: the manipulator keeps the format, a reference to the value and the two
  pointers, of which the overloads of \<^verbatim>\<open>parse\<close> leave out one or both; the extraction calls the \<^verbatim>\<open>from_stream\<close> of the type
  of the value, here the argument \<open>from\<close>, with the format as a C string.\<close>

record parse_manip =
  pm_format :: string
  pm_abbrev :: "string option"
  pm_offset :: "int option"

definition parse_manip_new :: "string \<Rightarrow> string option \<Rightarrow> int option \<Rightarrow> parse_manip" where
  "parse_manip_new format abbrev offset = \<lparr>pm_format = format, pm_abbrev = abbrev, pm_offset = offset\<rparr>"

definition parse :: "string \<Rightarrow> string option \<Rightarrow> int option \<Rightarrow> parse_manip" where
  "parse format abbrev offset = parse_manip_new format abbrev offset"

definition parse_extract ::
  "(string \<Rightarrow> string option \<Rightarrow> int option \<Rightarrow> istream \<Rightarrow> 'r) \<Rightarrow> istream \<Rightarrow> parse_manip \<Rightarrow> 'r" where
  "parse_extract from i x = from (c_str (pm_format x)) (pm_abbrev x) (pm_offset x) i"

text \<open>A format is read up to a zero in it, and unchanged without one.\<close>

lemma parse_extract_format:
  assumes "NUL \<notin> set fmt"
  shows "parse_extract from i (parse (fmt @ rest) a off) = from (fmt @ c_str rest) a off i"
proof -
  have "c_str (fmt @ rest) = fmt @ c_str rest" using assms by (auto simp: c_str_def takeWhile_append)
  then show ?thesis by (simp add: parse_extract_def parse_def parse_manip_new_def)
qed

end
