(* ===== verification/Date_Parse_Run.thy ===== *)
theory Date_Parse_Run
  imports Date_Resolve Date_Format_Run
begin

text \<open>
  Runs of the input interpreter on texts that the output interpreter has printed: a number of fixed
  width is read back, a directive takes its text off the stream and sets its variables.
\<close>

section \<open>Digits\<close>

lemma show_nat_digits: "list_all is_digit (show_nat n)"
proof (induction n rule: show_nat.induct)
  case (1 n)
  then show ?case by (subst show_nat.simps) simp
qed

lemma setw0_digits: "list_all is_digit (setw0 w (show_nat n))"
  using show_nat_digits [of n] by (auto simp: setw0_def list_all_iff is_digit_def)

lemma digits_word:
  "foldl (\<lambda>x c. 10 * x + of_nat (digit_val c)) (of_nat k :: 'a :: len word) s =
     of_nat (foldl (\<lambda>n c. n * 10 + digit_val c) k s)"
proof (induction s arbitrary: k)
  case (Cons c s)
  then show ?case using Cons [of "k * 10 + digit_val c"] by (simp add: algebra_simps)
qed simp

lemma digits_value:
  "foldl (\<lambda>x c. 10 * x + of_nat (digit_val c)) (0 :: 'a :: len word) (setw0 w (show_nat n)) = of_nat n"
  using digits_word [of 0 "setw0 w (show_nat n)"] nat_of_digits_setw0 [of w n] by (simp add: nat_of_digits_def)

lemma unat_Suc_below:
  fixes x M :: "'a :: len word"
  assumes "unat x + k = unat M" and "0 < k"
  shows "unat (x + 1) = unat x + 1" and "x + 1 = M \<longleftrightarrow> k = 1"
proof -
  have "unat M < 2 ^ LENGTH('a)" by (rule unsigned_less)
  then have "unat x + 1 < 2 ^ LENGTH('a)" using assms by linarith
  then show u: "unat (x + 1) = unat x + 1" by (simp add: unat_word_ariths del: add_Suc_right)
  show "x + 1 = M \<longleftrightarrow> k = 1" unfolding word_unat_eq_iff u using assms by auto
qed

lemma read_digits_field:
  assumes "list_all is_digit s" and "s \<noteq> []" and "unat count + length s = unat M"
  shows "read_digits M x count (s @ r) = (foldl (\<lambda>x c. 10 * x + of_nat (digit_val c)) x s, M, False, r)"
  using assms
proof (induction s arbitrary: x count)
  case (Cons c s)
  note u = unat_Suc_below [OF Cons.prems(3)]
  show ?case
  proof (cases s)
    case Nil
    with Cons.prems u show ?thesis by (simp add: Let_def)
  next
    case (Cons c' s')
    then have "s \<noteq> []" by simp
    with Cons.IH [of "count + 1"] Cons.prems u show ?thesis by (simp add: Let_def)
  qed
qed simp

lemma read_decimal_whole:
  assumes "list_all is_digit s" and "\<not> is_digit point" and "unat count + length s < unat M"
  shows "read_decimal point M False x count (s @ r) =
     read_decimal point M False (x\<lparr>dec_i := foldl (\<lambda>x c. 10 * x + of_nat (digit_val c)) (dec_i x) s\<rparr>) (count + of_nat (length s)) r"
  using assms
proof (induction s arbitrary: x count)
  case (Cons c s)
  have n: "unat count + (unat M - unat count) = unat M" "0 < unat M - unat count" using Cons.prems(3) by simp_all
  note u = unat_Suc_below [OF n]
  have "c \<noteq> point" using Cons.prems(1,2) by auto
  moreover have "count + 1 \<noteq> M" using u(2) Cons.prems(3) by auto
  ultimately show ?case using Cons.IH [of "count + 1"] Cons.prems u(1) by (simp add: Let_def add.assoc)
qed simp

lemma read_decimal_fraction:
  assumes "list_all is_digit s" and "s \<noteq> []" and "unat count + length s = unat M"
  shows "read_decimal point M True x count (s @ r) =
     (x\<lparr>dec_f := foldl (\<lambda>x c. 10 * x + of_nat (digit_val c)) (dec_f x) s, dec_fcount := dec_fcount x + of_nat (length s)\<rparr>, M, False, r)"
  using assms
proof (induction s arbitrary: x count)
  case (Cons c s)
  note u = unat_Suc_below [OF Cons.prems(3)]
  show ?case
  proof (cases s)
    case Nil
    with Cons.prems u show ?thesis by (simp add: Let_def)
  next
    case (Cons c' s')
    then have "s \<noteq> []" by simp
    with Cons.IH [of "count + 1"] Cons.prems u show ?thesis by (simp add: Let_def add.assoc)
  qed
qed simp

section \<open>Reading printed numbers\<close>

lemma istream_new_simps [simp]:
  "is_good (istream_new s)" "\<not> is_fail (istream_new s)" "\<not> is_eof (istream_new s)" "is_buf (istream_new s) = s"
  "(istream_new s)\<lparr>is_eof := False\<rparr> = istream_new s" "(istream_new s)\<lparr>is_buf := r\<rparr> = istream_new r"
  by (simp_all add: istream_new_def is_good_def)

lemma sint_of_nat_u32: "n < 2 ^ 31 \<Longrightarrow> sint (of_nat n :: u32) = int n"
  using sint_of_int_u32 [of "int n"] by simp

lemma read_unsigned_field:
  assumes "0 < w" and "n < 10 ^ w" and "unat M = w" and "m \<le> M"
  shows "read_unsigned m M (istream_new (setw0 w (show_nat n) @ r)) = (of_nat n, istream_new r)"
proof -
  have l: "length (setw0 w (show_nat n)) = w" using assms by (simp add: setw0_length)
  then have "read_digits M 0 0 (setw0 w (show_nat n) @ r) = (of_nat n, M, False, r)"
    using assms by (subst read_digits_field) (auto simp: setw0_digits digits_value)
  with assms(4) show ?thesis by (simp add: read_unsigned_def Let_def)
qed

lemma read_signed_field:
  assumes "0 < w" and "n < 10 ^ w" and "unat M = w" and "m \<le> M" and "n < 2 ^ 31"
  shows "read_signed m M (istream_new (setw0 w (show_nat n) @ r)) = (int n, istream_new r)"
proof -
  obtain c s where s: "setw0 w (show_nat n) @ r = c # s" and c: "is_digit c"
    using setw0_length [OF assms(1,2)] setw0_digits [of w n] assms(1) by (cases "setw0 w (show_nat n)") auto
  have "1 \<le> M" using assms(1,3) by (metis One_nat_def Suc_leI unat_1 word_le_nat_alt)
  then have u: "read_unsigned (max m 1) M (istream_new (c # s)) = (of_nat n, istream_new r)"
    using read_unsigned_field [OF assms(1-3), of "max m 1" r] assms(4) by (simp add: s)
  have "c \<noteq> CHR ''-''" "c \<noteq> CHR ''+''" using c by (auto simp: is_digit_def)
  moreover have "sint (of_nat n :: u32) = int n" by (rule sint_of_nat_u32 [OF assms(5)])
  ultimately show ?thesis using c u by (simp add: read_signed_def is_peek_def s)
qed

lemma read_literal_hit: "c \<noteq> NUL \<Longrightarrow> read_literal c (istream_new (c # r)) = istream_new r"
  by (simp add: read_literal_def is_peek_def is_get_def)

lemma read_seconds:
  assumes "a < 100" and "b < 10 ^ k" and "0 < k" and "\<not> is_digit point" and "unat M = 3 + k" and "m \<le> M"
  shows "read_long_double point m M (istream_new (setw0 2 (show_nat a) @ point # setw0 k (show_nat b) @ r)) =
     (\<lparr>dec_i = of_nat a, dec_f = of_nat b, dec_fcount = of_nat k\<rparr>, istream_new r)"
proof -
  let ?x = "\<lparr>dec_i = of_nat a, dec_f = 0, dec_fcount = 0\<rparr>"
  have l: "length (setw0 2 (show_nat a)) = 2" "length (setw0 k (show_nat b)) = k" using assms by (simp_all add: setw0_length)
  have M: "2 + 1 \<noteq> M" "unat (3 :: u32) + k = unat M"
    using assms(3,5) by auto
  have "read_decimal point M False decimal_zero 0 (setw0 2 (show_nat a) @ point # setw0 k (show_nat b) @ r) =
      read_decimal point M False ?x 2 (point # setw0 k (show_nat b) @ r)"
    using assms by (subst read_decimal_whole) (simp_all add: setw0_digits l decimal_zero_def digits_value)
  also have "\<dots> = read_decimal point M True ?x 3 (setw0 k (show_nat b) @ r)"
    using M(1) by (simp add: Let_def)
  also have "\<dots> = (\<lparr>dec_i = of_nat a, dec_f = of_nat b, dec_fcount = of_nat k\<rparr>, M, False, r)"
    using M(2) assms(3) l by (subst read_decimal_fraction) (auto simp: setw0_digits digits_value)
  finally show ?thesis using assms(6) by (simp add: read_long_double_def Let_def)
qed

section \<open>Steps of the loop\<close>

definition ps_idle :: "parse_state \<Rightarrow> bool" where
  "ps_idle st \<longleftrightarrow> ps_cmd st = None \<and> ps_width st = - 1 \<and> ps_mod st = NUL"

lemma begin_idle [simp]: "ps_idle (from_stream_begin i)"
  by (simp add: ps_idle_def from_stream_begin_def)

text \<open>A directive without width and modifier.\<close>

lemma loop_scan:
  assumes "ps_idle st" and "\<not> ps_failed st" and "scan c = Some f" and "\<not> is_digit c" and "c \<noteq> CHR ''%''"
  shows "from_stream_loop e (CHR ''%'' # c # cs) st = from_stream_loop e cs (f e c (st\<lparr>ps_cmd := Some ''%''\<rparr>))"
proof -
  have "\<not> starts_width (CHR ''%'') st" "scan_step e (CHR ''%'') st = st\<lparr>ps_cmd := Some ''%''\<rparr>"
    using assms(1) by (simp_all add: starts_width_def ps_idle_def scan_step_def)
  moreover have "\<not> starts_width c (st\<lparr>ps_cmd := Some ''%''\<rparr>)" using assms(4) by (simp add: starts_width_def)
  ultimately show ?thesis using assms(2,3) by (simp add: scan_step_def ps_failed_def from_stream_loop.simps)
qed

text \<open>Literal text that is no white space, and a space before text that does not start with one.\<close>

lemma loop_literal:
  assumes "ps_idle st" and "ps_is st = istream_new (c # r)" and "c \<noteq> CHR ''%''" and "c \<noteq> NUL" and "\<not> is_space c"
  shows "from_stream_loop e (c # cs) st = from_stream_loop e cs (st\<lparr>ps_is := istream_new r\<rparr>)"
  using assms by (simp add: starts_width_def ps_idle_def scan_step_def ps_failed_def rd_def read_literal_hit Let_def
      from_stream_loop.simps)

lemma loop_space:
  assumes "ps_idle st" and "ps_is st = istream_new (CHR '' '' # c # r)" and "\<not> is_space c"
  shows "from_stream_loop e (CHR '' '' # cs) st = from_stream_loop e cs (st\<lparr>ps_is := istream_new (c # r)\<rparr>)"
proof -
  have sp: "is_space (CHR '' '')" "scan (CHR '' '') = None" by (simp_all add: is_space_def scan_def)
  have "is_ws (istream_new (CHR '' '' # c # r)) = istream_new (c # r)"
    using assms(3) sp by (simp add: is_ws_def Let_def istream_new_def)
  with assms sp show ?thesis by (simp add: starts_width_def ps_idle_def scan_step_def ps_failed_def from_stream_loop.simps)
qed

lemma scan_table:
  "scan (CHR ''F'') = Some scan_F" "scan (CHR ''T'') = Some scan_T" "scan (CHR ''G'') = Some scan_G" "scan (CHR ''V'') = Some scan_V"
  "scan (CHR ''u'') = Some scan_a" "scan (CHR ''H'') = Some scan_H" "scan (CHR ''I'') = Some scan_I"
  by (simp_all add: scan_def)

lemma letters_no_digits:
  "\<not> is_digit (CHR ''F'')" "\<not> is_digit (CHR ''T'')" "\<not> is_digit (CHR ''G'')" "\<not> is_digit (CHR ''V'')"
  "\<not> is_digit (CHR ''u'')" "\<not> is_digit (CHR ''H'')" "\<not> is_digit (CHR ''I'')"
  by (simp_all add: is_digit_def)

lemmas read_fields =
  read_unsigned_field [of 2 _ 2, simplified] read_unsigned_field [of 1 _ 1, simplified]
  read_signed_field [of 4 _ 4, simplified] read_signed_field [of 2 _ 2, simplified]

lemmas scan_simps =
  rd_def rd_field_def width_or_def checked_set_def ps_failed_def val_int_def val_dec_def read_literal_hit sint_of_nat_u32
  not_a_year_def not_a_month_def not_a_day_def not_a_hour_def not_a_minute_def not_a_week_num_def not_a_weekday_def
  not_a_hour_12_value_def NUL_def

text \<open>What each directive does to a state without a pending command.\<close>

lemma scan_F_run:
  assumes "ps_idle st" and "ps_Y st = not_a_year" and "ps_m st = not_a_month" and "ps_d st = not_a_day"
    and "y < 10000" and "m < 100" and "d < 100"
    and "ps_is st = istream_new (setw0 4 (show_nat y) @ CHR ''-'' # setw0 2 (show_nat m) @ CHR ''-'' # setw0 2 (show_nat d) @ r)"
  shows "scan_F e c (st\<lparr>ps_cmd := Some f\<rparr>) = st\<lparr>ps_Y := int y, ps_m := int m, ps_d := int d, ps_is := istream_new r\<rparr>"
  using assms by (cases st) (simp add: scan_F_def ps_idle_def ps_reset_def read_fields scan_simps)

lemma scan_H_run:
  assumes "ps_idle st" and "ps_H st = not_a_hour" and "h < 100" and "ps_is st = istream_new (setw0 2 (show_nat h) @ r)"
  shows "scan_H e c (st\<lparr>ps_cmd := Some f\<rparr>) = st\<lparr>ps_H := int h, ps_is := istream_new r\<rparr>"
  using assms by (cases st) (simp add: scan_H_def ps_idle_def ps_reset_def read_fields scan_simps)

lemma scan_I_run:
  assumes "ps_idle st" and "ps_I st = not_a_hour_12_value" and "1 \<le> h" and "h \<le> 12"
    and "ps_is st = istream_new (setw0 2 (show_nat h) @ r)"
  shows "scan_I e c (st\<lparr>ps_cmd := Some f\<rparr>) = st\<lparr>ps_I := int h, ps_is := istream_new r\<rparr>"
  using assms by (cases st) (simp add: scan_I_def ps_idle_def ps_reset_def read_fields scan_simps)

lemma scan_G_run:
  assumes "ps_idle st" and "ps_G st = not_a_year" and "g < 10000" and "ps_is st = istream_new (setw0 4 (show_nat g) @ r)"
  shows "scan_G e c (st\<lparr>ps_cmd := Some f\<rparr>) = st\<lparr>ps_G := int g, ps_is := istream_new r\<rparr>"
  using assms by (cases st) (simp add: scan_G_def ps_idle_def ps_reset_def read_fields scan_simps)

lemma scan_V_run:
  assumes "ps_idle st" and "ps_V st = not_a_week_num" and "v < 100" and "ps_is st = istream_new (setw0 2 (show_nat v) @ r)"
  shows "scan_V e c (st\<lparr>ps_cmd := Some f\<rparr>) = st\<lparr>ps_V := int v, ps_is := istream_new r\<rparr>"
  using assms by (cases st) (simp add: scan_V_def ps_idle_def ps_reset_def read_fields scan_simps)

lemma scan_u_run:
  assumes "ps_idle st" and "ps_wd st = not_a_weekday" and "1 \<le> w" and "w \<le> 7" and "ps_is st = istream_new (setw0 1 (show_nat w) @ r)"
  shows "scan_a e (CHR ''u'') (st\<lparr>ps_cmd := Some f\<rparr>) =
    st\<lparr>ps_wd := if w = 7 then 0 else int w, ps_is := istream_new r\<rparr>"
  using assms by (cases st) (simp add: scan_a_def ps_idle_def ps_reset_def read_fields scan_simps)

text \<open>\<^verbatim>\<open>%T\<close> of a clock with \<open>k\<close> fractional digits.\<close>

lemma scan_T_run:
  assumes "ps_idle st" and "ps_H st = not_a_hour" and "ps_M st = not_a_minute" and "ps_s st = not_a_second"
    and "h < 100" and "m < 100" and "a < 100" and "b < 10 ^ k" and "0 < k" and "k < 19" and "\<not> is_digit (pe_point e)"
    and "dfs_width (pe_den e) = k" and "pe_den e \<noteq> 1"
    and "ps_is st = istream_new (setw0 2 (show_nat h) @ CHR '':'' # setw0 2 (show_nat m) @ CHR '':'' #
           setw0 2 (show_nat a) @ pe_point e # setw0 k (show_nat b) @ r)"
  shows "scan_T e c (st\<lparr>ps_cmd := Some f\<rparr>) =
    st\<lparr>ps_H := int h, ps_M := int m, ps_s := pe_round e \<lparr>dec_i = of_nat a, dec_f = of_nat b, dec_fcount = of_nat k\<rparr>,
       ps_is := istream_new r\<rparr>"
proof -
  have u: "unat (3 + of_nat k :: u32) = 3 + k" using assms(10) by (simp add: unat_word_ariths unat_u32_of_nat)
  then have "1 \<le> (3 + of_nat k :: u32)" by (simp add: word_le_nat_alt)
  note rs = read_seconds [OF assms(7,8,9,11) u this]
  show ?thesis
    using assms by (cases st) (simp add: scan_T_def seconds_width_def ps_idle_def ps_reset_def read_fields rs scan_simps)
qed

end
