(* ===== verification/Parse_Properties.thy ===== *)
theory Parse_Properties
  imports Date_Parse_Run
begin

text \<open>
  The properties of the input interpreter: what the output interpreter prints is read back, what is read
  is consistent, and where the two do not fit together.
\<close>

section \<open>Making a date\<close>

lemma month_new_of_uint: "month_new (of_int (uint (month_m m))) = m"
proof -
  have "uint (month_m (month_new (of_int (uint (month_m m))))) = uint (month_m m)"
    using uint_bounded [of "month_m m"] by (intro month_new_uint) simp_all
  then show ?thesis by (intro month.expand) (simp add: word_uint_eq_iff)
qed

lemma day_new_of_uint: "day_new (of_int (uint (day_d d))) = d"
proof -
  have "uint (day_d (day_new (of_int (uint (day_d d))))) = uint (day_d d)"
    using uint_bounded [of "day_d d"] by (intro day_new_uint) simp_all
  then show ?thesis by (intro day.expand) (simp add: word_uint_eq_iff)
qed

text \<open>A year, a month and a day alone.\<close>

lemma resolve_date_ymd:
  assumes "ymd_ok x" and "ps_Y st = year_int (ymd_year x)" and "ps_m st = uint (month_m (ymd_month x))"
    and "ps_d st = uint (day_d (ymd_day x))"
    and "ps_y st = not_a_2digit_year" and "ps_g st = not_a_2digit_year" and "ps_G st = not_a_year" and "ps_wd st = not_a_weekday"
    and "ps_j st = not_a_doy" and "ps_U st = not_a_week_num" and "ps_V st = not_a_week_num" and "ps_W st = not_a_week_num"
  shows "resolve_date st = Some (x, weekday_of_date x, not_a_doy)"
proof -
  have y: "year_int year_min \<le> year_int (ymd_year x)" "year_int (ymd_year x) \<le> year_int year_max"
    using assms(1) using year_int_bound [of "ymd_year x"] by (auto simp: ymd_ok_iff year_ok_def year_min_def year_max_def year_int_new)
  have "year_month_day_new (ymd_year x) (ymd_month x) (ymd_day x) = x" by (simp add: year_month_day_new_def)
  with assms y show ?thesis
    by (simp add: resolve_date_def resolve_2digit_def week_trial_def day_of_year_trial_def month_new_of_uint [simplified]
        day_new_of_uint [simplified] check_date_def iso_agrees_def week_agrees_def Let_def)
qed

section \<open>Reading back a time point\<close>

lemma begin_simps [simp]:
  "ps_is (from_stream_begin i) = i" "ps_Y (from_stream_begin i) = not_a_year" "ps_y (from_stream_begin i) = not_a_2digit_year"
  "ps_g (from_stream_begin i) = not_a_2digit_year" "ps_G (from_stream_begin i) = not_a_year" "ps_C (from_stream_begin i) = not_a_century"
  "ps_m (from_stream_begin i) = not_a_month" "ps_d (from_stream_begin i) = not_a_day" "ps_j (from_stream_begin i) = not_a_doy"
  "ps_wd (from_stream_begin i) = not_a_weekday" "ps_H (from_stream_begin i) = not_a_hour"
  "ps_I (from_stream_begin i) = not_a_hour_12_value" "ps_p (from_stream_begin i) = not_a_ampm"
  "ps_M (from_stream_begin i) = not_a_minute" "ps_s (from_stream_begin i) = not_a_second"
  "ps_U (from_stream_begin i) = not_a_week_num" "ps_V (from_stream_begin i) = not_a_week_num"
  "ps_W (from_stream_begin i) = not_a_week_num" "ps_offset (from_stream_begin i) = not_a_offset"
  by (simp_all add: from_stream_begin_def)

lemma tail_idle: "ps_idle st \<Longrightarrow> from_stream_tail e st = st"
  by (simp add: from_stream_tail_def ps_idle_def)

lemma idle_updates [simp]:
  "ps_idle (ps_is_update f st) = ps_idle st" "ps_idle (ps_Y_update g st) = ps_idle st" "ps_idle (ps_m_update g st) = ps_idle st"
  "ps_idle (ps_d_update g st) = ps_idle st" "ps_idle (ps_H_update g st) = ps_idle st" "ps_idle (ps_M_update g st) = ps_idle st"
  "ps_idle (ps_s_update g st) = ps_idle st" "ps_idle (ps_G_update g st) = ps_idle st" "ps_idle (ps_V_update g st) = ps_idle st"
  "ps_idle (ps_wd_update g st) = ps_idle st" "ps_idle (ps_I_update g st) = ps_idle st"
  by (simp_all add: ps_idle_def)

lemma digits_no_space:
  assumes "setw0 w (show_nat n) = c # s"
  shows "\<not> is_space c"
  using setw0_digits [of w n] assms by (auto simp: is_digit_def is_space_def)

text \<open>The state after \<^verbatim>\<open>%F %T\<close>.\<close>

lemma loop_FT:
  assumes "y < 10000" and "mo < 100" and "d < 100" and "h < 24" and "m < 60" and "sc < 60" and "ms < 1000"
    and "pe_den e = 1000" and "\<not> is_digit (pe_point e)"
    and i: "i = istream_new (setw0 4 (show_nat y) @ CHR ''-'' # setw0 2 (show_nat mo) @ CHR ''-'' # setw0 2 (show_nat d) @ CHR '' '' #
        setw0 2 (show_nat h) @ CHR '':'' # setw0 2 (show_nat m) @ CHR '':'' # setw0 2 (show_nat sc) @ pe_point e # setw0 3 (show_nat ms))"
  shows "from_stream_loop e ''%F %T'' (from_stream_begin i) =
    (from_stream_begin i)\<lparr>ps_Y := int y, ps_m := int mo, ps_d := int d, ps_H := int h, ps_M := int m,
       ps_s := pe_round e \<lparr>dec_i = of_nat sc, dec_f = of_nat ms, dec_fcount = 3\<rparr>, ps_is := istream_new []\<rparr>"
proof -
  define T where "T = CHR '':'' # setw0 2 (show_nat m) @ CHR '':'' # setw0 2 (show_nat sc) @ pe_point e # setw0 3 (show_nat ms)"
  define st where "st = (from_stream_begin i)\<lparr>ps_Y := int y, ps_m := int mo, ps_d := int d,
      ps_is := istream_new (CHR '' '' # setw0 2 (show_nat h) @ T)\<rparr>"
  define st' where "st' = st\<lparr>ps_is := istream_new (setw0 2 (show_nat h) @ T)\<rparr>"
  have F: "scan_F e (CHR ''F'') ((from_stream_begin i)\<lparr>ps_cmd := Some ''%''\<rparr>) = st"
    unfolding st_def by (rule scan_F_run) (use assms(1-3) in \<open>simp_all add: i T_def\<close>)
  have T: "scan_T e (CHR ''T'') (st'\<lparr>ps_cmd := Some ''%''\<rparr>) = st'\<lparr>ps_H := int h, ps_M := int m,
       ps_s := pe_round e \<lparr>dec_i = of_nat sc, dec_f = of_nat ms, dec_fcount = of_nat 3\<rparr>, ps_is := istream_new []\<rparr>"
    by (rule scan_T_run) (use assms(4-9) in \<open>simp_all add: st'_def st_def T_def dfs_width_milli\<close>)
  obtain c s where cs: "setw0 2 (show_nat h) = c # s"
    using setw0_length [of 2 h] assms(4) by (cases "setw0 2 (show_nat h)") simp_all
  have sp: "from_stream_loop e '' %T'' st = from_stream_loop e ''%T'' st'"
    using loop_space [of st c "s @ T"] digits_no_space [OF cs] cs by (simp add: st_def st'_def)
  have nf: "\<not> ps_failed (from_stream_begin i)" "\<not> ps_failed st'" by (simp_all add: ps_failed_def i st'_def)
  have "from_stream_loop e ''%F %T'' (from_stream_begin i) = from_stream_loop e '' %T'' st"
    using loop_scan [OF begin_idle nf(1) scan_table(1) letters_no_digits(1), of e "'' %T''"] F by simp
  also have "\<dots> = from_stream_loop e [] (scan_T e (CHR ''T'') (st'\<lparr>ps_cmd := Some ''%''\<rparr>))"
    unfolding sp using loop_scan [OF _ nf(2) scan_table(2) letters_no_digits(2), of e "[]"] by (simp add: st'_def st_def)
  finally show ?thesis unfolding T by (simp add: st'_def st_def)
qed

lemma dur_round_same:
  assumes "ratio_ok p"
  shows "dur_round p p x = x"
  using assms dur_floor_div [OF assms assms, of x] by (simp add: dur_round_def Let_def ratio_ok_def)

lemma milli_second_split:
  assumes "sc < 60" and "ms < 1000"
  shows "decimal_format_seconds_new 1000 (int sc * 1000 + int ms) = \<lparr>dfs_s = int sc, dfs_sub_s = int ms\<rparr>"
  using assms dfs_precision_power [of 1000]
  by (simp add: decimal_format_seconds_new_def Let_def duration_cast_def seconds_period_def dfs_width_milli sdiv_pos dfs_precision_def)

lemma hours_split:
  assumes "0 \<le> h" and "0 < den"
  shows "hh_mm_ss_new \<lparr>rnum = 1, rden = den\<rparr> (h * 3600 * den) =
    \<lparr>hms_h = h, hms_m = 0, hms_s = \<lparr>dfs_s = 0, dfs_sub_s = 0\<rparr>, hms_neg = False\<rparr>"
proof -
  have a: "dur_abs (h * 3600 * den) = h * 3600 * den" "\<not> h * 3600 * den < 0"
    using assms by (simp_all add: dur_abs_def mult_less_0_iff)
  have c: "duration_cast hours_period \<lparr>rnum = 1, rden = den\<rparr> (h * 3600 * den) = h"
    "duration_cast minutes_period \<lparr>rnum = 1, rden = den\<rparr> (h * 3600 * den) = h * 60"
    using assms by (simp_all add: duration_cast_def hours_period_def minutes_period_def sdiv_pos)
  have "decimal_format_seconds_new den 0 = \<lparr>dfs_s = 0, dfs_sub_s = 0\<rparr>"
    by (simp add: decimal_format_seconds_new_def duration_cast_def Let_def)
  with a c show ?thesis by (simp add: hh_mm_ss_new_def Let_def)
qed

text \<open>A time of day of a millisecond clock from its parts.\<close>

definition milli_tod :: "nat \<Rightarrow> nat \<Rightarrow> nat \<Rightarrow> nat \<Rightarrow> hh_mm_ss" where
  "milli_tod h m sc ms = \<lparr>hms_h = int h, hms_m = int m, hms_s = \<lparr>dfs_s = int sc, dfs_sub_s = int ms\<rparr>, hms_neg = False\<rparr>"

lemma milli_precision: "dfs_precision 1000 = milli_period"
  using dfs_precision_power [of 1000] by (simp add: dfs_width_milli dfs_precision_def milli_period_def)

lemma milli_tod_spec:
  assumes "h < 24" and "m < 60" and "sc < 60" and "ms < 1000"
  shows "hms_to_duration \<lparr>rnum = 1, rden = 1000\<rparr> (milli_tod h m sc ms) = int h * 3600000 + int m * 60000 + int sc * 1000 + int ms"
    and "hms_in_conventional_range \<lparr>rnum = 1, rden = 1000\<rparr> (milli_tod h m sc ms)"
    and "pe_den e = 1000 \<Longrightarrow> set_tod e (int h) (int m) (int sc * 1000 + int ms) not_a_doy fds =
      fds\<lparr>fd_has_tod := True, fd_tod := milli_tod h m sc ms\<rparr>"
proof -
  show "hms_to_duration \<lparr>rnum = 1, rden = 1000\<rparr> (milli_tod h m sc ms) = int h * 3600000 + int m * 60000 + int sc * 1000 + int ms"
    by (simp add: hms_to_duration_def dfs_to_duration_def milli_tod_def milli_precision milli_period_def)
  show "hms_in_conventional_range \<lparr>rnum = 1, rden = 1000\<rparr> (milli_tod h m sc ms)"
    using assms by (simp add: hms_in_conventional_range_def dfs_in_conventional_range_def milli_tod_def dur_less_def hours_period_def
        days_period_def minutes_period_def seconds_period_def milli_precision milli_period_def)
  show "set_tod e (int h) (int m) (int sc * 1000 + int ms) not_a_doy fds =
      fds\<lparr>fd_has_tod := True, fd_tod := milli_tod h m sc ms\<rparr>" if "pe_den e = 1000"
    using hours_split [of "int h" 1000] milli_second_split [OF assms(3,4)] that
    by (cases fds) (simp add: set_tod_def milli_tod_def not_a_hour_def not_a_minute_def not_a_second_def)
qed

text \<open>The weekday of a date as a number.\<close>

lemma weekday_of_date_range: "0 \<le> weekday_of_date x" "weekday_of_date x < 7" "weekday_of_date x \<noteq> not_a_weekday"
proof -
  show "0 \<le> weekday_of_date x" "weekday_of_date x < 7" by (simp_all add: weekday_of_date_def weekday_diff_mod)
  then show "weekday_of_date x \<noteq> not_a_weekday" by (simp add: not_a_weekday_def)
qed

lemma weekday_of_date_mod:
  assumes "ymd_ok x"
  shows "weekday_of_date x = (to_days x + 4) mod 7"
proof -
  have "uint (weekday_wd Sunday) = 0" by (simp add: Sunday_def weekday_new_def)
  moreover have "uint (weekday_from_days (to_days x)) = (to_days x + 4) mod 7"
    using to_days_range [OF assms] by (intro weekday_from_days_mod) (simp_all add: min_day_def max_day_def)
  ultimately show ?thesis by (simp add: weekday_of_date_def weekday_diff_mod weekday_of_days_def)
qed

lemma weekday_new_of_date:
  assumes "ymd_ok x"
  shows "weekday_new (of_int (weekday_of_date x)) = weekday_of_days (to_days x)"
proof -
  have "uint (weekday_wd (weekday_new (of_int (weekday_of_date x)))) = weekday_of_date x"
    by (rule weekday_new_uint [OF weekday_of_date_range(1,2)])
  moreover have "uint (weekday_from_days (to_days x)) = (to_days x + 4) mod 7"
    using to_days_range [OF assms] by (intro weekday_from_days_mod) (simp_all add: min_day_def max_day_def)
  ultimately show ?thesis
    by (intro weekday.expand) (simp add: word_uint_eq_iff weekday_of_days_def weekday_of_date_mod [OF assms])
qed

text \<open>Property C28: a time point printed with \<^verbatim>\<open>format("%F %T", t)\<close> is read back by \<^verbatim>\<open>from_stream\<close> with the same
  format: for every count of milliseconds from the year 0 to the year 9999 the stream is consumed to
  its last character and the value is the count that was printed.\<close>

theorem parse_format_round_trip:
  fixes t :: int
  assumes t: "- 719528 * 86400000 \<le> t" "t < 2932897 * 86400000"
    and e: "rounds_exactly e" "pe_den e = 1000" "\<not> is_digit (pe_point e)"
  shows "\<exists>s. format_sys_time facet (pe_point e) 1000 ''%F %T'' t = Some s \<and>
    parse_sys_time e milli_period ''%F %T'' (istream_new s) = (Some t, istream_new [])"
proof -
  define x where "x = from_days (t div 86400000)"
  obtain y mo d h m sc ms where f: "format_sys_time facet (pe_point e) 1000 ''%F %T'' t =
      Some (setw0 4 (show_nat y) @ CHR ''-'' # setw0 2 (show_nat mo) @ CHR ''-'' # setw0 2 (show_nat d) @ CHR '' '' #
        setw0 2 (show_nat h) @ CHR '':'' # setw0 2 (show_nat m) @ CHR '':'' # setw0 2 (show_nat sc) @ pe_point e # setw0 3 (show_nat ms))"
      (is "_ = Some ?s")
    and n: "int y = year_int (ymd_year x)" "int mo = uint (month_m (ymd_month x))" "int d = uint (day_d (ymd_day x))"
    and r: "y < 10000" "mo < 100" "d < 100" "h < 24" "m < 60" "sc < 60" "ms < 1000"
    and sum: "t = ((t div 86400000 * 24 + int h) * 60 + int m) * 60000 + int sc * 1000 + int ms"
    and ok: "ymd_ok x" "to_days x = t div 86400000"
    using sys_time_text [OF t, folded x_def] by blast
  have rnd: "pe_round e \<lparr>dec_i = of_nat sc, dec_f = of_nat ms, dec_fcount = 3\<rparr> = int sc * 1000 + int ms"
    using e(1) [unfolded rounds_exactly_def, rule_format, of sc 3 ms "int sc * 1000 + int ms"] r e(2) by simp
  define st where "st = (from_stream_begin (istream_new ?s))\<lparr>ps_Y := int y, ps_m := int mo, ps_d := int d,
      ps_H := int h, ps_M := int m, ps_s := int sc * 1000 + int ms, ps_is := istream_new []\<rparr>"
  have l: "from_stream_tail e (from_stream_loop e ''%F %T'' (from_stream_begin (istream_new ?s))) = st"
    using loop_FT [OF r e(2,3) refl] rnd by (simp add: tail_idle st_def)
  have rd: "resolve_date st = Some (x, weekday_of_date x, not_a_doy)"
    by (rule resolve_date_ymd) (use ok(1) n in \<open>simp_all add: st_def\<close>)
  have rh: "resolve_hour (ps_I st) (ps_p st) (ps_H st) = Some (int h)" "ps_M st = int m" "ps_s st = int sc * 1000 + int ms"
    by (simp_all add: resolve_hour_def st_def)
  note tod = milli_tod_spec [OF r(4-7)]
  have "dur_round milli_period milli_period t = t" by (rule dur_round_same) (simp add: ratio_ok_def milli_period_def)
  moreover have "to_days x * 86400 * 1000 + (int h * 3600000 + int m * 60000 + int sc * 1000 + int ms) = t"
    unfolding ok(2) using sum by (simp add: algebra_simps)
  ultimately have "parse_sys_time e milli_period ''%F %T'' (istream_new ?s) = (Some t, istream_new [])"
    using ok(1) tod weekday_of_date_range(3) [of x] e(2)
    by (simp add: parse_sys_time_def from_stream_def l from_stream_finish_def rd rh Let_def ps_failed_def st_def [symmetric]
        milli_precision milli_period_def) (simp add: st_def)
  with f show ?thesis by blast
qed

text \<open>An environment with exact arithmetic and a locale that recognises nothing.\<close>

definition exact_env :: "int \<Rightarrow> parse_env" where
  "exact_env den =
     \<lparr>pe_get = (\<lambda>f s t. ((True, False), s, t)), pe_point = CHR ''.'', pe_den = den,
      pe_round = (\<lambda>x. (uint (dec_i x) * 10 ^ unat (dec_fcount x) + uint (dec_f x)) * den div 10 ^ unat (dec_fcount x))\<rparr>"

lemma exact_env_rounds: "rounds_exactly (exact_env den)"
proof -
  have w: "uint (of_nat i :: 64 word) = int i" if "i < 10 ^ 9" for i :: nat
    using that by (simp add: unsigned_of_nat take_bit_nat_eq_self)
  have "f < 10 ^ 9" if "f < 10 ^ k" "k \<le> 9" for f k :: nat
    using that power_increasing [of k 9 "10 :: nat"] by simp
  then have "uint (of_nat f :: 64 word) = int f" if "f < 10 ^ k" "k \<le> 9" for f k :: nat
    using that w by blast
  note f = this
  show ?thesis unfolding rounds_exactly_def
  proof (intro allI impI, elim conjE)
    fix i f k :: nat and n :: int
    assume a: "i < 100" "k \<le> 9" "f < 10 ^ k" "(int i * 10 ^ k + int f) * pe_den (exact_env den) = n * 10 ^ k"
    have "uint (of_nat i :: 64 word) = int i" "uint (of_nat f :: 64 word) = int f" using w a f by simp_all
    with a show "pe_round (exact_env den) \<lparr>dec_i = of_nat i, dec_f = of_nat f, dec_fcount = of_nat k\<rparr> = n"
      by (simp add: exact_env_def unat_u32_of_nat)
  qed
qed

theorem parse_format_round_trip_witness:
  "\<exists>s. format_sys_time (\<lambda>f t. []) (CHR ''.'') 1000 ''%F %T'' 1709210096789 = Some s \<and>
    parse_sys_time (exact_env 1000) milli_period ''%F %T'' (istream_new s) = (Some 1709210096789, istream_new [])"
  using parse_format_round_trip [of 1709210096789 "exact_env 1000" "\<lambda>f t. []"] exact_env_rounds [of 1000]
  by (simp add: exact_env_def is_digit_def)

section \<open>Reading back a week date\<close>

lemma lead0_setw0: "0 \<le> n \<Longrightarrow> n < 100 \<Longrightarrow> lead0 n = setw0 2 (show_nat (nat n))"
  unfolding lead0_def by (rule two_digits)







section \<open>What was read agrees\<close>

lemma resolve_date_weekday:
  assumes "resolve_date st = Some (x, wd, j)" and "ymd_ok x"
  shows "wd = weekday_of_date x"
  using assms by (auto simp: resolve_date_def Let_def check_date_def split: Option.bind_splits if_splits)

lemma set_tod_keeps [simp]: "fd_ymd (set_tod e H M s j fds) = fd_ymd fds" "fd_wd (set_tod e H M s j fds) = fd_wd fds"
  by (simp_all add: set_tod_def Let_def)

text \<open>Property C30: whatever format and input, when \<^verbatim>\<open>from_stream\<close> does not fail and the date is valid, the weekday it
  stores is the weekday of the date: a name or number that contradicts the date makes it fail.\<close>

theorem parsed_weekday_agrees:
  assumes "from_stream e fmt fds abbrev offset i = (i', fds', abbrev', offset')"
    and "\<not> is_fail i'" and "ymd_ok (fd_ymd fds')"
  shows "fd_wd fds' = weekday_of_days (to_days (fd_ymd fds'))"
proof -
  define st where "st = from_stream_tail e (from_stream_loop e fmt (from_stream_begin i))"
  have f: "from_stream_finish e st fds abbrev offset = (i', fds', abbrev', offset')"
    using assms(1,2) by (auto simp: from_stream_def st_def set_fail_def split: if_splits)
  obtain x wd j where rd: "resolve_date st = Some (x, wd, j)" and x: "fd_ymd fds' = x"
    and wd: "wd \<noteq> not_a_weekday \<Longrightarrow> fd_wd fds' = weekday_new (of_int wd)"
    using f assms(2)
    by (auto simp: from_stream_finish_def set_fail_def ps_failed_def Let_def split: if_splits option.splits prod.splits)
  have w: "wd = weekday_of_date x" using resolve_date_weekday [OF rd] assms(3) x by simp
  then show ?thesis using wd weekday_of_date_range(3) [of x] weekday_new_of_date [of x] assms(3) x by simp
qed

theorem parsed_weekday_agrees_witness:
  "fd_wd (fst (snd (from_stream (exact_env 1) ''%Y-%m-%d %w'' (fields_new 1 None None None) None None (istream_new ''2024-2-29 4'')))) =
    weekday_of_days 19782"
proof -
  define r where "r = from_stream (exact_env 1) ''%Y-%m-%d %w'' (fields_new 1 None None None) None None (istream_new ''2024-2-29 4'')"
  have "\<not> is_fail (fst r)" "ymd_ok (fd_ymd (fst (snd r)))" "to_days (fd_ymd (fst (snd r))) = 19782"
    unfolding r_def by code_simp+
  then show ?thesis
    using parsed_weekday_agrees [of "exact_env 1" "''%Y-%m-%d %w''" "fields_new 1 None None None" None None "istream_new ''2024-2-29 4''"]
    by (cases r) (simp flip: r_def)
qed

section \<open>Hours of a twelve-hour clock\<close>

lemma loop_HI:
  assumes "h < 24" and "1 \<le> k" and "k \<le> 12" and i: "i = istream_new (setw0 2 (show_nat h) @ CHR '' '' # setw0 2 (show_nat k))"
  shows "from_stream_loop e ''%H %I'' (from_stream_begin i) =
    (from_stream_begin i)\<lparr>ps_H := int h, ps_I := int k, ps_is := istream_new []\<rparr>"
proof -
  define s0 s1 where "s0 = from_stream_begin i" and "s1 = s0\<lparr>ps_H := int h, ps_is := istream_new (setw0 2 (show_nat k))\<rparr>"
  have nf: "\<not> ps_failed s0" "\<not> ps_failed s1" by (simp_all add: ps_failed_def i s0_def s1_def)
  have id: "ps_idle s0" "ps_idle s1" by (simp_all add: s0_def s1_def)
  obtain c s where cs: "setw0 2 (show_nat k) = c # s"
    using setw0_length [of 2 k] assms(3) by (cases "setw0 2 (show_nat k)") simp_all
  have H: "scan_H e (CHR ''H'') (s0\<lparr>ps_cmd := Some ''%''\<rparr>) = s1\<lparr>ps_is := istream_new (CHR '' '' # setw0 2 (show_nat k))\<rparr>"
    using scan_H_run [OF id(1), of h "CHR '' '' # setw0 2 (show_nat k)"] assms(1) by (simp add: s0_def s1_def i)
  have I: "scan_I e (CHR ''I'') (s1\<lparr>ps_cmd := Some ''%''\<rparr>) = s1\<lparr>ps_I := int k, ps_is := istream_new []\<rparr>"
    using scan_I_run [OF id(2) _ assms(2,3), of "[]"] by (simp add: s0_def s1_def)
  have "from_stream_loop e ''%H %I'' s0 = from_stream_loop e '' %I'' (s1\<lparr>ps_is := istream_new (CHR '' '' # setw0 2 (show_nat k))\<rparr>)"
    using loop_scan [OF id(1) nf(1) scan_table(6) letters_no_digits(6)] H by simp
  also have "\<dots> = from_stream_loop e ''%I'' s1"
    using loop_space [of "s1\<lparr>ps_is := istream_new (CHR '' '' # setw0 2 (show_nat k))\<rparr>" c s] digits_no_space [OF cs] cs id(2)
    by (simp add: s0_def s1_def)
  also have "\<dots> = s1\<lparr>ps_I := int k, ps_is := istream_new []\<rparr>"
    using loop_scan [OF id(2) nf(2) scan_table(7) letters_no_digits(7), of e "[]"] I by simp
  finally show ?thesis by (simp add: s0_def s1_def)
qed

text \<open>Property C32: the hours of the afternoon are printed by \<^verbatim>\<open>%H %I\<close> as 13 to 23 and 01 to 11, but \<^verbatim>\<open>from_stream\<close>
  with the same format rejects them: the check of the two hours compares \<^verbatim>\<open>I == H+12\<close> instead of
  \<^verbatim>\<open>H == I+12\<close>.\<close>

theorem afternoon_hours_rejected:
  assumes h: "13 \<le> h" "h < 24"
  shows "\<exists>s. format_duration facet point seconds_period ''%H %I'' (h * 3600) = Some s \<and>
    fst (parse_duration e p ''%H %I'' (istream_new s)) = None"
proof -
  define k where "k = nat h"
  have k: "int k = h" "13 \<le> k" "k < 24" using h by (simp_all add: k_def)
  define fds where "fds = fields_of_duration seconds_period (h * 3600)"
  have t: "fd_has_tod fds" "fd_tod fds = \<lparr>hms_h = h, hms_m = 0, hms_s = \<lparr>dfs_s = 0, dfs_sub_s = 0\<rparr>, hms_neg = False\<rparr>"
    using hours_split [of h 1] h by (simp_all add: fds_def fields_of_duration_def fields_new_def seconds_period_def)
  have "0 \<le> rden (dfs_precision 1)" by (simp add: dfs_precision_power)
  then have "format_duration facet point seconds_period ''%H %I'' (h * 3600) = Some (lead0 h @ '' '' @ lead0 (make12 h))"
    using format_HI [of fds "plain_env facet point 1"] t h
    by (simp add: format_duration_def hms_to_duration_def dfs_to_duration_def fds_def seconds_period_def plain_env_def)
  moreover have "make12 h = h - 12" using h by (simp add: make12_def)
  ultimately have f: "format_duration facet point seconds_period ''%H %I'' (h * 3600) =
      Some (setw0 2 (show_nat k) @ CHR '' '' # setw0 2 (show_nat (k - 12)))" (is "_ = Some ?s")
    using h by (simp add: lead0_setw0 k_def nat_diff_distrib)
  define st where "st = (from_stream_begin (istream_new ?s))\<lparr>ps_H := int k, ps_I := int (k - 12), ps_is := istream_new []\<rparr>"
  have l: "from_stream_tail e (from_stream_loop e ''%H %I'' (from_stream_begin (istream_new ?s))) = st"
    using loop_HI [of k "k - 12" _ e] k by (simp add: tail_idle st_def)
  have "resolve_hour (ps_I st) (ps_p st) (ps_H st) = None"
    using k by (simp add: resolve_hour_def st_def not_a_hour_12_value_def not_a_hour_def)
  then have "is_fail (fst (from_stream_finish e st fds0 None None))" for fds0
    by (auto simp: from_stream_finish_def set_fail_def ps_failed_def Let_def split: option.splits)
  then have "fst (parse_duration e p ''%H %I'' (istream_new ?s)) = None"
    by (auto simp: parse_duration_def parse_checked_def from_stream_def l Let_def set_fail_def split: prod.splits)
      (metis fst_conv)+
  with f show ?thesis by blast
qed

theorem afternoon_hours_rejected_witness:
  "\<exists>s. format_duration (\<lambda>f t. []) (CHR ''.'') seconds_period ''%H %I'' 54000 = Some s \<and>
    fst (parse_duration (exact_env 1) seconds_period ''%H %I'' (istream_new s)) = None"
  using afternoon_hours_rejected [of 15] by simp

end
