(* ===== verification/Date_Slash.thy ===== *)
theory Date_Slash
  imports Date_Weekday
begin

text \<open>
  The operator \<^verbatim>\<open>/\<close> of \<^verbatim>\<open>debug_print/date.h\<close>, with which dates are written: \<^verbatim>\<open>y/m/d\<close>, \<^verbatim>\<open>d/m/y\<close>,
  \<^verbatim>\<open>m/Thursday[last]/y\<close>.  Its overloads are told apart by the types of their operands, so an operand is a value
  of the datatype \<open>slash_arg\<close> with its type as the constructor, and a pair for which the header has no overload
  has no value (two plain numbers among them: their quotient is the language's own and no date).
\<close>

datatype slash_arg =
    SInt int | SLast
  | SYear year | SMonth month | SDay day | SWdi weekday_indexed | SWdl weekday_last
  | SYm year_month | SMd month_day | SMdl month_day_last | SMw month_weekday | SMwl month_weekday_last
  | SYmd year_month_day | SYmdl year_month_day_last | SYmw year_month_weekday | SYmwl year_month_weekday_last

abbreviation month_of_int :: "int \<Rightarrow> month" where
  "month_of_int m \<equiv> month_new (of_int m)"

abbreviation day_of_int :: "int \<Rightarrow> day" where
  "day_of_int d \<equiv> day_new (of_int d)"

section \<open>The overloads by their result\<close>

definition slash_ym :: "slash_arg \<Rightarrow> slash_arg \<Rightarrow> year_month option" where
  "slash_ym a b =
     (case a of
        SYear y \<Rightarrow> (case b of SMonth m \<Rightarrow> Some (year_month_new y m) | SInt m \<Rightarrow> Some (year_month_new y (month_of_int m)) | _ \<Rightarrow> None)
      | _ \<Rightarrow> None)"

definition slash_md :: "slash_arg \<Rightarrow> slash_arg \<Rightarrow> month_day option" where
  "slash_md a b =
     (case a of
        SMonth m \<Rightarrow> (case b of SDay d \<Rightarrow> Some (month_day_new m d) | SInt d \<Rightarrow> Some (month_day_new m (day_of_int d)) | _ \<Rightarrow> None)
      | SDay d \<Rightarrow> (case b of SMonth m \<Rightarrow> Some (month_day_new m d) | SInt m \<Rightarrow> Some (month_day_new (month_of_int m) d) | _ \<Rightarrow> None)
      | SInt m \<Rightarrow> (case b of SDay d \<Rightarrow> Some (month_day_new (month_of_int m) d) | _ \<Rightarrow> None)
      | _ \<Rightarrow> None)"

definition slash_mdl :: "slash_arg \<Rightarrow> slash_arg \<Rightarrow> month_day_last option" where
  "slash_mdl a b =
     (case a of
        SMonth m \<Rightarrow> (case b of SLast \<Rightarrow> Some (month_day_last_new m) | _ \<Rightarrow> None)
      | SInt m \<Rightarrow> (case b of SLast \<Rightarrow> Some (month_day_last_new (month_of_int m)) | _ \<Rightarrow> None)
      | SLast \<Rightarrow> (case b of SMonth m \<Rightarrow> Some (month_day_last_new m) | SInt m \<Rightarrow> Some (month_day_last_new (month_of_int m)) | _ \<Rightarrow> None)
      | _ \<Rightarrow> None)"

definition slash_mw :: "slash_arg \<Rightarrow> slash_arg \<Rightarrow> month_weekday option" where
  "slash_mw a b =
     (case a of
        SMonth m \<Rightarrow> (case b of SWdi w \<Rightarrow> Some (month_weekday_new m w) | _ \<Rightarrow> None)
      | SInt m \<Rightarrow> (case b of SWdi w \<Rightarrow> Some (month_weekday_new (month_of_int m) w) | _ \<Rightarrow> None)
      | SWdi w \<Rightarrow> (case b of SMonth m \<Rightarrow> Some (month_weekday_new m w) | SInt m \<Rightarrow> Some (month_weekday_new (month_of_int m) w) | _ \<Rightarrow> None)
      | _ \<Rightarrow> None)"

definition slash_mwl :: "slash_arg \<Rightarrow> slash_arg \<Rightarrow> month_weekday_last option" where
  "slash_mwl a b =
     (case a of
        SMonth m \<Rightarrow> (case b of SWdl w \<Rightarrow> Some (month_weekday_last_new m w) | _ \<Rightarrow> None)
      | SInt m \<Rightarrow> (case b of SWdl w \<Rightarrow> Some (month_weekday_last_new (month_of_int m) w) | _ \<Rightarrow> None)
      | SWdl w \<Rightarrow>
          (case b of SMonth m \<Rightarrow> Some (month_weekday_last_new m w) | SInt m \<Rightarrow> Some (month_weekday_last_new (month_of_int m) w) | _ \<Rightarrow> None)
      | _ \<Rightarrow> None)"

definition slash_ymd :: "slash_arg \<Rightarrow> slash_arg \<Rightarrow> year_month_day option" where
  "slash_ymd a b =
     (case a of
        SYm ym \<Rightarrow>
          (case b of SDay d \<Rightarrow> Some (year_month_day_new (ym_year ym) (ym_month ym) d)
           | SInt d \<Rightarrow> Some (year_month_day_new (ym_year ym) (ym_month ym) (day_of_int d)) | _ \<Rightarrow> None)
      | SYear y \<Rightarrow> (case b of SMd md \<Rightarrow> Some (year_month_day_new y (md_month md) (md_day md)) | _ \<Rightarrow> None)
      | SInt y \<Rightarrow> (case b of SMd md \<Rightarrow> Some (year_month_day_new (year_new y) (md_month md) (md_day md)) | _ \<Rightarrow> None)
      | SMd md \<Rightarrow>
          (case b of SYear y \<Rightarrow> Some (year_month_day_new y (md_month md) (md_day md))
           | SInt y \<Rightarrow> Some (year_month_day_new (year_new y) (md_month md) (md_day md)) | _ \<Rightarrow> None)
      | _ \<Rightarrow> None)"

definition slash_ymdl :: "slash_arg \<Rightarrow> slash_arg \<Rightarrow> year_month_day_last option" where
  "slash_ymdl a b =
     (case a of
        SYm ym \<Rightarrow> (case b of SLast \<Rightarrow> Some (ym_last ym) | _ \<Rightarrow> None)
      | SYear y \<Rightarrow> (case b of SMdl l \<Rightarrow> Some (year_month_day_last_new y l) | _ \<Rightarrow> None)
      | SInt y \<Rightarrow> (case b of SMdl l \<Rightarrow> Some (year_month_day_last_new (year_new y) l) | _ \<Rightarrow> None)
      | SMdl l \<Rightarrow>
          (case b of SYear y \<Rightarrow> Some (year_month_day_last_new y l) | SInt y \<Rightarrow> Some (year_month_day_last_new (year_new y) l) | _ \<Rightarrow> None)
      | _ \<Rightarrow> None)"

definition slash_ymw :: "slash_arg \<Rightarrow> slash_arg \<Rightarrow> year_month_weekday option" where
  "slash_ymw a b =
     (case a of
        SYm ym \<Rightarrow> (case b of SWdi w \<Rightarrow> Some (year_month_weekday_new (ym_year ym) (ym_month ym) w) | _ \<Rightarrow> None)
      | SYear y \<Rightarrow> (case b of SMw mw \<Rightarrow> Some (year_month_weekday_new y (mw_month mw) (mw_wdi mw)) | _ \<Rightarrow> None)
      | SInt y \<Rightarrow> (case b of SMw mw \<Rightarrow> Some (year_month_weekday_new (year_new y) (mw_month mw) (mw_wdi mw)) | _ \<Rightarrow> None)
      | SMw mw \<Rightarrow>
          (case b of SYear y \<Rightarrow> Some (year_month_weekday_new y (mw_month mw) (mw_wdi mw))
           | SInt y \<Rightarrow> Some (year_month_weekday_new (year_new y) (mw_month mw) (mw_wdi mw)) | _ \<Rightarrow> None)
      | _ \<Rightarrow> None)"

definition slash_ymwl :: "slash_arg \<Rightarrow> slash_arg \<Rightarrow> year_month_weekday_last option" where
  "slash_ymwl a b =
     (case a of
        SYm ym \<Rightarrow> (case b of SWdl w \<Rightarrow> Some (year_month_weekday_last_new (ym_year ym) (ym_month ym) w) | _ \<Rightarrow> None)
      | SYear y \<Rightarrow> (case b of SMwl mw \<Rightarrow> Some (year_month_weekday_last_new y (mwl_month mw) (mwl_wdl mw)) | _ \<Rightarrow> None)
      | SInt y \<Rightarrow> (case b of SMwl mw \<Rightarrow> Some (year_month_weekday_last_new (year_new y) (mwl_month mw) (mwl_wdl mw)) | _ \<Rightarrow> None)
      | SMwl mw \<Rightarrow>
          (case b of SYear y \<Rightarrow> Some (year_month_weekday_last_new y (mwl_month mw) (mwl_wdl mw))
           | SInt y \<Rightarrow> Some (year_month_weekday_last_new (year_new y) (mwl_month mw) (mwl_wdl mw)) | _ \<Rightarrow> None)
      | _ \<Rightarrow> None)"

section \<open>Overload resolution\<close>

text \<open>At most one overload accepts a pair of operands, so the order of the alternatives does not matter.\<close>

definition slash :: "slash_arg \<Rightarrow> slash_arg \<Rightarrow> slash_arg option" where
  "slash a b =
     (case slash_ym a b of Some x \<Rightarrow> Some (SYm x) | None \<Rightarrow>
      case slash_md a b of Some x \<Rightarrow> Some (SMd x) | None \<Rightarrow>
      case slash_mdl a b of Some x \<Rightarrow> Some (SMdl x) | None \<Rightarrow>
      case slash_mw a b of Some x \<Rightarrow> Some (SMw x) | None \<Rightarrow>
      case slash_mwl a b of Some x \<Rightarrow> Some (SMwl x) | None \<Rightarrow>
      case slash_ymd a b of Some x \<Rightarrow> Some (SYmd x) | None \<Rightarrow>
      case slash_ymdl a b of Some x \<Rightarrow> Some (SYmdl x) | None \<Rightarrow>
      case slash_ymw a b of Some x \<Rightarrow> Some (SYmw x) | None \<Rightarrow>
      map_option SYmwl (slash_ymwl a b))"

text \<open>An expression with two slashes of the header, which associate to the left.\<close>

definition slash2 :: "slash_arg \<Rightarrow> slash_arg \<Rightarrow> slash_arg \<Rightarrow> slash_arg option" where
  "slash2 a b c = Option.bind (slash a b) (\<lambda>ab. slash ab c)"

lemmas slash_defs = slash_ym_def slash_md_def slash_mdl_def slash_mw_def slash_mwl_def slash_ymd_def slash_ymdl_def slash_ymw_def
  slash_ymwl_def

lemma slash_unambiguous:
  "(slash a b = Some (SYm x1) \<longleftrightarrow> slash_ym a b = Some x1)" "(slash a b = Some (SMd x2) \<longleftrightarrow> slash_md a b = Some x2)"
  "(slash a b = Some (SYmd x3) \<longleftrightarrow> slash_ymd a b = Some x3)" "(slash a b = Some (SYmwl x4) \<longleftrightarrow> slash_ymwl a b = Some x4)"
  by (cases a; cases b; simp add: slash_def slash_defs)+

text \<open>An operand that stands for a year, a month or a day: of that type, or a plain number.\<close>

definition year_operand :: "slash_arg \<Rightarrow> year \<Rightarrow> bool" where
  "year_operand a y \<longleftrightarrow> a = SYear y \<or> (\<exists>i. a = SInt i \<and> y = year_new i)"

definition month_operand :: "slash_arg \<Rightarrow> month \<Rightarrow> bool" where
  "month_operand a m \<longleftrightarrow> a = SMonth m \<or> (\<exists>i. a = SInt i \<and> m = month_of_int i)"

definition day_operand :: "slash_arg \<Rightarrow> day \<Rightarrow> bool" where
  "day_operand a d \<longleftrightarrow> a = SDay d \<or> (\<exists>i. a = SInt i \<and> d = day_of_int i)"

lemmas operand_defs = year_operand_def month_operand_def day_operand_def

lemma slash_ym_iff: "slash_ym a b = Some x \<longleftrightarrow> (\<exists>y m. a = SYear y \<and> month_operand b m \<and> x = year_month_new y m)"
  by (cases a; cases b) (auto simp: slash_ym_def month_operand_def)

lemma slash_md_iff:
  "slash_md a b = Some x \<longleftrightarrow>
     (\<exists>m d. x = month_day_new m d \<and>
        (a = SMonth m \<and> day_operand b d \<or> a = SDay d \<and> month_operand b m \<or> month_operand a m \<and> b = SDay d))"
  by (cases a; cases b) (auto simp: slash_md_def operand_defs)

lemma slash2_ymd_iff:
  "slash2 a b c = Some (SYmd x) \<longleftrightarrow>
     (\<exists>ym d. slash_ym a b = Some ym \<and> day_operand c d \<and> x = year_month_day_new (ym_year ym) (ym_month ym) d) \<or>
     (\<exists>md y. slash_md a b = Some md \<and> year_operand c y \<and> x = year_month_day_new y (md_month md) (md_day md))"
proof -
  have "slash ab c = Some (SYmd x) \<longleftrightarrow>
      (\<exists>ym d. ab = SYm ym \<and> day_operand c d \<and> x = year_month_day_new (ym_year ym) (ym_month ym) d) \<or>
      (\<exists>md y. ab = SMd md \<and> year_operand c y \<and> x = year_month_day_new y (md_month md) (md_day md)) \<or>
      (\<exists>md y. year_operand ab y \<and> c = SMd md \<and> x = year_month_day_new y (md_month md) (md_day md))" for ab
    unfolding slash_unambiguous by (cases ab; cases c) (auto simp: slash_ymd_def operand_defs)
  moreover have "\<not> year_operand ab y" if "slash a b = Some ab" for ab y
    using that by (cases a; cases b) (auto simp: slash_def slash_defs year_operand_def)
  ultimately show ?thesis
    unfolding slash2_def by (auto simp: bind_eq_Some_conv slash_unambiguous [symmetric])
qed

end
