(* ===== verification/Date_Keyword.thy ===== *)
theory Date_Keyword
  imports Date_From_Stream "HOL-Library.Sublist"
begin

text \<open>
  The names of weekdays, months and halves of the day that \<^verbatim>\<open>debug_print/date.h\<close> brings along for the C locale
  (\<^verbatim>\<open>ONLY_C_LOCALE\<close>), and \<^verbatim>\<open>scan_keyword\<close>, which reads one of a list of names from a stream.  It keeps a status
  for each keyword and two counters of them; the counters are integers here, and the invariant of the loop
  shows that they count the statuses, so that no \<^verbatim>\<open>size_t\<close> goes below zero.  The loop is a partial function, whose
  value is \<^const>\<open>None\<close> if it does not end.
\<close>

section \<open>The names\<close>

definition weekday_names :: "string list" where
  "weekday_names =
     [''Sunday'', ''Monday'', ''Tuesday'', ''Wednesday'', ''Thursday'', ''Friday'', ''Saturday'',
      ''Sun'', ''Mon'', ''Tue'', ''Wed'', ''Thu'', ''Fri'', ''Sat'']"

definition month_names :: "string list" where
  "month_names =
     [''January'', ''February'', ''March'', ''April'', ''May'', ''June'', ''July'', ''August'', ''September'', ''October'',
      ''November'', ''December'',
      ''Jan'', ''Feb'', ''Mar'', ''Apr'', ''May'', ''Jun'', ''Jul'', ''Aug'', ''Sep'', ''Oct'', ''Nov'', ''Dec'']"

definition ampm_names :: "string list" where
  "ampm_names = [''AM'', ''PM'']"

section \<open>\<^verbatim>\<open>scan_keyword\<close>\<close>

datatype kw_status = doesnt_match | might_match | does_match

datatype scan_exn = Bad_alloc

text \<open>\<^verbatim>\<open>std::toupper\<close> of the C locale.\<close>

definition toupper :: "char \<Rightarrow> char" where
  "toupper c = (if 97 \<le> (of_char c :: nat) \<and> (of_char c :: nat) \<le> 122 then char_of ((of_char c :: nat) - 32) else c)"

text \<open>The first loop over the keywords, with the two counters.\<close>

fun sk_init :: "string list \<Rightarrow> int \<times> int \<Rightarrow> kw_status list \<times> int \<times> int" where
  "sk_init [] ns = ([], ns)"
| "sk_init (ky # kys) (n_might, n_does) =
     (let (st, ns) = (if ky \<noteq> [] then (might_match, n_might, n_does) else (does_match, n_might - 1, n_does + 1));
          (sts, ns') = sk_init kys ns
      in (st # sts, ns'))"

text \<open>Testing each keyword that might match against the character \<open>c\<close> at \<open>indx\<close>.\<close>

fun sk_pass ::
  "char \<Rightarrow> nat \<Rightarrow> string list \<Rightarrow> kw_status list \<Rightarrow> bool \<times> int \<times> int \<Rightarrow> kw_status list \<times> bool \<times> int \<times> int" where
  "sk_pass c indx (ky # kys) (st # sts) (consume, n_might, n_does) =
     (let (st', acc) =
            (if st = might_match
             then (if c = toupper (ky ! indx)
                   then (if length ky = indx + 1 then (does_match, True, n_might - 1, n_does + 1)
                         else (might_match, True, n_might, n_does))
                   else (doesnt_match, consume, n_might - 1, n_does))
             else (st, consume, n_might, n_does));
          (sts', r) = sk_pass c indx kys sts acc
      in (st' # sts', r))"
| "sk_pass c indx _ _ acc = ([], acc)"

text \<open>A keyword matched before the character just consumed does not match any more.\<close>

fun sk_drop :: "nat \<Rightarrow> string list \<Rightarrow> kw_status list \<Rightarrow> int \<Rightarrow> kw_status list \<times> int" where
  "sk_drop indx (ky # kys) (st # sts) n_does =
     (let (st', n) = (if st = does_match \<and> length ky \<noteq> indx + 1 then (doesnt_match, n_does - 1) else (st, n_does));
          (sts', r) = sk_drop indx kys sts n
      in (st' # sts', r))"
| "sk_drop indx _ _ n_does = ([], n_does)"

partial_function (option) sk_loop ::
  "string list \<Rightarrow> nat \<Rightarrow> istream \<Rightarrow> kw_status list \<Rightarrow> int \<Rightarrow> int \<Rightarrow> (istream \<times> kw_status list) option" where
  "sk_loop kys indx i status n_might n_does =
     (if is_fail i \<or> \<not> 0 < n_might then Some (i, status)
      else case is_peek i of
        (None, i1) \<Rightarrow> Some (i1\<lparr>is_eof := True\<rparr>, status)
      | (Some ic, i1) \<Rightarrow>
          (case sk_pass (toupper ic) indx kys status (False, n_might, n_does) of (status1, consume, n_might1, n_does1) \<Rightarrow>
             if consume
             then (case (if 1 < n_might1 + n_does1 then sk_drop indx kys status1 n_does1 else (status1, n_does1)) of
                     (status2, n_does2) \<Rightarrow> sk_loop kys (indx + 1) (is_get i1) status2 n_might1 n_does2)
             else sk_loop kys (indx + 1) i1 status1 n_might1 n_does1))"

text \<open>The position of the keyword in the list, its length when there is none; \<open>mem\<close> says whether \<^verbatim>\<open>malloc\<close>,
  called for more than 100 keywords, gives memory.\<close>

definition scan_keyword :: "bool \<Rightarrow> string list \<Rightarrow> istream \<Rightarrow> (scan_exn + nat \<times> istream) option" where
  "scan_keyword mem kys i =
     (if 100 < length kys \<and> \<not> mem then Some (Inl Bad_alloc)
      else
        (case sk_init kys (int (length kys), 0) of (status, n_might, n_does) \<Rightarrow>
           map_option
             (\<lambda>(i', status').
                (let kb = length (takeWhile (\<lambda>st. st \<noteq> does_match) status')
                 in Inr (kb, if kb = length kys then set_fail i' else i')))
             (sk_loop kys 0 i status n_might n_does)))"

text \<open>The directives \<^verbatim>\<open>%a\<close>, \<^verbatim>\<open>%A\<close>, \<^verbatim>\<open>%b\<close>, \<^verbatim>\<open>%h\<close>, \<^verbatim>\<open>%B\<close> and \<^verbatim>\<open>%p\<close> of the C locale: what is written for the number of a weekday
  (from 0) or a month (from 0), and the number that is read.\<close>

definition put_weekday_name :: "char \<Rightarrow> nat \<Rightarrow> string" where
  "put_weekday_name c wday = weekday_names ! (wday + 7 * (if c = CHR ''a'' then 1 else 0))"

definition put_month_name :: "char \<Rightarrow> nat \<Rightarrow> string" where
  "put_month_name c mon = month_names ! (mon + 12 * (if c \<noteq> CHR ''B'' then 1 else 0))"

definition get_weekday_name :: "istream \<Rightarrow> (int \<times> istream) option" where
  "get_weekday_name i =
     (case scan_keyword True weekday_names i of
        Some (Inr (k, i')) \<Rightarrow> Some (if \<not> is_fail i' then int k mod 7 else not_a_weekday, i')
      | _ \<Rightarrow> None)"

definition get_month_name :: "istream \<Rightarrow> (int \<times> istream) option" where
  "get_month_name i =
     (case scan_keyword True month_names i of
        Some (Inr (k, i')) \<Rightarrow> Some (if \<not> is_fail i' then int k mod 12 + 1 else not_a_month, i')
      | _ \<Rightarrow> None)"

definition get_ampm_name :: "istream \<Rightarrow> (int \<times> istream) option" where
  "get_ampm_name i =
     (case scan_keyword True ampm_names i of Some (Inr (k, i')) \<Rightarrow> Some (int k, i') | _ \<Rightarrow> None)"

section \<open>What it computes\<close>

abbreviation upper :: "string \<Rightarrow> string" where
  "upper s \<equiv> map toupper s"

text \<open>The longest beginning of the text with which some keyword begins, cases apart.\<close>

definition keyword_reach :: "string list \<Rightarrow> string \<Rightarrow> nat" where
  "keyword_reach kys s =
     Max (insert 0 (set (filter (\<lambda>n. list_ex (\<lambda>ky. prefix (upper (take n s)) (upper ky)) kys) [0..<Suc (length s)])))"

text \<open>The status of a keyword after the characters \<open>p\<close>.\<close>

definition kw_after :: "string \<Rightarrow> string \<Rightarrow> kw_status" where
  "kw_after p ky = (if upper ky = p then does_match else if prefix p (upper ky) then might_match else doesnt_match)"

definition kw_count :: "kw_status \<Rightarrow> kw_status list \<Rightarrow> int" where
  "kw_count st sts = int (length (filter (\<lambda>x. x = st) sts))"

lemma kw_count_simps [simp]:
  "kw_count st [] = 0" "kw_count st (x # xs) = (if x = st then 1 else 0) + kw_count st xs"
  by (simp_all add: kw_count_def)

lemma kw_count_nonneg: "0 \<le> kw_count st xs"
  by (simp add: kw_count_def)

lemma kw_count_pos: "0 < kw_count st xs \<longleftrightarrow> st \<in> set xs"
  by (induction xs) (auto simp: kw_count_nonneg add_pos_nonneg)

lemma kw_count_map_pos: "0 < kw_count st (map f xs) \<longleftrightarrow> list_ex (\<lambda>x. f x = st) xs"
  by (auto simp: kw_count_pos list_ex_iff)

lemma sk_init_after:
  "sk_init kys (m, d) =
     (map (kw_after []) kys, m - kw_count does_match (map (kw_after []) kys), d + kw_count does_match (map (kw_after []) kys))"
  by (induction kys arbitrary: m d) (auto simp: kw_after_def)

text \<open>The status after the pass, before the earlier matches are dropped.\<close>

definition kw_tested :: "string \<Rightarrow> char \<Rightarrow> string \<Rightarrow> kw_status" where
  "kw_tested p c ky = (if kw_after p ky = might_match then kw_after (p @ [c]) ky else kw_after p ky)"

lemma prefix_snoc_iff:
  assumes "prefix p (upper ky)" and "upper ky \<noteq> p"
  shows "prefix (p @ [c]) (upper ky) \<longleftrightarrow> c = toupper (ky ! length p)" and "length p < length ky"
proof -
  obtain q where q: "upper ky = p @ q" "q \<noteq> []" using assms by (auto simp: prefix_def)
  then obtain d q' where d: "upper ky = p @ d # q'" by (cases q) auto
  then have "length (upper ky) = length p + length q' + 1" and n: "upper ky ! length p = d" by simp_all
  then show l: "length p < length ky" by simp
  show "prefix (p @ [c]) (upper ky) \<longleftrightarrow> c = toupper (ky ! length p)" using d n nth_map [OF l, of toupper] by auto
qed

lemma kw_tested_step:
  assumes "kw_after p ky = might_match"
  shows "kw_after (p @ [c]) ky =
    (if c = toupper (ky ! length p) then if length ky = length p + 1 then does_match else might_match else doesnt_match)"
proof -
  have p: "prefix p (upper ky)" "upper ky \<noteq> p" using assms by (auto simp: kw_after_def split: if_splits)
  have "upper ky = p @ [c] \<longleftrightarrow> prefix (p @ [c]) (upper ky) \<and> length (upper ky) = length p + 1"
    by (auto simp: prefix_def simp del: length_map)
  then have "upper ky = p @ [c] \<longleftrightarrow> prefix (p @ [c]) (upper ky) \<and> length ky = length p + 1" by simp
  then show ?thesis using prefix_snoc_iff(1) [OF p, of c] by (auto simp: kw_after_def)
qed

lemma sk_pass_tested:
  "sk_pass c (length p) kys (map (kw_after p) kys) (consume, m, d) =
    (let sts = map (kw_after p) kys; sts' = map (kw_tested p c) kys
     in (sts', consume \<or> list_ex (\<lambda>ky. kw_after p ky = might_match \<and> prefix (p @ [c]) (upper ky)) kys,
         m - kw_count might_match sts + kw_count might_match sts', d - kw_count does_match sts + kw_count does_match sts'))"
proof (induction kys arbitrary: consume m d)
  case (Cons ky kys)
  have "prefix (p @ [c]) (upper ky) \<longleftrightarrow> c = toupper (ky ! length p)" if "kw_after p ky = might_match"
    using that prefix_snoc_iff(1) [of p ky c] by (auto simp: kw_after_def split: if_splits)
  moreover obtain b where b: "(c = toupper (ky ! length p)) = b" by blast
  moreover have "kw_tested p c ky =
      (if kw_after p ky = might_match
       then if b then if length ky = length p + 1 then does_match else might_match else doesnt_match
       else kw_after p ky)"
    using kw_tested_step [of p ky c] b by (simp add: kw_tested_def)
  ultimately show ?case by (cases "kw_after p ky") (simp_all add: Cons.IH Let_def)
qed simp

lemma sk_drop_after:
  "sk_drop (length p) kys (map (kw_tested p c) kys) d =
    (map (kw_after (p @ [c])) kys,
     d - kw_count does_match (map (kw_tested p c) kys) + kw_count does_match (map (kw_after (p @ [c])) kys))"
proof (induction kys arbitrary: d)
  case (Cons ky kys)
  have "kw_after (p @ [c]) ky =
      (if kw_tested p c ky = does_match \<and> length ky \<noteq> length p + 1 then doesnt_match else kw_tested p c ky)"
  proof (cases "kw_after p ky = might_match")
    case True
    then show ?thesis using kw_tested_step [OF True, of c] by (auto simp: kw_tested_def)
  next
    case False
    have "upper ky = p \<Longrightarrow> length ky = length p" by (auto dest: arg_cong [where f = length])
    then show ?thesis using False by (auto simp: kw_tested_def kw_after_def dest: append_prefixD split: if_splits)
  qed
  then show ?case by (auto simp: Cons.IH)
qed simp

text \<open>The pass consumes the character exactly when some keyword goes on with it.\<close>

lemma kw_extends_iff:
  "kw_after p ky = might_match \<and> prefix (p @ [c]) (upper ky) \<longleftrightarrow> prefix (p @ [c]) (upper ky)"
  by (auto simp: kw_after_def dest: append_prefixD)

lemma kw_not_extended:
  assumes "\<not> prefix (p @ [c]) (upper ky)"
  shows "kw_tested p c ky \<noteq> might_match" and "kw_tested p c ky = does_match \<longleftrightarrow> upper ky = p"
  using assms by (auto simp: kw_tested_def kw_after_def)

text \<open>Nothing is left to be dropped when one keyword alone is counted.\<close>

lemma kw_tested_alone:
  assumes "list_ex (\<lambda>ky. prefix (p @ [c]) (upper ky)) kys"
    and "kw_count might_match (map (kw_tested p c) kys) + kw_count does_match (map (kw_tested p c) kys) \<le> 1"
  shows "map (kw_tested p c) kys = map (kw_after (p @ [c])) kys"
proof -
  have live: "kw_count might_match sts + kw_count does_match sts = int (length (filter (\<lambda>st. st \<noteq> doesnt_match) sts))" for sts
  proof (induction sts)
    case (Cons st sts)
    then show ?case by (cases st) simp_all
  qed simp
  obtain ky where ky: "ky \<in> set kys" "prefix (p @ [c]) (upper ky)" using assms(1) by (auto simp: list_ex_iff)
  have "kw_tested p c x = kw_after (p @ [c]) x" if x: "x \<in> set kys" for x
  proof (rule ccontr)
    assume ne: "kw_tested p c x \<noteq> kw_after (p @ [c]) x"
    then have stale: "kw_tested p c x = does_match" "upper x = p"
      by (auto simp: kw_tested_def kw_after_def dest: append_prefixD split: if_splits)
    have "kw_tested p c ky \<noteq> doesnt_match" using ky(2) kw_extends_iff [of p ky c] by (auto simp: kw_tested_def kw_after_def)
    then have "{x, ky} \<subseteq> set (filter (\<lambda>y. kw_tested p c y \<noteq> doesnt_match) kys)" using x ky stale by auto
    moreover have "x \<noteq> ky" using stale(2) ky(2) by auto
    moreover have "length (filter (\<lambda>y. kw_tested p c y \<noteq> doesnt_match) kys) \<le> 1"
      using assms(2) unfolding live by (simp add: filter_map comp_def)
    ultimately show False
      by (cases "filter (\<lambda>y. kw_tested p c y \<noteq> doesnt_match) kys" rule: list.exhaust) auto
  qed
  then show ?thesis by simp
qed

section \<open>The loop\<close>

text \<open>The number of characters of \<open>r\<close> the loop takes after \<open>p\<close>.\<close>

fun reach_from :: "string list \<Rightarrow> string \<Rightarrow> string \<Rightarrow> nat" where
  "reach_from kys p [] = 0"
| "reach_from kys p (c # r) =
     (if list_ex (\<lambda>ky. prefix (p @ [toupper c]) (upper ky)) kys then Suc (reach_from kys (p @ [toupper c]) r) else 0)"

lemma reach_from_le: "reach_from kys p r \<le> length r"
  by (induction r arbitrary: p) auto

lemma reach_from_prefix:
  "0 < reach_from kys p r \<Longrightarrow> list_ex (\<lambda>ky. prefix (p @ upper (take (reach_from kys p r) r)) (upper ky)) kys"
proof (induction r arbitrary: p)
  case (Cons c r)
  show ?case
  proof (cases "reach_from kys (p @ [toupper c]) r")
    case 0
    with Cons.prems show ?thesis by (auto split: if_splits)
  next
    case (Suc n)
    with Cons.IH [of "p @ [toupper c]"] Cons.prems show ?thesis by (auto split: if_splits)
  qed
qed simp

lemma reach_from_greatest:
  "m \<le> length r \<Longrightarrow> list_ex (\<lambda>ky. prefix (p @ upper (take m r)) (upper ky)) kys \<Longrightarrow> m \<le> reach_from kys p r"
proof (induction r arbitrary: p m)
  case (Cons c r)
  show ?case
  proof (cases m)
    case (Suc n)
    then have e: "list_ex (\<lambda>ky. prefix ((p @ [toupper c]) @ upper (take n r)) (upper ky)) kys" using Cons.prems(2) by simp
    then have "list_ex (\<lambda>ky. prefix (p @ [toupper c]) (upper ky)) kys" unfolding list_ex_iff by (blast dest: append_prefixD)
    moreover have "n \<le> reach_from kys (p @ [toupper c]) r" using Cons.IH [OF _ e] Cons.prems(1) Suc by simp
    ultimately show ?thesis using Suc by simp
  qed simp
qed simp

lemma keyword_reach_from: "keyword_reach kys s = reach_from kys [] s"
  unfolding keyword_reach_def
proof (rule Max_eqI)
  show "reach_from kys [] s
      \<in> insert 0 (set (filter (\<lambda>n. list_ex (\<lambda>ky. prefix (upper (take n s)) (upper ky)) kys) [0..<Suc (length s)]))"
    using reach_from_prefix [of kys "[]" s] reach_from_le [of kys "[]" s]
    by (cases "reach_from kys [] s") (auto simp: less_Suc_eq_le simp del: upt_Suc)
qed (use reach_from_greatest [of _ s "[]" kys] in \<open>auto simp: less_Suc_eq_le simp del: upt_Suc\<close>)

text \<open>The loop ends with the statuses of the keywords after the characters it took.\<close>

lemma sk_loop_done: "\<not> 0 < m \<Longrightarrow> sk_loop kys k i sts m d = Some (i, sts)"
  by (subst sk_loop.simps) simp

lemma sk_loop_runs:
  assumes "is_good i" and "is_buf i = r" and "m = kw_count might_match (map (kw_after p) kys)"
    and "d = kw_count does_match (map (kw_after p) kys)"
  defines "n \<equiv> reach_from kys p r"
  shows "\<exists>sts. sk_loop kys (length p) i (map (kw_after p) kys) m d =
      Some (i\<lparr>is_buf := drop n r,
              is_eof := n = length r \<and> list_ex (\<lambda>ky. kw_after (p @ upper r) ky = might_match) kys\<rparr>, sts)
      \<and> map (\<lambda>st. st = does_match) sts = map (\<lambda>ky. upper ky = p @ upper (take n r)) kys"
  using assms(1-4) unfolding n_def
proof (induction r arbitrary: p i m d)
  case Nil
  have "map ((\<lambda>st. st = does_match) \<circ> kw_after p) kys = map (\<lambda>ky. upper ky = p) kys" by (simp add: kw_after_def)
  moreover have "list_ex (\<lambda>ky. kw_after p ky = might_match) kys \<longleftrightarrow> 0 < m"
    by (simp add: Nil.prems(3) kw_count_map_pos)
  ultimately show ?case
    using Nil.prems by (subst sk_loop.simps) (auto simp: is_good_def is_peek_def)
next
  case (Cons c r)
  define q where "q = p @ [toupper c]"
  define tested where "tested = map (kw_tested p (toupper c)) kys"
  have good: "\<not> is_fail i" "\<not> is_eof i" using Cons.prems(1) by (simp_all add: is_good_def)
  have peek: "is_peek i = (Some c, i)" using Cons.prems(1,2) by (simp add: is_peek_def)
  let ?goes = "list_ex (\<lambda>ky. prefix q (upper ky)) kys"
  have pass: "sk_pass (toupper c) (length p) kys (map (kw_after p) kys) (False, m, d) =
      (tested, ?goes, kw_count might_match tested, kw_count does_match tested)"
    using Cons.prems(3,4) by (simp add: sk_pass_tested Let_def tested_def q_def kw_extends_iff)
  show ?case
  proof (cases ?goes)
    case True
    define i' where "i' = i\<lparr>is_buf := r\<rparr>"
    have lq: "length q = Suc (length p)" by (simp add: q_def)
    have get: "is_get i = i'" using Cons.prems(1,2) by (simp add: is_get_def i'_def)
    have "0 < m"
      using True kw_extends_iff [of p _ "toupper c"] unfolding Cons.prems(3) kw_count_map_pos list_ex_iff q_def by blast
    moreover have "(if 1 < kw_count might_match tested + kw_count does_match tested
        then sk_drop (length p) kys tested (kw_count does_match tested) else (tested, kw_count does_match tested)) =
        (map (kw_after q) kys, kw_count does_match (map (kw_after q) kys))"
      using kw_tested_alone [of p "toupper c" kys] True
      by (auto simp: tested_def q_def sk_drop_after not_less simp del: map_eq_conv)
    moreover have "kw_count might_match tested = kw_count might_match (map (kw_after q) kys)"
    proof -
      have "kw_tested p (toupper c) ky = might_match \<longleftrightarrow> kw_after q ky = might_match" for ky
        by (auto simp: kw_tested_def kw_after_def q_def dest: append_prefixD)
      then show ?thesis unfolding tested_def by (induction kys) simp_all
    qed
    ultimately have "sk_loop kys (length p) i (map (kw_after p) kys) m d =
        sk_loop kys (length q) i' (map (kw_after q) kys) (kw_count might_match (map (kw_after q) kys))
          (kw_count does_match (map (kw_after q) kys))"
      by (subst sk_loop.simps) (simp add: good peek pass True get lq)
    moreover have "is_good i'" "is_buf i' = r" using good by (simp_all add: i'_def is_good_def)
    ultimately show ?thesis using Cons.IH [of i' _ q] True by (simp add: q_def i'_def)
  next
    case False
    then have ex: "\<not> prefix (p @ [toupper c]) (upper ky)" if "ky \<in> set kys" for ky
      using that by (auto simp: list_ex_iff q_def)
    have "kw_count might_match tested = 0"
      using ex kw_not_extended(1) [of p "toupper c"] kw_count_nonneg [of might_match tested]
        kw_count_map_pos [of might_match "kw_tested p (toupper c)" kys]
      by (auto simp: tested_def list_ex_iff)
    then have "sk_loop kys (length p) i (map (kw_after p) kys) m d = Some (i, if 0 < m then tested else map (kw_after p) kys)"
      by (subst sk_loop.simps) (simp add: good peek pass False sk_loop_done)
    moreover have "map (\<lambda>st. st = does_match) tested = map (\<lambda>ky. upper ky = p) kys"
      using ex kw_not_extended(2) by (simp add: tested_def)
    moreover have "map (\<lambda>st. st = does_match) (map (kw_after p) kys) = map (\<lambda>ky. upper ky = p) kys"
      by (simp add: kw_after_def)
    ultimately show ?thesis using False Cons.prems(2) good by (auto simp: q_def)
  qed
qed

section \<open>The keyword found\<close>

lemma sk_init_counts:
  "sk_init kys (int (length kys), 0) =
     (map (kw_after []) kys, kw_count might_match (map (kw_after []) kys), kw_count does_match (map (kw_after []) kys))"
proof -
  have "kw_count might_match (map (kw_after []) kys) + kw_count does_match (map (kw_after []) kys) = int (length kys)"
    by (induction kys) (auto simp: kw_after_def)
  then show ?thesis by (simp add: sk_init_after)
qed

lemma takeWhile_map_eq:
  assumes "map P xs = map Q ys"
  shows "length (takeWhile (\<lambda>x. \<not> P x) xs) = length (takeWhile (\<lambda>y. \<not> Q y) ys)"
proof -
  have "length (takeWhile Not (map R zs)) = length (takeWhile (\<lambda>z. \<not> R z) zs)" for R :: "'c \<Rightarrow> bool" and zs
    by (induction zs) simp_all
  then show ?thesis using arg_cong [OF assms, of "\<lambda>bs. length (takeWhile Not bs)"]
    by (simp add: takeWhile_map comp_def)
qed

lemma scan_keyword_reach:
  assumes "is_good i" and "length kys \<le> 100 \<or> mem"
  defines "n \<equiv> keyword_reach kys (is_buf i)"
  defines "q \<equiv> upper (take n (is_buf i))"
  defines "k \<equiv> length (takeWhile (\<lambda>ky. upper ky \<noteq> q) kys)"
  shows "scan_keyword mem kys i =
    Some (Inr (k, i\<lparr>is_buf := drop n (is_buf i), is_fail := k = length kys,
                    is_eof := n = length (is_buf i) \<and> list_ex (\<lambda>ky. strict_prefix (upper (is_buf i)) (upper ky)) kys\<rparr>))"
proof -
  obtain sts where run: "sk_loop kys 0 i (map (kw_after []) kys) (kw_count might_match (map (kw_after []) kys))
        (kw_count does_match (map (kw_after []) kys)) =
      Some (i\<lparr>is_buf := drop n (is_buf i),
              is_eof := n = length (is_buf i) \<and> list_ex (\<lambda>ky. kw_after (upper (is_buf i)) ky = might_match) kys\<rparr>, sts)"
    and sts: "map (\<lambda>st. st = does_match) sts = map (\<lambda>ky. upper ky = q) kys"
    using sk_loop_runs [OF assms(1) refl refl refl, where p = "[]" and kys = kys]
    by (auto simp: n_def q_def keyword_reach_from)
  have "(kw_after p ky = might_match) = strict_prefix p (upper ky)" for p ky
    by (auto simp: kw_after_def strict_prefix_def)
  then show ?thesis
    using assms(1,2) run takeWhile_map_eq [OF sts]
    by (auto simp: scan_keyword_def sk_init_counts k_def set_fail_def is_good_def Let_def)
qed

text \<open>A name that no keyword continues with the next character is read as a whole.\<close>

lemma keyword_reach_exact:
  assumes "w \<in> set kys" and "\<And>ky. ky \<in> set kys \<Longrightarrow> r \<noteq> [] \<Longrightarrow> \<not> prefix (upper w @ [toupper (hd r)]) (upper ky)"
  shows "keyword_reach kys (w @ r) = length w"
proof (rule antisym)
  show "length w \<le> keyword_reach kys (w @ r)"
    unfolding keyword_reach_from
    by (rule reach_from_greatest) (use assms(1) in \<open>auto simp: list_ex_iff\<close>)
  show "keyword_reach kys (w @ r) \<le> length w"
  proof (rule ccontr)
    define n where "n = keyword_reach kys (w @ r)"
    assume "\<not> keyword_reach kys (w @ r) \<le> length w"
    then have n: "length w < n" by (simp add: n_def)
    then obtain c r' where r: "r = c # r'"
      using reach_from_le [of kys "[]" "w @ r"] by (cases r) (auto simp: n_def keyword_reach_from)
    obtain ky where "ky \<in> set kys" "prefix (upper (take n (w @ r))) (upper ky)"
      using reach_from_prefix [of kys "[]" "w @ r"] n by (auto simp: n_def keyword_reach_from list_ex_iff)
    moreover have "prefix (w @ [c]) (take n (w @ r))"
      using n r by (cases "n - length w") auto
    then have "prefix (upper w @ [toupper c]) (upper (take n (w @ r)))" by (auto dest: map_mono_prefix [where f = toupper])
    ultimately show False using assms(2) [of ky] r by (auto dest: prefix_order.trans)
  qed
qed

section \<open>Names are read back\<close>

definition is_letter :: "char \<Rightarrow> bool" where
  "is_letter c \<longleftrightarrow> (65 \<le> (of_char c :: nat) \<and> (of_char c :: nat) \<le> 90) \<or> (97 \<le> (of_char c :: nat) \<and> (of_char c :: nat) \<le> 122)"

lemma toupper_letter: "is_letter (toupper c) \<longleftrightarrow> is_letter c"
  by (auto simp: is_letter_def toupper_def)

lemma length_takeWhile_less: "\<exists>x \<in> set xs. \<not> P x \<Longrightarrow> length (takeWhile P xs) < length xs"
  by (induction xs) auto

lemma name_read_back:
  assumes "length kys \<le> 100" and "k < length kys" and "list_all (list_all is_letter) kys"
    and "r = [] \<or> \<not> is_letter (hd r)"
  obtains j i where "scan_keyword True kys (istream_new (kys ! k @ r)) = Some (Inr (j, i))"
    and "j < length kys" and "upper (kys ! j) = upper (kys ! k)" and "is_buf i = r" and "\<not> is_fail i"
proof -
  let ?w = "kys ! k"
  have "\<not> prefix (upper ?w @ [toupper (hd r)]) (upper ky)" if "ky \<in> set kys" and "r \<noteq> []" for ky
  proof
    assume "prefix (upper ?w @ [toupper (hd r)]) (upper ky)"
    from set_mono_prefix [OF this] have "toupper (hd r) \<in> set (upper ky)" by simp
    then obtain x where "x \<in> set ky" "toupper (hd r) = toupper x" by auto
    then have "is_letter (toupper (hd r))" using assms(3) that(1) by (simp add: list_all_iff toupper_letter)
    then show False using assms(4) that(2) by (simp add: toupper_letter)
  qed
  then have reach: "keyword_reach kys (?w @ r) = length ?w" using assms(2) by (intro keyword_reach_exact) auto
  define j where "j = length (takeWhile (\<lambda>ky. upper ky \<noteq> upper ?w) kys)"
  have "\<exists>ky \<in> set kys. upper ky = upper ?w" using assms(2) by auto
  then have j: "j < length kys" and u: "upper (kys ! j) = upper ?w"
    using nth_length_takeWhile [of "\<lambda>ky. upper ky \<noteq> upper ?w" kys] by (simp_all add: j_def length_takeWhile_less)
  then show thesis
    using that scan_keyword_reach [of "istream_new (?w @ r)" kys True] assms(1) reach
    by (auto simp: istream_new_def is_good_def Let_def simp flip: j_def)
qed

lemma names_letters:
  "list_all (list_all is_letter) weekday_names" "list_all (list_all is_letter) month_names"
  by code_simp+

text \<open>Two names that are equal, cases apart, name the same weekday or month.\<close>

lemma upper_names:
  "map upper weekday_names =
     [''SUNDAY'', ''MONDAY'', ''TUESDAY'', ''WEDNESDAY'', ''THURSDAY'', ''FRIDAY'', ''SATURDAY'',
      ''SUN'', ''MON'', ''TUE'', ''WED'', ''THU'', ''FRI'', ''SAT'']"
  "map upper month_names =
     [''JANUARY'', ''FEBRUARY'', ''MARCH'', ''APRIL'', ''MAY'', ''JUNE'', ''JULY'', ''AUGUST'', ''SEPTEMBER'', ''OCTOBER'',
      ''NOVEMBER'', ''DECEMBER'',
      ''JAN'', ''FEB'', ''MAR'', ''APR'', ''MAY'', ''JUN'', ''JUL'', ''AUG'', ''SEP'', ''OCT'', ''NOV'', ''DEC'']"
  by code_simp+

lemma names_length: "length weekday_names = 14" "length month_names = 24"
  by (simp_all add: weekday_names_def month_names_def)

lemma same_weekday_name:
  assumes "upper (weekday_names ! j) = upper (weekday_names ! k)" and "j < 14" and "k < 14"
  shows "j = k"
proof -
  have "distinct (map upper weekday_names)" unfolding upper_names by simp
  with assms show ?thesis by (auto simp: distinct_conv_nth names_length)
qed

lemma same_month_name:
  assumes "upper (month_names ! j) = upper (month_names ! k)" and "j < 24" and "k < 24"
  shows "j mod 12 = k mod 12"
proof -
  define u where "u = map upper month_names"
  define f where "f n = (if n = 16 then 4 else n)" for n :: nat
  have l: "length u = 24" by (simp add: u_def names_length)
  have "u ! 16 = u ! 4" unfolding u_def upper_names by simp
  then have "u ! f n = u ! n" for n by (simp add: f_def)
  moreover have "u ! j = u ! k" using assms by (simp add: u_def names_length)
  ultimately have "u ! f j = u ! f k" by simp
  moreover have "distinct (u[16 := []])" unfolding u_def upper_names by simp
  moreover have "f j \<noteq> 16" "f k \<noteq> 16" "f j < 24" "f k < 24" using assms by (simp_all add: f_def)
  ultimately have "f j = f k" using l nth_eq_iff_index_eq [of "u[16 := []]" "f j" "f k"] by simp
  then show ?thesis by (auto simp: f_def split: if_splits)
qed

end
