(* ===== verification/Date_Assign.thy ===== *)
theory Date_Assign
  imports Date_Weekday
begin

text \<open>
  The comparisons with \<^verbatim>\<open>==\<close> and the compound assignments of the calendar types of \<^verbatim>\<open>debug_print/date.h\<close>.  An
  assignment \<^verbatim>\<open>x += months{n}\<close> is a value of the datatype \<open>assignment\<close>, so that a program of assignments is a list of them,
  and each class has one definition for its operators \<^verbatim>\<open>+=\<close> and \<^verbatim>\<open>-=\<close>.  Years are sixteen bits and wrap; what the
  assignments do is stated of the position of the month on a time line of \<open>2 ^ 16 * 12\<close> months closed to a ring.
\<close>

section \<open>Equality\<close>

definition weekday_eq :: "weekday \<Rightarrow> weekday \<Rightarrow> bool" where
  "weekday_eq x y \<longleftrightarrow> weekday_wd x = weekday_wd y"

definition wl_eq :: "weekday_last \<Rightarrow> weekday_last \<Rightarrow> bool" where
  "wl_eq x y \<longleftrightarrow> weekday_eq (wl_weekday x) (wl_weekday y)"

definition ym_eq :: "year_month \<Rightarrow> year_month \<Rightarrow> bool" where
  "ym_eq x y \<longleftrightarrow> year_eq (ym_year x) (ym_year y) \<and> month_eq (ym_month x) (ym_month y)"

definition md_eq :: "month_day \<Rightarrow> month_day \<Rightarrow> bool" where
  "md_eq x y \<longleftrightarrow> month_eq (md_month x) (md_month y) \<and> day_eq (md_day x) (md_day y)"

definition mdl_eq :: "month_day_last \<Rightarrow> month_day_last \<Rightarrow> bool" where
  "mdl_eq x y \<longleftrightarrow> month_eq (mdl_month x) (mdl_month y)"

definition mw_eq :: "month_weekday \<Rightarrow> month_weekday \<Rightarrow> bool" where
  "mw_eq x y \<longleftrightarrow> month_eq (mw_month x) (mw_month y) \<and> wi_eq (mw_wdi x) (mw_wdi y)"

definition mwl_eq :: "month_weekday_last \<Rightarrow> month_weekday_last \<Rightarrow> bool" where
  "mwl_eq x y \<longleftrightarrow> month_eq (mwl_month x) (mwl_month y) \<and> wl_eq (mwl_wdl x) (mwl_wdl y)"

definition ymdl_eq :: "year_month_day_last \<Rightarrow> year_month_day_last \<Rightarrow> bool" where
  "ymdl_eq x y \<longleftrightarrow> year_eq (ymdl_year x) (ymdl_year y) \<and> mdl_eq (ymdl_mdl x) (ymdl_mdl y)"

definition ymd_eq :: "year_month_day \<Rightarrow> year_month_day \<Rightarrow> bool" where
  "ymd_eq x y \<longleftrightarrow>
     year_eq (ymd_year x) (ymd_year y) \<and> month_eq (ymd_month x) (ymd_month y) \<and> day_eq (ymd_day x) (ymd_day y)"

definition ymw_eq :: "year_month_weekday \<Rightarrow> year_month_weekday \<Rightarrow> bool" where
  "ymw_eq x y \<longleftrightarrow>
     year_eq (ymw_year x) (ymw_year y) \<and> month_eq (ymw_month x) (ymw_month y) \<and> wi_eq (ymw_wdi x) (ymw_wdi y)"

definition ymwl_eq :: "year_month_weekday_last \<Rightarrow> year_month_weekday_last \<Rightarrow> bool" where
  "ymwl_eq x y \<longleftrightarrow>
     year_eq (ymwl_year x) (ymwl_year y) \<and> month_eq (ymwl_month x) (ymwl_month y) \<and> wl_eq (ymwl_wdl x) (ymwl_wdl y)"

text \<open>On the types without weekdays the operators are equality.\<close>

lemma composite_eq_iff:
  "weekday_eq v w \<longleftrightarrow> v = w" "ym_eq a b \<longleftrightarrow> a = b" "md_eq c d \<longleftrightarrow> c = d" "mdl_eq e f \<longleftrightarrow> e = f"
  "ymdl_eq g h \<longleftrightarrow> g = h" "ymd_eq i j \<longleftrightarrow> i = j"
  by (auto simp: weekday_eq_def ym_eq_def md_eq_def mdl_eq_def ymdl_eq_def ymd_eq_def year_eq_iff month_eq_iff day_eq_iff
      intro: weekday.expand)

section \<open>Subscripts and differences\<close>

text \<open>\<^verbatim>\<open>wd[index]\<close> and \<^verbatim>\<open>wd[last]\<close>.\<close>

definition weekday_at :: "weekday \<Rightarrow> u32 \<Rightarrow> weekday_indexed" where
  "weekday_at wd index = weekday_indexed_new wd index"

definition weekday_at_last :: "weekday \<Rightarrow> weekday_last" where
  "weekday_at_last wd = weekday_last_new wd"

definition ymw_minus_months :: "year_month_weekday \<Rightarrow> months \<Rightarrow> year_month_weekday" where
  "ymw_minus_months x dm = ymw_plus_months x (- dm)"

definition ymw_minus_years :: "year_month_weekday \<Rightarrow> years \<Rightarrow> year_month_weekday" where
  "ymw_minus_years x dy = ymw_plus_years x (- dy)"

definition ymwl_minus_months :: "year_month_weekday_last \<Rightarrow> months \<Rightarrow> year_month_weekday_last" where
  "ymwl_minus_months x dm = ymwl_plus_months x (- dm)"

definition ymwl_minus_years :: "year_month_weekday_last \<Rightarrow> years \<Rightarrow> year_month_weekday_last" where
  "ymwl_minus_years x dy = ymwl_plus_years x (- dy)"

section \<open>Assignments\<close>

datatype assignment = Add_months months | Sub_months months | Add_years years | Sub_years years

fun month_assign :: "assignment \<Rightarrow> month \<Rightarrow> month" where
  "month_assign (Add_months n) x = month_plus x n"
| "month_assign (Sub_months n) x = month_minus x n"
| "month_assign _ x = x"

fun year_assign :: "assignment \<Rightarrow> year \<Rightarrow> year" where
  "year_assign (Add_years n) x = year_plus x n"
| "year_assign (Sub_years n) x = year_minus x n"
| "year_assign _ x = x"

datatype day_assignment = Add_days days | Sub_days days

fun day_assign :: "day_assignment \<Rightarrow> day \<Rightarrow> day" where
  "day_assign (Add_days n) x = day_plus x n"
| "day_assign (Sub_days n) x = day_minus x n"

fun weekday_assign :: "day_assignment \<Rightarrow> weekday \<Rightarrow> weekday" where
  "weekday_assign (Add_days n) x = weekday_plus x n"
| "weekday_assign (Sub_days n) x = weekday_minus x n"

fun ym_assign :: "assignment \<Rightarrow> year_month \<Rightarrow> year_month" where
  "ym_assign (Add_months n) x = ym_plus_months x n"
| "ym_assign (Sub_months n) x = ym_minus_months x n"
| "ym_assign (Add_years n) x = ym_plus_years x n"
| "ym_assign (Sub_years n) x = ym_minus_years x n"

fun ymdl_assign :: "assignment \<Rightarrow> year_month_day_last \<Rightarrow> year_month_day_last" where
  "ymdl_assign (Add_months n) x = ymdl_plus_months x n"
| "ymdl_assign (Sub_months n) x = ymdl_minus_months x n"
| "ymdl_assign (Add_years n) x = ymdl_plus_years x n"
| "ymdl_assign (Sub_years n) x = ymdl_minus_years x n"

fun ymd_assign :: "assignment \<Rightarrow> year_month_day \<Rightarrow> year_month_day" where
  "ymd_assign (Add_months n) x = ymd_plus_months x n"
| "ymd_assign (Sub_months n) x = ymd_minus_months x n"
| "ymd_assign (Add_years n) x = ymd_plus_years x n"
| "ymd_assign (Sub_years n) x = ymd_minus_years x n"

fun ymw_assign :: "assignment \<Rightarrow> year_month_weekday \<Rightarrow> year_month_weekday" where
  "ymw_assign (Add_months n) x = ymw_plus_months x n"
| "ymw_assign (Sub_months n) x = ymw_minus_months x n"
| "ymw_assign (Add_years n) x = ymw_plus_years x n"
| "ymw_assign (Sub_years n) x = ymw_minus_years x n"

fun ymwl_assign :: "assignment \<Rightarrow> year_month_weekday_last \<Rightarrow> year_month_weekday_last" where
  "ymwl_assign (Add_months n) x = ymwl_plus_months x n"
| "ymwl_assign (Sub_months n) x = ymwl_minus_months x n"
| "ymwl_assign (Add_years n) x = ymwl_plus_years x n"
| "ymwl_assign (Sub_years n) x = ymwl_minus_years x n"

text \<open>Weekdays go round in sevens: a program of assignments adds up.\<close>

fun day_delta :: "day_assignment \<Rightarrow> int" where
  "day_delta (Add_days n) = n"
| "day_delta (Sub_days n) = - n"

lemma weekday_assign_run:
  assumes "weekday_ok x"
  shows "uint (weekday_wd (fold weekday_assign ss x)) = (uint (weekday_wd x) + sum_list (map day_delta ss)) mod 7"
  using assms
proof (induction ss arbitrary: x)
  case (Cons s ss)
  have "weekday_assign s x = weekday_plus x (day_delta s)" by (cases s) (simp_all add: weekday_minus_def)
  then show ?case
    using Cons.IH [OF weekday_plus_ok] by (simp add: weekday_plus_uint mod_add_left_eq add.assoc)
qed (simp add: weekday_ok_uint)

section \<open>The ring of months\<close>

definition ring_months :: int where "ring_months = 2 ^ 16 * 12"

fun delta :: "assignment \<Rightarrow> int" where
  "delta (Add_months n) = n"
| "delta (Sub_months n) = - n"
| "delta (Add_years n) = 12 * n"
| "delta (Sub_years n) = - (12 * n)"

lemma year_int_new_mod: "year_int (year_new i) mod 65536 = i mod 65536"
proof -
  have "take_bit 16 (sint (of_int i :: 16 word)) = take_bit 16 i"
    by (simp add: signed_of_int take_bit_signed_take_bit)
  then show ?thesis by (simp add: year_int_def year_new_def take_bit_eq_mod)
qed

lemma ring_eqI:
  assumes "a mod 65536 = b mod 65536"
  shows "(a * 12 + c) mod ring_months = (b * 12 + c) mod ring_months"
proof -
  have "65536 dvd a - b" using assms by (simp add: mod_eq_dvd_iff)
  then have "65536 * 12 dvd (a - b) * 12" by (rule mult_dvd_mono) simp
  then show ?thesis by (simp add: mod_eq_dvd_iff ring_months_def algebra_simps)
qed

lemma ym_plus_months_ring:
  "ym_index (ym_plus_months x n) mod ring_months = (ym_index x + n) mod ring_months"
  "month_ok (ym_month (ym_plus_months x n))"
proof -
  define i where "i = uint (month_m (ym_month x)) - 1 + n"
  have u: "uint (month_m (month_new (of_int (i mod 12 + 1)))) = i mod 12 + 1"
    using pos_mod_bound [of 12 i] by (intro month_new_uint) (auto intro: order_trans)
  have p: "ym_plus_months x n = year_month_new (year_plus (ym_year x) (i div 12)) (month_new (of_int (i mod 12 + 1)))"
    by (simp only: ym_plus_months_floor Let_def i_def)
  show "month_ok (ym_month (ym_plus_months x n))"
    using u pos_mod_bound [of 12 i] by (simp add: p year_month_new_def month_ok_uint del: of_int_add)
  have "ym_index (ym_plus_months x n) = year_int (year_new (year_int (ym_year x) + i div 12)) * 12 + i mod 12"
    using u by (simp add: p ym_index_def year_month_new_def year_plus_def del: of_int_add)
  also have "\<dots> mod ring_months = ((year_int (ym_year x) + i div 12) * 12 + i mod 12) mod ring_months"
    by (rule ring_eqI) (simp add: year_int_new_mod)
  also have "(year_int (ym_year x) + i div 12) * 12 + i mod 12 = ym_index x + n"
    using div_mult_mod_eq [of i 12] by (simp add: i_def ym_index_def algebra_simps)
  finally show "ym_index (ym_plus_months x n) mod ring_months = (ym_index x + n) mod ring_months" .
qed

lemma ym_plus_years_ring: "ym_index (ym_plus_years x n) mod ring_months = (ym_index x + 12 * n) mod ring_months"
proof -
  have "(year_int (year_new (year_int (ym_year x) + n)) * 12 + (uint (month_m (ym_month x)) - 1)) mod ring_months =
      ((year_int (ym_year x) + n) * 12 + (uint (month_m (ym_month x)) - 1)) mod ring_months"
    by (rule ring_eqI) (simp add: year_int_new_mod)
  then show ?thesis by (simp add: ym_index_def ym_plus_years_def year_month_new_def year_plus_def algebra_simps)
qed

lemma ym_assign_ring:
  "ym_index (ym_assign s x) mod ring_months = (ym_index x + delta s) mod ring_months"
  "month_ok (ym_month x) \<Longrightarrow> month_ok (ym_month (ym_assign s x))"
  by (cases s; simp add: ym_plus_months_ring ym_plus_years_ring ym_minus_months_def ym_minus_years_def
      flip: mult_minus_right; simp add: ym_plus_years_def year_month_new_def)+

section \<open>Programs of assignments\<close>

text \<open>What the dated types have in common: a date holds a year and a month, which every assignment changes as
  it changes a \<^verbatim>\<open>year_month\<close>, and a rest that no assignment changes.\<close>

locale dated =
  fixes ym_of :: "'a \<Rightarrow> year_month" and rest_of :: "'a \<Rightarrow> 'b" and assign :: "assignment \<Rightarrow> 'a \<Rightarrow> 'a"
  assumes ym_of_assign: "ym_of (assign s x) = ym_assign s (ym_of x)"
    and rest_of_assign: "rest_of (assign s x) = rest_of x"
    and dated_eqI: "ym_of x = ym_of y \<Longrightarrow> rest_of x = rest_of y \<Longrightarrow> x = y"
begin

lemma run_rest: "rest_of (fold assign ss x) = rest_of x"
  by (induction ss arbitrary: x) (simp_all add: rest_of_assign)

lemma run_ring:
  "ym_index (ym_of (fold assign ss x)) mod ring_months = (ym_index (ym_of x) + sum_list (map delta ss)) mod ring_months"
proof (induction ss arbitrary: x)
  case (Cons s ss)
  have "ym_index (ym_of (fold assign (s # ss) x)) mod ring_months =
      (ym_index (ym_of (assign s x)) + sum_list (map delta ss)) mod ring_months"
    using Cons.IH by simp
  also have "\<dots> = (ym_index (ym_of x) + delta s + sum_list (map delta ss)) mod ring_months"
    using ym_assign_ring(1) [of s "ym_of x"] by (metis mod_add_left_eq ym_of_assign)
  finally show ?case by (simp add: add.assoc)
qed simp

lemma run_month_ok: "month_ok (ym_month (ym_of x)) \<Longrightarrow> month_ok (ym_month (ym_of (fold assign ss x)))"
  by (induction ss arbitrary: x) (simp_all add: ym_of_assign ym_assign_ring(2))

lemma run_back:
  assumes "month_ok (ym_month (ym_of x))" and "ring_months dvd sum_list (map delta ss)"
  shows "fold assign ss x = x"
proof (rule dated_eqI)
  let ?y = "ym_of (fold assign ss x)"
  have r: "- 32768 * 12 \<le> ym_index z" "ym_index z < 32768 * 12" if "month_ok (ym_month z)" for z
    using year_int_bound [of "ym_year z"] that by (auto simp: ym_index_def month_ok_uint)
  have "ring_months dvd ym_index ?y - ym_index (ym_of x)"
    using dvd_add [OF run_ring [of ss x, unfolded mod_eq_dvd_iff] assms(2)] by simp
  moreover have "\<bar>ym_index ?y - ym_index (ym_of x)\<bar> < ring_months"
    using r [OF run_month_ok [OF assms(1)], of ss] r [OF assms(1)] by (simp add: ring_months_def)
  ultimately have "ym_index ?y - ym_index (ym_of x) = 0"
    using dvd_imp_le_int [of "ym_index ?y - ym_index (ym_of x)" ring_months] by linarith
  then show "?y = ym_of x" using run_month_ok [OF assms(1)] assms(1) by (intro ym_index_inject) simp_all
qed (rule run_rest)

end

interpretation ym: dated "\<lambda>x. x" "\<lambda>x. ()" ym_assign
  by unfold_locales simp_all

interpretation ymdl: dated "\<lambda>x. year_month_new (ymdl_year x) (ymdl_month x)" "\<lambda>x. ()" ymdl_assign
proof
  fix s x
  show "year_month_new (ymdl_year (ymdl_assign s x)) (ymdl_month (ymdl_assign s x)) =
      ym_assign s (year_month_new (ymdl_year x) (ymdl_month x))"
    by (cases s) (simp_all add: ymdl_plus_months_def ymdl_minus_months_def ymdl_plus_years_def ymdl_minus_years_def
        ym_minus_months_def ym_minus_years_def ym_plus_years_def year_month_new_def ym_last_def ymdl_month_def
        year_month_day_last_new_def month_day_last_new_def)
qed (auto simp: year_month_new_def ymdl_month_def intro!: year_month_day_last.equality month_day_last.equality)

lemmas ymd_arith = ymd_plus_months_def ymd_minus_months_def ymd_plus_years_def ymd_minus_years_def year_month_day_new_def
lemmas ymw_arith = ymw_plus_months_def ymw_minus_months_def ymw_plus_years_def ymw_minus_years_def year_month_weekday_new_def
lemmas ymwl_arith = ymwl_plus_months_def ymwl_minus_months_def ymwl_plus_years_def ymwl_minus_years_def
  year_month_weekday_last_new_def
lemmas ym_arith = ym_minus_months_def ym_minus_years_def ym_plus_years_def year_month_new_def

interpretation ymd: dated "\<lambda>x. year_month_new (ymd_year x) (ymd_month x)" ymd_day ymd_assign
proof
  fix s x
  show "year_month_new (ymd_year (ymd_assign s x)) (ymd_month (ymd_assign s x)) =
      ym_assign s (year_month_new (ymd_year x) (ymd_month x))"
    by (cases s) (simp_all add: ymd_arith ym_arith Let_def)
  show "ymd_day (ymd_assign s x) = ymd_day x" by (cases s) (simp_all add: ymd_arith Let_def)
qed (simp add: year_month_new_def)

interpretation ymw: dated "\<lambda>x. year_month_new (ymw_year x) (ymw_month x)" ymw_wdi ymw_assign
proof
  fix s x
  show "year_month_new (ymw_year (ymw_assign s x)) (ymw_month (ymw_assign s x)) =
      ym_assign s (year_month_new (ymw_year x) (ymw_month x))"
    by (cases s) (simp_all add: ymw_arith ym_arith Let_def)
  show "ymw_wdi (ymw_assign s x) = ymw_wdi x" by (cases s) (simp_all add: ymw_arith Let_def)
qed (simp add: year_month_new_def)

interpretation ymwl: dated "\<lambda>x. year_month_new (ymwl_year x) (ymwl_month x)" ymwl_wdl ymwl_assign
proof
  fix s x
  show "year_month_new (ymwl_year (ymwl_assign s x)) (ymwl_month (ymwl_assign s x)) =
      ym_assign s (year_month_new (ymwl_year x) (ymwl_month x))"
    by (cases s) (simp_all add: ymwl_arith ym_arith Let_def)
  show "ymwl_wdl (ymwl_assign s x) = ymwl_wdl x" by (cases s) (simp_all add: ymwl_arith Let_def)
qed (simp add: year_month_new_def)

end
