(* ===== verification/Date_Literal.thy ===== *)
theory Date_Literal
  imports Date_Units "HOL-Library.Monad_Syntax"
begin

text \<open>
  \<^verbatim>\<open>detail::string_literal\<close> of \<^verbatim>\<open>debug_print/date.h\<close>, the arrays of characters in which the units of durations are put
  together at compile time.  A literal of \<open>n\<close> characters is an array of \<open>n + 1\<close>, with a terminating zero; the loops
  write by index, and a write or a read outside an array has no value (\<^const>\<open>None\<close>).  The lemmas show that this never
  happens and that the text is the one of \<open>Date_Units\<close>, where strings are appended, as the
  branch of the header for compilers before C++14 does with \<^verbatim>\<open>std::to_string\<close>.
\<close>

record string_literal =
  sl_p :: "char list"

definition sl_size :: "string_literal \<Rightarrow> nat" where
  "sl_size s = length (sl_p s) - 1"

text \<open>What \<^verbatim>\<open>operator<<\<close> prints of the array.\<close>

definition sl_print :: "string_literal \<Rightarrow> string" where
  "sl_print s = c_str (sl_p s)"

text \<open>The constructors from one, two and three characters; the rest of the array is zero.\<close>

definition sl_new1 :: "char \<Rightarrow> string_literal" where
  "sl_new1 c = \<lparr>sl_p = [c, NUL]\<rparr>"

definition sl_new2 :: "char \<Rightarrow> char \<Rightarrow> string_literal" where
  "sl_new2 c1 c2 = \<lparr>sl_p = [c1, c2, NUL]\<rparr>"

definition sl_new3 :: "char \<Rightarrow> char \<Rightarrow> char \<Rightarrow> string_literal" where
  "sl_new3 c1 c2 c3 = \<lparr>sl_p = [c1, c2, c3, NUL]\<rparr>"

definition arr_get :: "char list \<Rightarrow> nat \<Rightarrow> char option" where
  "arr_get a j = (if j < length a then Some (a ! j) else None)"

definition arr_put :: "nat \<Rightarrow> char \<Rightarrow> char list \<Rightarrow> char list option" where
  "arr_put i c r = (if i < length r then Some (r[i := c]) else None)"

text \<open>The copying loop: \<open>r[i + j] = a[j]\<close> for \<open>j\<close> below \<open>n\<close>.\<close>

function copy_loop :: "char list \<Rightarrow> nat \<Rightarrow> nat \<Rightarrow> nat \<Rightarrow> char list \<Rightarrow> char list option" where
  "copy_loop a n j i r =
     (if j < n then do { c \<leftarrow> arr_get a j; r' \<leftarrow> arr_put i c r; copy_loop a n (j + 1) (i + 1) r' } else Some r)"
  by pat_completeness auto
termination by (relation "measure (\<lambda>(a, n, j, i, r). n - j)") auto

declare copy_loop.simps [simp del]

definition sl_of_array :: "char list \<Rightarrow> string_literal option" where
  "sl_of_array a = map_option (\<lambda>r. \<lparr>sl_p = r\<rparr>) (copy_loop a (length a) 0 0 (replicate (length a) NUL))"

definition sl_plus :: "string_literal \<Rightarrow> string_literal \<Rightarrow> string_literal option" where
  "sl_plus x y =
     (let n1 = length (sl_p x); n2 = length (sl_p y)
      in do { r \<leftarrow> copy_loop (sl_p x) (n1 - 1) 0 0 (replicate (n1 + n2 - 1) NUL);
              r \<leftarrow> copy_loop (sl_p y) n2 0 (n1 - 1) r;
              Some \<lparr>sl_p = r\<rparr> })"

text \<open>The overloads for literals of one and one, and of two and one character.\<close>

definition sl_plus_1_1 :: "string_literal \<Rightarrow> string_literal \<Rightarrow> string_literal option" where
  "sl_plus_1_1 x y = do { a \<leftarrow> arr_get (sl_p x) 0; b \<leftarrow> arr_get (sl_p y) 0; Some (sl_new2 a b) }"

definition sl_plus_2_1 :: "string_literal \<Rightarrow> string_literal \<Rightarrow> string_literal option" where
  "sl_plus_2_1 x y =
     do { a \<leftarrow> arr_get (sl_p x) 0; b \<leftarrow> arr_get (sl_p x) 1; c \<leftarrow> arr_get (sl_p y) 0; Some (sl_new3 a b c) }"

definition sl_append :: "string_literal \<Rightarrow> string_literal \<Rightarrow> string_literal option" where
  "sl_append x y =
     (if length (sl_p x) = 2 \<and> length (sl_p y) = 2 then sl_plus_1_1 x y
      else if length (sl_p x) = 3 \<and> length (sl_p y) = 2 then sl_plus_2_1 x y
      else sl_plus x y)"

definition string_plus_sl :: "string \<Rightarrow> string_literal \<Rightarrow> string" where
  "string_plus_sl x y = x @ take (sl_size y) (sl_p y)"

text \<open>\<^verbatim>\<open>msl(c)\<close>, \<^verbatim>\<open>msl<N>()\<close> and \<^verbatim>\<open>msl(ratio)\<close>.\<close>

definition msl_char :: "char \<Rightarrow> string_literal" where
  "msl_char c = sl_new1 c"

fun msl_num :: "nat \<Rightarrow> string_literal option" where
  "msl_num n =
     (if n < 10 then Some (msl_char (digit_char n))
      else do { l \<leftarrow> msl_num (n div 10); sl_append l (msl_char (digit_char (n mod 10))) })"

declare msl_num.simps [simp del]

definition msl_ratio_literal :: "ratio \<Rightarrow> string_literal option" where
  "msl_ratio_literal p =
     (if rden p \<noteq> 1
      then do { n \<leftarrow> msl_num (nat (rnum p)); d \<leftarrow> msl_num (nat (rden p));
                s \<leftarrow> sl_append (msl_char (CHR ''['')) n; s \<leftarrow> sl_append s (msl_char (CHR ''/''));
                s \<leftarrow> sl_append s d; sl_append s (msl_char (CHR '']'')) }
      else do { n \<leftarrow> msl_num (nat (rnum p)); s \<leftarrow> sl_append (msl_char (CHR ''['')) n; sl_append s (msl_char (CHR '']'')) })"

section \<open>Copying stays inside the arrays\<close>

text \<open>A literal holds the text \<open>t\<close>.\<close>

definition sl_holds :: "string_literal \<Rightarrow> string \<Rightarrow> bool" where
  "sl_holds s t \<longleftrightarrow> sl_p s = t @ [NUL] \<and> NUL \<notin> set t"

lemma sl_holds_print: "sl_holds s t \<Longrightarrow> sl_print s = t \<and> sl_size s = length t \<and> string_plus_sl u s = u @ t"
  by (auto simp: sl_holds_def sl_print_def sl_size_def string_plus_sl_def c_str_append_NUL)

lemma copy_loop_copies:
  assumes "j \<le> n" and "n \<le> length a" and "length pre = i" and "n - j \<le> length post"
  shows "copy_loop a n j i (pre @ post) = Some (pre @ take (n - j) (drop j a) @ drop (n - j) post)"
  using assms
proof (induction "n - j" arbitrary: j i pre post)
  case 0
  then show ?case by (subst copy_loop.simps) simp
next
  case (Suc k)
  then obtain c post' where p: "post = c # post'" by (cases post) auto
  have l: "j < n" "j < length a" "k = n - (j + 1)" using Suc by linarith+
  have "copy_loop a n j i (pre @ post) = copy_loop a n (j + 1) (i + 1) ((pre @ [a ! j]) @ post')"
    using l p Suc.prems(3) by (subst copy_loop.simps) (auto simp: arr_get_def arr_put_def list_update_append)
  also have "\<dots> = Some ((pre @ [a ! j]) @ take (n - (j + 1)) (drop (j + 1) a) @ drop (n - (j + 1)) post')"
    using Suc.prems l p by (intro Suc.hyps(1)) auto
  also have "take (n - j) (drop j a) = a ! j # take (n - (j + 1)) (drop (j + 1) a)"
    using l by (metis Cons_nth_drop_Suc Suc_diff_Suc Suc_eq_plus1 take_Suc_Cons)
  then have "(pre @ [a ! j]) @ take (n - (j + 1)) (drop (j + 1) a) @ drop (n - (j + 1)) post' =
      pre @ take (n - j) (drop j a) @ drop (n - j) post"
    using l p Suc.hyps(2) by (simp flip: Suc.hyps(2))
  finally show ?case .
qed

lemma sl_of_array_copies: "sl_of_array a = Some \<lparr>sl_p = a\<rparr>"
  using copy_loop_copies [of 0 "length a" a "[]" 0 "replicate (length a) NUL"] by (simp add: sl_of_array_def)

lemma sl_plus_holds:
  assumes "sl_holds x s" and "sl_holds y t"
  shows "sl_plus x y = Some \<lparr>sl_p = s @ t @ [NUL]\<rparr>"
proof -
  have p: "sl_p x = s @ [NUL]" "sl_p y = t @ [NUL]" using assms by (simp_all add: sl_holds_def)
  have "copy_loop (sl_p x) (length s) 0 0 (replicate (length s + length t + 1) NUL) = Some (s @ replicate (length t + 1) NUL)"
    using copy_loop_copies [of 0 "length s" "sl_p x" "[]" 0 "replicate (length s + length t + 1) NUL"] p
    by (simp del: replicate.simps)
  moreover have "copy_loop (sl_p y) (length t + 1) 0 (length s) (s @ replicate (length t + 1) NUL) = Some (s @ t @ [NUL])"
    using copy_loop_copies [of 0 "length t + 1" "sl_p y" s "length s" "replicate (length t + 1) NUL"] p
    by (simp del: replicate.simps)
  ultimately show ?thesis by (simp add: sl_plus_def Let_def p)
qed

lemma sl_append_holds:
  assumes "sl_holds x s" and "sl_holds y t"
  shows "\<exists>z. sl_append x y = Some z \<and> sl_holds z (s @ t)"
proof -
  have p: "sl_p x = s @ [NUL]" "sl_p y = t @ [NUL]" "NUL \<notin> set s" "NUL \<notin> set t" using assms by (simp_all add: sl_holds_def)
  consider "length s = 1 \<and> length t = 1" | "length s = 2 \<and> length t = 1" | "sl_append x y = sl_plus x y"
  proof -
    assume "length s = 1 \<and> length t = 1 \<Longrightarrow> thesis" and "length s = 2 \<and> length t = 1 \<Longrightarrow> thesis"
      and "sl_append x y = sl_plus x y \<Longrightarrow> thesis"
    then show thesis
      by (cases "length s = 1 \<and> length t = 1"; cases "length s = 2 \<and> length t = 1") (auto simp: sl_append_def p)
  qed
  then show ?thesis
  proof cases
    case 1
    then obtain a b where "s = [a]" "t = [b]" by (auto simp: length_Suc_conv)
    then show ?thesis using p by (simp add: sl_append_def sl_plus_1_1_def sl_new2_def sl_holds_def arr_get_def)
  next
    case 2
    then obtain a b c where "s = [a, b]" "t = [c]" by (auto simp: length_Suc_conv numeral_2_eq_2)
    then show ?thesis using p by (simp add: sl_append_def sl_plus_2_1_def sl_new3_def sl_holds_def arr_get_def)
  next
    case 3
    with sl_plus_holds [OF assms] p show ?thesis by (simp add: sl_holds_def)
  qed
qed

section \<open>Numbers and ratios\<close>

lemma msl_char_holds: "c \<noteq> NUL \<Longrightarrow> sl_holds (msl_char c) [c]"
  by (simp add: msl_char_def sl_new1_def sl_holds_def)

lemma digit_char_NUL: "n < 10 \<Longrightarrow> digit_char n \<noteq> NUL"
  by (auto simp: digit_char_def NUL_def dest!: arg_cong [where f = "of_char :: char \<Rightarrow> nat"])

lemma msl_num_holds: "\<exists>l. msl_num n = Some l \<and> sl_holds l (show_nat n)"
proof (induction n rule: msl_num.induct)
  case (1 n)
  show ?case
  proof (cases "n < 10")
    case True
    then show ?thesis
      using msl_char_holds [OF digit_char_NUL [OF True]] by (subst msl_num.simps, subst show_nat.simps) simp
  next
    case False
    with 1 obtain l where l: "msl_num (n div 10) = Some l" "sl_holds l (show_nat (n div 10))" by blast
    have "sl_holds (msl_char (digit_char (n mod 10))) [digit_char (n mod 10)]" by (intro msl_char_holds digit_char_NUL) simp
    from sl_append_holds [OF l(2) this] False l(1) show ?thesis
      by (subst msl_num.simps, subst show_nat.simps) simp
  qed
qed

text \<open>The array of a number has the size that its type says, and the text of a ratio is that of \<open>msl_ratio\<close>.\<close>

lemma msl_num_size: "msl_num n = Some l \<Longrightarrow> length (sl_p l) = to_string_len n + 1"
  using msl_num_holds [of n] by (auto simp: sl_holds_def to_string_len_digits msl_nat_show)

lemma sl_append_cong:
  assumes "sl_holds x s" and "sl_holds y t" and "\<And>z. sl_holds z (s @ t) \<Longrightarrow> \<exists>r. f z = Some r \<and> sl_holds r u"
  shows "\<exists>r. Option.bind (sl_append x y) f = Some r \<and> sl_holds r u"
  using sl_append_holds [OF assms(1,2)] assms(3) by auto

lemma msl_ratio_literal_holds: "\<exists>l. msl_ratio_literal p = Some l \<and> sl_holds l (msl_ratio p)"
proof -
  obtain n d where nd: "msl_num (nat (rnum p)) = Some n" "sl_holds n (show_nat (nat (rnum p)))"
    "msl_num (nat (rden p)) = Some d" "sl_holds d (show_nat (nat (rden p)))"
    using msl_num_holds by meson
  have c: "sl_holds (msl_char (CHR ''['')) ''[''" "sl_holds (msl_char (CHR ''/'')) ''/''" "sl_holds (msl_char (CHR '']'')) '']''"
    by (rule msl_char_holds, simp add: NUL_def)+
  show ?thesis
  proof (cases "rden p = 1")
    case True
    have "\<exists>r. Option.bind (sl_append (msl_char (CHR ''['')) n) (\<lambda>s. sl_append s (msl_char (CHR '']''))) = Some r \<and> sl_holds r (msl_ratio p)"
      by (rule sl_append_cong [OF c(1) nd(2)], drule sl_append_holds [OF _ c(3)])
        (simp add: True msl_ratio_def msl_nat_show)
    with True nd show ?thesis by (simp add: msl_ratio_literal_def)
  next
    case False
    have "\<exists>r. Option.bind (sl_append (msl_char (CHR ''['')) n) (\<lambda>s. Option.bind (sl_append s (msl_char (CHR ''/'')))
        (\<lambda>s. Option.bind (sl_append s d) (\<lambda>s. sl_append s (msl_char (CHR '']''))))) = Some r \<and> sl_holds r (msl_ratio p)"
      by (rule sl_append_cong [OF c(1) nd(2)], erule sl_append_cong [OF _ c(2)], erule sl_append_cong [OF _ nd(4)],
          drule sl_append_holds [OF _ c(3)])
        (simp add: False msl_ratio_def msl_nat_show)
    with False nd show ?thesis by (simp add: msl_ratio_literal_def)
  qed
qed

end
