(* ===== verification/C_Interface.thy ===== *)
theory C_Interface
  imports Connection_Context
begin

text \<open>
  The C interface of the library, \<^verbatim>\<open>connection.cpp\<close>: the connection context is a function-local static object,
  constructed by the first call and kept from then on.  Before, the library is \<open>Unused\<close> and there is only the rest
  of the system.  The functions forward to the context; the result of \<^verbatim>\<open>createReadConnection\<close> and
  \<^verbatim>\<open>createWriteConnection\<close> is a pointer, \<^const>\<open>None\<close> for null.
\<close>

datatype 'w library = Unused "'w sys" | Used "'w conn_context"

definition getConnectionContext :: "'w library \<Rightarrow> 'w conn_context" where
  "getConnectionContext l =
     (case l of
        Unused g \<Rightarrow> ConnectionContext_new (sys_cert g) (sys_chunk g) (sys_w g)
      | Used x \<Rightarrow> x)"

definition c_enableTracing :: "'v file_api \<Rightarrow> string \<Rightarrow> log_state \<Rightarrow> 'v \<Rightarrow> 'w library \<Rightarrow> (int \<times> log_state \<times> 'v) \<times> 'w library" where
  "c_enableTracing api tracefile s v l = (enableTracing api tracefile s v, Used (getConnectionContext l))"

definition c_initConnection :: "'w env \<Rightarrow> string \<Rightarrow> int \<Rightarrow> string \<Rightarrow> 'w library \<Rightarrow> int outcome \<times> 'w library" where
  "c_initConnection env host port protocol l =
     apsnd Used (initConnection env host port protocol (getConnectionContext l))"

definition c_destroyConnection :: "'w env \<Rightarrow> int \<Rightarrow> 'w library \<Rightarrow> int outcome \<times> 'w library" where
  "c_destroyConnection env checkWasDone l =
     apsnd Used (destroyConnection env (1 = checkWasDone) (getConnectionContext l))"

definition c_createReadConnection :: "'w env \<Rightarrow> int \<Rightarrow> string \<Rightarrow> 'w library \<Rightarrow> nat option outcome \<times> 'w library" where
  "c_createReadConnection env handle query l =
     apsnd Used (createReadConnection env \<lparr>mHandle = handle, mQuery = query\<rparr> (getConnectionContext l))"

definition c_createWriteConnection :: "'w env \<Rightarrow> int \<Rightarrow> string \<Rightarrow> 'w library \<Rightarrow> nat option outcome \<times> 'w library" where
  "c_createWriteConnection env handle query l =
     apsnd Used (createWriteConnection env \<lparr>mHandle = handle, mQuery = query\<rparr> (getConnectionContext l))"

definition c_copyHostName :: "'w library \<Rightarrow> string option \<times> 'w library" where
  "c_copyHostName l = (copyHostName (getConnectionContext l), Used (getConnectionContext l))"

definition c_copyHostPort :: "'w library \<Rightarrow> int option \<times> 'w library" where
  "c_copyHostPort l = (copyHostPort (getConnectionContext l), Used (getConnectionContext l))"

lemmas c_interface_defs = c_enableTracing_def c_initConnection_def c_destroyConnection_def c_createReadConnection_def
  c_createWriteConnection_def c_copyHostName_def c_copyHostPort_def

lemma getConnectionContext_Used [simp]: "getConnectionContext (Used x) = x"
  by (simp add: getConnectionContext_def)

section \<open>The entry points of R through the interface\<close>

text \<open>What \<^verbatim>\<open>exasol.c\<close> returns is what the function of the interface returns, as a value of R, on whatever state
  of the library.\<close>

lemma entry_points_forward:
  "asyncRODBCIOStart env host port protocol (getConnectionContext l) =
     (case c_initConnection env host port protocol l of (r, l') \<Rightarrow> (map_outcome ScalarInteger r, getConnectionContext l'))"
  "asyncRODBCQueryFinish env n (getConnectionContext l) =
     (case c_destroyConnection env n l of (r, l') \<Rightarrow> (map_outcome ScalarInteger r, getConnectionContext l'))"
  "asyncRODBCQueryStart env (Some h) (Some q) wr (getConnectionContext l) =
     (case (if wr \<noteq> 0 then c_createWriteConnection env h q l else c_createReadConnection env h q l) of
        (r, l') \<Rightarrow> (map_outcome sexp_of_connection r, getConnectionContext l'))"
  by (simp_all add: c_interface_defs asyncRODBCIOStart_def asyncRODBCQueryFinish_def asyncRODBCQueryStart_def Let_def
      split: prod.splits)

text \<open>Before the first connection the other functions find no controller: they report a failure and touch
  neither the network nor R's connections.\<close>

lemma unused_library:
  "c_copyHostName (Unused g) = (None, Used (getConnectionContext (Unused g)))"
  "c_copyHostPort (Unused g) = (Some 65535, Used (getConnectionContext (Unused g)))"
  "c_createReadConnection env h q (Unused g) = (Returned None, Used (getConnectionContext (Unused g)))"
  "c_createWriteConnection env h q (Unused g) = (Returned None, Used (getConnectionContext (Unused g)))"
  "n \<noteq> 1 \<Longrightarrow> c_destroyConnection env n (Unused g) = (Returned (- 1), Used (getConnectionContext (Unused g)))"
  by (simp_all add: c_interface_defs getConnectionContext_def ConnectionContext_new_def copyHostName_def copyHostPort_def
      createReadConnection_def createWriteConnection_def create_connection_def destroyConnection_def Let_def unsigned_minus_1_eq_mask mask_eq_exp_minus_1)

end
