(* ===== verification/Name_Properties.thy ===== *)
theory Name_Properties
  imports Date_Slash Date_Keyword Date_Assign Date_Literal C_Interface
begin

text \<open>
  The properties of the ways dates are spelled out: the names of the C locale and the search for them, and the
  operator \<^verbatim>\<open>/\<close>; and of programs that change dates by months and years.
\<close>

section \<open>Names of the C locale\<close>

text \<open>Property C33: \<open>scan_keyword\<close> always returns, and finds what its one pass with statuses and counters is meant to:
  with \<open>n\<close> the length of the longest beginning of the text with which some keyword begins, cases apart, it takes
  exactly these \<open>n\<close> characters from the stream, and returns the first keyword equal to them; if there is none it
  returns the end of the list and sets the failure bit.  The end bit is set when the text ended while a
  longer keyword was still possible.
\<close>

theorem scan_keyword_longest:
  assumes "is_good i" and "length kys \<le> 100 \<or> mem"
  shows "let s = is_buf i; n = keyword_reach kys s; k = length (takeWhile (\<lambda>ky. upper ky \<noteq> upper (take n s)) kys)
    in scan_keyword mem kys i =
      Some (Inr (k, i\<lparr>is_buf := drop n s, is_fail := k = length kys,
                      is_eof := n = length s \<and> list_ex (\<lambda>ky. strict_prefix (upper s) (upper ky)) kys\<rparr>))"
  unfolding Let_def by (rule scan_keyword_reach [OF assms])

theorem scan_keyword_longest_witness:
  "scan_keyword True [''Sunday'', ''Sun''] (istream_new ''SUN 3'') =
     Some (Inr (1, \<lparr>is_buf = '' 3'', is_fail = False, is_eof = False\<rparr>))"
proof -
  have r: "keyword_reach [''Sunday'', ''Sun''] ''SUN 3'' = 3" by code_simp
  have u: "map toupper ''SUN'' = ''SUN''" "map toupper ''Sun'' = ''SUN''" "map toupper ''Sunday'' = ''SUNDAY''"
    "map toupper ''SUN 3'' = ''SUN 3''" by code_simp+
  show ?thesis
    using scan_keyword_longest [of "istream_new ''SUN 3''" "[''Sunday'', ''Sun'']" True] r u
    by (simp add: is_good_def istream_new_def Let_def numeral_eq_Suc del: list.map)
qed

text \<open>The names written for a weekday (0 to 6) and for a month (0 to 11) by \<^verbatim>\<open>%a\<close>, \<^verbatim>\<open>%A\<close>, \<^verbatim>\<open>%b\<close>, \<^verbatim>\<open>%h\<close> and \<^verbatim>\<open>%B\<close>
  of the C locale are read back as that weekday and as that month counted from 1, when no letter follows, and
  the text after the name is left in the stream.
\<close>

theorem name_round_trip:
  assumes "w < 7" and "m < 12" and "r = [] \<or> \<not> is_letter (hd r)"
  shows "(\<exists>i. get_weekday_name (istream_new (put_weekday_name c w @ r)) = Some (int w, i) \<and> is_buf i = r \<and> \<not> is_fail i) \<and>
    (\<exists>i. get_month_name (istream_new (put_month_name c m @ r)) = Some (int m + 1, i) \<and> is_buf i = r \<and> \<not> is_fail i)"
proof
  define k where "k = w + 7 * (if c = CHR ''a'' then 1 else 0)"
  have k: "k < length weekday_names" "k mod 7 = w" using assms(1) by (auto simp: k_def names_length)
  obtain j i where "scan_keyword True weekday_names (istream_new (weekday_names ! k @ r)) = Some (Inr (j, i))"
    and j: "j < 14" "upper (weekday_names ! j) = upper (weekday_names ! k)" and "is_buf i = r" and "\<not> is_fail i"
    using name_read_back [OF _ k(1) names_letters(1) assms(3)] by (auto simp: names_length)
  moreover have "int j mod 7 = int w"
    using same_weekday_name [OF j(2) j(1)] k zmod_int [of j 7] by (simp add: names_length)
  ultimately show "\<exists>i. get_weekday_name (istream_new (put_weekday_name c w @ r)) = Some (int w, i) \<and> is_buf i = r \<and> \<not> is_fail i"
    by (auto simp: get_weekday_name_def put_weekday_name_def simp flip: k_def)
next
  define k where "k = m + 12 * (if c \<noteq> CHR ''B'' then 1 else 0)"
  have k: "k < length month_names" "k mod 12 = m" using assms(2) by (auto simp: k_def names_length)
  obtain j i where "scan_keyword True month_names (istream_new (month_names ! k @ r)) = Some (Inr (j, i))"
    and j: "j < 24" "upper (month_names ! j) = upper (month_names ! k)" and "is_buf i = r" and "\<not> is_fail i"
    using name_read_back [OF _ k(1) names_letters(2) assms(3)] by (auto simp: names_length)
  moreover have "int j mod 12 = int m"
    using same_month_name [OF j(2) j(1)] k zmod_int [of j 12] by (simp add: names_length)
  ultimately show "\<exists>i. get_month_name (istream_new (put_month_name c m @ r)) = Some (int m + 1, i) \<and> is_buf i = r \<and> \<not> is_fail i"
    by (auto simp: get_month_name_def put_month_name_def simp flip: k_def)
qed

theorem name_round_trip_witness:
  "(\<exists>i. get_weekday_name (istream_new (put_weekday_name CHR ''a'' 4 @ '', 29'')) = Some (4, i) \<and> is_buf i = '', 29'' \<and> \<not> is_fail i) \<and>
   (\<exists>i. get_month_name (istream_new (put_month_name CHR ''a'' 1 @ '', 29'')) = Some (2, i) \<and> is_buf i = '', 29'' \<and> \<not> is_fail i)"
proof -
  have "\<not> is_letter (hd '', 29'')" by code_simp
  then show ?thesis using name_round_trip [of 4 1 "'', 29''" "CHR ''a''"] by simp
qed

section \<open>Dates written with slashes\<close>

text \<open>Property C39: an expression of two slashes is a date exactly when its operands are a year, a month and a day
  in one of the orders year/month/day, month/day/year and day/month/year, where the first operand has
  its calendar type, or is a plain number for the month before a typed day, and the others may be plain numbers.  The date then has these three fields; no other order (year/day/month, a plain year in front)
  is given a meaning.
\<close>

theorem slash_date_typed:
  "slash2 a b c = Some (SYmd x) \<longleftrightarrow>
     (\<exists>y m d. x = year_month_day_new y m d \<and>
        (a = SYear y \<and> month_operand b m \<and> day_operand c d \<or>
         year_operand c y \<and>
           (a = SMonth m \<and> day_operand b d \<or> a = SDay d \<and> month_operand b m \<or> month_operand a m \<and> b = SDay d)))"
  unfolding slash2_ymd_iff slash_ym_iff slash_md_iff by (fastforce simp: year_month_new_def month_day_new_def)

section \<open>Programs of assignments\<close>



end
