(* ===== verification/Transfer_Iface.thy ===== *)
theory Transfer_Iface
  imports Http_Reader_Props Http_Writer_Complete Async_Executor
begin

text \<open>
  The abstract classes between the parts of the library: \<^verbatim>\<open>exa::reader::Reader\<close>
  (\<^verbatim>\<open>connection/reader.h\<close>), \<^verbatim>\<open>exa::writer::Writer\<close> (\<^verbatim>\<open>connection/writer.h\<close>),
  \<^verbatim>\<open>exa::QueryExecutor\<close> and \<^verbatim>\<open>exa::AsyncExecutor\<close> (\<^verbatim>\<open>connection/async_executor/\<close>).  Each is a record of
  its virtual functions over the state of an object; the class that implements it gives an
  instance.  The locales \<open>byte_source\<close>, \<open>byte_sink\<close>, \<open>total_sink\<close> and \<open>query_executor\<close> say what a client
  may rely on; what holds of every program of calls is proved once inside them.
\<close>

section \<open>Readers\<close>

record 'o Reader =
  rd_start :: "'o \<Rightarrow> ((exa_exception + unit) \<times> 'o) option"
  rd_fgetc :: "'o \<Rightarrow> (int \<times> 'o) option"
  rd_pipe_read :: "size_t \<Rightarrow> size_t \<Rightarrow> 'o \<Rightarrow> (size_t \<times> char list \<times> 'o) option"

record 's HttpChunkReader =
  hr_mSocket :: "'s option"
  hr_mChunk :: Chunk

definition HttpChunkReader_object :: "'s option \<Rightarrow> Chunk \<Rightarrow> 's HttpChunkReader" where
  "HttpChunkReader_object so c = \<lparr>hr_mSocket = so, hr_mChunk = HttpChunkReader_new c\<rparr>"

definition HttpChunkReader_vtable :: "'s Socket \<Rightarrow> 's HttpChunkReader Reader" where
  "HttpChunkReader_vtable sock =
     \<lparr>rd_start = (\<lambda>x. map_option (\<lambda>(r, so). (r, x\<lparr>hr_mSocket := so\<rparr>)) (reader_start sock (hr_mSocket x))),
      rd_fgetc = (\<lambda>x. map_option (\<lambda>(r, c, so). (r, \<lparr>hr_mSocket = so, hr_mChunk = c\<rparr>))
        (reader_fgetc sock (hr_mChunk x) (hr_mSocket x))),
      rd_pipe_read = (\<lambda>sz nitems x. map_option (\<lambda>(r, bs, c, so). (r, bs, \<lparr>hr_mSocket = so, hr_mChunk = c\<rparr>))
        (reader_pipe_read sock (hr_mChunk x) (hr_mSocket x) sz nitems))\<rparr>"

text \<open>A client of a reader: the calls it makes, what they return, and the bytes in it.\<close>

datatype read_call = Fgetc | PipeRead size_t size_t
datatype read_result = Char int | Block size_t "char list"

fun demand :: "read_call \<Rightarrow> nat" where
  "demand Fgetc = 1"
| "demand (PipeRead sz nitems) = size_mul sz nitems"

fun call_reader :: "'o Reader \<Rightarrow> read_call \<Rightarrow> 'o \<Rightarrow> (read_result \<times> 'o) option" where
  "call_reader rd Fgetc x = map_option (\<lambda>(i, y). (Char i, y)) (rd_fgetc rd x)"
| "call_reader rd (PipeRead sz nitems) x = map_option (\<lambda>(n, bs, y). (Block n bs, y)) (rd_pipe_read rd sz nitems x)"

fun run_reads :: "'o Reader \<Rightarrow> read_call list \<Rightarrow> 'o \<Rightarrow> (read_result list \<times> 'o) option" where
  "run_reads rd [] x = Some ([], x)"
| "run_reads rd (k # ks) x =
     (case call_reader rd k x of
        None \<Rightarrow> None
      | Some (r, y) \<Rightarrow> map_option (\<lambda>(rs, z). (r # rs, z)) (run_reads rd ks y))"

fun result_bytes :: "read_result \<Rightarrow> int list" where
  "result_bytes (Char i) = [i]"
| "result_bytes (Block n bs) = map int_of_char bs"

text \<open>The answer to a call that can be served in full: the count of a block is in items.\<close>

fun full_answer :: "read_call \<Rightarrow> read_result \<Rightarrow> bool" where
  "full_answer Fgetc r \<longleftrightarrow> (\<exists>i. r = Char i)"
| "full_answer (PipeRead sz nitems) r \<longleftrightarrow>
     (\<exists>bs. r = Block (size_mul sz nitems div sz) bs \<and> length bs = size_mul sz nitems)"

locale byte_source =
  fixes rd :: "'o Reader"
    and holds :: "'o \<Rightarrow> char list \<Rightarrow> bool"
  assumes fgetc_next: "holds x (b # bs) \<Longrightarrow> \<exists>y. rd_fgetc rd x = Some (int_of_char b, y) \<and> holds y bs"
    and fgetc_end: "holds x [] \<Longrightarrow> \<exists>y. rd_fgetc rd x = Some (- 1, y)"
    and pipe_read_next: "holds x bs \<Longrightarrow> size_mul sz nitems \<le> length bs \<Longrightarrow>
      \<exists>y. rd_pipe_read rd sz nitems x = Some (size_mul sz nitems div sz, take (size_mul sz nitems) bs, y) \<and>
        holds y (drop (size_mul sz nitems) bs)"
    and pipe_read_end: "holds x bs \<Longrightarrow> length bs < size_mul sz nitems \<Longrightarrow>
      \<exists>y. rd_pipe_read rd sz nitems x = Some (length bs div sz, bs, y)"
begin

lemma call_reader_in_order:
  assumes "holds x bs" and "demand k \<le> length bs"
  shows "\<exists>r y. call_reader rd k x = Some (r, y) \<and> full_answer k r \<and>
    result_bytes r = map int_of_char (take (demand k) bs) \<and> holds y (drop (demand k) bs)"
proof (cases k)
  case Fgetc
  with assms obtain b bs' where "bs = b # bs'" by (cases bs) auto
  with fgetc_next [of x b bs'] assms(1) Fgetc show ?thesis by auto
next
  case (PipeRead sz nitems)
  with assms have "size_mul sz nitems \<le> length bs" by simp
  with pipe_read_next [OF assms(1) this] PipeRead show ?thesis by auto
qed

text \<open>However the calls are mixed, the client gets the bytes in order.\<close>

lemma run_reads_in_order:
  assumes "holds x bs" and "sum_list (map demand ks) \<le> length bs"
  shows "\<exists>rs y. run_reads rd ks x = Some (rs, y) \<and> list_all2 full_answer ks rs \<and>
    concat (map result_bytes rs) = map int_of_char (take (sum_list (map demand ks)) bs) \<and>
    holds y (drop (sum_list (map demand ks)) bs)"
  using assms
proof (induction ks arbitrary: x bs)
  case (Cons k ks)
  then have k: "demand k \<le> length bs" by simp
  obtain r y where r: "call_reader rd k x = Some (r, y)" "full_answer k r"
      "result_bytes r = map int_of_char (take (demand k) bs)" "holds y (drop (demand k) bs)"
    using call_reader_in_order [OF Cons.prems(1) k] by blast
  have "sum_list (map demand ks) \<le> length (drop (demand k) bs)" using Cons.prems(2) by simp
  from Cons.IH [OF r(4) this] r(1-3) show ?case
    by (fastforce simp: take_add [of "demand k"] add.commute)
qed simp

end

text \<open>The bytes an HTTP chunk reader has still to deliver.\<close>

definition reader_holds :: "('s \<Rightarrow> bool) \<Rightarrow> ('s \<Rightarrow> char list) \<Rightarrow> 's HttpChunkReader \<Rightarrow> char list \<Rightarrow> bool" where
  "reader_holds valid inb x bs \<longleftrightarrow> (\<exists>s. hr_mSocket x = Some s \<and> valid s \<and> delivers inb (hr_mChunk x) s bs)"

lemma size_mul_less: "size_mul a b < 2 ^ 64"
  by (simp add: size_mul_def)


context stream_socket
begin

lemma pipe_read_full:
  assumes "valid s" and "delivers inb c s bs" and "size_mul sz nitems \<le> length bs"
  shows "\<exists>c' s'. reader_pipe_read sock c (Some s) sz nitems =
      Some (size_mul sz nitems div sz, take (size_mul sz nitems) bs, c', Some s') \<and> valid s' \<and>
    delivers inb c' s' (drop (size_mul sz nitems) bs)"
proof -
  obtain c' s' where "read_next sock c (Some s) (size_mul sz nitems) =
      Some (int (size_mul sz nitems), take (size_mul sz nitems) bs, c', Some s')" "valid s'"
      "delivers inb c' s' (drop (size_mul sz nitems) bs)"
    using read_next_delivers [OF assms] by blast
  moreover have "sz \<noteq> 0" if "0 < size_mul sz nitems" using that by (cases "sz = 0") (auto simp: size_mul_def)
  moreover have "size_t_of (int (size_mul sz nitems)) = size_mul sz nitems"
    using size_mul_less [of sz nitems] by (simp add: size_t_of_def)
  ultimately show ?thesis by (auto simp: reader_pipe_read_def)
qed

lemma pipe_read_short:
  assumes "valid s" and "delivers inb c s bs" and "length bs < size_mul sz nitems"
  shows "\<exists>c' s'. reader_pipe_read sock c (Some s) sz nitems = Some (length bs div sz, bs, c', Some s')"
proof -
  have "size_t_of (int (length bs)) = length bs"
    using assms(3) size_mul_less [of sz nitems] by (simp add: size_t_of_def)
  moreover have "sz \<noteq> 0" using assms(3) by (cases "sz = 0") (auto simp: size_mul_def)
  ultimately show ?thesis
    using read_next_at_end [OF assms] by (auto simp: reader_pipe_read_def)
qed

end

sublocale stream_socket \<subseteq> source: byte_source "HttpChunkReader_vtable sock" "reader_holds valid inb"
proof unfold_locales
  fix x :: "'s HttpChunkReader" and b bs
  assume "reader_holds valid inb x (b # bs)"
  then show "\<exists>y. rd_fgetc (HttpChunkReader_vtable sock) x = Some (int_of_char b, y) \<and> reader_holds valid inb y bs"
    using reader_fgetc_delivers by (fastforce simp: reader_holds_def HttpChunkReader_vtable_def)
next
  fix x :: "'s HttpChunkReader"
  assume "reader_holds valid inb x []"
  then show "\<exists>y. rd_fgetc (HttpChunkReader_vtable sock) x = Some (- 1, y)"
    using reader_fgetc_at_end by (fastforce simp: reader_holds_def HttpChunkReader_vtable_def)
next
  fix x :: "'s HttpChunkReader" and bs sz nitems
  assume "reader_holds valid inb x bs" "size_mul sz nitems \<le> length bs"
  then show "\<exists>y. rd_pipe_read (HttpChunkReader_vtable sock) sz nitems x =
      Some (size_mul sz nitems div sz, take (size_mul sz nitems) bs, y) \<and>
      reader_holds valid inb y (drop (size_mul sz nitems) bs)"
    using pipe_read_full by (fastforce simp: reader_holds_def HttpChunkReader_vtable_def)
next
  fix x :: "'s HttpChunkReader" and bs sz nitems
  assume "reader_holds valid inb x bs" "length bs < size_mul sz nitems"
  then show "\<exists>y. rd_pipe_read (HttpChunkReader_vtable sock) sz nitems x = Some (length bs div sz, bs, y)"
    using pipe_read_short by (fastforce simp: reader_holds_def HttpChunkReader_vtable_def)
qed

section \<open>Writers\<close>

record 'o Writer =
  wr_start :: "'o \<Rightarrow> ((exa_exception + unit) \<times> 'o) option"
  wr_pipe_write :: "char list \<Rightarrow> size_t \<Rightarrow> size_t \<Rightarrow> 'o \<Rightarrow> (size_t \<times> 'o) option"
  wr_pipe_fflush :: "'o \<Rightarrow> (int \<times> 'o) option"

record 's HttpChunkWriter =
  hw_mSocket :: "'s option"
  hw_mChunk :: Chunk

definition HttpChunkWriter_object :: "'s option \<Rightarrow> Chunk \<Rightarrow> 's HttpChunkWriter" where
  "HttpChunkWriter_object so c = \<lparr>hw_mSocket = so, hw_mChunk = HttpChunkWriter_new c\<rparr>"

definition HttpChunkWriter_vtable :: "'s Socket \<Rightarrow> 's HttpChunkWriter Writer" where
  "HttpChunkWriter_vtable sock =
     \<lparr>wr_start = (\<lambda>x. map_option (\<lambda>(r, so). (r, x\<lparr>hw_mSocket := so\<rparr>)) (writer_start sock (hw_mSocket x))),
      wr_pipe_write = (\<lambda>src sz nitems x. map_option (\<lambda>(r, c, so). (r, \<lparr>hw_mSocket = so, hw_mChunk = c\<rparr>))
        (writer_pipe_write sock (hw_mChunk x) (hw_mSocket x) src sz nitems)),
      wr_pipe_fflush = (\<lambda>x. map_option (\<lambda>(r, c, so). (r, \<lparr>hw_mSocket = so, hw_mChunk = c\<rparr>))
        (writer_pipe_fflush sock (hw_mChunk x) (hw_mSocket x)))\<rparr>"

text \<open>A client of a writer, which stops at the first call that reports a failure; the bytes of
  a call are those its size arguments name.\<close>

datatype write_call = PipeWrite "char list" size_t size_t | Fflush

fun call_bytes :: "write_call \<Rightarrow> char list" where
  "call_bytes (PipeWrite src sz nitems) = src"
| "call_bytes Fflush = []"

fun call_ok :: "write_call \<Rightarrow> bool" where
  "call_ok (PipeWrite src sz nitems) \<longleftrightarrow> length src = size_mul sz nitems"
| "call_ok Fflush \<longleftrightarrow> True"

fun call_writer :: "'o Writer \<Rightarrow> write_call \<Rightarrow> 'o \<Rightarrow> 'o option" where
  "call_writer wr (PipeWrite src sz nitems) x =
     (case wr_pipe_write wr src sz nitems x of
        None \<Rightarrow> None | Some (r, y) \<Rightarrow> if r = size_t_of (- 1) then None else Some y)"
| "call_writer wr Fflush x =
     (case wr_pipe_fflush wr x of None \<Rightarrow> None | Some (r, y) \<Rightarrow> if r = 0 then Some y else None)"

fun run_writes :: "'o Writer \<Rightarrow> write_call list \<Rightarrow> 'o \<Rightarrow> 'o option" where
  "run_writes wr [] x = Some x"
| "run_writes wr (k # ks) x = (case call_writer wr k x of None \<Rightarrow> None | Some y \<Rightarrow> run_writes wr ks y)"

lemma run_writes_append:
  "run_writes wr (ks @ ls) x = (case run_writes wr ks x of None \<Rightarrow> None | Some y \<Rightarrow> run_writes wr ls y)"
  by (induction ks arbitrary: x) (auto split: option.splits)

text \<open>\<open>took x bs\<close>: the object has accepted the bytes \<open>bs\<close> since it was made; \<open>sent x\<close>: what the
  peer has been sent; \<open>reply bs\<close>: what a response with the body \<open>bs\<close> looks like to the peer.\<close>

locale byte_sink =
  fixes wr :: "'o Writer"
    and took :: "'o \<Rightarrow> char list \<Rightarrow> bool"
    and sent :: "'o \<Rightarrow> char list"
    and reply :: "char list \<Rightarrow> char list"
  assumes write_took: "took x data \<Longrightarrow> length src = size_mul sz nitems \<Longrightarrow> length data + length src < 2 ^ 64 \<Longrightarrow>
      wr_pipe_write wr src sz nitems x = Some (r, y) \<Longrightarrow> r \<noteq> size_t_of (- 1) \<Longrightarrow> took y (data @ src)"
    and fflush_sent: "took x data \<Longrightarrow> length data < 2 ^ 64 \<Longrightarrow> wr_pipe_fflush wr x = Some (0, y) \<Longrightarrow>
      took y data \<and> sent y = reply data"
begin

lemma call_writer_took:
  assumes "took x data" and "call_ok k" and "length data + length (call_bytes k) < 2 ^ 64"
    and "call_writer wr k x = Some y"
  shows "took y (data @ call_bytes k)"
  using assms
  by (cases k) (auto split: option.splits if_splits dest: write_took fflush_sent)

lemma run_writes_took:
  assumes "took x data" and "list_all call_ok ks" and "length data + length (concat (map call_bytes ks)) < 2 ^ 64"
    and "run_writes wr ks x = Some y"
  shows "took y (data @ concat (map call_bytes ks))"
  using assms
proof (induction ks arbitrary: x data)
  case (Cons k ks)
  obtain z where z: "call_writer wr k x = Some z" "run_writes wr ks z = Some y"
    using Cons.prems(4) by (auto split: option.splits)
  have "took z (data @ call_bytes k)"
    using call_writer_took [OF Cons.prems(1) _ _ z(1)] Cons.prems(2,3) by simp
  from Cons.IH [OF this _ _ z(2)] Cons.prems(2,3) show ?case by simp
qed simp

text \<open>After a program that ends with a flush, the peer has been sent the response with all the bytes.\<close>

lemma run_writes_sent:
  assumes "took x []" and "list_all call_ok ks" and "length (concat (map call_bytes ks)) < 2 ^ 64"
    and "run_writes wr (ks @ [Fflush]) x = Some y"
  shows "sent y = reply (concat (map call_bytes ks))"
proof -
  obtain z where z: "run_writes wr ks x = Some z" "wr_pipe_fflush wr z = Some (0, y)"
    using assms(4) by (auto simp: run_writes_append split: option.splits if_splits)
  then show ?thesis
    using run_writes_took [OF assms(1,2) _ z(1)] fflush_sent assms(3) by fastforce
qed

end

text \<open>A sink on which nothing fails.\<close>

locale total_sink = byte_sink wr took sent reply
  for wr :: "'o Writer" and took :: "'o \<Rightarrow> char list \<Rightarrow> bool" and sent :: "'o \<Rightarrow> char list"
    and reply :: "char list \<Rightarrow> char list" +
  assumes write_total: "took x data \<Longrightarrow> length src = size_mul sz nitems \<Longrightarrow>
      \<exists>r y. wr_pipe_write wr src sz nitems x = Some (r, y) \<and> r \<noteq> size_t_of (- 1)"
    and fflush_total: "took x data \<Longrightarrow> \<exists>y. wr_pipe_fflush wr x = Some (0, y)"
begin

lemma call_writer_total:
  "took x data \<Longrightarrow> call_ok k \<Longrightarrow> \<exists>y. call_writer wr k x = Some y"
  using write_total [of x data] fflush_total [of x data] by (cases k) fastforce+

lemma run_writes_total:
  assumes "took x data" and "list_all call_ok ks" and "length data + length (concat (map call_bytes ks)) < 2 ^ 64"
  shows "\<exists>y. run_writes wr ks x = Some y"
  using assms
proof (induction ks arbitrary: x data)
  case (Cons k ks)
  obtain y where y: "call_writer wr k x = Some y"
    using call_writer_total [OF Cons.prems(1)] Cons.prems(2) by auto
  have "took y (data @ call_bytes k)"
    using call_writer_took [OF Cons.prems(1) _ _ y] Cons.prems(2,3) by simp
  from Cons.IH [OF this] Cons.prems(2,3) y show ?case by simp
qed simp

lemma run_writes_delivers:
  assumes "took x []" and "list_all call_ok ks" and "length (concat (map call_bytes ks)) < 2 ^ 64"
  shows "\<exists>y. run_writes wr (ks @ [Fflush]) x = Some y \<and> sent y = reply (concat (map call_bytes ks))"
proof -
  have "\<exists>y. run_writes wr (ks @ [Fflush]) x = Some y"
    using run_writes_total [OF assms(1), of "ks @ [Fflush]"] assms(2,3) by simp
  with run_writes_sent [OF assms] show ?thesis by blast
qed

end

text \<open>The HTTP chunk writer: \<open>pre\<close> is what the socket had carried before the writer was made.\<close>

definition writer_took ::
  "('s \<Rightarrow> bool) \<Rightarrow> ('s \<Rightarrow> char list) \<Rightarrow> char list \<Rightarrow> 's HttpChunkWriter \<Rightarrow> char list \<Rightarrow> bool" where
  "writer_took valid outb pre x data \<longleftrightarrow>
     (\<exists>s. hw_mSocket x = Some s \<and> valid s \<and> writer_at outb pre (hw_mChunk x) s data)"

definition writer_sent :: "('s \<Rightarrow> char list) \<Rightarrow> 's HttpChunkWriter \<Rightarrow> char list" where
  "writer_sent outb x = (case hw_mSocket x of None \<Rightarrow> [] | Some s \<Rightarrow> outb s)"

definition http_reply :: "char list \<Rightarrow> char list \<Rightarrow> char list" where
  "http_reply pre data = (if data = [] then pre else pre @ writer_ok_answer @ data)"

lemma HttpChunkWriter_took_nothing:
  "valid s \<Longrightarrow> writer_took valid outb (outb s) (HttpChunkWriter_object (Some s) c) []"
  by (simp add: writer_took_def HttpChunkWriter_object_def writer_at_new)

sublocale stream_socket \<subseteq> sink: byte_sink "HttpChunkWriter_vtable sock" "writer_took valid outb pre"
  "writer_sent outb" "http_reply pre" for pre
proof unfold_locales
  fix x y :: "'s HttpChunkWriter" and data src sz nitems r
  assume a: "writer_took valid outb pre x data" "length src = size_mul sz nitems" "length data + length src < 2 ^ 64"
    and w: "wr_pipe_write (HttpChunkWriter_vtable sock) src sz nitems x = Some (r, y)" "r \<noteq> size_t_of (- 1)"
  obtain s where s: "hw_mSocket x = Some s" "valid s" "writer_at outb pre (hw_mChunk x) s data"
    using a(1) by (auto simp: writer_took_def)
  have "writer_pipe_write sock (hw_mChunk x) (Some s) src sz nitems = Some (r, hw_mChunk y, hw_mSocket y)"
    using w(1) s(1) by (auto simp: HttpChunkWriter_vtable_def)
  from writer_pipe_write_at [OF s(2,3) a(2,3) this w(2)] show "writer_took valid outb pre y (data @ src)"
    by (auto simp: writer_took_def)
next
  fix x y :: "'s HttpChunkWriter" and data
  assume a: "writer_took valid outb pre x data" "length data < 2 ^ 64"
    and w: "wr_pipe_fflush (HttpChunkWriter_vtable sock) x = Some (0, y)"
  obtain s where s: "hw_mSocket x = Some s" "valid s" "writer_at outb pre (hw_mChunk x) s data"
    using a(1) by (auto simp: writer_took_def)
  have "writer_pipe_fflush sock (hw_mChunk x) (Some s) = Some (0, hw_mChunk y, hw_mSocket y)"
    using w s(1) by (auto simp: HttpChunkWriter_vtable_def)
  from writer_pipe_fflush_at [OF s(2,3) a(2) this]
  show "writer_took valid outb pre y data \<and> writer_sent outb y = http_reply pre data"
    by (auto simp: writer_took_def writer_sent_def http_reply_def)
qed

sublocale reliable_socket \<subseteq> sure: total_sink "HttpChunkWriter_vtable sock" "writer_took valid outb pre"
  "writer_sent outb" "http_reply pre" for pre
proof unfold_locales
  fix x :: "'s HttpChunkWriter" and data src :: "char list" and sz nitems
  assume "writer_took valid outb pre x data" "length src = size_mul sz nitems"
  then show "\<exists>r y. wr_pipe_write (HttpChunkWriter_vtable sock) src sz nitems x = Some (r, y) \<and> r \<noteq> size_t_of (- 1)"
    using writer_pipe_write_complete writer_at_wf
    by (fastforce simp: writer_took_def HttpChunkWriter_vtable_def)
next
  fix x :: "'s HttpChunkWriter" and data
  assume "writer_took valid outb pre x data"
  then show "\<exists>y. wr_pipe_fflush (HttpChunkWriter_vtable sock) x = Some (0, y)"
    using writer_pipe_fflush_complete writer_at_wf
    by (fastforce simp: writer_took_def HttpChunkWriter_vtable_def)
qed

section \<open>Executors\<close>

record ('q, 'w) QueryExecutor =
  qx_initializeQueryExecutor :: "'q \<Rightarrow> 'w \<Rightarrow> (exa_exception + unit) \<times> 'q \<times> 'w"
  qx_getQueryExecutorResult :: "'q \<Rightarrow> 'w \<Rightarrow> (string \<times> 'w) option"
  qx_executeAsyncQuery :: "'q \<Rightarrow> 'w \<Rightarrow> bool \<times> 'q \<times> 'w"

definition OdbcQueryExecutor_vtable :: "'w odbc_api \<Rightarrow> (odbc_executor, 'w) QueryExecutor" where
  "OdbcQueryExecutor_vtable api =
     \<lparr>qx_initializeQueryExecutor = initializeQueryExecutor api,
      qx_getQueryExecutorResult = getQueryExecutorResult api,
      qx_executeAsyncQuery = odbc_executeAsyncQuery api\<rparr>"

text \<open>\<^verbatim>\<open>execute\<close> takes the callback that the background thread will call, so the callback is an argument of
  both \<^verbatim>\<open>execute\<close> and, in the model, of the join that lets the thread run to its end.\<close>

record ('a, 'w) AsyncExecutor =
  ax_execute :: "'a \<Rightarrow> 'w \<Rightarrow> ((exa_exception + unit) \<times> 'a \<times> 'w) option"
  ax_isDone :: "'a \<Rightarrow> bool"
  ax_joinAndCheckResult :: "('w \<Rightarrow> 'w) \<Rightarrow> 'a \<Rightarrow> 'w \<Rightarrow> (string \<times> 'a \<times> 'w) option"

definition AsyncExecutorImpl_vtable :: "'w odbc_api \<Rightarrow> (async_executor, 'w) AsyncExecutor" where
  "AsyncExecutorImpl_vtable api =
     \<lparr>ax_execute = async_execute api, ax_isDone = async_isDone, ax_joinAndCheckResult = joinAndCheckResult api\<rparr>"

text \<open>The contract of a query executor: once the query has been executed its result can be asked
  for, and is the empty string exactly when the execution reported success.  The reference is
  a statement that is executed in the calling thread, with the callback called on failure.\<close>

definition run_query ::
  "('q, 'w) QueryExecutor \<Rightarrow> ('w \<Rightarrow> 'w) \<Rightarrow> 'q \<Rightarrow> 'w \<Rightarrow> (exa_exception + (string \<times> 'q \<times> 'w)) option" where
  "run_query qx handler q w =
     (case qx_initializeQueryExecutor qx q w of
        (Inl e, q1, w1) \<Rightarrow> Some (Inl e)
      | (Inr _, q1, w1) \<Rightarrow>
          (case qx_executeAsyncQuery qx q1 w1 of
             (ok, q2, w2) \<Rightarrow>
               (case qx_getQueryExecutorResult qx q2 (if ok then w2 else handler w2) of
                  None \<Rightarrow> None
                | Some (m, w3) \<Rightarrow> Some (Inr (m, q2, w3)))))"

locale query_executor =
  fixes qx :: "('q, 'w) QueryExecutor"
  assumes result_defined: "qx_executeAsyncQuery qx q w = (ok, q', w') \<Longrightarrow>
      \<exists>m w2. qx_getQueryExecutorResult qx q' v = Some (m, w2)"
    and result_empty: "qx_executeAsyncQuery qx q w = (ok, q', w') \<Longrightarrow>
      qx_getQueryExecutorResult qx q' v = Some (m, w2) \<Longrightarrow> m = [] \<longleftrightarrow> ok"
begin

lemma run_query_ends: "\<exists>r. run_query qx handler q w = Some r"
proof -
  obtain r q1 w1 where i: "qx_initializeQueryExecutor qx q w = (r, q1, w1)" by (metis prod_cases3)
  obtain ok q2 w2 where e: "qx_executeAsyncQuery qx q1 w1 = (ok, q2, w2)" by (metis prod_cases3)
  show ?thesis
    using i e result_defined [OF e, of "if ok then w2 else handler w2"] by (cases r) (auto simp: run_query_def)
qed

lemma run_query_result:
  assumes "qx_initializeQueryExecutor qx q w = (Inr (), q1, w1)" and "qx_executeAsyncQuery qx q1 w1 = (ok, q2, w2)"
  shows "\<exists>m w3. run_query qx handler q w = Some (Inr (m, q2, w3)) \<and> (m = [] \<longleftrightarrow> ok)"
  using assms result_defined [OF assms(2), of "if ok then w2 else handler w2"] result_empty [OF assms(2)]
  by (fastforce simp: run_query_def)

end

interpretation odbc: query_executor "OdbcQueryExecutor_vtable api" for api :: "'w odbc_api"
  by unfold_locales
    (auto simp: OdbcQueryExecutor_vtable_def odbc_executeAsyncQuery_def getQueryExecutorResult_def
      split: prod.splits if_splits)

text \<open>The thread executes the statement and then, after a failure, the callback: started and joined,
  the executor gives what the statement executed in the calling thread gives.\<close>

lemma bg_run_query:
  assumes "mThread a = Joinable BgQuery" and "odbc_executeAsyncQuery api (mQueryExecutor a) w = (ok, q, w')"
  shows "bg_run api h a w = (a\<lparr>mQueryExecutor := q, mThread := Joinable BgEnd, mDone := True\<rparr>,
    if ok then w' else h w')"
  using assms by (cases ok) (simp_all add: bg_run.simps bg_step.simps)

lemma join_is_run_query:
  assumes "async_execute api a w = Some (Inr (), a1, w1)"
  shows "map_option (\<lambda>(m, a2, w2). Inr (m, mQueryExecutor a2, w2)) (joinAndCheckResult api h a1 w1) =
    run_query (OdbcQueryExecutor_vtable api) h (mQueryExecutor a) w"
proof -
  obtain q1 where i: "initializeQueryExecutor api (mQueryExecutor a) w = (Inr (), q1, w1)"
      and a1: "a1 = a\<lparr>mQueryExecutor := q1, mDone := False, mThread := Joinable BgQuery\<rparr>"
    using assms by (auto simp: async_execute_def split: prod.splits sum.splits thread.splits)
  obtain ok q2 w2 where e: "odbc_executeAsyncQuery api q1 w1 = (ok, q2, w2)" by (metis prod_cases3)
  have b: "bg_run api h a1 w1 = (a1\<lparr>mQueryExecutor := q2, mThread := Joinable BgEnd, mDone := True\<rparr>,
      if ok then w2 else h w2)"
    using bg_run_query [of a1 api w1 ok q2 w2 h] e a1 by simp
  show ?thesis
    using i e b a1
    by (simp add: run_query_def OdbcQueryExecutor_vtable_def joinAndCheckResult_def split: option.splits)
qed

end
