(* ===== verification/Iface_Properties.thy ===== *)
theory Iface_Properties
  imports Transfer_Iface Transfer_Properties
begin

text \<open>
  The properties of the classes behind the interfaces \<^verbatim>\<open>Reader\<close>, \<^verbatim>\<open>Writer\<close> and
  \<^verbatim>\<open>AsyncExecutor\<close>, for every program of calls a client may make.
\<close>

text \<open>Property C3: a reader that is started on a request with a chunked body serves any program of \<^verbatim>\<open>fgetc\<close> and
  \<^verbatim>\<open>pipe_read\<close> calls, of any item sizes and mixed in any order, that asks for no more bytes than the body has: every call is answered in full,
  and the answers one after the other are the body from its start, over the plain socket as over TLS.\<close>

theorem reader_program:
  assumes "env_ok env ni no si so"
    and "obj_bytes ni si s = http_header ls @ encode_body cs h0 @ rest"
    and "list_all header_line_ok ls" and "list_all http_chunk_ok cs" and "size_line_ok h0 0"
    and "sum_list (map demand ks) \<le> length (concat (map snd cs))"
  shows "\<exists>x rs y. rd_start (HttpChunkReader_vtable (obj_socket env)) (HttpChunkReader_object (Some s) c) = Some (Inr (), x) \<and>
    run_reads (HttpChunkReader_vtable (obj_socket env)) ks x = Some (rs, y) \<and> list_all2 full_answer ks rs \<and>
    concat (map result_bytes rs) = map int_of_char (take (sum_list (map demand ks)) (concat (map snd cs)))"
proof -
  obtain s1 where s1: "readHttpHeader (obj_socket env) s = Some (Inr (), s1)"
      "obj_bytes ni si s1 = encode_body cs h0 @ rest"
    using obj.readHttpHeader_consumes [OF assms(1-3)] by blast
  let ?x = "HttpChunkReader_object (Some s1) c"
  have "pending (HttpChunkReader_new c) = []" by (simp add: HttpChunkReader_new_def)
  then have "reader_holds (\<lambda>_. env_ok env ni no si so) (obj_bytes ni si) ?x (concat (map snd cs))"
    using s1(2) assms(1,4,5) unfolding reader_holds_def delivers_def
    by (auto simp: HttpChunkReader_object_def HttpChunkReader_new_def)
  from obj.source.run_reads_in_order [OF this assms(6)] s1(1) show ?thesis
    by (auto simp: HttpChunkReader_vtable_def HttpChunkReader_object_def reader_start_def)
qed

theorem reader_program_witness:
  "\<exists>x rs y. rd_start (HttpChunkReader_vtable (obj_socket (lb_env True True)))
      (HttpChunkReader_object (Some (TlsObj False, lb_new demo_stream)) Chunk_new) = Some (Inr (), x) \<and>
    run_reads (HttpChunkReader_vtable (obj_socket (lb_env True True))) [Fgetc, PipeRead 2 2, Fgetc] x = Some (rs, y) \<and>
    list_all2 full_answer [Fgetc, PipeRead 2 2, Fgetc] rs \<and>
    concat (map result_bytes rs) = map int_of_char ''a;b;cd''"
  using reader_program [OF lb_env_ok, of "(TlsObj False, lb_new demo_stream)" demo_lines demo_chunks "''0''" "[]"
      "[Fgetc, PipeRead 2 2, Fgetc]" True True Chunk_new, OF _ demo_header_ok demo_chunks_ok]
  by (simp add: demo_stream_def lb_new_def size_mul_def) (simp add: demo_chunks_def)

text \<open>Property C4: a client of a new writer makes any program of \<^verbatim>\<open>pipe_write\<close> and \<^verbatim>\<open>pipe_fflush\<close> calls that ends
  with a flush.  If every call reports success, the peer has been sent one response header followed by the bytes of all the
  writes, in order and complete, and nothing when there were none; and every call does report success when the connection
  carries whatever it is given to send.\<close>

theorem writer_program:
  assumes "env_ok env ni no si so" and "list_all call_ok ks" and "length (concat (map call_bytes ks)) < 2 ^ 64"
  shows "(\<forall>y. run_writes (HttpChunkWriter_vtable (obj_socket env)) (ks @ [Fflush]) (HttpChunkWriter_object (Some s) c) = Some y \<longrightarrow>
      writer_sent (obj_bytes no so) y = http_reply (obj_bytes no so s) (concat (map call_bytes ks))) \<and>
    (sends_complete env \<longrightarrow>
      (\<exists>y. run_writes (HttpChunkWriter_vtable (obj_socket env)) (ks @ [Fflush]) (HttpChunkWriter_object (Some s) c) = Some y))"
proof (intro conjI allI impI)
  fix y
  assume "run_writes (HttpChunkWriter_vtable (obj_socket env)) (ks @ [Fflush]) (HttpChunkWriter_object (Some s) c) = Some y"
  with obj.sink.run_writes_sent [OF HttpChunkWriter_took_nothing assms(2,3)] assms(1)
  show "writer_sent (obj_bytes no so) y = http_reply (obj_bytes no so s) (concat (map call_bytes ks))" by blast
next
  assume "sends_complete env"
  with sending.sure.run_writes_delivers [OF HttpChunkWriter_took_nothing assms(2,3)] assms(1)
  show "\<exists>y. run_writes (HttpChunkWriter_vtable (obj_socket env)) (ks @ [Fflush]) (HttpChunkWriter_object (Some s) c) = Some y"
    by blast
qed

theorem writer_program_witness:
  "\<exists>y. run_writes (HttpChunkWriter_vtable (obj_socket (lb_env True True)))
      [PipeWrite ''a;b'' 1 3, Fflush, PipeWrite ''cdef'' 2 2, Fflush]
      (HttpChunkWriter_object (Some (PlainObj 3, lb_new [])) Chunk_new) = Some y \<and>
    writer_sent obj_out y = writer_ok_answer @ ''a;bcdef''"
  using writer_program [OF lb_env_ok, of "[PipeWrite ''a;b'' 1 3, Fflush, PipeWrite ''cdef'' 2 2]" True True
      "(PlainObj 3, lb_new [])" Chunk_new] lb_sends_complete
  by (simp add: size_mul_def http_reply_def lb_new_def) metis

text \<open>Property C11: a statement can only be started when the executor holds no running thread (otherwise the process is
  terminated); then, however far the background thread has come, joining it has the result, the final state and the
  message of the statement executed in the calling thread, with the error callback called once, before the result is
  asked for, when the statement failed; the join always returns, and its message is empty exactly when the statement
  succeeded.\<close>

theorem background_is_direct:
  assumes "ax_execute (AsyncExecutorImpl_vtable api) a w = Some (Inr (), a1, w1)"
    and "bg_advance api h n a1 w1 = (a', w')"
  shows "mThread a = NotJoinable \<and>
    (\<exists>m a2 w2. ax_joinAndCheckResult (AsyncExecutorImpl_vtable api) h a' w' = Some (m, a2, w2) \<and>
      ax_isDone (AsyncExecutorImpl_vtable api) a2 \<and> mThread a2 = NotJoinable \<and>
      run_query (OdbcQueryExecutor_vtable api) h (mQueryExecutor a) w = Some (Inr (m, mQueryExecutor a2, w2)) \<and>
      (m = [] \<longleftrightarrow> fst (odbc_executeAsyncQuery api (mQueryExecutor a1) w1)))"
proof -
  have x: "async_execute api a w = Some (Inr (), a1, w1)" using assms(1) by (simp add: AsyncExecutorImpl_vtable_def)
  obtain m a2 w2 where j: "joinAndCheckResult api h a1 w1 = Some (m, a2, w2)" "async_isDone a2" "mThread a2 = NotJoinable"
    using joinAndCheckResult_started [of a1 BgQuery api h w1] async_execute_inv [OF x] by blast
  have r: "run_query (OdbcQueryExecutor_vtable api) h (mQueryExecutor a) w = Some (Inr (m, mQueryExecutor a2, w2))"
    using join_is_run_query [OF x, of h] j(1) by simp
  obtain ok q2 w2' where e: "odbc_executeAsyncQuery api (mQueryExecutor a1) w1 = (ok, q2, w2')" by (metis prod_cases3)
  have i: "initializeQueryExecutor api (mQueryExecutor a) w = (Inr (), mQueryExecutor a1, w1)" and t: "mThread a = NotJoinable"
    using x by (auto simp: async_execute_def split: prod.splits sum.splits thread.splits)
  have "m = [] \<longleftrightarrow> ok"
    using odbc.run_query_result [of api "mQueryExecutor a" w "mQueryExecutor a1" w1 ok q2 w2' h] i e r
    by (auto simp: OdbcQueryExecutor_vtable_def)
  moreover have "joinAndCheckResult api h a' w' = Some (m, a2, w2)"
    using joinAndCheckResult_advance [OF _ assms(2), of BgQuery] async_execute_inv [OF x] j(1) by simp
  ultimately show ?thesis using t j r e by (simp add: AsyncExecutorImpl_vtable_def)
qed

theorem background_is_direct_witness:
  "\<exists>a1 a' w' m a2 w2. ax_execute (AsyncExecutorImpl_vtable (lb_odbc False)) (AsyncExecutorImpl_new \<lparr>mHandle = 1, mQuery = ''q''\<rparr>) (lb_new []) =
      Some (Inr (), a1, lb_new []) \<and>
    bg_advance (lb_odbc False) (\<lambda>w. w\<lparr>lb_msgs := ''failed'' # lb_msgs w\<rparr>) 3 a1 (lb_new []) = (a', w') \<and>
    ax_joinAndCheckResult (AsyncExecutorImpl_vtable (lb_odbc False)) (\<lambda>w. w\<lparr>lb_msgs := ''failed'' # lb_msgs w\<rparr>) a' w' = Some (m, a2, w2) \<and>
    run_query (OdbcQueryExecutor_vtable (lb_odbc False)) (\<lambda>w. w\<lparr>lb_msgs := ''failed'' # lb_msgs w\<rparr>)
      (OdbcQueryExecutor_new \<lparr>mHandle = 1, mQuery = ''q''\<rparr>) (lb_new []) = Some (Inr (m, mQueryExecutor a2, w2)) \<and> m \<noteq> []"
proof -
  let ?a = "AsyncExecutorImpl_new \<lparr>mHandle = 1, mQuery = ''q''\<rparr>" and ?h = "\<lambda>w. w\<lparr>lb_msgs := ''failed'' # lb_msgs w\<rparr>"
  obtain a1 where a1: "ax_execute (AsyncExecutorImpl_vtable (lb_odbc False)) ?a (lb_new []) = Some (Inr (), a1, lb_new [])"
    by (simp add: AsyncExecutorImpl_vtable_def async_execute_def initializeQueryExecutor_def lb_odbc_def sql_ok_def
        AsyncExecutorImpl_new_def)
  obtain a' w' where adv: "bg_advance (lb_odbc False) ?h 3 a1 (lb_new []) = (a', w')" by fastforce
  have f: "\<not> fst (odbc_executeAsyncQuery (lb_odbc False) (mQueryExecutor a1) (lb_new []))"
    by (simp add: odbc_executeAsyncQuery_def lb_odbc_def sql_ok_def)
  have q: "mQueryExecutor ?a = OdbcQueryExecutor_new \<lparr>mHandle = 1, mQuery = ''q''\<rparr>"
    by (simp add: AsyncExecutorImpl_new_def)
  obtain m a2 w2 where
    "ax_joinAndCheckResult (AsyncExecutorImpl_vtable (lb_odbc False)) ?h a' w' = Some (m, a2, w2)"
    "run_query (OdbcQueryExecutor_vtable (lb_odbc False)) ?h (mQueryExecutor ?a) (lb_new []) = Some (Inr (m, mQueryExecutor a2, w2))"
    "m = [] \<longleftrightarrow> fst (odbc_executeAsyncQuery (lb_odbc False) (mQueryExecutor a1) (lb_new []))"
    using background_is_direct [OF a1 adv] by blast
  with a1 adv f q show ?thesis
    by (intro exI [of _ a1] exI [of _ a'] exI [of _ w'] exI [of _ m] exI [of _ a2] exI [of _ w2]) simp
qed

end
