(* ===== verification/Date_C_Locale.thy ===== *)
theory Date_C_Locale
  imports Date_Keyword Date_Resolve Date_Format_Run Date_Print
begin

text \<open>
  The build of \<^verbatim>\<open>debug_print/date.h\<close> with \<^verbatim>\<open>ONLY_C_LOCALE\<close> set: \<^verbatim>\<open>to_stream\<close> and \<^verbatim>\<open>from_stream\<close> do without the facets of
  a locale and write and read the names of the C locale themselves.  A directive that the two builds share is
  the one of \<open>Date_Format\<close> or \<open>Date_From_Stream\<close>; only its treatment of the modifiers differs.  \<^const>\<open>None\<close> is
  an access outside one of the arrays of names, and for input a call of \<^verbatim>\<open>scan_keyword\<close> that does not return.
\<close>

section \<open>Output\<close>

text \<open>An element of an array of names.\<close>

definition name_at :: "string list \<Rightarrow> int \<Rightarrow> string option" where
  "name_at names i = (if 0 \<le> i \<and> i < int (length names) then Some (names ! nat i) else None)"

definition c_dir_a :: "fields \<Rightarrow> char \<Rightarrow> fmt_state \<Rightarrow> fmt_result option" where
  "c_dir_a fds c st =
     (if fs_mod st = NUL
      then (case extract_weekday fds st of (wd, st1) \<Rightarrow>
              (let st2 = set_tm (\<lambda>t. t\<lparr>tm_wday := wd\<rparr>) st1
               in if fs_fail st2 then Some (Inl st2)
                  else map_option (\<lambda>s. Inr (fin (put s st2)))
                         (name_at weekday_names (wd + 7 * (if c = CHR ''a'' then 1 else 0)))))
      else Some (Inr (fin (echo c st))))"

definition c_dir_b :: "fields \<Rightarrow> char \<Rightarrow> fmt_state \<Rightarrow> fmt_result option" where
  "c_dir_b fds c st =
     (if fs_mod st = NUL
      then (case extract_month fds st of (m, st1) \<Rightarrow>
              map_option (\<lambda>s. Inr (fin (put s (set_tm (\<lambda>t. t\<lparr>tm_mon := m - 1\<rparr>) st1))))
                (name_at month_names (m - 1 + 12 * (if c \<noteq> CHR ''B'' then 1 else 0))))
      else Some (Inr (fin (echo c st))))"

text \<open>\<^verbatim>\<open>make_time(duration_cast<seconds>(fds.tod.to_duration()))\<close>, of which \<^verbatim>\<open>%c\<close> and \<^verbatim>\<open>%r\<close> write the parts.\<close>

definition whole_seconds :: "int \<Rightarrow> fields \<Rightarrow> hh_mm_ss" where
  "whole_seconds den fds =
     hh_mm_ss_new seconds_period
       (duration_cast seconds_period (dfs_precision den) (hms_to_duration \<lparr>rnum = 1, rden = den\<rparr> (fd_tod fds)))"

definition c_put_c :: "int \<Rightarrow> fields \<Rightarrow> fmt_state \<Rightarrow> fmt_state option" where
  "c_put_c den fds st =
     (case extract_weekday fds st of (wd, st1) \<Rightarrow>
        (case name_at weekday_names (uint (of_int wd + 7 :: u32)) of
           None \<Rightarrow> None
         | Some wname \<Rightarrow>
             (case extract_month fds (put (wname @ '' '') st1) of (m, st2) \<Rightarrow>
                (case name_at month_names (uint (of_int m - 1 + 12 :: u32)) of
                   None \<Rightarrow> None
                 | Some mname \<Rightarrow>
                     (let d = day_int fds
                      in Some (put (mname @ '' '' @ (if d < 10 then '' '' else []) @ show_int d @ '' '' @
                            hms_print (CHR ''.'') seconds_period (whole_seconds den fds) @ '' '' @
                            year_print (ymd_year (fd_ymd fds))) st2))))))"

definition c_put_x :: "fields \<Rightarrow> fmt_state \<Rightarrow> fmt_state" where
  "c_put_x fds =
     put (setw0 2 (show_int (month_int fds)) @ ''/'' @ setw0 2 (show_int (day_int fds)) @ ''/'' @
          setw0 2 (show_int (year_of fds smod 100)))"

definition c_dir_c :: "int \<Rightarrow> fields \<Rightarrow> char \<Rightarrow> fmt_state \<Rightarrow> fmt_result option" where
  "c_dir_c den fds c st =
     (if fs_mod st = CHR ''O'' then Some (Inr (fin (echo c st)))
      else
        (let st1 = fail_if (c = CHR ''c'' \<and> \<not> fd_has_tod fds) (fail_if (\<not> ymd_ok (fd_ymd fds)) st)
         in map_option (\<lambda>st2. Inr (fin st2)) (if c = CHR ''c'' then c_put_c den fds st1 else Some (c_put_x fds st1))))"

definition c_dir_p :: "fields \<Rightarrow> char \<Rightarrow> fmt_state \<Rightarrow> fmt_result option" where
  "c_dir_p fds c st =
     Some (Inr (fin (if fs_mod st = NUL
                     then put (if is_am (hms_h (fd_tod fds)) then ampm_names ! 0 else ampm_names ! 1)
                            (fail_if (\<not> fd_has_tod fds) st)
                     else echo c st)))"

definition c_dir_r :: "int \<Rightarrow> fields \<Rightarrow> char \<Rightarrow> fmt_state \<Rightarrow> fmt_result option" where
  "c_dir_r den fds c st =
     Some (Inr (fin (if fs_mod st = NUL
                     then (let tod = whole_seconds den fds
                           in put (setw0 2 (show_int (make12 (hms_h tod))) @ '':'' @ setw0 2 (show_int (hms_m tod)) @ '':'' @
                                   setw0 2 (show_int (dfs_s (hms_s tod))) @ '' '' @
                                   (if is_am (hms_h tod) then ampm_names ! 0 else ampm_names ! 1))
                                (fail_if (\<not> fd_has_tod fds) st))
                     else echo c st)))"

definition c_dir_X :: "int \<Rightarrow> fields \<Rightarrow> char \<Rightarrow> fmt_state \<Rightarrow> fmt_result option" where
  "c_dir_X den fds c st =
     Some (Inr (fin (if fs_mod st = CHR ''O'' then echo c st
                     else put (hms_print (CHR ''.'') \<lparr>rnum = 1, rden = den\<rparr> (fd_tod fds)) (fail_if (\<not> fd_has_tod fds) st))))"

text \<open>The modifier with which a directive is echoed; with another it does what it does without one, and \<^verbatim>\<open>%y\<close>
  takes any.  A directive that is not listed treats its modifiers as in the other build.\<close>

definition c_echoed :: "char \<Rightarrow> char option" where
  "c_echoed c =
     map_of ([(CHR ''C'', CHR ''O''), (CHR ''Y'', CHR ''O''), (CHR ''y'', NUL)] @ map (\<lambda>k. (k, CHR ''E'')) ''deHImMSuUVwW'') c"

definition c_mod :: "char \<Rightarrow> fmt_state \<Rightarrow> fmt_state" where
  "c_mod k st = (if fs_mod st = k then st else st\<lparr>fs_mod := NUL\<rparr>)"

definition c_modified :: "char \<Rightarrow> (fmt_state \<Rightarrow> fmt_result) \<Rightarrow> fmt_state \<Rightarrow> fmt_result" where
  "c_modified c d st =
     (case c_echoed c of None \<Rightarrow> d st | Some k \<Rightarrow> d (c_mod k st))"

definition c_named :: "int \<Rightarrow> fields \<Rightarrow> char \<Rightarrow> (fmt_state \<Rightarrow> fmt_result option) option" where
  "c_named den fds c =
     map_of
       [(CHR ''a'', c_dir_a fds c), (CHR ''A'', c_dir_a fds c), (CHR ''b'', c_dir_b fds c), (CHR ''B'', c_dir_b fds c),
        (CHR ''h'', c_dir_b fds c), (CHR ''c'', c_dir_c den fds c), (CHR ''x'', c_dir_c den fds c), (CHR ''p'', c_dir_p fds c),
        (CHR ''r'', c_dir_r den fds c), (CHR ''X'', c_dir_X den fds c)] c"

definition c_directive :: "fmt_env \<Rightarrow> fields \<Rightarrow> char \<Rightarrow> (fmt_state \<Rightarrow> fmt_result option) option" where
  "c_directive e fds c =
     (case c_named (fe_den e) fds c of
        Some d \<Rightarrow> Some d
      | None \<Rightarrow> map_option (\<lambda>d st. Some (c_modified c d st)) (directive e fds c))"

definition c_to_stream_step :: "fmt_env \<Rightarrow> fields \<Rightarrow> char \<Rightarrow> fmt_state \<Rightarrow> fmt_result option" where
  "c_to_stream_step e fds c st =
     (case c_directive e fds c of
        None \<Rightarrow> Some (dir_default c st)
      | Some d \<Rightarrow> if fs_cmd st then d st
                  else Some (if c = CHR ''%'' then Inr (st\<lparr>fs_cmd := True\<rparr>) else Inr (put [c] st)))"

fun c_to_stream_loop :: "fmt_env \<Rightarrow> fields \<Rightarrow> string \<Rightarrow> fmt_state \<Rightarrow> fmt_result option" where
  "c_to_stream_loop e fds [] st = Some (Inr st)"
| "c_to_stream_loop e fds (c # cs) st =
     (case c_to_stream_step e fds c st of
        None \<Rightarrow> None
      | Some (Inl st') \<Rightarrow> Some (Inl st')
      | Some (Inr st') \<Rightarrow> c_to_stream_loop e fds cs st')"

text \<open>The decimal point of this build is a period, and no facet is called.\<close>

definition c_fmt_env :: "int \<Rightarrow> string option \<Rightarrow> int option \<Rightarrow> fmt_env" where
  "c_fmt_env den abbrev offset =
     \<lparr>fe_facet = (\<lambda>_ _. []), fe_point = CHR ''.'', fe_den = den, fe_abbrev = abbrev, fe_offset = offset\<rparr>"

definition c_to_stream ::
  "int \<Rightarrow> string option \<Rightarrow> int option \<Rightarrow> string \<Rightarrow> fields \<Rightarrow> string \<times> bool \<Rightarrow> (string \<times> bool) option" where
  "c_to_stream den abbrev offset fmt fds os =
     map_option (\<lambda>r. let st = (case r of Inl st \<Rightarrow> st | Inr st \<Rightarrow> to_stream_end st) in (fs_buf st, fs_fail st))
       (c_to_stream_loop (c_fmt_env den abbrev offset) fds fmt (to_stream_begin den fds os))"

text \<open>\<^verbatim>\<open>format\<close>: \<^term>\<open>Some None\<close> when the stream throws.\<close>

definition c_format_sys_time :: "int \<Rightarrow> string \<Rightarrow> int \<Rightarrow> string option option" where
  "c_format_sys_time den fmt tp =
     map_option (\<lambda>(s, fl). if fl then None else Some s)
       (c_to_stream den (Some ''UTC'') (Some 0) fmt (fields_of_time den tp) ([], False))"

text \<open>Indeed the facet is never consulted.\<close>

lemma c_modified_facet:
  "dir_d f fds c (c_mod (CHR ''E'') st) = dir_d g fds c (c_mod (CHR ''E'') st)"
  "dir_H f fds c (c_mod (CHR ''E'') st) = dir_H g fds c (c_mod (CHR ''E'') st)"
  "dir_m f fds c (c_mod (CHR ''E'') st) = dir_m g fds c (c_mod (CHR ''E'') st)"
  "dir_M f fds c (c_mod (CHR ''E'') st) = dir_M g fds c (c_mod (CHR ''E'') st)"
  "dir_S f p d fds c (c_mod (CHR ''E'') st) = dir_S g p d fds c (c_mod (CHR ''E'') st)"
  "dir_u f fds c (c_mod (CHR ''E'') st) = dir_u g fds c (c_mod (CHR ''E'') st)"
  "dir_U f fds c (c_mod (CHR ''E'') st) = dir_U g fds c (c_mod (CHR ''E'') st)"
  "dir_V f fds c (c_mod (CHR ''E'') st) = dir_V g fds c (c_mod (CHR ''E'') st)"
  "dir_w f fds c (c_mod (CHR ''E'') st) = dir_w g fds c (c_mod (CHR ''E'') st)"
  "dir_W f fds c (c_mod (CHR ''E'') st) = dir_W g fds c (c_mod (CHR ''E'') st)"
  "dir_C f fds c (c_mod (CHR ''O'') st) = dir_C g fds c (c_mod (CHR ''O'') st)"
  "dir_Y f fds c (c_mod (CHR ''O'') st) = dir_Y g fds c (c_mod (CHR ''O'') st)"
  "dir_y f fds c (c_mod NUL st) = dir_y g fds c (c_mod NUL st)"
  by (simp_all add: dir_d_def dir_H_def dir_m_def dir_M_def dir_S_def dir_u_def dir_U_def dir_V_def dir_w_def dir_W_def dir_C_def
      dir_Y_def dir_y_def c_mod_def Let_def NUL_def case_prod_unfold)

lemma directive_modified:
  "directive e fds (CHR ''C'') = Some (dir_C (fe_facet e) fds (CHR ''C''))"
  "directive e fds (CHR ''Y'') = Some (dir_Y (fe_facet e) fds (CHR ''Y''))"
  "directive e fds (CHR ''y'') = Some (dir_y (fe_facet e) fds (CHR ''y''))"
  "directive e fds (CHR ''d'') = Some (dir_d (fe_facet e) fds (CHR ''d''))"
  "directive e fds (CHR ''e'') = Some (dir_d (fe_facet e) fds (CHR ''e''))"
  "directive e fds (CHR ''H'') = Some (dir_H (fe_facet e) fds (CHR ''H''))"
  "directive e fds (CHR ''I'') = Some (dir_H (fe_facet e) fds (CHR ''I''))"
  "directive e fds (CHR ''m'') = Some (dir_m (fe_facet e) fds (CHR ''m''))"
  "directive e fds (CHR ''M'') = Some (dir_M (fe_facet e) fds (CHR ''M''))"
  "directive e fds (CHR ''u'') = Some (dir_u (fe_facet e) fds (CHR ''u''))"
  "directive e fds (CHR ''U'') = Some (dir_U (fe_facet e) fds (CHR ''U''))"
  "directive e fds (CHR ''V'') = Some (dir_V (fe_facet e) fds (CHR ''V''))"
  "directive e fds (CHR ''w'') = Some (dir_w (fe_facet e) fds (CHR ''w''))"
  "directive e fds (CHR ''W'') = Some (dir_W (fe_facet e) fds (CHR ''W''))"
  "directive e fds (CHR ''S'') = Some (dir_S (fe_facet e) (fe_point e) (fe_den e) fds (CHR ''S''))"
  by (simp_all add: directive_def Let_def)

lemma c_echoed_table:
  "c_echoed (CHR ''C'') = Some (CHR ''O'')" "c_echoed (CHR ''Y'') = Some (CHR ''O'')" "c_echoed (CHR ''d'') = Some (CHR ''E'')"
  "c_echoed (CHR ''e'') = Some (CHR ''E'')" "c_echoed (CHR ''H'') = Some (CHR ''E'')" "c_echoed (CHR ''I'') = Some (CHR ''E'')"
  "c_echoed (CHR ''m'') = Some (CHR ''E'')" "c_echoed (CHR ''M'') = Some (CHR ''E'')" "c_echoed (CHR ''S'') = Some (CHR ''E'')"
  "c_echoed (CHR ''u'') = Some (CHR ''E'')" "c_echoed (CHR ''U'') = Some (CHR ''E'')" "c_echoed (CHR ''V'') = Some (CHR ''E'')"
  "c_echoed (CHR ''w'') = Some (CHR ''E'')" "c_echoed (CHR ''W'') = Some (CHR ''E'')"
  "c_echoed (CHR ''y'') = Some NUL"
  by (simp_all add: c_echoed_def)

lemma c_directive_facet: "c_directive (e\<lparr>fe_facet := f\<rparr>) fds c = c_directive (e\<lparr>fe_facet := g\<rparr>) fds c"
proof (cases "c_named (fe_den e) fds c = None")
  case True
  then have n: "c \<notin> set ''aAbBhcxprX''" unfolding c_named_def map_of_eq_None_iff by simp
  show ?thesis
  proof (cases "c \<in> set ''CYydeHImMSuUVwW''")
    case c: True
    then have "map_option (c_modified c) (directive (e\<lparr>fe_facet := f\<rparr>) fds c) =
        map_option (c_modified c) (directive (e\<lparr>fe_facet := g\<rparr>) fds c)"
      using c_modified_facet [where f = f and g = g]
      by (simp only: list.set insert_iff empty_iff) (elim disjE; simp add: directive_modified c_modified_def c_echoed_table fun_eq_iff)
    then have "map_option (\<lambda>h st. Some (h st)) (map_option (c_modified c) (directive (e\<lparr>fe_facet := f\<rparr>) fds c)) =
        map_option (\<lambda>h st. Some (h st)) (map_option (c_modified c) (directive (e\<lparr>fe_facet := g\<rparr>) fds c))" by simp
    with True show ?thesis by (simp only: option.map_comp comp_def c_directive_def fmt_env.simps) simp
  next
    case False
    with n have "directive (e\<lparr>fe_facet := f\<rparr>) fds c = directive (e\<lparr>fe_facet := g\<rparr>) fds c"
      by (simp add: directive_def Let_def)
    with True show ?thesis by (simp add: c_directive_def)
  qed
qed (auto simp: c_directive_def)

end
