(* ===== verification/Date_C_Output.thy ===== *)
theory Date_C_Output
  imports Date_C_Locale
begin

text \<open>
  The two builds compared: on valid dates and times of day the build that has the names of the C locale in it writes
  what the other one writes through the facet of the C locale.
\<close>

section \<open>Fields that every directive can print\<close>

definition printable :: "fields \<Rightarrow> bool" where
  "printable fds \<longleftrightarrow> ymd_ok (fd_ymd fds) \<and> fd_has_tod fds \<and>
     (weekday_ok (fd_wd fds) \<longrightarrow> fd_wd fds = weekday_of_days (to_days (fd_ymd fds)))"

lemma printable_ok:
  assumes "printable fds"
  shows "ymd_ok (fd_ymd fds)" "year_ok (ymd_year (fd_ymd fds))" "month_ok (ymd_month (fd_ymd fds))"
    "day_ok (ymd_day (fd_ymd fds))" "fd_has_tod fds"
    "extract_weekday fds st = (weekday_diff (weekday_of_days (to_days (fd_ymd fds))) Sunday, st)"
    "extract_month fds st = (month_int fds, st)"
proof -
  note v = assms [unfolded printable_def]
  then have "uint (day_d (ymd_day (fd_ymd fds))) \<le> 31" "1 \<le> uint (day_d (ymd_day (fd_ymd fds)))"
    using month_length_bounds [of "uint (month_m (ymd_month (fd_ymd fds)))" "ymd_year (fd_ymd fds)"]
    by (auto simp: ymd_ok_iff month_ok_uint)
  then show "day_ok (ymd_day (fd_ymd fds))" by (simp add: day_ok_def word_le_def)
  show "extract_month fds st = (month_int fds, st)" using v by (auto simp: ymd_ok_iff extract_month_def)
qed (use assms in \<open>auto simp: printable_def ymd_ok_iff extract_weekday_def Let_def\<close>)

text \<open>A directive that neither looks at the \<^verbatim>\<open>tm\<close> nor fails nor leaves a modifier.\<close>

definition tm_free :: "(fmt_state \<Rightarrow> fmt_result) \<Rightarrow> bool" where
  "tm_free d \<longleftrightarrow> (\<forall>st t. fs_mod st = NUL \<longrightarrow> \<not> fs_fail st \<longrightarrow>
     d (st\<lparr>fs_tm := t\<rparr>) = map_sum (\<lambda>s. s\<lparr>fs_tm := t\<rparr>) (\<lambda>s. s\<lparr>fs_tm := t\<rparr>) (d st) \<and>
     (\<forall>s. d st = Inr s \<longrightarrow> \<not> fs_fail s \<and> fs_mod s = NUL))"

lemma tm_free_shared:
  assumes "printable fds"
  shows "tm_free (dir_C f fds c)" "tm_free (dir_d f fds c)" "tm_free (dir_D fds c)" "tm_free (dir_F fds c)" "tm_free (dir_g fds c)"
    "tm_free (dir_H f fds c)" "tm_free (dir_j den fds c)" "tm_free (dir_m f fds c)" "tm_free (dir_M f fds c)" "tm_free (dir_n c)"
    "tm_free (dir_Q den fds c)" "tm_free (dir_R fds c)" "tm_free (dir_S f p den fds c)" "tm_free (dir_t c)" "tm_free (dir_T p den fds c)"
    "tm_free (dir_u f fds c)" "tm_free (dir_U f fds c)" "tm_free (dir_V f fds c)" "tm_free (dir_w f fds c)" "tm_free (dir_W f fds c)"
    "tm_free (dir_y f fds c)" "tm_free (dir_Y f fds c)" "tm_free (dir_z off)" "tm_free (dir_Z ab c)" "tm_free dir_percent"
  unfolding tm_free_def dir_defs
  by (simp_all add: printable_ok [OF assms] Let_def put_def fin_def put_sign_def fail_if_def NUL_def split: option.splits)

section \<open>The facet of the C locale\<close>

text \<open>What ISO C says of \<^verbatim>\<open>strftime\<close> in the C locale, of the members each conversion uses within their normal
  ranges, and for years of four digits.\<close>

definition tm_clock :: "tm \<Rightarrow> string" where
  "tm_clock t = setw0 2 (show_int (tm_hour t)) @ '':'' @ setw0 2 (show_int (tm_min t)) @ '':'' @ setw0 2 (show_int (tm_sec t))"

definition tm_clock_ok :: "tm \<Rightarrow> bool" where
  "tm_clock_ok t \<longleftrightarrow> 0 \<le> tm_hour t \<and> tm_hour t < 24 \<and> 0 \<le> tm_min t \<and> tm_min t < 60 \<and> 0 \<le> tm_sec t \<and> tm_sec t \<le> 60"

definition tm_date_ok :: "tm \<Rightarrow> bool" where
  "tm_date_ok t \<longleftrightarrow> 1 \<le> tm_mday t \<and> tm_mday t \<le> 31 \<and> 0 \<le> tm_mon t \<and> tm_mon t < 12 \<and> 0 \<le> tm_wday t \<and> tm_wday t < 7 \<and>
     1000 \<le> tm_year t + 1900 \<and> tm_year t + 1900 \<le> 9999"

definition c_strftime :: "time_facet \<Rightarrow> bool" where
  "c_strftime f \<longleftrightarrow> (\<forall>t.
     (0 \<le> tm_wday t \<and> tm_wday t < 7 \<longrightarrow>
        f ''%a'' t = weekday_names ! nat (tm_wday t + 7) \<and> f ''%A'' t = weekday_names ! nat (tm_wday t)) \<and>
     (0 \<le> tm_mon t \<and> tm_mon t < 12 \<longrightarrow>
        f ''%b'' t = month_names ! nat (tm_mon t + 12) \<and> f ''%h'' t = f ''%b'' t \<and> f ''%B'' t = month_names ! nat (tm_mon t)) \<and>
     (0 \<le> tm_hour t \<and> tm_hour t < 24 \<longrightarrow> f ''%p'' t = (if tm_hour t < 12 then ''AM'' else ''PM'')) \<and>
     (tm_clock_ok t \<longrightarrow> f ''%X'' t = tm_clock t \<and>
        f ''%r'' t = setw0 2 (show_int (if tm_hour t mod 12 = 0 then 12 else tm_hour t mod 12)) @ '':'' @
          setw0 2 (show_int (tm_min t)) @ '':'' @ setw0 2 (show_int (tm_sec t)) @ '' '' @ f ''%p'' t) \<and>
     (tm_date_ok t \<longrightarrow>
        f ''%x'' t = setw0 2 (show_int (tm_mon t + 1)) @ ''/'' @ setw0 2 (show_int (tm_mday t)) @ ''/'' @
          setw0 2 (show_int ((tm_year t + 1900) mod 100))) \<and>
     (tm_date_ok t \<and> tm_clock_ok t \<longrightarrow>
        f ''%c'' t = f ''%a'' t @ '' '' @ f ''%b'' t @ '' '' @ setw (CHR '' '') 2 (show_int (tm_mday t)) @ '' '' @ tm_clock t @ '' '' @
          show_int (tm_year t + 1900)))"

section \<open>Whole seconds\<close>

definition second_tod :: "nat \<Rightarrow> nat \<Rightarrow> nat \<Rightarrow> hh_mm_ss" where
  "second_tod h m sc = \<lparr>hms_h = int h, hms_m = int m, hms_s = \<lparr>dfs_s = int sc, dfs_sub_s = 0\<rparr>, hms_neg = False\<rparr>"

lemma dfs_width_1: "dfs_width 1 = 0"
  by code_simp

lemma second_precision: "dfs_precision 1 = seconds_period"
  using dfs_precision_power [of 1] by (simp add: dfs_width_1 dfs_precision_def seconds_period_def)

lemma second_tod_new:
  assumes "m < 60" and "sc < 60"
  shows "hh_mm_ss_new seconds_period (int h * 3600 + int m * 60 + int sc) = second_tod h m sc"
proof -
  let ?t = "int h * 3600 + int m * 60 + int sc"
  have a: "dur_abs ?t = ?t" "\<not> ?t < 0" by (simp_all add: dur_abs_def)
  have c: "duration_cast hours_period seconds_period ?t = int h" "duration_cast minutes_period seconds_period ?t = int h * 60 + int m"
    using assms by (simp_all add: duration_cast_def hours_period_def minutes_period_def seconds_period_def sdiv_pos)
  have "decimal_format_seconds_new 1 (int sc) = \<lparr>dfs_s = int sc, dfs_sub_s = 0\<rparr>"
    by (simp add: decimal_format_seconds_new_def Let_def duration_cast_def seconds_period_def dfs_width_1 sdiv_pos dfs_precision_def)
  with a c show ?thesis by (simp add: hh_mm_ss_new_def Let_def second_tod_def seconds_period_def)
qed

lemma second_tod_duration: "hms_to_duration seconds_period (second_tod h m sc) = int h * 3600 + int m * 60 + int sc"
  by (simp add: hms_to_duration_def dfs_to_duration_def second_tod_def second_precision seconds_period_def)

lemma second_tod_of:
  assumes "0 \<le> s" and "s < 86400"
  obtains h m sc where "hh_mm_ss_new seconds_period s = second_tod h m sc" and "h < 24" and "m < 60" and "sc < 60"
    and "s = int h * 3600 + int m * 60 + int sc"
proof -
  define n where "n = nat s"
  have n: "s = int n" "n < 86400" using assms by (simp_all add: n_def)
  define h m sc where "h = n div 3600" and "m = n mod 3600 div 60" and "sc = n mod 3600 mod 60"
  have r: "h < 24" "m < 60" "sc < 60" using n(2) by (simp_all add: h_def m_def sc_def less_mult_imp_div_less)
  have "n = h * 3600 + (m * 60 + sc)" unfolding h_def m_def sc_def by simp
  then have "s = int h * 3600 + int m * 60 + int sc" using n(1) by simp
  with second_tod_new [OF r(2,3), of h] that r show thesis by metis
qed

lemma whole_seconds_id:
  assumes "fd_tod fds = second_tod h m sc" and "m < 60" and "sc < 60"
  shows "whole_seconds 1 fds = fd_tod fds"
proof -
  have "duration_cast seconds_period seconds_period x = x" for x
    by (simp add: duration_cast_def seconds_period_def sdiv_pos)
  then show ?thesis
    using second_tod_duration [of h m sc] second_tod_new [OF assms(2,3), of h] assms(1)
    by (simp add: whole_seconds_def second_precision flip: seconds_period_def)
qed

section \<open>What the directives of the names write\<close>

definition c_printable :: "time_facet \<Rightarrow> fields \<Rightarrow> bool" where
  "c_printable facet fds \<longleftrightarrow> c_strftime facet \<and> printable fds \<and> 1000 \<le> year_of fds \<and> year_of fds \<le> 9999 \<and>
     (\<exists>h m sc. fd_tod fds = second_tod h m sc \<and> h < 24 \<and> m < 60 \<and> sc < 60)"

text \<open>A directive that writes \<open>s\<close>, in the one build and in the other.\<close>

definition writes :: "(fmt_state \<Rightarrow> fmt_result) \<Rightarrow> string \<Rightarrow> bool" where
  "writes d s \<longleftrightarrow> (\<forall>st. fs_mod st = NUL \<longrightarrow> \<not> fs_fail st \<longrightarrow> (\<exists>t. d st = Inr ((fin (put s st))\<lparr>fs_tm := t\<rparr>)))"

definition c_writes :: "(fmt_state \<Rightarrow> fmt_result option) \<Rightarrow> string \<Rightarrow> bool" where
  "c_writes d s \<longleftrightarrow> (\<forall>st. fs_mod st = NUL \<longrightarrow> \<not> fs_fail st \<longrightarrow> (\<exists>t. d st = Some (Inr ((fin (put s st))\<lparr>fs_tm := t\<rparr>))))"

lemma fin_put_facet:
  "\<not> fs_fail st \<Longrightarrow> facet f (u (fs_tm st)) = s \<Longrightarrow> \<exists>t. fin (put_facet facet f (set_tm u st)) = (fin (put s st))\<lparr>fs_tm := t\<rparr>"
  by (intro exI [of _ "u (fs_tm st)"]) (simp add: fin_def put_facet_def put_def set_tm_def)

lemma fin_put_tm: "\<exists>t. fin (put s (set_tm u st)) = (fin (put s st))\<lparr>fs_tm := t\<rparr>" "\<exists>t. fin (put s st) = (fin (put s st))\<lparr>fs_tm := t\<rparr>"
  by (rule exI [of _ "u (fs_tm st)"], simp add: fin_def put_def set_tm_def) (rule exI [of _ "fs_tm st"], simp add: fin_def put_def)

abbreviation wday :: "fields \<Rightarrow> int" where
  "wday fds \<equiv> weekday_diff (weekday_of_days (to_days (fd_ymd fds))) Sunday"

lemma printable_ranges:
  assumes "printable fds"
  shows "0 \<le> wday fds" "wday fds < 7" "1 \<le> month_int fds" "month_int fds \<le> 12" "1 \<le> day_int fds" "day_int fds \<le> 31"
proof -
  show "0 \<le> wday fds" "wday fds < 7" by (simp_all add: weekday_diff_mod)
  show "1 \<le> month_int fds" "month_int fds \<le> 12"
    using printable_ok(3) [OF assms] by (auto simp: month_int_def month_unsigned_def month_ok_uint)
  show "1 \<le> day_int fds" "day_int fds \<le> 31"
    using printable_ok(4) [OF assms] by (auto simp: day_int_def day_unsigned_def day_ok_def word_le_def)
qed

lemma c_printable_ranges:
  assumes "c_printable facet fds"
  shows "0 \<le> wday fds" "wday fds < 7" "1 \<le> month_int fds" "month_int fds \<le> 12" "1 \<le> day_int fds" "day_int fds \<le> 31"
    "printable fds" "c_strftime facet"
  using assms printable_ranges [of fds] by (simp_all add: c_printable_def)

lemma writes_a:
  assumes "c_printable facet fds" and "c = CHR ''a'' \<or> c = CHR ''A''"
  defines "s \<equiv> weekday_names ! nat (wday fds + (if c = CHR ''a'' then 7 else 0))"
  shows "writes (dir_a facet fds c) s" "c_writes (c_dir_a fds c) s"
proof -
  note r = c_printable_ranges [OF assms(1)] and ok = printable_ok [OF c_printable_ranges(7) [OF assms(1)]]
  have "facet [CHR ''%'', c] (t\<lparr>tm_wday := wday fds\<rparr>) = s" for t
    using r(1,2,8) assms(2) unfolding c_strftime_def s_def by (auto simp add: add.commute)
  then show "writes (dir_a facet fds c) s"
    unfolding writes_def by (auto simp: dir_a_def ok intro!: fin_put_facet)
  show "c_writes (c_dir_a fds c) s"
    using r(1,2) assms(2) fin_put_tm(1) unfolding c_writes_def s_def
    by (auto simp: c_dir_a_def ok name_at_def names_length)
qed

lemma writes_b:
  assumes "c_printable facet fds" and "c = CHR ''b'' \<or> c = CHR ''B'' \<or> c = CHR ''h''"
  defines "s \<equiv> month_names ! nat (month_int fds - 1 + (if c \<noteq> CHR ''B'' then 12 else 0))"
  shows "writes (dir_b facet fds c) s" "c_writes (c_dir_b fds c) s"
proof -
  note r = c_printable_ranges [OF assms(1)] and ok = printable_ok [OF c_printable_ranges(7) [OF assms(1)]]
  have "facet [CHR ''%'', c] (t\<lparr>tm_mon := month_int fds - 1\<rparr>) = s" for t
    using r(3,4,8) assms(2) unfolding c_strftime_def s_def by auto
  then show "writes (dir_b facet fds c) s"
    unfolding writes_def by (auto simp: dir_b_def ok intro!: fin_put_facet)
  show "c_writes (c_dir_b fds c) s"
    using r(3,4) assms(2) fin_put_tm(1) unfolding c_writes_def s_def
    by (auto simp: c_dir_b_def ok name_at_def names_length)
qed

text \<open>Numbers as the two builds print them.\<close>

lemma show_nat_length_1: "n < 10 \<Longrightarrow> length (show_nat n) = 1"
  by (subst show_nat.simps) simp

lemma show_nat_length_Suc: "10 \<le> n \<Longrightarrow> length (show_nat n) = Suc (length (show_nat (n div 10)))"
  by (subst show_nat.simps) simp

lemma show_nat_length_2: "10 \<le> n \<Longrightarrow> n < 100 \<Longrightarrow> length (show_nat n) = 2"
  using show_nat_length_1 [of "n div 10"] by (simp add: show_nat_length_Suc)

lemma show_nat_length_4: "1000 \<le> n \<Longrightarrow> n < 10000 \<Longrightarrow> length (show_nat n) = 4"
  using show_nat_length_2 [of "n div 100"] by (simp add: show_nat_length_Suc div_mult2_eq [symmetric])

lemma day_padded:
  assumes "1 \<le> d" and "d \<le> 31"
  shows "(if d < 10 then '' '' else []) @ show_int d = setw (CHR '' '') 2 (show_int d)"
  using assms show_nat_length_1 [of "nat d"] show_nat_length_2 [of "nat d"] by (auto simp: setw_def show_int_def)

lemma year_four_digits:
  assumes "1000 \<le> year_int y" and "year_int y \<le> 9999"
  shows "year_print y = show_int (year_int y)"
proof -
  have "year_ok y" using assms by (simp add: year_ok_def)
  with assms show_nat_length_4 [of "nat (year_int y)"] show ?thesis
    by (simp add: year_print_def year_low_level_def setw0_def show_int_def)
qed

lemma hms_print_second_tod:
  assumes "h < 24" and "m < 60"
  shows "hms_print point seconds_period (second_tod h m sc) =
    setw0 2 (show_int (int h)) @ '':'' @ setw0 2 (show_int (int m)) @ '':'' @ setw0 2 (show_int (int sc))"
  using assms two_digits [of "int h"] two_digits [of "int m"]
  by (simp add: hms_print_def second_tod_def dfs_print_def seconds_period_def dfs_width_1 show_int_def flip: append_assoc)

lemma make12_mod: "h < 24 \<Longrightarrow> make12 (int h) = (if int h mod 12 = 0 then 12 else int h mod 12)"
proof -
  assume "h < 24"
  then consider "h < 12" | "12 \<le> h" "h < 24" by linarith
  then show ?thesis
  proof cases
    case 2
    have "int h mod 12 = (int h - 12) mod 12" by (simp only: minus_mod_self2)
    also have "\<dots> = int h - 12" using 2 by (intro mod_pos_pos_trivial) simp_all
    finally show ?thesis using 2 by (simp add: make12_def)
  qed (simp add: make12_def)
qed

lemma c_tod:
  assumes "c_printable facet fds"
  obtains h m sc where "fd_tod fds = second_tod h m sc" and "h < 24" and "m < 60" and "sc < 60"
    and "whole_seconds 1 fds = second_tod h m sc" and "\<And>t. tm_clock_ok (set_clock fds t)"
    and "\<And>t. tm_clock (set_clock fds t) = hms_print (CHR ''.'') seconds_period (second_tod h m sc)"
proof -
  obtain h m sc where t: "fd_tod fds = second_tod h m sc" "h < 24" "m < 60" "sc < 60"
    using assms by (auto simp: c_printable_def)
  have "tm_clock_ok (set_clock fds t)" for t using t by (simp add: tm_clock_ok_def set_clock_def second_tod_def)
  moreover have "tm_clock (set_clock fds t) = hms_print (CHR ''.'') seconds_period (second_tod h m sc)" for t
    unfolding hms_print_second_tod [OF t(2,3)] by (simp add: tm_clock_def set_clock_def second_tod_def t(1))
  ultimately show thesis using that [OF t] whole_seconds_id [OF t(1,3,4)] t(1) by simp
qed

lemma writes_X:
  assumes "c_printable facet fds"
  shows "\<exists>s. writes (dir_X facet fds (CHR ''X'')) s \<and> c_writes (c_dir_X 1 fds (CHR ''X'')) s"
proof -
  note r = c_printable_ranges [OF assms] and ok = printable_ok [OF c_printable_ranges(7) [OF assms]]
  obtain h m sc where t: "fd_tod fds = second_tod h m sc" "\<And>t. tm_clock_ok (set_clock fds t)"
    "\<And>t. tm_clock (set_clock fds t) = hms_print (CHR ''.'') seconds_period (second_tod h m sc)"
    using c_tod [OF assms] by metis
  let ?s = "hms_print (CHR ''.'') seconds_period (second_tod h m sc)"
  have "facet ''%X'' (set_clock fds t) = ?s" for t
    using r(8) t(2,3) unfolding c_strftime_def by metis
  then have "writes (dir_X facet fds (CHR ''X'')) ?s"
    unfolding writes_def by (auto simp: dir_X_def ok NUL_def intro!: fin_put_facet)
  moreover have "c_writes (c_dir_X 1 fds (CHR ''X'')) ?s"
    using fin_put_tm(2) unfolding c_writes_def by (auto simp: c_dir_X_def ok NUL_def t(1) seconds_period_def)
  ultimately show ?thesis by blast
qed

lemma writes_p:
  assumes "c_printable facet fds"
  shows "\<exists>s. writes (dir_p facet fds (CHR ''p'')) s \<and> c_writes (c_dir_p fds (CHR ''p'')) s"
proof -
  note r = c_printable_ranges [OF assms] and ok = printable_ok [OF c_printable_ranges(7) [OF assms]]
  obtain h m sc where t: "fd_tod fds = second_tod h m sc" "h < 24" using c_tod [OF assms] by metis
  let ?s = "if h < 12 then ''AM'' else ''PM''"
  have "facet ''%p'' (t\<lparr>tm_hour := int h\<rparr>) = ?s" for t
    using r(8) t(2) unfolding c_strftime_def by simp
  then have "writes (dir_p facet fds (CHR ''p'')) ?s"
    unfolding writes_def by (auto simp: dir_p_def ok t(1) second_tod_def intro!: fin_put_facet)
  moreover have "c_writes (c_dir_p fds (CHR ''p'')) ?s"
    using fin_put_tm(2) unfolding c_writes_def by (auto simp: c_dir_p_def ok t(1) second_tod_def is_am_def ampm_names_def)
  ultimately show ?thesis by blast
qed

lemma writes_r:
  assumes "c_printable facet fds"
  shows "\<exists>s. writes (dir_r facet fds (CHR ''r'')) s \<and> c_writes (c_dir_r 1 fds (CHR ''r'')) s"
proof -
  note r = c_printable_ranges [OF assms] and ok = printable_ok [OF c_printable_ranges(7) [OF assms]]
  obtain h m sc where t: "fd_tod fds = second_tod h m sc" "h < 24" "whole_seconds 1 fds = second_tod h m sc"
    "\<And>t. tm_clock_ok (set_clock fds t)" using c_tod [OF assms] by metis
  let ?s = "setw0 2 (show_int (if int h mod 12 = 0 then 12 else int h mod 12)) @ '':'' @ setw0 2 (show_int (int m)) @ '':'' @
      setw0 2 (show_int (int sc)) @ '' '' @ (if h < 12 then ''AM'' else ''PM'')"
  have c: "tm_hour (set_clock fds t) = int h" "tm_min (set_clock fds t) = int m" "tm_sec (set_clock fds t) = int sc" for t
    by (simp_all add: set_clock_def t(1) second_tod_def)
  have "facet ''%p'' (set_clock fds u) = (if h < 12 then ''AM'' else ''PM'')" for u
    using r(8) t(2) c unfolding c_strftime_def by simp
  then have "facet ''%r'' (set_clock fds u) = ?s" for u
    using r(8) t(4) c unfolding c_strftime_def by simp
  then have "writes (dir_r facet fds (CHR ''r'')) ?s"
    unfolding writes_def by (auto simp: dir_r_def ok intro!: fin_put_facet)
  moreover have "c_writes (c_dir_r 1 fds (CHR ''r'')) ?s"
    using fin_put_tm(2) make12_mod [OF t(2)] unfolding c_writes_def
    by (auto simp: c_dir_r_def ok t(3) second_tod_def is_am_def ampm_names_def Let_def)
  ultimately show ?thesis by blast
qed

text \<open>The date that \<^verbatim>\<open>%c\<close> and \<^verbatim>\<open>%x\<close> pass to the facet.\<close>

definition tm_of_date :: "fields \<Rightarrow> tm \<Rightarrow> tm" where
  "tm_of_date fds t = t\<lparr>tm_mday := day_int fds, tm_mon := month_int fds - 1, tm_year := year_of fds - 1900, tm_wday := wday fds,
     tm_yday := year_day fds\<rparr>"

lemma tm_of_date_ok:
  assumes "c_printable facet fds"
  shows "tm_date_ok (tm_of_date fds t)"
proof -
  have "1000 \<le> year_of fds" "year_of fds \<le> 9999" using assms by (simp_all add: c_printable_def)
  then show ?thesis using c_printable_ranges(1-6) [OF assms] by (simp add: tm_date_ok_def tm_of_date_def)
qed

lemma writes_x:
  assumes "c_printable facet fds"
  shows "\<exists>s. writes (dir_c facet fds (CHR ''x'')) s \<and> c_writes (c_dir_c 1 fds (CHR ''x'')) s"
proof -
  note r = c_printable_ranges [OF assms] and ok = printable_ok [OF c_printable_ranges(7) [OF assms]]
  let ?s = "setw0 2 (show_int (month_int fds)) @ ''/'' @ setw0 2 (show_int (day_int fds)) @ ''/'' @
     setw0 2 (show_int (year_of fds mod 100))"
  have y: "year_of fds smod 100 = year_of fds mod 100"
    using assms by (simp add: c_printable_def signed_modulo_int_def sgn_if)
  have "facet ''%x'' (tm_of_date fds t) = ?s" for t
    using r(8) tm_of_date_ok [OF assms, of t] unfolding c_strftime_def by (simp add: tm_of_date_def)
  then have "writes (dir_c facet fds (CHR ''x'')) ?s"
    using fin_put_facet [where u = "\<lambda>t. tm_of_date fds tm_zero" and f = "''%x''"] unfolding writes_def
    by (auto simp: dir_c_def ok NUL_def set_tm_def tm_of_date_def)
  moreover have "c_writes (c_dir_c 1 fds (CHR ''x'')) ?s"
    using fin_put_tm(2) y unfolding c_writes_def by (auto simp: c_dir_c_def c_put_x_def ok NUL_def)
  ultimately show ?thesis by blast
qed

lemma set_clock_order:
  "t\<lparr>tm_sec := dfs_s (hms_s (fd_tod fds)), tm_min := hms_m (fd_tod fds), tm_hour := hms_h (fd_tod fds)\<rparr> = set_clock fds t"
  by (cases t) (simp add: set_clock_def)

text \<open>What \<^verbatim>\<open>%c\<close> writes, for any year.\<close>

lemma c_writes_c:
  assumes "printable fds"
  shows "c_writes (c_dir_c den fds (CHR ''c''))
    (weekday_names ! nat (wday fds + 7) @ '' '' @ month_names ! nat (month_int fds - 1 + 12) @ '' '' @
     (if day_int fds < 10 then '' '' else []) @ show_int (day_int fds) @ '' '' @
     hms_print (CHR ''.'') seconds_period (whole_seconds den fds) @ '' '' @ year_print (ymd_year (fd_ymd fds)))"
proof -
  note r = printable_ranges [OF assms] and ok = printable_ok [OF assms]
  let ?w = "weekday_names ! nat (wday fds + 7)" and ?m = "month_names ! nat (month_int fds - 1 + 12)"
  have nw: "name_at weekday_names (uint (of_int (wday fds) + 7 :: u32)) = Some ?w"
    using r(1,2) uint_word_of_int_eq [of "wday fds + 7", where 'a = 32]
    by (simp add: name_at_def names_length take_bit_int_eq_self)
  have nm: "name_at month_names (uint (of_int (month_int fds) - 1 + 12 :: u32)) = Some ?m"
    using r(3,4) uint_word_of_int_eq [of "month_int fds - 1 + 12", where 'a = 32]
    by (simp add: name_at_def names_length take_bit_int_eq_self)
  show ?thesis
    using fin_put_tm(2) unfolding c_writes_def
    by (auto simp: c_dir_c_def c_put_c_def ok NUL_def nw nm nm [simplified] Let_def put_append [symmetric])
qed

lemma writes_c:
  assumes "c_printable facet fds"
  shows "\<exists>s. writes (dir_c facet fds (CHR ''c'')) s \<and> c_writes (c_dir_c 1 fds (CHR ''c'')) s"
proof -
  note r = c_printable_ranges [OF assms] and ok = printable_ok [OF c_printable_ranges(7) [OF assms]]
  obtain h m sc where t: "fd_tod fds = second_tod h m sc" "whole_seconds 1 fds = second_tod h m sc"
    "\<And>t. tm_clock_ok (set_clock fds t)"
    "\<And>t. tm_clock (set_clock fds t) = hms_print (CHR ''.'') seconds_period (second_tod h m sc)" using c_tod [OF assms] by metis
  let ?w = "weekday_names ! nat (wday fds + 7)" and ?m = "month_names ! nat (month_int fds - 1 + 12)"
  let ?s = "?w @ '' '' @ ?m @ '' '' @ setw (CHR '' '') 2 (show_int (day_int fds)) @ '' '' @
      hms_print (CHR ''.'') seconds_period (second_tod h m sc) @ '' '' @ show_int (year_of fds)"
  define u where "u = tm_of_date fds (set_clock fds tm_zero)"
  have c: "tm_clock_ok u" "tm_clock u = hms_print (CHR ''.'') seconds_period (second_tod h m sc)"
    using t(3,4) [of tm_zero] by (simp_all add: tm_clock_ok_def tm_clock_def u_def tm_of_date_def)
  have n: "facet ''%a'' u = ?w" "facet ''%b'' u = ?m"
    using r(1-4,8) unfolding c_strftime_def by (simp_all add: u_def tm_of_date_def)
  have m: "tm_mday u = day_int fds" "tm_year u + 1900 = year_of fds" by (simp_all add: u_def tm_of_date_def)
  have "facet ''%c'' u = ?s"
    using r(8) tm_of_date_ok [OF assms, of "set_clock fds tm_zero", folded u_def] c n m unfolding c_strftime_def by metis
  then have w: "writes (dir_c facet fds (CHR ''c'')) ?s"
    using fin_put_facet [where u = "\<lambda>t. u" and f = "''%c''"] unfolding writes_def
    by (auto simp: dir_c_def ok NUL_def set_tm_def u_def tm_of_date_def set_clock_order)
  have y: "year_print (ymd_year (fd_ymd fds)) = show_int (year_of fds)"
    using year_four_digits [of "ymd_year (fd_ymd fds)"] assms by (simp add: c_printable_def year_of_def)
  have "c_writes (c_dir_c 1 fds (CHR ''c'')) ?s"
    using c_writes_c [OF r(7), of 1] unfolding t(2) y day_padded [OF r(5,6), symmetric] by simp
  with w show ?thesis by blast
qed

section \<open>The two loops\<close>

text \<open>The states of the two builds agree but for the \<^verbatim>\<open>tm\<close> that is passed to the facet.\<close>

definition fmt_rel :: "fmt_state \<Rightarrow> fmt_state \<Rightarrow> bool" where
  "fmt_rel st st' \<longleftrightarrow> (\<exists>t. st' = st\<lparr>fs_tm := t\<rparr>) \<and> fs_mod st = NUL \<and> \<not> fs_fail st"

fun result_rel :: "fmt_result \<Rightarrow> fmt_result \<Rightarrow> bool" where
  "result_rel (Inr st) (Inr st') \<longleftrightarrow> fmt_rel st st'"
| "result_rel (Inl st) (Inl st') \<longleftrightarrow> (\<exists>t. st' = st\<lparr>fs_tm := t\<rparr>)"
| "result_rel _ _ \<longleftrightarrow> False"

lemma fmt_relE:
  assumes "fmt_rel st st'"
  obtains t where "st' = st\<lparr>fs_tm := t\<rparr>" and "fs_mod st = NUL" and "\<not> fs_fail st" and "fs_mod st' = NUL" and "\<not> fs_fail st'"
    and "fs_cmd st' = fs_cmd st"
  using assms by (auto simp: fmt_rel_def)

lemma tm_free_rel:
  assumes "tm_free d" and "fmt_rel st st'"
  shows "result_rel (d st) (d st')"
proof -
  obtain t where st': "st' = st\<lparr>fs_tm := t\<rparr>" and st: "fs_mod st = NUL" "\<not> fs_fail st" using fmt_relE [OF assms(2)] by metis
  have "d (st\<lparr>fs_tm := t\<rparr>) = map_sum (\<lambda>s. s\<lparr>fs_tm := t\<rparr>) (\<lambda>s. s\<lparr>fs_tm := t\<rparr>) (d st)"
    "\<forall>s. d st = Inr s \<longrightarrow> \<not> fs_fail s \<and> fs_mod s = NUL"
    using assms(1) st unfolding tm_free_def by blast+
  then show ?thesis unfolding st' by (cases "d st") (auto simp: fmt_rel_def)
qed

lemma writes_rel:
  assumes "writes d s" and "c_writes d' s" and "fmt_rel st st'"
  shows "\<exists>r'. d' st' = Some r' \<and> result_rel (d st) r'"
proof -
  obtain t where st': "st' = st\<lparr>fs_tm := t\<rparr>" and st: "fs_mod st = NUL" "\<not> fs_fail st" "fs_mod st' = NUL" "\<not> fs_fail st'"
    using fmt_relE [OF assms(3)] by metis
  obtain u u' where d: "d st = Inr ((fin (put s st))\<lparr>fs_tm := u\<rparr>)" "d' st' = Some (Inr ((fin (put s st'))\<lparr>fs_tm := u'\<rparr>))"
    using assms(1,2) st unfolding writes_def c_writes_def by metis
  have "(fin (put s st'))\<lparr>fs_tm := u'\<rparr> = ((fin (put s st))\<lparr>fs_tm := u\<rparr>)\<lparr>fs_tm := u'\<rparr>"
    by (simp add: st' fin_def put_def)
  moreover have "fs_mod ((fin (put s st))\<lparr>fs_tm := u\<rparr>) = NUL" "\<not> fs_fail ((fin (put s st))\<lparr>fs_tm := u\<rparr>)"
    using st by (simp_all add: fin_def put_def)
  ultimately show ?thesis unfolding d by (auto simp: fmt_rel_def)
qed

lemma directive_named:
  "directive e fds (CHR ''a'') = Some (dir_a (fe_facet e) fds (CHR ''a''))" "directive e fds (CHR ''A'') = Some (dir_a (fe_facet e) fds (CHR ''A''))"
  "directive e fds (CHR ''b'') = Some (dir_b (fe_facet e) fds (CHR ''b''))" "directive e fds (CHR ''B'') = Some (dir_b (fe_facet e) fds (CHR ''B''))"
  "directive e fds (CHR ''h'') = Some (dir_b (fe_facet e) fds (CHR ''h''))" "directive e fds (CHR ''c'') = Some (dir_c (fe_facet e) fds (CHR ''c''))"
  "directive e fds (CHR ''x'') = Some (dir_c (fe_facet e) fds (CHR ''x''))" "directive e fds (CHR ''p'') = Some (dir_p (fe_facet e) fds (CHR ''p''))"
  "directive e fds (CHR ''r'') = Some (dir_r (fe_facet e) fds (CHR ''r''))" "directive e fds (CHR ''X'') = Some (dir_X (fe_facet e) fds (CHR ''X''))"
  by (simp_all add: directive_def Let_def)

text \<open>A directive with a name in it writes the same in both builds.\<close>

lemma named_writes:
  assumes "c_printable (fe_facet e) fds" and "c_named 1 fds c = Some d'"
  shows "\<exists>d s. directive e fds c = Some d \<and> writes d s \<and> c_writes d' s"
proof -
  have "c \<in> set ''aAbBhcxprX''"
    using assms(2) unfolding c_named_def by (drule_tac map_of_SomeD) auto
  then consider "c = CHR ''a'' \<or> c = CHR ''A''" | "c = CHR ''b'' \<or> c = CHR ''B'' \<or> c = CHR ''h''" | "c = CHR ''c''" | "c = CHR ''x''"
    | "c = CHR ''p''" | "c = CHR ''r''" | "c = CHR ''X''" by auto
  then show ?thesis
  proof cases
    case 1
    then have "d' = c_dir_a fds c" "directive e fds c = Some (dir_a (fe_facet e) fds c)"
      using assms(2) by (auto simp: c_named_def directive_named)
    with writes_a [OF assms(1) 1] show ?thesis by blast
  next
    case 2
    then have "d' = c_dir_b fds c" "directive e fds c = Some (dir_b (fe_facet e) fds c)"
      using assms(2) by (auto simp: c_named_def directive_named)
    with writes_b [OF assms(1) 2] show ?thesis by blast
  next
    case 3
    with assms(2) writes_c [OF assms(1)] show ?thesis by (simp add: c_named_def directive_named)
  next
    case 4
    with assms(2) writes_x [OF assms(1)] show ?thesis by (simp add: c_named_def directive_named)
  next
    case 5
    with assms(2) writes_p [OF assms(1)] show ?thesis by (simp add: c_named_def directive_named)
  next
    case 6
    with assms(2) writes_r [OF assms(1)] show ?thesis by (simp add: c_named_def directive_named)
  next
    case 7
    with assms(2) writes_X [OF assms(1)] show ?thesis by (simp add: c_named_def directive_named)
  qed
qed

lemma shared_tm_free:
  assumes "printable fds" and "directive e fds c = Some d" and "c_named den fds c = None" and "c \<noteq> CHR ''E''" and "c \<noteq> CHR ''O''"
  shows "tm_free d"
proof -
  have "c \<notin> set ''aAbBhcxprX''" using assms(3) unfolding c_named_def map_of_eq_None_iff by simp
  with map_of_SomeD [OF assms(2) [unfolded directive_def Let_def]] assms(4,5) show ?thesis
    by (simp only: list.set insert_iff empty_iff prod.inject)
      (elim disjE conjE; simp add: tm_free_shared [OF assms(1)])
qed

lemma c_modified_NUL: "fs_mod st = NUL \<Longrightarrow> c_modified c d st = d st"
  by (cases st) (simp add: c_modified_def c_mod_def split: option.splits)

lemma step_rel:
  assumes "c_printable (fe_facet e) fds" and "fe_den e = 1" and "fmt_rel st st'" and "c \<noteq> CHR ''E''" and "c \<noteq> CHR ''O''"
  shows "\<exists>r'. c_to_stream_step e fds c st' = Some r' \<and> result_rel (to_stream_step e fds c st) r'"
proof -
  obtain t where st': "st' = st\<lparr>fs_tm := t\<rparr>" and st: "fs_mod st = NUL" "\<not> fs_fail st" using fmt_relE [OF assms(3)] by metis
  have plain: "fmt_rel (put s st) (put s st')" "fmt_rel (st\<lparr>fs_cmd := b\<rparr>) (st'\<lparr>fs_cmd := b\<rparr>)" for s b
    using st by (auto simp: fmt_rel_def st' put_def intro!: exI [of _ t])
  show ?thesis
  proof (cases "directive e fds c")
    case None
    then have "c_directive e fds c = None"
      using named_writes [OF assms(1), of c] assms(2) by (cases "c_named 1 fds c") (auto simp: c_directive_def)
    with None st show ?thesis
      by (auto simp: to_stream_step_def c_to_stream_step_def dir_default_def Let_def st' fmt_rel_def put_def intro!: exI [of _ t])
  next
    case (Some d)
    show ?thesis
    proof (cases "fs_cmd st")
      case False
      have "c_directive e fds c \<noteq> None" using Some by (simp add: c_directive_def split: option.splits)
      with Some False plain show ?thesis by (auto simp: to_stream_step_def c_to_stream_step_def st')
    next
      case True
      show ?thesis
      proof (cases "c_named 1 fds c")
        case named: None
        have "tm_free d" using shared_tm_free [OF _ Some named assms(4,5)] assms(1) by (simp add: c_printable_def)
        from tm_free_rel [OF this assms(3)] Some True named st assms(2) show ?thesis
          by (simp add: to_stream_step_def c_to_stream_step_def c_directive_def c_modified_NUL st')
      next
        case named: (Some d')
        then obtain s where "writes d s" "c_writes d' s" using named_writes [OF assms(1)] Some by fastforce
        from writes_rel [OF this assms(3)] Some True named assms(2) show ?thesis
          by (simp add: to_stream_step_def c_to_stream_step_def c_directive_def st')
      qed
    qed
  qed
qed

lemma loop_rel:
  assumes "c_printable (fe_facet e) fds" and "fe_den e = 1" and "fmt_rel st st'" and "list_all (\<lambda>c. c \<noteq> CHR ''E'' \<and> c \<noteq> CHR ''O'') fmt"
  shows "\<exists>r'. c_to_stream_loop e fds fmt st' = Some r' \<and> result_rel (to_stream_loop e fds fmt st) r'"
  using assms(3,4)
proof (induction fmt arbitrary: st st')
  case (Cons c cs)
  obtain r' where r: "c_to_stream_step e fds c st' = Some r'" "result_rel (to_stream_step e fds c st) r'"
    using step_rel [OF assms(1,2) Cons.prems(1)] Cons.prems(2) by auto
  then show ?case
    using Cons.IH Cons.prems(2) by (cases "to_stream_step e fds c st"; cases r') auto
qed simp

lemma c_loop_facet: "c_to_stream_loop (e\<lparr>fe_facet := f\<rparr>) fds fmt st = c_to_stream_loop (e\<lparr>fe_facet := g\<rparr>) fds fmt st"
proof -
  have "c_to_stream_step (e\<lparr>fe_facet := f\<rparr>) fds c st = c_to_stream_step (e\<lparr>fe_facet := g\<rparr>) fds c st" for c st
    by (simp only: c_to_stream_step_def c_directive_facet [where f = f and g = g])
  then show ?thesis by (induction fmt arbitrary: st) (auto split: option.splits sum.splits)
qed

lemma c_to_stream_agrees:
  assumes "c_printable facet fds" and "\<not> snd os" and "list_all (\<lambda>c. c \<noteq> CHR ''E'' \<and> c \<noteq> CHR ''O'') fmt"
  shows "c_to_stream 1 abbrev offset fmt fds os =
    Some (to_stream \<lparr>fe_facet = facet, fe_point = CHR ''.'', fe_den = 1, fe_abbrev = abbrev, fe_offset = offset\<rparr> fmt fds os)"
proof -
  let ?e = "\<lparr>fe_facet = facet, fe_point = CHR ''.'', fe_den = 1, fe_abbrev = abbrev, fe_offset = offset\<rparr>"
  let ?st = "to_stream_begin 1 fds os"
  have "c_to_stream_loop (c_fmt_env 1 abbrev offset) fds fmt ?st = c_to_stream_loop ?e fds fmt ?st"
    using c_loop_facet [where e = ?e and f = "\<lambda>_ _. []" and g = facet] by (simp add: c_fmt_env_def)
  moreover have "fmt_rel ?st ?st"
    using assms(2) by (auto simp: fmt_rel_def to_stream_begin_def intro!: exI [of _ tm_zero])
  then obtain r' where "c_to_stream_loop ?e fds fmt ?st = Some r'" "result_rel (to_stream_loop ?e fds fmt ?st) r'"
    using loop_rel [of ?e fds ?st ?st fmt] assms(1,3) by auto
  ultimately show ?thesis
    by (cases "to_stream_loop ?e fds fmt ?st"; cases r')
      (auto simp: c_to_stream_def to_stream_def Let_def fmt_rel_def to_stream_end_def put_def)
qed

section \<open>Time points\<close>

lemma time_of_day_seconds:
  obtains h m sc where "fd_tod (fields_of_time 1 t) = second_tod h m sc" and "h < 24" and "m < 60" and "sc < 60"
    and "t mod 86400 = int h * 3600 + int m * 60 + int sc"
proof -
  have "fd_tod (fields_of_time 1 t) = hh_mm_ss_new seconds_period (t mod 86400)"
    using time_of_day_split(2) [of 1 t] by (simp add: fields_of_time_def fields_new_def seconds_period_def)
  then show thesis using second_tod_of [of "t mod 86400"] that by (metis pos_mod_bound pos_mod_sign zero_less_numeral)
qed

lemma printable_time:
  assumes "ymd_ok (from_days (t div 86400))"
  shows "printable (fields_of_time 1 t)" "fd_ymd (fields_of_time 1 t) = from_days (t div 86400)"
proof -
  show d: "fd_ymd (fields_of_time 1 t) = from_days (t div 86400)"
    using time_of_day_split(1) [of 1 t] by (simp add: fields_of_time_def fields_new_def)
  show "printable (fields_of_time 1 t)"
    using assms by (simp add: printable_def d) (simp add: fields_of_time_def fields_new_def weekday_new_def weekday_ok_def)
qed

lemma c_printable_time:
  fixes t :: int
  defines "x \<equiv> from_days (t div 86400)"
  assumes t: "- 719528 * 86400 \<le> t" "t < 2932897 * 86400" and "1000 \<le> year_int (ymd_year x)" and "c_strftime facet"
  shows "c_printable facet (fields_of_time 1 t)"
proof -
  have z: "- 719528 \<le> t div 86400" "t div 86400 < 2932897" using t by simp_all
  note c = year_in_centuries [OF z, folded x_def]
  note p = printable_time [OF c(3) [unfolded x_def], folded x_def]
  obtain h m sc where "fd_tod (fields_of_time 1 t) = second_tod h m sc" "h < 24" "m < 60" "sc < 60"
    using time_of_day_seconds [of t] by metis
  with p c(2) assms(4,5) show ?thesis by (auto simp: c_printable_def year_of_def)
qed

end
