(* ===== verification/Date_C_Input.thy ===== *)
theory Date_C_Input
  imports Date_C_Locale Parse_Properties
begin

text \<open>
  \<^verbatim>\<open>from_stream\<close> of the build with \<^verbatim>\<open>ONLY_C_LOCALE\<close>: the names are read with \<^verbatim>\<open>scan_keyword\<close>, and the formats of the
  locale, \<^verbatim>\<open>%c\<close>, \<^verbatim>\<open>%x\<close>, \<^verbatim>\<open>%X\<close> and \<^verbatim>\<open>%r\<close>, field by field.  The other directives are those of
  \<open>Date_From_Stream\<close>.
\<close>

section \<open>The directives\<close>

definition scan_name :: "string list \<Rightarrow> parse_state \<Rightarrow> (int \<times> parse_state) option" where
  "scan_name names st =
     (case scan_keyword True names (ps_is st) of
        Some (Inr (k, i)) \<Rightarrow> Some (int k, st\<lparr>ps_is := i\<rparr>)
      | _ \<Rightarrow> None)"

definition ps_ws :: "parse_state \<Rightarrow> parse_state" where
  "ps_ws st = st\<lparr>ps_is := is_ws (ps_is st)\<rparr>"

text \<open>Hours, minutes and seconds; the variable of the hours is \<^verbatim>\<open>H\<close> or \<^verbatim>\<open>I\<close>.\<close>

definition rd_clock ::
  "parse_env \<Rightarrow> (parse_state \<Rightarrow> int) \<Rightarrow> ((int \<Rightarrow> int) \<Rightarrow> parse_state \<Rightarrow> parse_state) \<Rightarrow> int \<Rightarrow> parse_state \<Rightarrow> parse_state"
  where
  "rd_clock e value update na st =
     (case rd e [RUnsigned 1 2, RChar (CHR '':''), RUnsigned 1 2, RChar (CHR '':''), RLong_double 1 (seconds_width e)] st of
        (vs, st1) \<Rightarrow>
          checked_set ps_s ps_s_update (pe_round e (val_dec vs 2)) not_a_second
            (checked_set ps_M ps_M_update (val_int vs 1 not_a_minute) not_a_minute
              (checked_set value update (val_int vs 0 na) na st1)))"

definition c_scan_a :: "parse_env \<Rightarrow> char \<Rightarrow> parse_state \<Rightarrow> parse_state option" where
  "c_scan_a e c st =
     map_option ps_reset
       (if ps_mod st = NUL
        then map_option (\<lambda>(i, st1). if ps_failed st1 then st1 else checked_set ps_wd ps_wd_update (i mod 7) not_a_weekday st1)
               (scan_name weekday_names st)
        else Some (rd_literal e c st))"

definition c_scan_b :: "parse_env \<Rightarrow> char \<Rightarrow> parse_state \<Rightarrow> parse_state option" where
  "c_scan_b e c st =
     map_option ps_reset
       (if ps_mod st = NUL
        then map_option (\<lambda>(i, st1). checked_set ps_m ps_m_update (if ps_failed st1 then not_a_month else i mod 12 + 1) not_a_month st1)
               (scan_name month_names st)
        else Some (rd_literal e c st))"

definition c_scan_c :: "parse_env \<Rightarrow> char \<Rightarrow> parse_state \<Rightarrow> parse_state option" where
  "c_scan_c e c st =
     map_option ps_reset
       (if ps_mod st \<noteq> CHR ''O''
        then do {
          (i, st1) \<leftarrow> scan_name weekday_names st;
          let st2 = ps_ws (checked_set ps_wd ps_wd_update (i mod 7) not_a_weekday st1);
          (k, st3) \<leftarrow> scan_name month_names st2;
          let st4 = ps_ws (checked_set ps_m ps_m_update (k mod 12 + 1) not_a_month st3);
          let st5 = ps_ws (rd_field e ps_d ps_d_update not_a_day (RSigned 1 2) st4);
          let st6 = ps_ws (rd_clock e ps_H ps_H_update not_a_hour st5);
          Some (rd_field e ps_Y ps_Y_update not_a_year (RSigned 1 4) st6)
        }
        else Some (rd_literal e c st))"

definition c_scan_x :: "parse_env \<Rightarrow> char \<Rightarrow> parse_state \<Rightarrow> parse_state option" where
  "c_scan_x e c st =
     Some (ps_reset
       (if ps_mod st \<noteq> CHR ''O''
        then (case rd e [RUnsigned 1 2, RChar (CHR ''/''), RUnsigned 1 2, RChar (CHR ''/''), RSigned 1 2] st of (vs, st1) \<Rightarrow>
                checked_set ps_d ps_d_update (val_int vs 1 not_a_day) not_a_day
                  (checked_set ps_m ps_m_update (val_int vs 0 not_a_month) not_a_month
                    (checked_set ps_y ps_y_update (val_int vs 2 not_a_2digit_year) not_a_2digit_year st1)))
        else rd_literal e c st))"

definition c_scan_X :: "parse_env \<Rightarrow> char \<Rightarrow> parse_state \<Rightarrow> parse_state option" where
  "c_scan_X e c st =
     Some (ps_reset (if ps_mod st \<noteq> CHR ''O'' then rd_clock e ps_H ps_H_update not_a_hour st else rd_literal e c st))"

definition c_scan_p :: "parse_env \<Rightarrow> char \<Rightarrow> parse_state \<Rightarrow> parse_state option" where
  "c_scan_p e c st =
     map_option ps_reset
       (if ps_mod st = NUL
        then map_option (\<lambda>(i, st1). checked_set ps_p ps_p_update i not_a_ampm st1) (scan_name ampm_names st)
        else Some (rd_literal e c st))"

definition c_scan_r :: "parse_env \<Rightarrow> char \<Rightarrow> parse_state \<Rightarrow> parse_state option" where
  "c_scan_r e c st =
     map_option ps_reset
       (if ps_mod st = NUL
        then map_option (\<lambda>(i, st1). checked_set ps_p ps_p_update i not_a_ampm st1)
               (scan_name ampm_names (ps_ws (rd_clock e ps_I ps_I_update not_a_hour_12_value st)))
        else Some (rd_literal e c st))"

section \<open>The loop\<close>

text \<open>The modifier with which a directive is literal text, as for output; \<^verbatim>\<open>%C\<close> and \<^verbatim>\<open>%y\<close> take any.\<close>

definition c_literal :: "char \<Rightarrow> char option" where
  "c_literal c =
     map_of ([(CHR ''Y'', CHR ''O''), (CHR ''C'', NUL), (CHR ''y'', NUL)] @ map (\<lambda>k. (k, CHR ''E'')) ''uwdeHMmS'') c"

definition c_scan_modified ::
  "(parse_env \<Rightarrow> char \<Rightarrow> parse_state \<Rightarrow> parse_state) \<Rightarrow> parse_env \<Rightarrow> char \<Rightarrow> parse_state \<Rightarrow> parse_state" where
  "c_scan_modified f e c st =
     (case c_literal c of None \<Rightarrow> f e c st | Some k \<Rightarrow> f e c (if ps_mod st = k then st else st\<lparr>ps_mod := NUL\<rparr>))"

definition c_scan :: "char \<Rightarrow> (parse_env \<Rightarrow> char \<Rightarrow> parse_state \<Rightarrow> parse_state option) option" where
  "c_scan c =
     (case map_of
        [(CHR ''a'', c_scan_a), (CHR ''A'', c_scan_a), (CHR ''b'', c_scan_b), (CHR ''B'', c_scan_b), (CHR ''h'', c_scan_b),
         (CHR ''c'', c_scan_c), (CHR ''x'', c_scan_x), (CHR ''X'', c_scan_X), (CHR ''p'', c_scan_p), (CHR ''r'', c_scan_r)] c of
        Some f \<Rightarrow> Some f
      | None \<Rightarrow> map_option (\<lambda>f e c st. Some (c_scan_modified f e c st)) (scan c))"

definition c_scan_step :: "parse_env \<Rightarrow> char \<Rightarrow> parse_state \<Rightarrow> parse_state option" where
  "c_scan_step e c st =
     (if ps_cmd st \<noteq> None then (case c_scan c of Some f \<Rightarrow> f e c st | None \<Rightarrow> Some (scan_default e c st))
      else Some (scan_step e c st))"

function c_from_stream_loop :: "parse_env \<Rightarrow> string \<Rightarrow> parse_state \<Rightarrow> parse_state option" where
  "c_from_stream_loop e [] st = Some st"
| "c_from_stream_loop e (c # cs) st =
     (if ps_failed st then Some st
      else if starts_width c st then c_from_stream_loop e (dropWhile is_digit cs) (take_width (c # takeWhile is_digit cs) st)
      else case c_scan_step e c st of None \<Rightarrow> None | Some st1 \<Rightarrow> c_from_stream_loop e cs st1)"
  by pat_completeness auto
termination
  by (relation "measure (\<lambda>(e, f, st). length f)") (auto simp: le_imp_less_Suc length_dropWhile_le)

declare c_from_stream_loop.simps(2) [simp del]

text \<open>No facet is called, and the decimal point is a period; \<open>rnd\<close> is the conversion of the seconds.\<close>

definition c_parse_env :: "int \<Rightarrow> (decimal \<Rightarrow> int) \<Rightarrow> parse_env" where
  "c_parse_env den rnd =
     \<lparr>pe_get = (\<lambda>f s t. ((True, False), s, t)), pe_point = CHR ''.'', pe_den = den, pe_round = rnd\<rparr>"

definition c_from_stream ::
  "int \<Rightarrow> (decimal \<Rightarrow> int) \<Rightarrow> string \<Rightarrow> fields \<Rightarrow> string option \<Rightarrow> int option \<Rightarrow> istream \<Rightarrow> parsed option" where
  "c_from_stream den rnd fmt fds abbrev offset i =
     (if \<not> is_good i then Some (set_fail i, fds, abbrev, offset)
      else map_option (\<lambda>st. from_stream_finish (c_parse_env den rnd) (from_stream_tail (c_parse_env den rnd) st) fds abbrev offset)
             (c_from_stream_loop (c_parse_env den rnd) fmt (from_stream_begin i)))"

definition c_parse_sys_time ::
  "int \<Rightarrow> (decimal \<Rightarrow> int) \<Rightarrow> ratio \<Rightarrow> string \<Rightarrow> istream \<Rightarrow> (int option \<times> istream) option" where
  "c_parse_sys_time den rnd to fmt i =
     (let p = \<lparr>rnum = 1, rden = den\<rparr>; u = rden (dfs_precision den)
      in map_option (\<lambda>(i1, fds, _, offset).
             (let i2 = (if \<not> ymd_ok (fd_ymd fds) \<or> \<not> hms_in_conventional_range p (fd_tod fds) then set_fail i1 else i1)
              in (if is_fail i2 then None
                  else Some (dur_round to (dfs_precision den)
                         (to_days (fd_ymd fds) * 86400 * u - the offset * 60 * u + hms_to_duration p (fd_tod fds))), i2)))
           (c_from_stream den rnd fmt ((fields_new den None None None)\<lparr>fd_has_tod := True\<rparr>) None (Some 0) i))"

section \<open>Reading names and numbers\<close>

text \<open>A name before a character that is no letter is read as a name that is equal to it, cases apart.\<close>

lemma scan_name_run:
  assumes "length names \<le> 100" and "k < length names" and "list_all (list_all is_letter) names" and "\<not> is_letter c"
    and "ps_is st = istream_new (names ! k @ c # r)"
  obtains j where "scan_name names st = Some (int j, st\<lparr>ps_is := istream_new (c # r)\<rparr>)" and "j < length names"
    and "upper (names ! j) = upper (names ! k)"
proof -
  let ?i = "istream_new (names ! k @ c # r)"
  obtain j i where j: "scan_keyword True names ?i = Some (Inr (j, i))" "j < length names" "upper (names ! j) = upper (names ! k)"
      "is_buf i = c # r" "\<not> is_fail i"
    using name_read_back [OF assms(1-3), of "c # r"] assms(4) by auto
  define n where "n = keyword_reach names (is_buf ?i)"
  have i: "is_buf i = drop n (is_buf ?i)" "is_eof i \<longrightarrow> n = length (is_buf ?i)"
    using j(1) scan_keyword_reach [of ?i names True] assms(1) by (auto simp: n_def Let_def)
  then have "\<not> is_eof i" using j(4) by auto
  then have "i = istream_new (c # r)" using j(4,5) by (cases i) (simp add: istream_new_def)
  with j assms(5) that show thesis by (simp add: scan_name_def)
qed

text \<open>Digits that end before the field is full.\<close>

lemma read_digits_stop:
  assumes "list_all is_digit s" and "unat count + length s \<le> unat M" and "\<not> is_digit c" and "s \<noteq> [] \<or> count \<noteq> M"
  shows "read_digits M x count (s @ c # r) =
    (foldl (\<lambda>x c. 10 * x + of_nat (digit_val c)) x s, count + of_nat (length s), False, c # r)"
  using assms(1,2,4)
proof (induction s arbitrary: x count)
  case (Cons d s)
  have n: "unat count + (unat M - unat count) = unat M" "0 < unat M - unat count" using Cons.prems(2) by simp_all
  note u = unat_Suc_below [OF n]
  show ?case
  proof (cases "count + 1 = M")
    case True
    then have "s = []" using u Cons.prems(2) by (cases s) auto
    with True Cons.prems show ?thesis by (simp add: Let_def)
  next
    case False
    with Cons.IH [of "count + 1"] Cons.prems u show ?thesis by (simp add: Let_def add.assoc)
  qed
qed (use assms(3) in simp)

lemma read_signed_short:
  assumes "n < 100" and "\<not> is_digit c"
  shows "read_signed 1 2 (istream_new (show_nat n @ c # r)) = (int n, istream_new (c # r))"
proof -
  obtain d s where s: "show_nat n = d # s" and d: "is_digit d"
    using show_nat_digits [of n] show_nat_nonempty [of n] by (cases "show_nat n") auto
  have l: "length (show_nat n) \<le> 2" using show_nat_length [of 2 n] assms(1) by simp
  have v: "foldl (\<lambda>x c. 10 * x + of_nat (digit_val c)) (0 :: u32) (show_nat n) = of_nat n"
    using digits_value [of 0 n, where 'a = 32] by (simp add: setw0_def)
  have "read_digits 2 0 0 (show_nat n @ c # r) = (of_nat n, of_nat (length (show_nat n)), False, c # r)"
    using read_digits_stop [OF show_nat_digits, of 0 n 2 c 0 r] l assms(2) v by simp
  moreover have "1 \<le> (of_nat (length (show_nat n)) :: u32)"
    using l s by (cases s) (auto simp: word_le_nat_alt)
  ultimately have "read_unsigned 1 2 (istream_new (show_nat n @ c # r)) = (of_nat n, istream_new (c # r))"
    by (auto simp: read_unsigned_def Let_def not_less)
  moreover have "d \<noteq> CHR ''-''" "d \<noteq> CHR ''+''" using d by (auto simp: is_digit_def)
  ultimately show ?thesis
    using sint_of_nat_u32 [of n] assms(1) d by (simp add: read_signed_def is_peek_def s)
qed

text \<open>Two digits of whole seconds.\<close>

lemma read_whole_seconds:
  assumes "a < 100" and "\<not> is_digit point"
  shows "read_long_double point 1 2 (istream_new (setw0 2 (show_nat a) @ r)) =
    (\<lparr>dec_i = of_nat a, dec_f = 0, dec_fcount = 0\<rparr>, istream_new r)"
proof -
  obtain c d where s: "setw0 2 (show_nat a) = [c, d]"
    using setw0_length [of 2 a] assms(1) by (auto simp: numeral_2_eq_2 length_Suc_conv)
  have "is_digit c" "is_digit d" using setw0_digits [of 2 a] by (simp_all add: s)
  moreover have "10 * of_nat (digit_val c) + of_nat (digit_val d) = (of_nat a :: 64 word)"
    using digits_value [of 2 a, where 'a = 64] by (simp add: s)
  moreover have "c \<noteq> point" "d \<noteq> point" using calculation(1,2) assms(2) by auto
  ultimately show ?thesis
    by (simp add: read_long_double_def s decimal_zero_def Let_def)
qed

section \<open>The text of \<^verbatim>\<open>%c\<close>\<close>

lemma is_ws_skip: "list_all is_space s \<Longrightarrow> \<not> is_space c \<Longrightarrow> is_ws (istream_new (s @ c # r)) = istream_new (c # r)"
proof -
  assume "list_all is_space s" "\<not> is_space c"
  then have "dropWhile is_space (s @ c # r) = c # r" by (induction s) auto
  then show ?thesis by (simp add: is_ws_def Let_def)
qed

lemma ps_ws_skip:
  "ps_is st = istream_new (s @ r) \<Longrightarrow> list_all is_space s \<Longrightarrow> r \<noteq> [] \<Longrightarrow> \<not> is_space (hd r) \<Longrightarrow>
     ps_ws st = st\<lparr>ps_is := istream_new r\<rparr>"
  by (cases r) (auto simp: ps_ws_def is_ws_skip)

lemma digit_no_space: "is_digit c \<Longrightarrow> \<not> is_space c"
  by (auto simp: is_digit_def is_space_def)

lemma hd_digits:
  "0 < w \<Longrightarrow> n < 10 ^ w \<Longrightarrow> setw0 w (show_nat n) @ r \<noteq> [] \<and> \<not> is_space (hd (setw0 w (show_nat n) @ r))"
  "show_nat n @ r \<noteq> [] \<and> \<not> is_space (hd (show_nat n @ r))"
proof -
  assume w: "0 < w" "n < 10 ^ w"
  then obtain c s where "setw0 w (show_nat n) = c # s"
    using setw0_length [of w n] by (cases "setw0 w (show_nat n)") auto
  then show "setw0 w (show_nat n) @ r \<noteq> [] \<and> \<not> is_space (hd (setw0 w (show_nat n) @ r))"
    using setw0_digits [of w n] by (simp add: digit_no_space)
next
  obtain c s where "show_nat n = c # s" using show_nat_nonempty [of n] by (cases "show_nat n") auto
  then show "show_nat n @ r \<noteq> [] \<and> \<not> is_space (hd (show_nat n @ r))"
    using show_nat_digits [of n] by (simp add: digit_no_space)
qed

lemma hd_name:
  assumes "list_all (list_all is_letter) names" and "k < length names" and "list_all (\<lambda>w. w \<noteq> []) names"
  shows "names ! k @ r \<noteq> [] \<and> \<not> is_space (hd (names ! k @ r))"
proof -
  obtain c s where w: "names ! k = c # s" using assms(2,3) by (cases "names ! k") (auto simp: list_all_length)
  have "list_all is_letter (names ! k)" using assms(1,2) by (simp add: list_all_length)
  then have "is_letter c" by (simp add: w)
  then show ?thesis by (auto simp: w is_letter_def is_space_def)
qed

lemma scan_name_weekday:
  assumes "w < 7" and "ps_is st = istream_new (weekday_names ! (w + 7) @ CHR '' '' # r)"
  shows "\<exists>i. scan_name weekday_names st = Some (i, st\<lparr>ps_is := istream_new (CHR '' '' # r)\<rparr>) \<and> i mod 7 = int w"
proof -
  have "\<not> is_letter (CHR '' '')" by (simp add: is_letter_def)
  then obtain j where j: "scan_name weekday_names st = Some (int j, st\<lparr>ps_is := istream_new (CHR '' '' # r)\<rparr>)" "j < 14"
      "upper (weekday_names ! j) = upper (weekday_names ! (w + 7))"
    using scan_name_run [OF _ _ names_letters(1) _ assms(2)] assms(1) by (auto simp: names_length)
  have "j = w + 7" using same_weekday_name [OF j(3,2)] assms(1) by simp
  then have "int j mod 7 = int w" using assms(1) by simp
  with j(1) show ?thesis by blast
qed

lemma scan_name_month:
  assumes "m < 12" and "ps_is st = istream_new (month_names ! (m + 12) @ CHR '' '' # r)"
  shows "\<exists>i. scan_name month_names st = Some (i, st\<lparr>ps_is := istream_new (CHR '' '' # r)\<rparr>) \<and> i mod 12 = int m"
proof -
  have "\<not> is_letter (CHR '' '')" by (simp add: is_letter_def)
  then obtain j where j: "scan_name month_names st = Some (int j, st\<lparr>ps_is := istream_new (CHR '' '' # r)\<rparr>)" "j < 24"
      "upper (month_names ! j) = upper (month_names ! (m + 12))"
    using scan_name_run [OF _ _ names_letters(2) _ assms(2)] assms(1) by (auto simp: names_length)
  have "j mod 12 = m" using same_month_name [OF j(3,2)] assms(1) by simp
  then have "int j mod 12 = int m" by (metis of_nat_mod of_nat_numeral)
  with j(1) show ?thesis by blast
qed

lemma rd_clock_run:
  assumes "ps_H st = not_a_hour" and "ps_M st = not_a_minute" and "ps_s st = not_a_second" and "pe_den e = 1"
    and "\<not> is_digit (pe_point e)" and "h < 100" and "m < 100" and "a < 100"
    and "ps_is st = istream_new (setw0 2 (show_nat h) @ CHR '':'' # setw0 2 (show_nat m) @ CHR '':'' # setw0 2 (show_nat a) @ r)"
  shows "rd_clock e ps_H ps_H_update not_a_hour st =
    st\<lparr>ps_H := int h, ps_M := int m, ps_s := pe_round e \<lparr>dec_i = of_nat a, dec_f = 0, dec_fcount = 0\<rparr>, ps_is := istream_new r\<rparr>"
  using assms
  by (cases st) (simp add: rd_clock_def seconds_width_def read_fields read_whole_seconds scan_simps)

text \<open>What \<^verbatim>\<open>%c\<close> writes for a date and a time of day, and that it is read back.\<close>

definition c_text :: "nat \<Rightarrow> nat \<Rightarrow> nat \<Rightarrow> nat \<Rightarrow> nat \<Rightarrow> nat \<Rightarrow> nat \<Rightarrow> string" where
  "c_text w m d h mi sc y =
     weekday_names ! (w + 7) @ '' '' @ month_names ! (m + 12) @ '' '' @ (if d < 10 then '' '' else []) @ show_nat d @ '' '' @
     setw0 2 (show_nat h) @ '':'' @ setw0 2 (show_nat mi) @ '':'' @ setw0 2 (show_nat sc) @ '' '' @ setw0 4 (show_nat y)"

lemma names_nonempty: "list_all (\<lambda>w. w \<noteq> []) month_names"
  by code_simp

lemma c_scan_c_run:
  assumes st: "ps_mod st = NUL" "ps_wd st = not_a_weekday" "ps_m st = not_a_month" "ps_d st = not_a_day" "ps_H st = not_a_hour"
      "ps_M st = not_a_minute" "ps_s st = not_a_second" "ps_Y st = not_a_year"
    and r: "w < 7" "m < 12" "d < 32" "h < 100" "mi < 100" "sc < 100" "y < 10000"
    and e: "pe_den e = 1" "\<not> is_digit (pe_point e)"
    and i: "ps_is st = istream_new (c_text w m d h mi sc y)"
  shows "c_scan_c e c st = Some (ps_reset
    (st\<lparr>ps_wd := int w, ps_m := int m + 1, ps_d := int d, ps_H := int h, ps_M := int mi,
       ps_s := pe_round e \<lparr>dec_i = of_nat sc, dec_f = 0, dec_fcount = 0\<rparr>, ps_Y := int y, ps_is := istream_new []\<rparr>))"
proof -
  define r5 where "r5 = setw0 4 (show_nat y)"
  define r4 where "r4 = setw0 2 (show_nat h) @ CHR '':'' # setw0 2 (show_nat mi) @ CHR '':'' # setw0 2 (show_nat sc) @ CHR '' '' # r5"
  define r3 where "r3 = show_nat d @ CHR '' '' # r4"
  define pad where "pad = (CHR '' '' # (if d < 10 then '' '' else []) :: string)"
  define r2 where "r2 = month_names ! (m + 12) @ pad @ r3"
  have i': "ps_is st = istream_new (weekday_names ! (w + 7) @ CHR '' '' # r2)"
    by (simp add: i c_text_def r2_def r3_def r4_def r5_def pad_def)
  obtain a where a: "scan_name weekday_names st = Some (a, st\<lparr>ps_is := istream_new (CHR '' '' # r2)\<rparr>)" "a mod 7 = int w"
    using scan_name_weekday [OF r(1) i'] by blast
  have sp: "is_space (CHR '' '')" "list_all is_space pad" by (simp_all add: is_space_def pad_def)
  have h2: "r2 \<noteq> []" "\<not> is_space (hd r2)"
    using hd_name [OF names_letters(2) _ names_nonempty, of "m + 12" "pad @ r3"] r(2) by (simp_all add: r2_def names_length)
  have h3: "r3 \<noteq> []" "\<not> is_space (hd r3)" using hd_digits(2) [of d "CHR '' '' # r4"] by (simp_all add: r3_def)
  have h4: "r4 \<noteq> []" "\<not> is_space (hd r4)"
    using hd_digits(1) [of 2 h "CHR '':'' # setw0 2 (show_nat mi) @ CHR '':'' # setw0 2 (show_nat sc) @ CHR '' '' # r5"] r(4)
    by (simp_all add: r4_def)
  have h5: "r5 \<noteq> []" "\<not> is_space (hd r5)" using hd_digits(1) [of 4 y "[]"] r(7) by (simp_all add: r5_def)
  define s2 where "s2 = st\<lparr>ps_wd := int w, ps_is := istream_new r2\<rparr>"
  define s4 where "s4 = st\<lparr>ps_wd := int w, ps_m := int m + 1, ps_is := istream_new r3\<rparr>"
  define s5 where "s5 = st\<lparr>ps_wd := int w, ps_m := int m + 1, ps_d := int d, ps_is := istream_new r4\<rparr>"
  define s6 where "s6 = st\<lparr>ps_wd := int w, ps_m := int m + 1, ps_d := int d, ps_H := int h, ps_M := int mi,
      ps_s := pe_round e \<lparr>dec_i = of_nat sc, dec_f = 0, dec_fcount = 0\<rparr>, ps_is := istream_new r5\<rparr>"
  have 2: "ps_ws (checked_set ps_wd ps_wd_update (a mod 7) not_a_weekday (st\<lparr>ps_is := istream_new (CHR '' '' # r2)\<rparr>)) = s2"
    using ps_ws_skip [of "st\<lparr>ps_is := istream_new (CHR '' '' # r2), ps_wd := int w\<rparr>" "'' ''" r2] h2 sp(1) st(2)
    by (simp add: checked_set_def ps_failed_def a(2) s2_def)
  obtain k where k: "scan_name month_names s2 = Some (k, s2\<lparr>ps_is := istream_new (pad @ r3)\<rparr>)" "k mod 12 = int m"
    using scan_name_month [OF r(2), of s2] by (auto simp: s2_def r2_def pad_def)
  have 4: "ps_ws (checked_set ps_m ps_m_update (k mod 12 + 1) not_a_month (s2\<lparr>ps_is := istream_new (pad @ r3)\<rparr>)) = s4"
    using ps_ws_skip [of "st\<lparr>ps_wd := int w, ps_is := istream_new (pad @ r3), ps_m := int m + 1\<rparr>" pad r3] h3 sp(2) st(3)
    by (simp add: checked_set_def ps_failed_def k(2) s2_def s4_def)
  have "\<not> is_digit (CHR '' '')" by (simp add: is_digit_def)
  then have "rd_field e ps_d ps_d_update not_a_day (RSigned 1 2) s4 = s5\<lparr>ps_is := istream_new (CHR '' '' # r4)\<rparr>"
    using read_signed_short [of d "CHR '' ''" r4] r(3) st(4)
    by (simp add: rd_field_def rd_def s4_def s5_def r3_def checked_set_def ps_failed_def val_int_def)
  then have 5: "ps_ws (rd_field e ps_d ps_d_update not_a_day (RSigned 1 2) s4) = s5"
    using ps_ws_skip [of "s5\<lparr>ps_is := istream_new (CHR '' '' # r4)\<rparr>" "'' ''" r4] h4 sp(1) by (simp add: s5_def)
  have "rd_clock e ps_H ps_H_update not_a_hour s5 = s6\<lparr>ps_is := istream_new (CHR '' '' # r5)\<rparr>"
    using rd_clock_run [of s5 e h mi sc "CHR '' '' # r5"] st(5-7) e r(4-6) by (simp add: s5_def s6_def r4_def)
  then have 6: "ps_ws (rd_clock e ps_H ps_H_update not_a_hour s5) = s6"
    using ps_ws_skip [of "s6\<lparr>ps_is := istream_new (CHR '' '' # r5)\<rparr>" "'' ''" r5] h5 sp(1) by (simp add: s6_def)
  have 7: "rd_field e ps_Y ps_Y_update not_a_year (RSigned 1 4) s6 = st\<lparr>ps_wd := int w, ps_m := int m + 1, ps_d := int d,
      ps_H := int h, ps_M := int mi, ps_s := pe_round e \<lparr>dec_i = of_nat sc, dec_f = 0, dec_fcount = 0\<rparr>, ps_Y := int y,
      ps_is := istream_new []\<rparr>"
    using read_fields(3) [of y 1 "[]"] r(7) st(8)
    by (simp add: rd_field_def rd_def s6_def r5_def checked_set_def ps_failed_def val_int_def)
  show ?thesis
    using st(1) by (simp add: c_scan_c_def NUL_def a(1) 2 k(1) 4 5 6 7 Let_def)
qed

section \<open>Every call returns\<close>

lemma scan_keyword_total:
  assumes "length kys \<le> 100"
  shows "\<exists>k i'. scan_keyword mem kys i = Some (Inr (k, i'))"
proof (cases "is_good i")
  case True
  with scan_keyword_reach [of i kys mem] assms show ?thesis by auto
next
  case False
  then have "sk_loop kys 0 i sts a b \<noteq> None" for sts a b
    by (subst sk_loop.simps) (simp add: is_peek_def)
  then have "\<exists>i' sts'. sk_loop kys 0 i sts a b = Some (i', sts')" for sts a b by auto
  moreover obtain sts a b where "sk_init kys (int (length kys), 0) = (sts, a, b)" by (metis prod_cases3)
  ultimately show ?thesis using assms by (auto simp: scan_keyword_def Let_def)
qed

lemma scan_name_total: "length names \<le> 100 \<Longrightarrow> \<exists>k st'. scan_name names st = Some (k, st')"
  using scan_keyword_total [of names True "ps_is st"] by (auto simp: scan_name_def)

lemma names_total:
  "\<exists>k st'. scan_name weekday_names st = Some (k, st')" "\<exists>k st'. scan_name month_names st = Some (k, st')"
  "\<exists>k st'. scan_name ampm_names st = Some (k, st')"
  by (simp_all add: scan_name_total names_length ampm_names_def)

lemma c_scan_c_total: "c_scan_c e c st \<noteq> None"
proof (cases "ps_mod st = CHR ''O''")
  case False
  obtain k st1 where 1: "scan_name weekday_names st = Some (k, st1)" using names_total(1) by blast
  obtain k' st3 where "scan_name month_names (ps_ws (checked_set ps_wd ps_wd_update (k mod 7) not_a_weekday st1)) = Some (k', st3)"
    using names_total(2) by blast
  with 1 False show ?thesis by (simp add: c_scan_c_def Let_def)
qed (simp add: c_scan_c_def)

lemma c_scan_named_total:
  "c_scan_a e c st \<noteq> None" "c_scan_b e c st \<noteq> None" "c_scan_p e c st \<noteq> None" "c_scan_r e c st \<noteq> None"
  "c_scan_x e c st \<noteq> None" "c_scan_X e c st \<noteq> None"
  using names_total(1) [of st] names_total(2) [of st] names_total(3) [of st]
    names_total(3) [of "ps_ws (rd_clock e ps_I ps_I_update not_a_hour_12_value st)"]
  by (auto simp: c_scan_a_def c_scan_b_def c_scan_p_def c_scan_r_def c_scan_x_def c_scan_X_def)

lemma c_scan_total:
  assumes "c_scan c = Some f"
  shows "f e c st \<noteq> None"
proof -
  have "f \<in> {c_scan_a, c_scan_b, c_scan_c, c_scan_x, c_scan_X, c_scan_p, c_scan_r} \<or> (\<exists>g. f = (\<lambda>e c st. Some (c_scan_modified g e c st)))"
  proof (cases "map_of [(CHR ''a'', c_scan_a), (CHR ''A'', c_scan_a), (CHR ''b'', c_scan_b), (CHR ''B'', c_scan_b), (CHR ''h'', c_scan_b),
         (CHR ''c'', c_scan_c), (CHR ''x'', c_scan_x), (CHR ''X'', c_scan_X), (CHR ''p'', c_scan_p), (CHR ''r'', c_scan_r)] c")
    case None
    with assms show ?thesis by (auto simp: c_scan_def)
  next
    case (Some g)
    with assms have "f = g" by (simp add: c_scan_def)
    with map_of_SomeD [OF Some] show ?thesis by auto
  qed
  then show ?thesis using c_scan_named_total c_scan_c_total by auto
qed

lemma c_from_stream_loop_total: "c_from_stream_loop e fmt st \<noteq> None"
proof (induction e fmt st rule: c_from_stream_loop.induct)
  case (2 e c cs st)
  have "c_scan_step e c st \<noteq> None" using c_scan_total by (simp add: c_scan_step_def split: option.splits)
  then show ?case using 2 by (auto simp: c_from_stream_loop.simps split: option.splits)
qed simp

end
