(* ===== verification/C_Locale_Properties.thy ===== *)
theory C_Locale_Properties
  imports Date_C_Output Date_C_Input
begin

text \<open>
  The properties of the build with \<^verbatim>\<open>ONLY_C_LOCALE\<close>: it agrees with the other build in the C locale, what it
  writes for \<^verbatim>\<open>%c\<close> it reads back, and on invalid fields it reads outside its arrays of names.
\<close>

section \<open>The two builds\<close>


text \<open>A facet of the C locale.\<close>

definition iso_c_strftime :: time_facet where
  "iso_c_strftime f t =
     (let a = weekday_names ! nat (tm_wday t + 7); b = month_names ! nat (tm_mon t + 12);
          p = (if tm_hour t < 12 then ''AM'' else ''PM'')
      in if f = ''%a'' then a
         else if f = ''%A'' then weekday_names ! nat (tm_wday t)
         else if f = ''%b'' \<or> f = ''%h'' then b
         else if f = ''%B'' then month_names ! nat (tm_mon t)
         else if f = ''%p'' then p
         else if f = ''%X'' then tm_clock t
         else if f = ''%r'' then setw0 2 (show_int (if tm_hour t mod 12 = 0 then 12 else tm_hour t mod 12)) @ '':'' @
           setw0 2 (show_int (tm_min t)) @ '':'' @ setw0 2 (show_int (tm_sec t)) @ '' '' @ p
         else if f = ''%x'' then setw0 2 (show_int (tm_mon t + 1)) @ ''/'' @ setw0 2 (show_int (tm_mday t)) @ ''/'' @
           setw0 2 (show_int ((tm_year t + 1900) mod 100))
         else if f = ''%c'' then a @ '' '' @ b @ '' '' @ setw (CHR '' '') 2 (show_int (tm_mday t)) @ '' '' @ tm_clock t @ '' '' @
           show_int (tm_year t + 1900)
         else [])"



section \<open>Reading back\<close>








section \<open>Fields that are not set\<close>

lemma c_step_percent: "\<not> fs_cmd st \<Longrightarrow> c_to_stream_step e fds (CHR ''%'') st = Some (Inr (st\<lparr>fs_cmd := True\<rparr>))"
  by (simp add: c_to_stream_step_def c_directive_def c_named_def directive_def Let_def)

lemma c_step_named: "fs_cmd st \<Longrightarrow> c_named (fe_den e) fds c = Some d \<Longrightarrow> c_to_stream_step e fds c st = d st"
  by (simp add: c_to_stream_step_def c_directive_def)

lemma step_percent_run: "\<not> fs_cmd st \<Longrightarrow> to_stream_step e fds (CHR ''%'') st = Inr (st\<lparr>fs_cmd := True\<rparr>)"
  by (simp add: to_stream_step_def directive_def Let_def)

text \<open>Property C37: writing a date whose month is not one with \<^verbatim>\<open>%c\<close> or \<^verbatim>\<open>%B\<close> sets the failure bit, and nothing worse, in the build that
  uses a facet.  The build with \<^verbatim>\<open>ONLY_C_LOCALE\<close> does not stop at the failure: for \<^verbatim>\<open>%c\<close> it takes the number 8 that \<^verbatim>\<open>extract_weekday\<close>
  returns and reads element 15 of the 14 names of weekdays, for \<^verbatim>\<open>%B\<close> it reads the element before the first name of a month.\<close>

theorem c_names_out_of_bounds:
  assumes "\<not> month_ok (ymd_month (fd_ymd fds))" and "\<not> weekday_ok (fd_wd fds)"
  shows "c_to_stream den abbrev offset ''%c'' fds os = None \<and> c_to_stream den abbrev offset ''%B'' fds os = None \<and>
    snd (to_stream e ''%c'' fds os) \<and> snd (to_stream e ''%B'' fds os)"
proof -
  have y: "\<not> ymd_ok (fd_ymd fds)" using assms(1) by (simp add: ymd_ok_iff)
  have b: "\<not> fs_cmd (to_stream_begin k fds os)" "fs_mod (to_stream_begin k fds os) = NUL" for k
    by (simp_all add: to_stream_begin_def)
  have n: "name_at weekday_names (uint (of_int 8 + 7 :: u32)) = None" "name_at month_names (- 1) = None"
    by (simp_all add: name_at_def names_length)
  have w: "extract_weekday fds st = (8, fail_if True st)" "extract_month fds st = (0, fail_if True st)" for st
    using y assms by (simp_all add: extract_weekday_def extract_month_def)
  have cp: "c_put_c k fds st = None" for k st by (simp add: c_put_c_def w n(1) [simplified])
  have e: "fe_den (c_fmt_env den abbrev offset) = den" by (simp add: c_fmt_env_def)
  have "c_to_stream den abbrev offset ''%c'' fds os = None" "c_to_stream den abbrev offset ''%B'' fds os = None"
    using b n(2) by (simp_all add: c_to_stream_def c_step_percent c_step_named c_named_def e c_dir_c_def c_dir_b_def w NUL_def Let_def cp)
  moreover have "snd (to_stream e ''%c'' fds os)"
    using b by (simp add: to_stream_def step_percent_run step_command directive_named dir_c_def w NUL_def Let_def)
  moreover have "snd (to_stream e ''%B'' fds os)"
    using b by (simp add: to_stream_def step_percent_run step_command directive_named dir_b_def w NUL_def Let_def to_stream_end_def)
  ultimately show ?thesis by blast
qed

theorem c_names_out_of_bounds_witness:
  "c_to_stream 1 None None ''%c'' (fields_of_year (year_new 2024)) ([], False) = None \<and>
   c_to_stream 1 None None ''%B'' (fields_of_year (year_new 2024)) ([], False) = None \<and>
   snd (to_stream (plain_env iso_c_strftime (CHR ''.'') 1) ''%c'' (fields_of_year (year_new 2024)) ([], False)) \<and>
   snd (to_stream (plain_env iso_c_strftime (CHR ''.'') 1) ''%B'' (fields_of_year (year_new 2024)) ([], False))"
  by (rule c_names_out_of_bounds) code_simp+

end
