(* ===== verification/Connection_Iface.thy ===== *)
theory Connection_Iface
  imports R_Connection Transfer_Iface
begin

text \<open>
  The abstract classes through which the controller and the context use the parts of a connection:
  \<^verbatim>\<open>ConnectionEstablisher\<close>, \<^verbatim>\<open>ConnectionFactory\<close>, \<^verbatim>\<open>AsyncExecutorSessionInfo\<close> and \<^verbatim>\<open>RConnection\<close>, each a record of
  its virtual operations with the tables of the classes that implement it.  The locales say what the users
  rely on: an establisher connects or shuts what it opened, a factory makes objects that are told apart and
  start with an empty buffer, a released connection is inert.
\<close>

section \<open>Establishers\<close>

record 'w ConnectionEstablisher =
  ce_connect :: "string \<Rightarrow> u16 \<Rightarrow> 'w \<Rightarrow> ((exa_exception + ConnectionInfo) \<times> 'w) option"

definition HttpConnectionEstablisher_vtable :: "'w env \<Rightarrow> 'w ConnectionEstablisher" where
  "HttpConnectionEstablisher_vtable env = \<lparr>ce_connect = HttpConnectionEstablisher_connect env\<rparr>"

text \<open>The class over https keeps a reference to the certificate it was constructed with.\<close>

definition HttpsConnectionEstablisher_vtable :: "'w env \<Rightarrow> certificate \<Rightarrow> 'w ConnectionEstablisher" where
  "HttpsConnectionEstablisher_vtable env mCertificate = \<lparr>ce_connect = HttpsConnectionEstablisher_connect env mCertificate\<rparr>"

fun establisher_vtable :: "'w env \<Rightarrow> establisher \<Rightarrow> 'w ConnectionEstablisher" where
  "establisher_vtable env HttpEstablisher = HttpConnectionEstablisher_vtable env"
| "establisher_vtable env (HttpsEstablisher c) = HttpsConnectionEstablisher_vtable env c"

lemma establisher_connect_virtual: "establisher_connect env e = ce_connect (establisher_vtable env e)"
  by (cases e) (simp_all add: HttpConnectionEstablisher_vtable_def HttpsConnectionEstablisher_vtable_def)

locale connection_establisher =
  fixes env :: "'w env" and est :: "'w ConnectionEstablisher"
  assumes connect_fails: "ce_connect est host port w = Some (Inl e, w') \<Longrightarrow>
      w' = w \<and> (\<exists>m. e = ConnectionException m) \<or> shut_before_exit env w e w'"
    and connect_succeeds: "ce_connect est host port w = Some (Inr ci, w') \<Longrightarrow>
      ci_socket ci \<noteq> None \<and> proxyPort ci \<noteq> None"
begin

text \<open>The only exception is the one the controller catches.\<close>

lemma connect_caught: "ce_connect est host port w = Some (Inl e, w') \<Longrightarrow> \<exists>m. e = ConnectionException m"
  using connect_fails [of host port w e w'] unfolding shut_before_exit_def by blast

text \<open>Either there is a socket with a known port, or no descriptor is left open.\<close>

lemma connect_all_or_nothing:
  assumes "ce_connect est host port w = Some (r, w')"
  shows "(\<exists>ci sk p. r = Inr ci \<and> ci_socket ci = Some sk \<and> proxyPort ci = Some p) \<or>
    (\<exists>m. r = Inl (ConnectionException m) \<and>
      (w' = w \<or> fst (posix_socket (env_posix env) w) < 0 \<or>
       (\<exists>w1. w' = posix_shutdown (env_posix env) (fst (posix_socket (env_posix env) w)) SHUT_RDWR w1)))"
proof (cases r)
  case (Inl e)
  with assms show ?thesis
    using connect_fails [of host port w e w'] by (auto simp: shut_before_exit_def Let_def)
next
  case (Inr ci)
  with assms show ?thesis using connect_succeeds [of host port w ci w'] by auto
qed

end

interpretation http_est: connection_establisher env "HttpConnectionEstablisher_vtable env"
  by unfold_locales (auto simp: HttpConnectionEstablisher_vtable_def dest: http_connect_failure http_connect_success)

interpretation https_est: connection_establisher env "HttpsConnectionEstablisher_vtable env cert"
proof unfold_locales
  fix host port w e w'
  assume "ce_connect (HttpsConnectionEstablisher_vtable env cert) host port w = Some (Inl e, w')"
  then show "w' = w \<and> (\<exists>m. e = ConnectionException m) \<or> shut_before_exit env w e w'"
    using https_connect_failure [of env cert host port w e w']
    by (cases "Certificate_isValid cert") (auto simp: HttpsConnectionEstablisher_vtable_def)
qed (auto simp: HttpsConnectionEstablisher_vtable_def dest: https_connect_success)

section \<open>The factory\<close>

record 'w ConnectionFactory =
  cf_createHttpReader :: "'w sys \<Rightarrow> nat \<times> 'w sys"
  cf_createHttpWriter :: "'w sys \<Rightarrow> nat \<times> 'w sys"
  cf_createConnectionEstablisher :: "ProtocolType \<Rightarrow> 'w sys \<Rightarrow> establisher option outcome \<times> 'w sys"

definition ConnectionFactoryImpl_vtable :: "'w env \<Rightarrow> 'w error_fn \<Rightarrow> 'w ConnectionFactory" where
  "ConnectionFactoryImpl_vtable env mErrorHandler =
     \<lparr>cf_createHttpReader = createHttpReader, cf_createHttpWriter = createHttpWriter,
      cf_createConnectionEstablisher = createConnectionEstablisher env mErrorHandler\<rparr>"

text \<open>A history of transfers: \<open>True\<close> for a reader, \<open>False\<close> for a writer.\<close>

fun create_all :: "'w ConnectionFactory \<Rightarrow> bool list \<Rightarrow> 'w sys \<Rightarrow> nat list \<times> 'w sys" where
  "create_all cf [] g = ([], g)"
| "create_all cf (rd # rds) g =
     (case (if rd then cf_createHttpReader cf g else cf_createHttpWriter cf g) of (i, g1) \<Rightarrow>
        (case create_all cf rds g1 of (is, g2) \<Rightarrow> (i # is, g2)))"

locale connection_factory =
  fixes cf :: "'w ConnectionFactory"
  assumes reader_fresh: "cf_createHttpReader cf g = (i, g') \<Longrightarrow> sys_fresh g \<le> i \<and> i < sys_fresh g'"
    and writer_fresh: "cf_createHttpWriter cf g = (i, g') \<Longrightarrow> sys_fresh g \<le> i \<and> i < sys_fresh g'"
    and reader_clean: "cf_createHttpReader cf g = (i, g') \<Longrightarrow> pending (sys_chunk g') = [] \<and> chunk_len (sys_chunk g') = 0"
    and writer_clean: "cf_createHttpWriter cf g = (i, g') \<Longrightarrow> pending (sys_chunk g') = [] \<and> chunk_len (sys_chunk g') = 0"
begin

text \<open>However many readers and writers are made, no two have the same identity, so that a weak pointer to one
  never finds another.\<close>

lemma create_all_fresh:
  assumes "create_all cf rds g = (is, g')"
  shows "distinct is \<and> length is = length rds \<and> (\<forall>i \<in> set is. sys_fresh g \<le> i \<and> i < sys_fresh g') \<and> sys_fresh g \<le> sys_fresh g'"
  using assms
proof (induction rds arbitrary: g "is" g')
  case (Cons rd rds)
  obtain i g1 where c: "(if rd then cf_createHttpReader cf g else cf_createHttpWriter cf g) = (i, g1)" by fastforce
  then have i: "sys_fresh g \<le> i" "i < sys_fresh g1" using reader_fresh writer_fresh by (metis (full_types))+
  obtain js g2 where r: "create_all cf rds g1 = (js, g2)" by fastforce
  with Cons.prems c have e: "is = i # js" "g' = g2" by auto
  note h = Cons.IH [OF r]
  have "i \<notin> set js" using h i by (meson leD)
  moreover have "sys_fresh g \<le> sys_fresh g1" "sys_fresh g1 \<le> sys_fresh g2" using h i by simp_all
  moreover have "\<forall>j \<in> set js. sys_fresh g \<le> j \<and> j < sys_fresh g2" using h i by fastforce
  ultimately show ?case using h i unfolding e by simp
qed simp

text \<open>The buffer, which all transfers share, holds nothing of the transfer before.\<close>

lemma create_all_clean:
  assumes "create_all cf rds g = (is, g')" and "rds \<noteq> []"
  shows "pending (sys_chunk g') = [] \<and> chunk_len (sys_chunk g') = 0"
  using assms
proof (induction rds arbitrary: g "is" g')
  case (Cons rd rds)
  obtain i g1 where c: "(if rd then cf_createHttpReader cf g else cf_createHttpWriter cf g) = (i, g1)" by fastforce
  then have "pending (sys_chunk g1) = [] \<and> chunk_len (sys_chunk g1) = 0"
    using reader_clean writer_clean by (metis (full_types))
  moreover obtain js g2 where r: "create_all cf rds g1 = (js, g2)" by fastforce
  moreover have "g' = g2" using Cons.prems(1) c r by simp
  ultimately show ?case using Cons.IH [OF r] by (cases "rds = []") simp_all
qed simp

end

interpretation factory: connection_factory "ConnectionFactoryImpl_vtable env eh"
  by unfold_locales (auto simp: ConnectionFactoryImpl_vtable_def createHttpReader_def createHttpWriter_def
      HttpChunkReader_new_def HttpChunkWriter_new_def Chunk_reset_def pending_def)

section \<open>Sessions and R connections\<close>

record AsyncExecutorSessionInfo =
  si_createAsyncExecutor :: async_executor

definition OdbcSessionInfoImpl_vtable :: "odbc_session \<Rightarrow> AsyncExecutorSessionInfo" where
  "OdbcSessionInfoImpl_vtable si = \<lparr>si_createAsyncExecutor = AsyncExecutorImpl_new si\<rparr>"

record 'o RConnection_class =
  rx_release :: "'o \<Rightarrow> (nat \<Rightarrow> Rconn option) \<Rightarrow> (nat \<Rightarrow> Rconn option) option"

definition RReaderConnection_vtable :: "RConnection RConnection_class" where
  "RReaderConnection_vtable = \<lparr>rx_release = RConnection_release\<rparr>"

definition RWriterConnection_vtable :: "RConnection RConnection_class" where
  "RWriterConnection_vtable = \<lparr>rx_release = RConnection_release\<rparr>"

text \<open>Releasing a connection that was created always succeeds, clears its hook and touches no other connection.\<close>

locale r_connection =
  fixes cls :: "RConnection RConnection_class"
    and create :: "nat \<Rightarrow> RConnection \<Rightarrow> (nat \<Rightarrow> Rconn option) \<Rightarrow> (RConnection \<times> (nat \<Rightarrow> Rconn option)) option"
  assumes create_hooks: "\<exists>rc. create con ro rcs = Some (ro\<lparr>ro_mConn := Some con\<rparr>, rcs(con \<mapsto> rc)) \<and> rc_priv rc = Some (ro_id ro)"
    and release_clears: "ro_mConn ro = Some con \<Longrightarrow> rcs con = Some rc \<Longrightarrow>
      rx_release cls ro rcs = Some (rcs(con \<mapsto> rc\<lparr>rc_priv := None\<rparr>))"
begin

lemma create_then_release:
  "\<exists>ro1 rcs1 rcs2 rc. create con ro rcs = Some (ro1, rcs1) \<and> rx_release cls ro1 rcs1 = Some rcs2 \<and>
    rcs2 con = Some rc \<and> rc_priv rc = None \<and> (\<forall>c. c \<noteq> con \<longrightarrow> rcs2 c = rcs c)"
proof -
  obtain rc where "create con ro rcs = Some (ro\<lparr>ro_mConn := Some con\<rparr>, rcs(con \<mapsto> rc))"
    using create_hooks by blast
  then show ?thesis
    using release_clears [of "ro\<lparr>ro_mConn := Some con\<rparr>" con "rcs(con \<mapsto> rc)" rc] by auto
qed

end

interpretation r_reader: r_connection RReaderConnection_vtable RReaderConnection_create
  by unfold_locales (auto simp: RReaderConnection_vtable_def RReaderConnection_create_def RConnection_release_def
      storeConnectionHook_def)

interpretation r_writer: r_connection RWriterConnection_vtable RWriterConnection_create
  by unfold_locales (auto simp: RWriterConnection_vtable_def RWriterConnection_create_def
      RConnection_release_def storeConnectionHook_def)

end
