(* ===== verification/Date_Convert.thy ===== *)
theory Date_Convert
  imports Date_Assign Date_Literal Date_Print
begin

text \<open>
  The small change of \<^verbatim>\<open>debug_print/date.h\<close>: the literals \<^verbatim>\<open>_d\<close> and \<^verbatim>\<open>_y\<close> and the names of months and weekdays,
  the conversions between the calendar types and the two kinds of day counts, \<^verbatim>\<open>sys_days\<close> and \<^verbatim>\<open>local_days\<close>,
  their texts, \<^verbatim>\<open>format\<close> with a \<^verbatim>\<open>basic_string\<close>, and the units of durations as compilers before C++14 put
  them together.  The locale \<open>day_type\<close> says what a type must do to stand for a day; it is interpreted for
  \<^verbatim>\<open>year_month_day\<close> and \<^verbatim>\<open>year_month_weekday\<close>.
\<close>

section \<open>Literals\<close>

definition day_literal :: "64 word \<Rightarrow> day" where
  "day_literal d = day_new (ucast d)"

definition year_literal :: "64 word \<Rightarrow> year" where
  "year_literal y = year_new (sint (ucast y :: u32))"

definition month_names_short :: "(string \<times> month) list" where
  "month_names_short =
     [(''jan'', month_new 1), (''feb'', month_new 2), (''mar'', month_new 3), (''apr'', month_new 4), (''may'', month_new 5),
      (''jun'', month_new 6), (''jul'', month_new 7), (''aug'', month_new 8), (''sep'', month_new 9), (''oct'', month_new 10),
      (''nov'', month_new 11), (''dec'', month_new 12)]"

definition weekday_names_short :: "(string \<times> weekday) list" where
  "weekday_names_short =
     [(''sun'', weekday_new 0), (''mon'', weekday_new 1), (''tue'', weekday_new 2), (''wed'', weekday_new 3),
      (''thu'', weekday_new 4), (''fri'', weekday_new 5), (''sat'', weekday_new 6)]"

text \<open>The literals keep a number modulo the width of the member it is put in.\<close>

lemma day_literal_uint: "uint (day_d (day_literal d)) = uint d mod 256"
proof -
  have "uint (ucast w :: byte) = uint w mod 256" for w :: u32 by (simp add: unsigned_ucast_eq take_bit_eq_mod)
  moreover have "uint (ucast d :: u32) = uint d mod 4294967296" by (simp add: unsigned_ucast_eq take_bit_eq_mod)
  moreover have "uint d mod 4294967296 mod 256 = uint d mod 256" by (rule mod_mod_cancel) simp
  ultimately show ?thesis by (simp only: day_literal_def day_new_def day.sel)
qed

text \<open>The constants of the literals are those with the long names, in the order of the calendar.\<close>

lemma month_names_short_ok:
  "map (uint \<circ> month_m \<circ> snd) month_names_short = [1..12]" "list_all (month_ok \<circ> snd) month_names_short"
  "map_of month_names_short ''jan'' = Some January" "map_of month_names_short ''feb'' = Some February"
  by code_simp+

lemma weekday_names_short_ok:
  "map (uint \<circ> weekday_wd \<circ> snd) weekday_names_short = [0..6]" "list_all (weekday_ok \<circ> snd) weekday_names_short"
  "map_of weekday_names_short ''sun'' = Some Sunday" "map_of weekday_names_short ''thu'' = Some Thursday"
  by code_simp+

section \<open>Day counts\<close>

text \<open>A \<^verbatim>\<open>sys_days\<close> is a time point of the system clock, a \<^verbatim>\<open>local_days\<close> one of the pseudo-clock \<^verbatim>\<open>local_t\<close>; no
  conversion leads from one to the other but through a calendar type.\<close>

datatype sys_days = Sys_days (sys_since_epoch: days)
datatype local_days = Local_days (local_since_epoch: days)

definition ymd_of_sys_days :: "sys_days \<Rightarrow> year_month_day" where
  "ymd_of_sys_days dp = from_days (sys_since_epoch dp)"

definition ymd_of_local_days :: "local_days \<Rightarrow> year_month_day" where
  "ymd_of_local_days dp = from_days (local_since_epoch dp)"

definition ymd_sys_days :: "year_month_day \<Rightarrow> sys_days" where
  "ymd_sys_days x = Sys_days (to_days x)"

definition ymd_local_days :: "year_month_day \<Rightarrow> local_days" where
  "ymd_local_days x = Local_days (to_days x)"

definition ymdl_sys_days :: "year_month_day_last \<Rightarrow> sys_days" where
  "ymdl_sys_days x = ymd_sys_days (year_month_day_new (ymdl_year x) (ymdl_month x) (ymdl_day x))"

definition ymdl_local_days :: "year_month_day_last \<Rightarrow> local_days" where
  "ymdl_local_days x = ymd_local_days (year_month_day_new (ymdl_year x) (ymdl_month x) (ymdl_day x))"

definition ymw_of_sys_days :: "sys_days \<Rightarrow> year_month_weekday" where
  "ymw_of_sys_days dp = ymw_from_days (sys_since_epoch dp)"

definition ymw_of_local_days :: "local_days \<Rightarrow> year_month_weekday" where
  "ymw_of_local_days dp = ymw_from_days (local_since_epoch dp)"

definition ymw_sys_days :: "year_month_weekday \<Rightarrow> sys_days" where
  "ymw_sys_days x = Sys_days (ymw_to_days x)"

definition ymw_local_days :: "year_month_weekday \<Rightarrow> local_days" where
  "ymw_local_days x = Local_days (ymw_to_days x)"

definition ymwl_sys_days :: "year_month_weekday_last \<Rightarrow> sys_days" where
  "ymwl_sys_days x = Sys_days (ymwl_to_days x)"

definition ymwl_local_days :: "year_month_weekday_last \<Rightarrow> local_days" where
  "ymwl_local_days x = Local_days (ymwl_to_days x)"

text \<open>What a type that stands for a day promises; the days between \<^const>\<open>min_day\<close> and \<^const>\<open>max_day\<close> are those of
  the years a \<^verbatim>\<open>year\<close> can hold.\<close>

definition calendar_day :: "days \<Rightarrow> bool" where
  "calendar_day n \<longleftrightarrow> min_day \<le> n \<and> n \<le> max_day"

locale day_type =
  fixes of_sys :: "sys_days \<Rightarrow> 'd" and of_local :: "local_days \<Rightarrow> 'd"
    and to_sys :: "'d \<Rightarrow> sys_days" and to_local :: "'d \<Rightarrow> local_days"
  assumes sys_back: "calendar_day n \<Longrightarrow> to_sys (of_sys (Sys_days n)) = Sys_days n"
    and same_count: "local_since_epoch (to_local x) = sys_since_epoch (to_sys x)"
    and same_day: "of_local (Local_days n) = of_sys (Sys_days n)"
begin

lemma to_local_count: "to_local x = Local_days (sys_since_epoch (to_sys x))"
  using same_count by (metis local_days.collapse)

lemma local_back: "calendar_day n \<Longrightarrow> to_local (of_local (Local_days n)) = Local_days n"
  by (simp add: to_local_count same_day sys_back)

text \<open>The local day with the reading of a system day, and back.\<close>

lemma sys_to_local: "calendar_day n \<Longrightarrow> to_local (of_sys (Sys_days n)) = Local_days n"
  by (simp add: to_local_count sys_back)

lemma local_to_sys: "calendar_day n \<Longrightarrow> to_sys (of_local (Local_days n)) = Sys_days n"
  by (simp add: same_day sys_back)

lemma of_sys_inject: "calendar_day m \<Longrightarrow> calendar_day n \<Longrightarrow> of_sys (Sys_days m) = of_sys (Sys_days n) \<Longrightarrow> m = n"
  using sys_back by (metis sys_days.inject)

end

text \<open>Two such types name the same days: a date may be written in one, converted to the other and back.\<close>

locale two_day_types = a: day_type of_sys of_local to_sys to_local + b: day_type of_sys' of_local' to_sys' to_local'
  for of_sys :: "sys_days \<Rightarrow> 'd" and of_local to_sys to_local
    and of_sys' :: "sys_days \<Rightarrow> 'e" and of_local' to_sys' to_local'
begin

lemma there_and_back:
  assumes "calendar_day n"
  shows "to_sys (of_sys (to_sys' (of_sys' (Sys_days n)))) = Sys_days n"
    and "of_sys (to_sys' (of_sys' (Sys_days n))) = of_sys (Sys_days n)"
    and "of_local (to_local' (of_sys' (Sys_days n))) = of_sys (Sys_days n)"
  using assms by (simp_all add: b.sys_back a.sys_back b.sys_to_local a.same_day)

end

interpretation ymd_day: day_type ymd_of_sys_days ymd_of_local_days ymd_sys_days ymd_local_days
  by unfold_locales (simp_all add: ymd_of_sys_days_def ymd_of_local_days_def ymd_sys_days_def ymd_local_days_def
      calendar_day_def to_days_from_days_range)

interpretation ymw_day: day_type ymw_of_sys_days ymw_of_local_days ymw_sys_days ymw_local_days
  by unfold_locales (simp_all add: ymw_of_sys_days_def ymw_of_local_days_def ymw_sys_days_def ymw_local_days_def
      calendar_day_def ymw_to_days_from_days)

interpretation ymd_ymw: two_day_types ymd_of_sys_days ymd_of_local_days ymd_sys_days ymd_local_days
    ymw_of_sys_days ymw_of_local_days ymw_sys_days ymw_local_days
  by unfold_locales

lemma ymd_sys_days_back: "ymd_ok x \<Longrightarrow> ymd_of_sys_days (ymd_sys_days x) = x \<and> calendar_day (sys_since_epoch (ymd_sys_days x))"
  using to_days_range [of x] by (simp add: ymd_of_sys_days_def ymd_sys_days_def calendar_day_def from_days_to_days_ok)

text \<open>The last day of a month and the last weekday of one, as dates.\<close>

lemma ymdl_sys_days_date: "ymd_ok (ymd_of_last x) \<Longrightarrow> ymd_of_sys_days (ymdl_sys_days x) = ymd_of_last x"
  using ymd_sys_days_back [of "ymd_of_last x"] by (simp add: ymdl_sys_days_def ymd_of_last_def)

lemma ymwl_sys_days_date:
  assumes "ymwl_ok x"
  shows "weekday_of_days (sys_since_epoch (ymwl_sys_days x)) = wl_weekday (ymwl_wdl x)"
    and "ymd_month (ymd_of_sys_days (ymwl_sys_days x)) = ymwl_month x"
    and "ymd_of_local_days (ymwl_local_days x) = ymd_of_sys_days (ymwl_sys_days x)"
  using ymwl_to_days_last [OF assms]
  by (simp_all add: ymwl_sys_days_def ymwl_local_days_def ymd_of_sys_days_def ymd_of_local_days_def)

text \<open>The text of a day, and of a point of local time, which is printed as the same point of the system clock.\<close>

definition sys_days_print :: "sys_days \<Rightarrow> string" where
  "sys_days_print dp = ymd_print (ymd_of_sys_days dp)"

definition local_time_print :: "char \<Rightarrow> int \<Rightarrow> int \<Rightarrow> string" where
  "local_time_print point den ut = sys_time_print point den ut"

lemma sys_days_print_date: "ymd_ok x \<Longrightarrow> sys_days_print (ymd_sys_days x) = ymd_print x"
  using ymd_sys_days_back by (simp add: sys_days_print_def)

section \<open>Formats in a \<^verbatim>\<open>basic_string\<close>\<close>

definition format_string :: "fmt_env \<Rightarrow> string \<Rightarrow> fields \<Rightarrow> string option" where
  "format_string e fmt fds = format_fields e (c_str fmt) fds"

text \<open>What follows a null character in the string is not used.\<close>

lemma format_string_cut: "format_string e (fmt @ NUL # rest) fds = format_string e fmt fds"
proof -
  have "c_str (fmt @ NUL # rest) = c_str fmt" by (induction fmt) (simp_all add: c_str_def)
  then show ?thesis by (simp add: format_string_def)
qed

section \<open>Units before C++14\<close>

text \<open>\<^verbatim>\<open>std::to_string\<close> of the numerator and the denominator, converted to \<^verbatim>\<open>std::uint64_t\<close>.\<close>

definition to_string_u64 :: "64 word \<Rightarrow> string" where
  "to_string_u64 x = show_nat (unat x)"

definition msl_ratio_string :: "ratio \<Rightarrow> string" where
  "msl_ratio_string p =
     (if rden p \<noteq> 1 then ''['' @ to_string_u64 (of_int (rnum p)) @ ''/'' @ to_string_u64 (of_int (rden p)) @ '']''
      else ''['' @ to_string_u64 (of_int (rnum p)) @ '']'')"

text \<open>It is the text of the arrays that later compilers put together, for every ratio of positive \<^verbatim>\<open>intmax_t\<close> numbers.\<close>

lemma to_string_u64_nat: "0 \<le> n \<Longrightarrow> n < 2 ^ 64 \<Longrightarrow> to_string_u64 (of_int n) = show_nat (nat n)"
  by (simp add: to_string_u64_def unat_eq_nat_uint take_bit_int_eq_self uint_word_of_int_eq)

lemma msl_ratio_string_eq:
  assumes "0 < rnum p" and "rnum p < 2 ^ 63" and "0 < rden p" and "rden p < 2 ^ 63"
  shows "msl_ratio_string p = msl_ratio p \<and> (\<exists>l. msl_ratio_literal p = Some l \<and> sl_print l = msl_ratio_string p)"
proof -
  have "msl_ratio_string p = msl_ratio p"
    using assms by (simp add: msl_ratio_string_def msl_ratio_def msl_nat_show to_string_u64_nat)
  then show ?thesis using msl_ratio_literal_holds [of p] sl_holds_print by auto
qed

text \<open>The number of a duration, as \<^verbatim>\<open>operator<<\<close> prints it.\<close>

definition make_string_from :: "int \<Rightarrow> string" where
  "make_string_from n = show_int n"

lemma duration_print_from: "duration_print p d = make_string_from d @ get_units p"
  by (simp add: duration_print_def make_string_from_def)

end
