(* ===== verification/Date_Stream_State.thy ===== *)
theory Date_Stream_State
  imports Complex_Main Date_Duration
begin

text \<open>
  Two helpers of \<^verbatim>\<open>debug_print/date.h\<close> that every text of a date goes through: the guards \<^verbatim>\<open>save_istream\<close> and
  \<^verbatim>\<open>save_ostream\<close>, which keep the formatting state of a stream and put it back at the end of a block, and
  \<^verbatim>\<open>detail::trunc\<close>, which rounds a representation of a duration towards zero, with the choice of an integer type
  that is wide enough.
\<close>

section \<open>The guards\<close>

text \<open>The formatting state of a stream; the bit of the flags that says \<^verbatim>\<open>unitbuf\<close> is on its own.  A tied stream is
  known by a number; the streams that were flushed because of the tie and the synchronisations of the own buffer are
  counted, so that the effects of a guard can be seen.\<close>

record 'l ios =
  io_fill :: char
  io_flags :: int
  io_unitbuf :: bool
  io_precision :: int
  io_width :: int
  io_tie :: "nat option"
  io_loc :: 'l
  io_good :: bool
  io_tie_flushes :: "nat list"
  io_syncs :: nat

record 'l saved_ios =
  sv_fill :: char
  sv_flags :: int
  sv_unitbuf :: bool
  sv_precision :: int
  sv_width :: int
  sv_tie :: "nat option"
  sv_loc :: 'l

definition save_istream_new :: "'l ios \<Rightarrow> 'l saved_ios \<times> 'l ios" where
  "save_istream_new s =
     (\<lparr>sv_fill = io_fill s, sv_flags = io_flags s, sv_unitbuf = io_unitbuf s, sv_precision = io_precision s,
       sv_width = io_width s, sv_tie = io_tie s, sv_loc = io_loc s\<rparr>,
      s\<lparr>io_width := 0, io_tie := None,
        io_tie_flushes := (case io_tie s of None \<Rightarrow> io_tie_flushes s | Some t \<Rightarrow> t # io_tie_flushes s)\<rparr>)"

definition save_istream_destroy :: "'l saved_ios \<Rightarrow> 'l ios \<Rightarrow> 'l ios" where
  "save_istream_destroy v s =
     s\<lparr>io_fill := sv_fill v, io_flags := sv_flags v, io_unitbuf := sv_unitbuf v, io_precision := sv_precision v,
       io_width := sv_width v, io_loc := sv_loc v, io_tie := sv_tie v\<rparr>"

definition save_ostream_new :: "'l ios \<Rightarrow> 'l saved_ios \<times> 'l ios" where
  "save_ostream_new s = save_istream_new s"

text \<open>The destructor of \<^verbatim>\<open>save_ostream\<close> runs before that of its base; \<open>unwinding\<close> is
  \<^verbatim>\<open>std::uncaught_exceptions() != 0\<close>.\<close>

definition save_ostream_destroy :: "bool \<Rightarrow> 'l saved_ios \<Rightarrow> 'l ios \<Rightarrow> 'l ios" where
  "save_ostream_destroy unwinding v s =
     save_istream_destroy v
       (if sv_unitbuf v \<and> \<not> unwinding \<and> io_good s then s\<lparr>io_syncs := io_syncs s + 1\<rparr> else s)"

text \<open>A block that begins with a guard.\<close>

definition guarded :: "bool \<Rightarrow> ('l ios \<Rightarrow> 'l ios) \<Rightarrow> 'l ios \<Rightarrow> 'l ios" where
  "guarded unwinding body s =
     (case save_ostream_new s of (v, s1) \<Rightarrow> save_ostream_destroy unwinding v (body s1))"

definition formatting :: "'l ios \<Rightarrow> char \<times> int \<times> bool \<times> int \<times> int \<times> nat option \<times> 'l" where
  "formatting s = (io_fill s, io_flags s, io_unitbuf s, io_precision s, io_width s, io_tie s, io_loc s)"

text \<open>Whatever the block does to the formatting state, the caller finds the one it had; the block starts with no
  width and without a tie, and leaves the state bits as it set them.\<close>

lemma guarded_formatting: "formatting (guarded u body s) = formatting s"
  by (simp add: guarded_def save_ostream_new_def save_istream_new_def save_ostream_destroy_def save_istream_destroy_def
      formatting_def)

lemma guarded_good: "io_good (guarded u body s) = io_good (body (snd (save_ostream_new s)))"
  by (simp add: guarded_def save_ostream_new_def save_istream_new_def save_ostream_destroy_def save_istream_destroy_def)

lemma save_ostream_new_plain: "io_width (snd (save_ostream_new s)) = 0 \<and> io_tie (snd (save_ostream_new s)) = None"
  by (simp add: save_ostream_new_def save_istream_new_def)

text \<open>The buffer is synchronised once when the block has left the stream good and no exception is on its way, by the
  flags of the caller and not those of the block.\<close>

lemma guarded_syncs:
  assumes "\<And>t. io_syncs (body t) = io_syncs t"
  shows "io_syncs (guarded u body s) =
    io_syncs s + (if io_unitbuf s \<and> \<not> u \<and> io_good (body (snd (save_ostream_new s))) then 1 else 0)"
  using assms by (simp add: guarded_def save_ostream_new_def save_istream_new_def save_ostream_destroy_def save_istream_destroy_def)

text \<open>The tied stream is flushed once by nested guards: the inner one finds no tie.\<close>

lemma guarded_tie:
  assumes "\<And>t. io_tie_flushes (body t) = io_tie_flushes t"
  shows "io_tie_flushes (guarded u (guarded u' body) s) = io_tie_flushes (guarded u body s)"
  using assms by (simp add: guarded_def save_ostream_new_def save_istream_new_def save_ostream_destroy_def save_istream_destroy_def)

section \<open>Truncation\<close>

text \<open>An integer type is known by its number of value digits: \<^verbatim>\<open>std::int32_t\<close>, \<^verbatim>\<open>std::int64_t\<close> or \<^verbatim>\<open>__int128\<close>.\<close>

definition choose_trunc_type :: "bool \<Rightarrow> nat \<Rightarrow> nat" where
  "choose_trunc_type has_int128 digits =
     (if digits < 32 then 31 else if digits < 64 then 63 else if has_int128 then 127 else 63)"

text \<open>The \<^verbatim>\<open>static_assert\<close> of \<^verbatim>\<open>trunc\<close> holds for \<^verbatim>\<open>float\<close>, \<^verbatim>\<open>double\<close> and the two formats of \<^verbatim>\<open>long double\<close>; without
  \<^verbatim>\<open>__int128\<close> only for the first two.\<close>

lemma choose_trunc_type_wide:
  "list_all (\<lambda>digits. digits < choose_trunc_type True digits) [24, 53, 64, 113]"
  "filter (\<lambda>digits. digits < choose_trunc_type False digits) [24, 53, 64, 113] = [24, 53]"
  by code_simp+

definition trunc_rep :: "int \<Rightarrow> int" where
  "trunc_rep t = t"

text \<open>A floating-point number: the sign of a finite one is kept apart from its magnitude, since zero has one.\<close>

datatype floating = NaN | Infinite bool | Finite bool rat

fun flt_neg :: "floating \<Rightarrow> floating" where
  "flt_neg NaN = NaN"
| "flt_neg (Infinite s) = Infinite (\<not> s)"
| "flt_neg (Finite s a) = Finite (\<not> s) a"

definition flt_of_int :: "int \<Rightarrow> floating" where
  "flt_of_int i = Finite (i < 0) (of_int \<bar>i\<bar>)"

fun flt_is_zero :: "floating \<Rightarrow> bool" where
  "flt_is_zero (Finite s a) = (a = 0)"
| "flt_is_zero _ = False"

fun flt_negative :: "floating \<Rightarrow> bool" where
  "flt_negative NaN = False"
| "flt_negative (Infinite s) = s"
| "flt_negative (Finite s a) = (s \<and> a \<noteq> 0)"

text \<open>The value lies between \<open>- max\<close> and \<open>max\<close>.\<close>

fun flt_within :: "rat \<Rightarrow> floating \<Rightarrow> bool" where
  "flt_within m (Finite s a) = (a \<le> m)"
| "flt_within m _ = False"

fun flt_to_int :: "floating \<Rightarrow> int" where
  "flt_to_int (Finite s a) = (if s then - \<lfloor>a\<rfloor> else \<lfloor>a\<rfloor>)"
| "flt_to_int _ = 0"

definition trunc_floating :: "nat \<Rightarrow> floating \<Rightarrow> floating" where
  "trunc_floating digits t =
     (let max = 2 ^ (digits - 1); negative = flt_negative t
      in if flt_within max t \<and> \<not> flt_is_zero t
         then (let r = flt_of_int (flt_to_int t) in if flt_is_zero r \<and> negative then flt_neg r else r)
         else t)"

text \<open>A number that the format with so many digits can hold.\<close>

definition flt_holds :: "nat \<Rightarrow> rat \<Rightarrow> bool" where
  "flt_holds digits a \<longleftrightarrow> (\<exists>m k. m < 2 ^ digits \<and> (a = of_nat (m * 2 ^ k) \<or> a * 2 ^ k = of_nat m))"

lemma flt_holds_large:
  assumes "flt_holds digits a" and "2 ^ (digits - 1) < a" and "0 < digits"
  shows "a = of_int \<lfloor>a\<rfloor>"
proof -
  obtain m k where mk: "m < 2 ^ digits" "a = of_nat (m * 2 ^ k) \<or> a * 2 ^ k = of_nat m"
    using assms(1) by (auto simp: flt_holds_def)
  show ?thesis
  proof (cases "k = 0 \<or> a = of_nat (m * 2 ^ k)")
    case True
    then have "a = of_nat (m * 2 ^ k) \<or> a = of_nat m" using mk(2) by auto
    then have "\<exists>n. a = of_nat n" by blast
    then show ?thesis by auto
  next
    case False
    then obtain k' where k: "k = Suc k'" "a * 2 ^ k = of_nat m" using mk(2) by (cases k) auto
    have "a * 2 \<le> a * 2 ^ k"
      using assms(2) k(1) by (intro mult_left_mono) (auto intro: order_trans [of _ "2 ^ (digits - 1)"])
    moreover have "(2 :: rat) ^ digits = 2 ^ (digits - 1) * 2" using assms(3) by (cases digits) auto
    moreover have "of_nat m < (2 :: rat) ^ digits" using mk(1) by (metis of_nat_less_iff of_nat_numeral of_nat_power)
    ultimately show ?thesis using assms(2) k(2) by simp
  qed
qed

text \<open>The truncated number is an integer of the same sign, also when it is zero, at most one below in magnitude.\<close>

lemma trunc_floating_towards_zero:
  assumes "0 \<le> a" and "flt_holds digits a" and "0 < digits"
  shows "trunc_floating digits (Finite s a) = Finite s (of_int \<lfloor>a\<rfloor>)"
proof (cases "a \<le> 2 ^ (digits - 1) \<and> a \<noteq> 0")
  case True
  define i where "i = \<lfloor>a\<rfloor>"
  have "0 \<le> i" using assms(1) by (simp add: i_def)
  then show ?thesis
    using True unfolding i_def [symmetric] trunc_floating_def
    by (cases "i = 0") (auto simp: flt_of_int_def Let_def i_def [symmetric])
next
  case False
  then show ?thesis using flt_holds_large [OF assms(2) _ assms(3)] by (auto simp: trunc_floating_def Let_def)
qed

lemma trunc_floating_special: "trunc_floating digits NaN = NaN" "trunc_floating digits (Infinite s) = Infinite s"
  by (simp_all add: trunc_floating_def Let_def)

end
