(* ===== verification/Spec2Isabelle.thy ===== *)
theory Spec2Isabelle
  imports Transfer_Properties Session_Properties Trace_Properties Format_Properties Parse_Properties Name_Properties Iface_Properties C_Locale_Properties
    Connection_Iface Date_Convert Date_Stream_State
begin

text \<open>
  The native library of the R package \<^verbatim>\<open>exasol\<close> (\<^verbatim>\<open>src/src\<close>), which transfers bulk data between R
  and an Exasol database: R opens a connection to the database's proxy, starts an IMPORT or EXPORT
  statement over ODBC on a background thread, and exchanges the rows with the database as the body of an
  HTTP message over the same connection.

  \<^bold>\<open>The program and the theories.\<close>  File names are relative to \<^verbatim>\<open>src/src/r_exasol\<close> unless they start with
  \<^verbatim>\<open>src/\<close>.

  \<^item> \<open>Exa_Prelude\<close>: the machine types, the exceptions, raw buffers with bounds, C strings, printing of
    numbers, and the lemmas on them.
  \<^item> \<open>Socket_Iface\<close>: the abstract class of \<^verbatim>\<open>connection/socket/socket.h\<close> as a record of operations, and what
    its clients rely on as the locales \<open>socket_iface\<close> (bounds), \<open>stream_socket\<close> (byte streams) and
    \<open>reliable_socket\<close> (complete sends).  \<open>Posix_Socket\<close> and \<open>Ssl_Socket\<close> are its two implementations
    (\<^verbatim>\<open>connection/socket/socket_impl.cpp\<close>, \<^verbatim>\<open>ssl_socket_impl.cpp\<close>), which interpret the locales;
    \<open>Repeating_Fill\<close> is the receive loop of the second (\<^verbatim>\<open>algorithm/repeating_buffer_fill.h\<close>).
  \<^item> \<open>Http_Header\<close>, \<open>Http_Chunk\<close>, \<open>Http_Reader\<close>, \<open>Http_Writer\<close>: \<^verbatim>\<open>connection/protocol/common.cpp\<close>, \<^verbatim>\<open>chunk.h\<close>,
    \<^verbatim>\<open>http/reader/http_chunk_reader.cpp\<close> and \<^verbatim>\<open>http/writer/http_chunk_writer.cpp\<close>, every operation over a
    socket that is a parameter.  \<open>Http_Reader_Props\<close>, \<open>Http_Reader_Stream\<close>, \<open>Http_Writer_Stream\<close> and
    \<open>Http_Writer_Complete\<close> prove, inside the locales, memory safety against any peer and the bytes
    delivered or sent against a peer that keeps to the protocol.
  \<^item> \<open>Meta_Info\<close>: the handshake with the proxy (\<^verbatim>\<open>connection/protocol/meta_info_reader.cpp\<close>).
  \<^item> \<open>Certificate\<close>: the temporary certificate (\<^verbatim>\<open>ssl/certificate.cpp\<close>), every OpenSSL call and every
    error branch.
  \<^item> \<open>Async_Executor\<close>: the ODBC statement and the background thread (\<^verbatim>\<open>odbc/odbc_query_executor.cpp\<close>,
    \<^verbatim>\<open>connection/async_executor/async_executor_impl.h\<close>).  \<open>Shutdown_Race\<close>: the interleavings of that thread
    with \<^verbatim>\<open>shutDown\<close> as a step relation.
  \<^item> \<open>Connection_Establisher\<close>, \<open>Connection_Controller\<close>: the two establishers, the factory and
    \<^verbatim>\<open>connection/connection_controller.cpp\<close>; an operation returns, jumps out through R's error handler,
    throws, terminates the process, or has no result.
  \<^item> \<open>R_Connection\<close>, \<open>Connection_Context\<close>: the connection objects R calls back into (\<^verbatim>\<open>rconnection/\<close>) and the
    context and entry points (\<^verbatim>\<open>connection_context.cpp\<close>, \<^verbatim>\<open>src/src/exasol.c\<close>).  \<open>C_Interface\<close>: the interface between
    them (\<^verbatim>\<open>src/src/connection.cpp\<close>), with the context that the first call constructs.
    \<open>Context_Safety\<close>: the invariant of the whole library under any history of calls.
    \<open>Session_Run\<close> and \<open>Session_Write\<close>: whole sessions through the entry points.
  \<^item> \<open>Transfer_Iface\<close>: the abstract classes \<^verbatim>\<open>Reader\<close>, \<^verbatim>\<open>Writer\<close>, \<^verbatim>\<open>QueryExecutor\<close> and \<^verbatim>\<open>AsyncExecutor\<close> as records of
    their virtual operations, the classes that implement them, programs of calls against them, and the locales
    \<open>byte_source\<close>, \<open>byte_sink\<close>, \<open>total_sink\<close> and \<open>query_executor\<close> that say what such a program may rely on; the
    locales of streams are sublocales of them.  \<open>Connection_Iface\<close>: the same for \<^verbatim>\<open>ConnectionEstablisher\<close>,
    \<^verbatim>\<open>ConnectionFactory\<close>, \<^verbatim>\<open>AsyncExecutorSessionInfo\<close> and \<^verbatim>\<open>RConnection\<close>.
  \<^item> \<open>Debug_Log\<close>: the trace log (\<^verbatim>\<open>debug_print/debug_printer.h\<close>, \<^verbatim>\<open>file_logger.cpp\<close>).
  \<^item> The calendar library \<^verbatim>\<open>debug_print/date.h\<close> behind the log's time stamps: \<open>Date_Fields\<close> (day, month,
    year, weekday at the widths of their members), \<open>Date_Composite\<close>, \<open>Date_Civil\<close> and \<open>Date_Weekday\<close>
    (partial and full dates and their arithmetic), \<open>Date_Roundtrip\<close> and \<open>Date_Order\<close> (the conversions to day
    counts against the rules of the calendar), \<open>Date_Duration\<close> and \<open>Date_Clock\<close> (durations and time of day),
    \<open>Date_Units\<close>, \<open>Date_Format\<close>, \<open>Date_Print\<close> (the interpreter of format strings and the text of every type),
    \<open>Date_Week\<close> and \<open>Date_Format_Run\<close> (week numbers and runs of the interpreter), \<open>Date_Parse\<close>, \<open>Date_From_Stream\<close> and
    \<open>Date_Resolve\<close> (the interpreter of format strings for input: reading, the directives, the resolution of what
    was read), \<open>Date_Parse_Run\<close> (its runs on texts that were printed), \<open>Date_Keyword\<close> (the names of the C locale and the
    search for one of them), \<open>Date_Slash\<close> (the operator that builds dates, its overloads told apart by the types of
    their operands), \<open>Date_Assign\<close> (comparisons and compound assignments, with the locale \<open>dated\<close> for the four dated
    types), \<open>Date_Literal\<close> (the arrays in which units are put together), \<open>Date_Convert\<close> (literals, day counts of the system and of
    local time, the locale \<open>day_type\<close>), \<open>Date_Stream_State\<close> (the guards that restore the state of a stream, truncation).
    The build with \<^verbatim>\<open>ONLY_C_LOCALE\<close>, which uses no locale facet: \<open>Date_C_Locale\<close> (\<^verbatim>\<open>to_stream\<close>), \<open>Date_C_Input\<close>
    (\<^verbatim>\<open>from_stream\<close>) and \<open>Date_C_Output\<close> (a simulation of the two builds).
  \<^item> \<open>Loopback\<close>: a concrete network, TLS library, driver and file store on which the theorems are applied.

  \<^bold>\<open>What is shown.\<close>  \<open>Transfer_Properties\<close>: reading a chunked body with requests of any sizes delivers the
  data of the chunks in order over either socket, writing sends one header and the bytes in order; no peer
  can make a read or write leave its buffers; the handshake; the errors of the header; and three places
  where the reader and the writer do not do what their callers expect.  \<open>Session_Properties\<close>: whole
  reading and writing sessions; memory safety of the callbacks after any history; connecting, its errors and
  their clean-up; the background statement; shutting down, its race with the background thread, and
  three failures of the error paths.  \<open>Trace_Properties\<close>, \<open>Format_Properties\<close> and \<open>Parse_Properties\<close>: the contents of the
  trace, the calendar conversions as inverse functions, day counts and weekdays against the rules of the
  calendar, rounding, the texts of times, dates and weeks, reading them back, and an error in reading hours.
  \<open>Iface_Properties\<close>: programs of calls through the interfaces of readers and writers, and the background statement against
  one executed in the calling thread.  \<open>C_Locale_Properties\<close>: the build with \<^verbatim>\<open>ONLY_C_LOCALE\<close> prints what the other build
  prints in the C locale, reads back its own \<^verbatim>\<open>%c\<close>, always returns, and reads outside its tables on invalid fields.
  \<open>Name_Properties\<close>: the search for a name against its specification, names read back, the types of dates written with
  slashes, and programs of assignments.

  \<^bold>\<open>Termination.\<close>  Loops over data are structural or have a measure.  The loops that end only when the
  peer ends them (\<^verbatim>\<open>readHttpHeader\<close> and the size line of a chunk), and that of \<^verbatim>\<open>scan_keyword\<close>, are partial functions into
  \<^typ>\<open>'a option\<close> where \<^const>\<open>None\<close> is "no result"; undefined behaviour is \<^const>\<open>None\<close> as well.  Reading a header
  and the search for a keyword are proved to end on every finite stream, and the properties of sessions prove the result, so that they
  exclude both.  There is no fuel.

  \<^bold>\<open>Parameters.\<close>  The system calls, OpenSSL, the ODBC driver, the file system, R's error handler and
  the locale facets \<^verbatim>\<open>std::time_put\<close> and \<^verbatim>\<open>std::time_get\<close> and the rounding of \<^verbatim>\<open>long double\<close> are arguments of the definitions (\<open>posix_api\<close>, \<open>ssl_api\<close>, \<open>ossl_call\<close>, \<open>odbc_api\<close>,
  \<open>file_api\<close>, \<open>error_fn\<close>, \<open>time_facet\<close>, \<open>parse_env\<close>).  What is relied on of them is a named hypothesis (\<open>posix_ok\<close>, \<open>ssl_ok\<close>,
  \<open>env_ok\<close>, \<open>sends_complete\<close>, \<open>file_ok\<close>, \<open>rounds_exactly\<close>), and \<open>Loopback\<close> and \<open>exact_env\<close> show that
  it can hold.

  \<^bold>\<open>Not modelled.\<close>  In \<^verbatim>\<open>date.h\<close>: the text and the rounding of seconds in a floating-point representation, wide characters, the
  overloads of \<^verbatim>\<open>format\<close> that set another locale and the tests for features of the compiler; the Windows branches of the socket; includes and forward declarations under \<^verbatim>\<open>external/\<close>; the R code that
  builds SQL statements; the tests.
\<close>

end
